(* ===== verification/Prelude.thy ===== *)
theory Prelude
  imports Complex_Main "HOL-Library.AList" "HOL-Library.Word"
    "HOL-Library.Char_ord" "HOL-Library.List_Lexorder" "HOL-Library.Product_Lexorder"
begin

text \<open>
  Shared vocabulary of the delivery-service development.

  \<^item> Exceptions are values of \<open>exn\<close>, one constructor for each exception class the
    service raises or catches; a fallible Python function returns \<open>'a result\<close>.
  \<^item> A method that reads or writes an object takes the object's state and returns the
    outcome with the new state (\<open>('s, 'a) action\<close>). A raised exception does not undo
    what was written before it, so the state is returned on both paths.
  \<^item> A Python dict is an association list with distinct keys: \<open>AList.update\<close>
    overwrites in place and appends a new key at the end, which is the insertion order
    Python iterates in.
  \<^item> Time is an \<open>int\<close>, the microseconds since 1970-01-01T00:00:00+00:00 of a
    UTC \<open>datetime\<close>; a UUID is a 128-bit word.
\<close>

section \<open>Types shared by the components\<close>

type_synonym uuid = "128 word"
type_synonym datetime = int

datatype exn =
    ValueError string
  | KeyError string
  | TypeError string
  | AttributeError string
  | IndexError
  | RuntimeError string
  | AssertionError string
  | InvalidTransition string string
  | OrderNotFound uuid
  | ConcurrentUpdate string
  | IdempotencyConflict string
  | CourierAlreadyBusy string
  | WebhookEventConflict string
  | CircuitOpenError string
  | RouteServiceUnavailable string
  | InvalidRouteResponse string
  | RouteRequestRejected string
  | InvalidUpload string
  | UploadTooLarge string
  | InvalidProofLink string
  | IntegrityError string
  | DBAPIError "string option"
  | PermanentNotificationError string
  | RedisError
  | ValidationError string
  | CancelledError
  | OtherException string
  | HTTPException int string "(string \<times> string) list"

type_synonym 'a result = "exn + 'a"
type_synonym ('s, 'a) action = "'s \<Rightarrow> 'a result \<times> 's"

section \<open>Sequencing of fallible, stateful calls\<close>

named_theorems action_defs "the combinators of fallible stateful calls"

definition ret :: "'a \<Rightarrow> ('s, 'a) action" where
  [action_defs]: "ret x s = (Inr x, s)"

definition raise :: "exn \<Rightarrow> ('s, 'a) action" where
  [action_defs]: "raise e s = (Inl e, s)"

definition andThen :: "('s, 'a) action \<Rightarrow> ('a \<Rightarrow> ('s, 'b) action) \<Rightarrow> ('s, 'b) action" where
  [action_defs]: "andThen m f s = (case m s of (Inl e, s') \<Rightarrow> (Inl e, s') | (Inr x, s') \<Rightarrow> f x s')"

definition lift_result :: "'a result \<Rightarrow> ('s, 'a) action" where
  [action_defs]: "lift_result r s = (r, s)"

definition check :: "bool \<Rightarrow> exn \<Rightarrow> ('s, unit) action" where
  [action_defs]: "check b e s = (if b then (Inr (), s) else (Inl e, s))"

lemma andThen_Inr [simp]:
  "andThen m f s = (Inr y, t) \<longleftrightarrow> (\<exists>x s'. m s = (Inr x, s') \<and> f x s' = (Inr y, t))"
  by (auto simp: andThen_def split: prod.splits sum.splits)

lemma andThen_Inl:
  "andThen m f s = (Inl e, t) \<longleftrightarrow>
     m s = (Inl e, t) \<or> (\<exists>x s'. m s = (Inr x, s') \<and> f x s' = (Inl e, t))"
  by (auto simp: andThen_def split: prod.splits sum.splits)

lemma ret_eq [simp]: "ret x s = (r, t) \<longleftrightarrow> r = Inr x \<and> t = s"
  by (auto simp: ret_def)

lemma raise_eq [simp]: "raise e s = (r, t) \<longleftrightarrow> r = Inl e \<and> t = s"
  by (auto simp: raise_def)

lemma lift_result_eq [simp]: "lift_result x s = (r, t) \<longleftrightarrow> x = r \<and> t = s"
  by (auto simp: lift_result_def)

lemma check_Inr [simp]: "check b e s = (Inr u, t) \<longleftrightarrow> b \<and> t = s"
  by (auto simp: check_def)

lemma check_Inl [simp]: "check b e s = (Inl e', t) \<longleftrightarrow> \<not> b \<and> e' = e \<and> t = s"
  by (auto simp: check_def)

text \<open>Sequencing and iteration of fallible calls that touch no state.\<close>

definition thenR :: "'a result \<Rightarrow> ('a \<Rightarrow> 'b result) \<Rightarrow> 'b result" where
  "thenR r f = (case r of Inl e \<Rightarrow> Inl e | Inr x \<Rightarrow> f x)"

lemma thenR_simps [simp]: "thenR (Inl e) f = Inl e" "thenR (Inr x) f = f x"
  by (simp_all add: thenR_def)

lemma thenR_Inr: "thenR r f = Inr y \<longleftrightarrow> (\<exists>x. r = Inr x \<and> f x = Inr y)"
  by (cases r) auto

fun map_result :: "('a \<Rightarrow> 'b result) \<Rightarrow> 'a list \<Rightarrow> 'b list result" where
  "map_result f [] = Inr []"
| "map_result f (x # xs) = thenR (f x) (\<lambda>y. thenR (map_result f xs) (\<lambda>ys. Inr (y # ys)))"

lemma map_result_Inr: "(\<And>x. x \<in> set xs \<Longrightarrow> f x = Inr (g x)) \<Longrightarrow> map_result f xs = Inr (map g xs)"
  by (induction xs) auto

definition of_option :: "exn \<Rightarrow> 'a option \<Rightarrow> 'a result" where
  "of_option e v = (case v of None \<Rightarrow> Inl e | Some x \<Rightarrow> Inr x)"

lemma of_option_simps [simp]: "of_option e None = Inl e" "of_option e (Some x) = Inr x"
  by (simp_all add: of_option_def)

section \<open>Dicts\<close>

abbreviation dict_get :: "('k \<times> 'v) list \<Rightarrow> 'k \<Rightarrow> 'v option" where
  "dict_get d k \<equiv> map_of d k"

abbreviation dict_set :: "'k \<Rightarrow> 'v \<Rightarrow> ('k \<times> 'v) list \<Rightarrow> ('k \<times> 'v) list" where
  "dict_set k v d \<equiv> AList.update k v d"

abbreviation dict_pop :: "'k \<Rightarrow> ('k \<times> 'v) list \<Rightarrow> ('k \<times> 'v) list" where
  "dict_pop k d \<equiv> AList.delete k d"

abbreviation values_of :: "('k \<times> 'v) list \<Rightarrow> 'v list" where
  "values_of d \<equiv> map snd d"

abbreviation dict_ok :: "('k \<times> 'v) list \<Rightarrow> bool" where
  "dict_ok d \<equiv> distinct (map fst d)"

lemma dict_get_set [simp]: "map_of (AList.update k v d) = (map_of d)(k \<mapsto> v)"
  by (rule AList.update_conv')

lemma dict_ok_set [simp]: "dict_ok d \<Longrightarrow> dict_ok (AList.update k v d)"
  by (rule AList.distinct_update)

lemma dict_get_iff: "dict_ok d \<Longrightarrow> map_of d k = Some v \<longleftrightarrow> (k, v) \<in> set d"
  by (rule map_of_eq_Some_iff)

lemma set_values_iff: "dict_ok d \<Longrightarrow> v \<in> set (map snd d) \<longleftrightarrow> (\<exists>k. map_of d k = Some v)"
  by (auto simp: image_iff Bex_def)

lemma dict_set_new: "k \<notin> fst ` set d \<Longrightarrow> AList.update k v d = d @ [(k, v)]"
  by (induction d) auto

lemma set_dict_set: "set (AList.update k v d) \<subseteq> insert (k, v) (set d)"
  by (induction d) auto

section \<open>Slices and sorting\<close>

text \<open>
  \<open>xs[i:j]\<close>: a negative bound counts from the end, and both are clamped to the list.
\<close>

definition slice_bound :: "int \<Rightarrow> int \<Rightarrow> nat" where
  "slice_bound n i = nat (if i < 0 then max 0 (n + i) else min n i)"

definition py_slice :: "int \<Rightarrow> int \<Rightarrow> 'a list \<Rightarrow> 'a list" where
  "py_slice i j xs =
     (let n = int (length xs); a = slice_bound n i; b = slice_bound n j
      in take (b - a) (drop a xs))"

lemma py_slice_nonneg:
  assumes "0 \<le> i" "0 \<le> k"
  shows "py_slice i (i + k) xs = take (nat k) (drop (nat i) xs)"
proof (cases "nat i < length xs")
  case True
  then have "slice_bound (int (length xs)) i = nat i"
    using assms by (simp add: slice_bound_def)
  moreover have "min (length xs - nat i) (nat k) = slice_bound (int (length xs)) (i + k) - nat i"
    using assms True by (auto simp: slice_bound_def min_def)
  ultimately show ?thesis
    using assms True by (simp add: py_slice_def Let_def)
      (metis length_drop min.commute min_def take_all nle_le)
next
  case False
  then have "slice_bound (int (length xs)) i = length xs"
    using assms by (simp add: slice_bound_def)
  then show ?thesis using False by (simp add: py_slice_def Let_def)
qed

lemma set_py_slice: "set (py_slice i j xs) \<subseteq> set xs"
  by (auto simp: py_slice_def Let_def dest!: in_set_takeD in_set_dropD)

lemma sorted_py_slice: "sorted (map f xs) \<Longrightarrow> sorted (map f (py_slice i j xs))"
  by (simp add: py_slice_def Let_def sorted_wrt_take sorted_wrt_drop flip: take_map drop_map)

text \<open>Python's \<open>sorted\<close> is stable, as \<open>sort_key\<close> is; the head of a sorted list is least.\<close>

lemma sort_key_hd_le:
  assumes "sort_key f xs = y # ys" "x \<in> set xs"
  shows "f y \<le> f x"
proof -
  have "sorted (map f (y # ys))" using assms(1) by (metis sorted_sort_key)
  moreover have "x \<in> set (y # ys)" using assms by (metis set_sort)
  ultimately show ?thesis by auto
qed

lemma sort_key_Nil_iff [simp]: "sort_key f xs = [] \<longleftrightarrow> xs = []"
  by (metis length_sort length_0_conv)

lemma sort_key_hd_in: "sort_key f xs = y # ys \<Longrightarrow> y \<in> set xs"
  by (metis list.set_intros(1) set_sort)

end
