(* ===== verification/Py_Text.thy ===== *)
theory Py_Text
  imports Prelude
begin

text \<open>
  The parts of Python's text library the service uses, on 7-bit text: a \<open>str\<close> is a
  \<open>string\<close> whose characters are ASCII, for which \<open>len\<close> counts characters,
  UTF-8 encoding is the identity and \<open>casefold\<close> is ASCII lower-casing.
  Decimal and hexadecimal printing and parsing, \<open>str(uuid)\<close> and \<open>UUID(text)\<close>
  (the checks of CPython's \<open>uuid.UUID.__init__\<close>), \<open>isoformat\<close> of a UTC
  \<open>datetime\<close> (CPython's \<open>_ord2ymd\<close>), JSON values and \<open>json.dumps\<close>.
  The lemmas give the round trips the components rely on.
\<close>

section \<open>Characters\<close>

definition code :: "char \<Rightarrow> nat" where
  "code c = of_char c"

definition is_space :: "char \<Rightarrow> bool" where
  "is_space c \<longleftrightarrow> 9 \<le> code c \<and> code c \<le> 13 \<or> 28 \<le> code c \<and> code c \<le> 32"

definition lower :: "char \<Rightarrow> char" where
  "lower c = (if 65 \<le> code c \<and> code c \<le> 90 then char_of (code c + 32) else c)"

definition casefold :: "string \<Rightarrow> string" where
  "casefold s = map lower s"

definition lstrip :: "string \<Rightarrow> string" where
  "lstrip s = dropWhile is_space s"

definition strip :: "string \<Rightarrow> string" where
  "strip s = rev (dropWhile is_space (rev (dropWhile is_space s)))"

definition strip_chars :: "string \<Rightarrow> string \<Rightarrow> string" where
  "strip_chars cs s = rev (dropWhile (\<lambda>c. c \<in> set cs) (rev (dropWhile (\<lambda>c. c \<in> set cs) s)))"

definition startswith :: "string \<Rightarrow> string \<Rightarrow> bool" where
  "startswith s p \<longleftrightarrow> take (length p) s = p"

text \<open>\<open>s.partition(sep)\<close> for a one-character separator: before, whether it was found, after.\<close>

fun partition_at :: "char \<Rightarrow> string \<Rightarrow> string \<times> bool \<times> string" where
  "partition_at c [] = ([], False, [])"
| "partition_at c (x # xs) =
     (if x = c then ([], True, xs)
      else case partition_at c xs of (a, found, b) \<Rightarrow> (x # a, found, b))"

text \<open>\<open>s.replace(p, "")\<close>: drops every occurrence from left to right.\<close>

function remove_all :: "string \<Rightarrow> string \<Rightarrow> string" where
  "remove_all p s =
     (if p = [] \<or> s = [] then s
      else if startswith s p then remove_all p (drop (length p) s)
      else hd s # remove_all p (tl s))"
  by pat_completeness auto
termination
  by (relation "measure (\<lambda>(p, s). length s)") (auto simp: startswith_def)

declare remove_all.simps [simp del]

section \<open>Digits\<close>

definition digit_char :: "nat \<Rightarrow> char" where
  "digit_char d = (if d < 10 then char_of (48 + d) else char_of (87 + d))"

definition digit_val :: "char \<Rightarrow> nat option" where
  "digit_val c =
     (if 48 \<le> code c \<and> code c \<le> 57 then Some (code c - 48)
      else if 97 \<le> code c \<and> code c \<le> 102 then Some (code c - 87)
      else if 65 \<le> code c \<and> code c \<le> 70 then Some (code c - 55)
      else None)"

lemma digit_val_char [simp]: "d < 16 \<Longrightarrow> digit_val (digit_char d) = Some d"
  by (auto simp: digit_val_def digit_char_def code_def)

lemma digit_val_bound: "digit_val c = Some d \<Longrightarrow> d < 16"
  by (auto simp: digit_val_def split: if_splits)

text \<open>\<open>"%0<w>x" % n\<close>: the low \<open>w\<close> hexadecimal digits of \<open>n\<close>.\<close>

primrec hex_fixed :: "nat \<Rightarrow> nat \<Rightarrow> string" where
  "hex_fixed 0 n = []"
| "hex_fixed (Suc w) n = hex_fixed w (n div 16) @ [digit_char (n mod 16)]"

text \<open>The same for decimal digits: \<open>f"{n:0<w>d}"\<close> when \<open>n\<close> fits.\<close>

primrec dec_fixed :: "nat \<Rightarrow> nat \<Rightarrow> string" where
  "dec_fixed 0 n = []"
| "dec_fixed (Suc w) n = dec_fixed w (n div 10) @ [digit_char (n mod 10)]"

fun dec_nat :: "nat \<Rightarrow> string" where
  "dec_nat n = (if n < 10 then [digit_char n] else dec_nat (n div 10) @ [digit_char (n mod 10)])"

declare dec_nat.simps [simp del]

definition dec_int :: "int \<Rightarrow> string" where
  "dec_int i = (if i < 0 then CHR ''-'' # dec_nat (nat (- i)) else dec_nat (nat i))"

text \<open>
  The digit part of \<open>int(text, base)\<close>: digits below the base, single underscores
  between digits. \<open>prev\<close> says that the previous character was a digit.
\<close>

fun digits_value :: "nat \<Rightarrow> bool \<Rightarrow> nat \<Rightarrow> string \<Rightarrow> nat option" where
  "digits_value b prev acc [] = (if prev then Some acc else None)"
| "digits_value b prev acc (c # cs) =
     (if c = CHR ''_'' then (if prev then digits_value b False acc cs else None)
      else case digit_val c of
             None \<Rightarrow> None
           | Some d \<Rightarrow> if d < b then digits_value b True (acc * b + d) cs else None)"

definition unsigned_value :: "nat \<Rightarrow> string \<Rightarrow> nat option" where
  "unsigned_value b s =
     (if b = 16 \<and> (startswith s ''0x'' \<or> startswith s ''0X'')
      then digits_value b False 0 (if startswith (drop 2 s) ''_'' then drop 3 s else drop 2 s)
      else digits_value b False 0 s)"

definition py_int :: "nat \<Rightarrow> string \<Rightarrow> int option" where
  "py_int b text =
     (case strip text of
        [] \<Rightarrow> None
      | c # cs \<Rightarrow>
          (if c = CHR ''+'' then map_option int (unsigned_value b cs)
           else if c = CHR ''-'' then map_option (\<lambda>n. - int n) (unsigned_value b cs)
           else map_option int (unsigned_value b (c # cs))))"


section \<open>UUIDs as text\<close>

definition str_uuid :: "uuid \<Rightarrow> string" where
  "str_uuid u =
     (let h = hex_fixed 32 (unat u)
      in take 8 h @ ''-'' @ take 4 (drop 8 h) @ ''-'' @ take 4 (drop 12 h) @ ''-''
         @ take 4 (drop 16 h) @ ''-'' @ drop 20 h)"

text \<open>
  \<open>UUID(text)\<close>: "urn:" and "uuid:" are dropped, braces stripped, every hyphen removed
  wherever it stands, and 32 characters must remain that \<open>int(.., 16)\<close> accepts.
\<close>

definition uuid_of_text :: "string \<Rightarrow> uuid option" where
  "uuid_of_text text =
     (let h = remove_all ''-'' (strip_chars ''{}'' (remove_all ''uuid:'' (remove_all ''urn:'' text)))
      in if length h \<noteq> 32 then None
         else case py_int 16 h of
                None \<Rightarrow> None
              | Some i \<Rightarrow> if 0 \<le> i \<and> i < 2 ^ 128 then Some (word_of_int i) else None)"

section \<open>UTC timestamps as text\<close>

definition is_leap :: "int \<Rightarrow> bool" where
  "is_leap y \<longleftrightarrow> y mod 4 = 0 \<and> (y mod 100 \<noteq> 0 \<or> y mod 400 = 0)"

definition days_before_month :: "int \<Rightarrow> int \<Rightarrow> int" where
  "days_before_month y m =
     [0, 31, 59, 90, 120, 151, 181, 212, 243, 273, 304, 334] ! nat (m - 1)
     + (if m > 2 \<and> is_leap y then 1 else 0)"

definition days_in_month :: "int \<Rightarrow> int \<Rightarrow> int" where
  "days_in_month y m =
     (if m = 2 \<and> is_leap y then 29
      else [31, 28, 31, 30, 31, 30, 31, 31, 30, 31, 30, 31] ! nat (m - 1))"

text \<open>CPython's \<open>_ord2ymd\<close>: the proleptic Gregorian date of day number \<open>n\<close> (1 is 0001-01-01).\<close>

definition ord2ymd :: "int \<Rightarrow> int \<times> int \<times> int" where
  "ord2ymd n =
     (let n0 = n - 1;
          n400 = n0 div 146097; r400 = n0 mod 146097;
          n100 = r400 div 36524; r100 = r400 mod 36524;
          n4 = r100 div 1461; r4 = r100 mod 1461;
          n1 = r4 div 365; r1 = r4 mod 365;
          year = n400 * 400 + 1 + n100 * 100 + n4 * 4 + n1
      in if n1 = 4 \<or> n100 = 4 then (year - 1, 12, 31)
         else let month = (r1 + 50) div 32;
                  preceding = days_before_month year month
              in if preceding > r1
                 then (year, month - 1,
                       r1 - (preceding - days_in_month year (month - 1)) + 1)
                 else (year, month, r1 - preceding + 1))"

definition isoformat :: "datetime \<Rightarrow> string" where
  "isoformat t =
     (let day = t div 86400000000; us = t mod 86400000000;
          ymd = ord2ymd (719163 + day);
          secs = us div 1000000; frac = us mod 1000000
      in dec_fixed 4 (nat (fst ymd)) @ ''-'' @ dec_fixed 2 (nat (fst (snd ymd))) @ ''-''
         @ dec_fixed 2 (nat (snd (snd ymd))) @ ''T''
         @ dec_fixed 2 (nat (secs div 3600)) @ '':'' @ dec_fixed 2 (nat (secs div 60 mod 60)) @ '':''
         @ dec_fixed 2 (nat (secs mod 60))
         @ (if frac = 0 then [] else ''.'' @ dec_fixed 6 (nat frac)) @ ''+00:00'')"

section \<open>JSON values\<close>

datatype json =
    JNull
  | JBool bool
  | JInt int
  | JFloat real
  | JStr string
  | JObj "(string \<times> json) list"

type_synonym json_object = "(string \<times> json) list"

text \<open>String escapes of \<open>json.dumps(.., ensure_ascii=False)\<close>.\<close>

definition json_escape_char :: "char \<Rightarrow> string" where
  "json_escape_char c =
     (if code c = 34 then [CHR 0x5C, CHR 0x22]
      else if code c = 92 then [CHR 0x5C, CHR 0x5C]
      else if code c = 10 then [CHR 0x5C, CHR ''n'']
      else if code c = 13 then [CHR 0x5C, CHR ''r'']
      else if code c = 9 then [CHR 0x5C, CHR ''t'']
      else if code c = 8 then [CHR 0x5C, CHR ''b'']
      else if code c = 12 then [CHR 0x5C, CHR ''f'']
      else if code c < 32 then [CHR 0x5C, CHR ''u''] @ hex_fixed 4 (code c)
      else [c])"

definition json_string :: "string \<Rightarrow> string" where
  "json_string s = [CHR 0x22] @ concat (map json_escape_char s) @ [CHR 0x22]"

fun join :: "string \<Rightarrow> string list \<Rightarrow> string" where
  "join sep [] = []"
| "join sep [x] = x"
| "join sep (x # y # xs) = x @ sep @ join sep (y # xs)"

text \<open>
  \<open>json.dumps(v, ensure_ascii=False, separators=(",", ":"))\<close>; \<open>float_repr\<close> stands for
  Python's shortest decimal representation of a float. \<open>sort_keys\<close> sorts an object by key.
\<close>

fun json_dumps :: "(real \<Rightarrow> string) \<Rightarrow> json \<Rightarrow> string" where
  "json_dumps float_repr JNull = ''null''"
| "json_dumps float_repr (JBool b) = (if b then ''true'' else ''false'')"
| "json_dumps float_repr (JInt i) = dec_int i"
| "json_dumps float_repr (JFloat x) = float_repr x"
| "json_dumps float_repr (JStr s) = json_string s"
| "json_dumps float_repr (JObj kvs) =
     ''{'' @ join '','' (map (\<lambda>kv. json_string (fst kv) @ '':'' @ json_dumps float_repr (snd kv)) kvs)
     @ ''}''"

definition sort_keys :: "json_object \<Rightarrow> json_object" where
  "sort_keys kvs = sort_key fst kvs"

section \<open>Round trips\<close>

lemma code_digit_char: "d < 16 \<Longrightarrow> code (digit_char d) = (if d < 10 then 48 + d else 87 + d)"
  by (simp add: digit_char_def code_def)

lemma neq_by_code: "code a \<noteq> code b \<Longrightarrow> a \<noteq> b"
  by auto

lemma digit_char_neq [simp]:
  assumes "d < 16"
  shows "digit_char d \<noteq> CHR ''_''" "digit_char d \<noteq> CHR ''-''" "digit_char d \<noteq> CHR ''u''"
    "digit_char d \<noteq> CHR ''{''" "digit_char d \<noteq> CHR ''}''" "digit_char d \<noteq> CHR ''+''"
    "digit_char d \<noteq> CHR ''x''" "digit_char d \<noteq> CHR ''X''" "digit_char d \<noteq> CHR '':''"
    "\<not> is_space (digit_char d)"
proof -
  have codes: "code CHR ''_'' = 95" "code CHR ''-'' = 45" "code CHR ''u'' = 117"
    "code CHR ''{'' = 123" "code CHR ''}'' = 125" "code CHR ''+'' = 43"
    "code CHR ''x'' = 120" "code CHR ''X'' = 88" "code CHR '':'' = 58"
    by (simp_all add: code_def)
  show "digit_char d \<noteq> CHR ''_''" "digit_char d \<noteq> CHR ''-''" "digit_char d \<noteq> CHR ''u''"
    "digit_char d \<noteq> CHR ''{''" "digit_char d \<noteq> CHR ''}''" "digit_char d \<noteq> CHR ''+''"
    "digit_char d \<noteq> CHR ''x''" "digit_char d \<noteq> CHR ''X''" "digit_char d \<noteq> CHR '':''"
    by (rule neq_by_code, use assms in \<open>simp add: codes code_digit_char\<close>)+
  show "\<not> is_space (digit_char d)"
    using assms by (auto simp: is_space_def code_digit_char split: if_splits)
qed

lemma length_hex_fixed [simp]: "length (hex_fixed w n) = w"
  by (induction w arbitrary: n) auto

lemma set_hex_fixed: "c \<in> set (hex_fixed w n) \<Longrightarrow> \<exists>d < 16. c = digit_char d"
proof (induction w arbitrary: n)
  case (Suc w)
  then show ?case by (auto intro: exI [of _ "n mod 16"])
qed simp

lemma digits_value_snoc:
  "digits_value b True acc xs = Some v \<Longrightarrow> d < b \<Longrightarrow> b \<le> 16 \<Longrightarrow>
   digits_value b True acc (xs @ [digit_char d]) = Some (v * b + d)"
proof (induction xs arbitrary: acc)
  case Nil
  then show ?case by simp
next
  case (Cons c cs)
  show ?case
  proof (cases "c = CHR ''_''")
    case True
    then obtain c' cs' where cs: "cs = c' # cs'" "c' \<noteq> CHR ''_''"
      using Cons.prems by (cases cs) (auto split: if_splits)
    then have "digits_value b True acc cs = Some v" and
      "digits_value b False acc (cs @ [digit_char d]) = digits_value b True acc (cs @ [digit_char d])"
      using Cons.prems True by auto
    then show ?thesis using True Cons by simp
  next
    case False
    then show ?thesis using Cons by (auto split: option.splits if_splits)
  qed
qed

lemma digits_value_hex_fixed:
  "digits_value 16 True acc (hex_fixed w n) = Some (acc * 16 ^ w + n mod 16 ^ w)"
proof (induction w arbitrary: n)
  case (Suc w)
  have "digits_value 16 True acc (hex_fixed (Suc w) n)
        = Some ((acc * 16 ^ w + n div 16 mod 16 ^ w) * 16 + n mod 16)"
    by (simp add: digits_value_snoc Suc.IH)
  moreover have "n mod 16 ^ Suc w = n div 16 mod 16 ^ w * 16 + n mod 16"
    by (simp add: mod_mult2_eq mult.commute)
  ultimately show ?case by (simp add: algebra_simps)
qed simp


lemma remove_all_absent: "p \<noteq> [] \<Longrightarrow> hd p \<notin> set s \<Longrightarrow> remove_all p s = s"
proof (induction s)
  case (Cons c cs)
  then have "\<not> startswith (c # cs) p" by (cases p) (auto simp: startswith_def)
  with Cons show ?case by (simp add: remove_all.simps [of p "c # cs"])
qed (simp add: remove_all.simps)

lemma remove_all_char: "remove_all [c] s = filter (\<lambda>x. x \<noteq> c) s"
proof (induction s)
  case (Cons x xs)
  then show ?case by (simp add: remove_all.simps [of "[c]" "x # xs"] startswith_def)
qed (simp add: remove_all.simps)

lemma startswith_subset: "startswith s p \<Longrightarrow> set p \<subseteq> set s"
  by (metis startswith_def set_take_subset)

lemma dropWhile_none: "(\<And>x. x \<in> set xs \<Longrightarrow> \<not> P x) \<Longrightarrow> dropWhile P xs = xs"
  by (cases xs) auto

lemma strip_none: "\<forall>x \<in> set s. \<not> is_space x \<Longrightarrow> strip s = s"
  unfolding strip_def by (subst dropWhile_none; simp add: dropWhile_none)+

lemma strip_chars_none: "set s \<inter> set cs = {} \<Longrightarrow> strip_chars cs s = s"
proof -
  assume "set s \<inter> set cs = {}"
  then have "\<And>x. x \<in> set s \<Longrightarrow> x \<notin> set cs" by blast
  then show ?thesis unfolding strip_chars_def by (subst dropWhile_none; simp add: dropWhile_none)+
qed

lemma filter_all_id: "(\<And>x. x \<in> set xs \<Longrightarrow> P x) \<Longrightarrow> filter P xs = xs"
  by (simp add: filter_id_conv)

lemma hex_fixed_plain:
  assumes "c \<in> set (hex_fixed w n)"
  shows "c \<noteq> CHR ''-''" "c \<noteq> CHR ''u''" "c \<noteq> CHR ''{''" "c \<noteq> CHR ''}''" "\<not> is_space c"
    "c \<noteq> CHR '':''" "c \<noteq> CHR ''x''" "c \<noteq> CHR ''X''"
  using set_hex_fixed [OF assms] by auto

lemma py_int_hex_fixed: "0 < w \<Longrightarrow> py_int 16 (hex_fixed w n) = Some (int (n mod 16 ^ w))"
proof -
  assume w: "0 < w"
  have plain: "strip (hex_fixed w n) = hex_fixed w n"
    by (rule strip_none) (blast dest: hex_fixed_plain(5))
  have "CHR ''x'' \<notin> set (hex_fixed w n)" "CHR ''X'' \<notin> set (hex_fixed w n)"
    using hex_fixed_plain(7) [of "CHR ''x''"] hex_fixed_plain(8) [of "CHR ''X''"] by blast+
  then have nox: "\<not> startswith (hex_fixed w n) ''0x''" "\<not> startswith (hex_fixed w n) ''0X''"
    by (auto dest: startswith_subset)
  from w obtain c cs where ccs: "hex_fixed w n = c # cs"
    by (metis length_hex_fixed length_greater_0_conv list.exhaust less_irrefl)
  then obtain d where d: "d < 16" "c = digit_char d"
    using set_hex_fixed [of c w n] by auto
  then have start: "digits_value 16 False 0 (c # cs) = digits_value 16 True 0 (c # cs)"
    by simp
  have "unsigned_value 16 (hex_fixed w n) = Some (n mod 16 ^ w)"
    using nox start digits_value_hex_fixed [of 0 w n] ccs by (simp add: unsigned_value_def)
  then show ?thesis using d plain unfolding py_int_def ccs by simp
qed

lemma length_str_uuid [simp]: "length (str_uuid u) = 36"
  by (simp add: str_uuid_def Let_def)

lemma set_str_uuid: "c \<in> set (str_uuid u) \<Longrightarrow> c = CHR ''-'' \<or> (\<exists>d < 16. c = digit_char d)"
  using set_hex_fixed [of c 32 "unat u"]
  by (auto simp: str_uuid_def Let_def dest!: in_set_takeD in_set_dropD)

lemma hex_of_str_uuid: "filter (\<lambda>x. x \<noteq> CHR ''-'') (str_uuid u) = hex_fixed 32 (unat u)"
proof -
  let ?h = "hex_fixed 32 (unat u)"
  have f: "filter (\<lambda>x. x \<noteq> CHR ''-'') xs = xs" if "set xs \<subseteq> set ?h" for xs
    using that hex_fixed_plain by (blast intro: filter_all_id)
  have "filter (\<lambda>x. x \<noteq> CHR ''-'') (str_uuid u)
        = take 8 ?h @ take 4 (drop 8 ?h) @ take 4 (drop 12 ?h) @ take 4 (drop 16 ?h) @ drop 20 ?h"
    by (simp add: str_uuid_def Let_def)
      (intro arg_cong2 [where f = append] f; auto dest!: in_set_takeD in_set_dropD)
  also have "\<dots> = ?h"
    using append_take_drop_id [of 4 "drop 16 ?h"] append_take_drop_id [of 4 "drop 12 ?h"]
      append_take_drop_id [of 4 "drop 8 ?h"] append_take_drop_id [of 8 ?h]
    by (simp add: drop_drop)
  finally show ?thesis .
qed

lemma uuid_text_roundtrip [simp]: "uuid_of_text (str_uuid u) = Some u"
proof -
  have chars: "c \<noteq> CHR ''u'' \<and> c \<noteq> CHR ''{'' \<and> c \<noteq> CHR ''}''" if "c \<in> set (str_uuid u)" for c
    using set_str_uuid [OF that] by auto
  then have "CHR ''u'' \<notin> set (str_uuid u)" by blast
  then have "remove_all ''uuid:'' (remove_all ''urn:'' (str_uuid u)) = str_uuid u"
    by (simp add: remove_all_absent)
  moreover have "strip_chars ''{}'' (str_uuid u) = str_uuid u"
    using chars by (intro strip_chars_none) auto
  moreover have "unat u < 16 ^ 32" "uint u < 2 ^ 128"
    using unsigned_less [of u, where 'a = nat] unsigned_less [of u, where 'a = int] by simp_all
  ultimately show ?thesis
    by (simp add: uuid_of_text_def remove_all_char hex_of_str_uuid py_int_hex_fixed
        del: length_str_uuid)
qed

lemma str_uuid_inject [simp]: "str_uuid u = str_uuid v \<longleftrightarrow> u = v"
  by (metis option.inject uuid_text_roundtrip)


section \<open>JSON text is unambiguous\<close>

definition unescape :: "string \<Rightarrow> char \<times> string" where
  "unescape s =
     (if hd s \<noteq> CHR 0x5C then (hd s, tl s)
      else let c = hd (tl s); r = tl (tl s) in
        if c = CHR ''u''
        then (char_of (16 * the (digit_val (r ! 2)) + the (digit_val (r ! 3)) :: nat), drop 4 r)
        else (if c = CHR ''n'' then CHR 10 else if c = CHR ''r'' then CHR 13
              else if c = CHR ''t'' then CHR 9 else if c = CHR ''b'' then CHR 8
              else if c = CHR ''f'' then CHR 12 else c, r))"

lemma escape_codes:
  "code CHR 0x22 = 34" "code CHR 0x5C = 92" "code CHR 10 = 10" "code CHR 13 = 13" "code CHR 9 = 9"
  "code CHR 8 = 8" "code CHR 12 = 12"
  by (simp_all add: code_def)

lemma code_inject: "code c = code d \<longleftrightarrow> c = d"
  by (simp add: code_def)

lemma json_escape_special:
  "json_escape_char CHR 0x22 = [CHR 0x5C, CHR 0x22]" "json_escape_char CHR 0x5C = [CHR 0x5C, CHR 0x5C]"
  "json_escape_char CHR 10 = [CHR 0x5C, CHR ''n'']" "json_escape_char CHR 13 = [CHR 0x5C, CHR ''r'']"
  "json_escape_char CHR 9 = [CHR 0x5C, CHR ''t'']" "json_escape_char CHR 8 = [CHR 0x5C, CHR ''b'']"
  "json_escape_char CHR 12 = [CHR 0x5C, CHR ''f'']"
  by (simp_all add: json_escape_char_def escape_codes)

lemma json_escape_other:
  assumes "c \<notin> {CHR 0x22, CHR 0x5C, CHR 10, CHR 13, CHR 9, CHR 8, CHR 12}"
  shows "json_escape_char c =
    (if code c < 32 then [CHR 0x5C, CHR ''u'', digit_char 0, digit_char 0, digit_char (code c div 16),
       digit_char (code c mod 16)] else [c])"
proof -
  have n: "code c \<noteq> code d" if "d \<in> {CHR 0x22, CHR 0x5C, CHR 10, CHR 13, CHR 9, CHR 8, CHR 12}" for d
    using that assms by (auto simp: code_inject)
  have "(4::nat) = Suc (Suc (Suc (Suc 0)))" by simp
  moreover have "code c div 16 div 16 = 0" "code c div 16 mod 16 = code c div 16" if "code c < 32"
    using that by auto
  ultimately have "hex_fixed 4 (code c) =
      [digit_char 0, digit_char 0, digit_char (code c div 16), digit_char (code c mod 16)]" if "code c < 32"
    using that by (simp only: hex_fixed.simps append.simps append_Nil div_0 mod_0)
  then show ?thesis
    using n [of "CHR 0x22"] n [of "CHR 0x5C"] n [of "CHR 10"] n [of "CHR 13"] n [of "CHR 9"]
      n [of "CHR 8"] n [of "CHR 12"]
    by (simp add: json_escape_char_def escape_codes)
qed

lemma unescape_escape: "unescape (json_escape_char c @ r) = (c, r)"
proof (cases "c \<in> {CHR 0x22, CHR 0x5C, CHR 10, CHR 13, CHR 9, CHR 8, CHR 12}")
  case True
  then show ?thesis by (elim insertE) (simp_all add: json_escape_special unescape_def Let_def)
next
  case False
  moreover have "char_of (16 * (code c div 16) + code c mod 16) = c" by (simp add: code_def)
  ultimately show ?thesis
    by (simp add: json_escape_other unescape_def Let_def)
qed

lemma json_escape_hd: "\<exists>h t. json_escape_char c = h # t \<and> h \<noteq> CHR 0x22"
proof (cases "c \<in> {CHR 0x22, CHR 0x5C, CHR 10, CHR 13, CHR 9, CHR 8, CHR 12}")
  case True
  then show ?thesis by (elim insertE) (simp_all add: json_escape_special)
qed (simp add: json_escape_other)

lemma json_chars_append:
  "concat (map json_escape_char s) @ CHR 0x22 # r = concat (map json_escape_char s') @ CHR 0x22 # r'
   \<Longrightarrow> s = s' \<and> r = r'"
proof (induction s arbitrary: s')
  case Nil
  then show ?case
  proof (cases s')
    case (Cons c t)
    with Nil json_escape_hd [of c] show ?thesis by auto
  qed simp
next
  case (Cons c s)
  show ?case
  proof (cases s')
    case Nil
    with Cons.prems json_escape_hd [of c] show ?thesis by auto
  next
    case (Cons c' t)
    with Cons.prems have "json_escape_char c @ concat (map json_escape_char s) @ CHR 0x22 # r
        = json_escape_char c' @ concat (map json_escape_char t) @ CHR 0x22 # r'" by simp
    from arg_cong [OF this, of unescape] have "c = c'"
      and "concat (map json_escape_char s) @ CHR 0x22 # r = concat (map json_escape_char t) @ CHR 0x22 # r'"
      by (simp_all add: unescape_escape)
    with Cons.IH Cons show ?thesis by blast
  qed
qed

lemma json_string_append: "json_string s @ r = json_string s' @ r' \<longleftrightarrow> s = s' \<and> r = r'"
  using json_chars_append [of s r s' r'] by (auto simp: json_string_def)

lemma dec_nat_value: "digits_value 10 True 0 (dec_nat n) = Some n"
proof (induction n rule: dec_nat.induct)
  case (1 n)
  show ?case
  proof (cases "n < 10")
    case True
    then show ?thesis by (subst dec_nat.simps) simp
  next
    case False
    then have "digits_value 10 True 0 (dec_nat (n div 10) @ [digit_char (n mod 10)])
      = Some (n div 10 * 10 + n mod 10)"
      using 1 by (intro digits_value_snoc) simp_all
    with False show ?thesis by (subst dec_nat.simps) simp
  qed
qed

lemma dec_nat_inject [simp]: "dec_nat m = dec_nat n \<longleftrightarrow> m = n"
  by (metis dec_nat_value option.inject)

lemma dec_nat_hd: "dec_nat n \<noteq> CHR ''-'' # r"
  using dec_nat_value [of n] by (auto simp: digit_val_def code_def)

lemma dec_int_inject [simp]: "dec_int i = dec_int j \<longleftrightarrow> i = j"
  using dec_nat_hd [of "nat i" "dec_nat (nat (- j))"] dec_nat_hd [of "nat j" "dec_nat (nat (- i))"]
  by (auto simp: dec_int_def split: if_splits)


end
