(* ===== verification/Py_Time.thy ===== *)
theory Py_Time
  imports Py_Text
begin

text \<open>
  \<open>datetime.fromisoformat\<close> on the texts that \<open>isoformat\<close> prints for a UTC
  \<open>datetime\<close>, and the round trip between the two over the whole range of Python's
  \<open>datetime\<close>, the years 1 to 9999.
\<close>

section \<open>Parsing\<close>

definition valid_datetime :: "datetime \<Rightarrow> bool" where
  "valid_datetime t \<longleftrightarrow> -62135596800000000 \<le> t \<and> t < 253402300800000000"

definition days_before_year :: "int \<Rightarrow> int" where
  "days_before_year y = (y - 1) * 365 + (y - 1) div 4 - (y - 1) div 100 + (y - 1) div 400"

definition ymd2ord :: "int \<Rightarrow> int \<Rightarrow> int \<Rightarrow> int" where
  "ymd2ord y m d = days_before_year y + days_before_month y m + d"

text \<open>The number written in the \<open>n\<close> digits from position \<open>i\<close>.\<close>

definition num_at :: "nat \<Rightarrow> nat \<Rightarrow> string \<Rightarrow> int option" where
  "num_at i n s = map_option int (digits_value 10 True 0 (take n (drop i s)))"

text \<open>
  \<open>fromisoformat\<close> of \<open>YYYY-MM-DDTHH:MM:SS[.ffffff]+00:00\<close>; other texts are outside the model.
\<close>

definition fromisoformat :: "string \<Rightarrow> datetime option" where
  "fromisoformat s =
     (case (num_at 0 4 s, num_at 5 2 s, num_at 8 2 s, num_at 11 2 s, num_at 14 2 s, num_at 17 2 s,
            if length s = 32 then num_at 20 6 s else if length s = 25 then Some 0 else None) of
        (Some y, Some m, Some d, Some hh, Some mm, Some ss, Some us) \<Rightarrow>
          if 1 \<le> y \<and> y \<le> 9999 \<and> 1 \<le> m \<and> m \<le> 12 \<and> 1 \<le> d \<and> d \<le> days_in_month y m
             \<and> hh < 24 \<and> mm < 60 \<and> ss < 60
          then Some ((ymd2ord y m d - 719163) * 86400000000
                     + ((hh * 60 + mm) * 60 + ss) * 1000000 + us)
          else None
      | _ \<Rightarrow> None)"

section \<open>Days and dates\<close>

lemma days_before_year_split:
  assumes "0 \<le> b" "b \<le> 3" "0 \<le> c" "c \<le> 24" "0 \<le> e" "e \<le> 3"
  shows "days_before_year (400 * a + 100 * b + 4 * c + e + 1) = 146097 * a + 36524 * b + 1461 * c + 365 * e"
proof -
  let ?Y = "400 * a + 100 * b + 4 * c + e"
  have 1: "?Y div 4 = 100 * a + 25 * b + c"
    using assms by (intro int_div_pos_eq [of _ _ _ e]) auto
  have 2: "?Y div 100 = 4 * a + b"
    using assms by (intro int_div_pos_eq [of _ _ _ "4 * c + e"]) auto
  have 3: "?Y div 400 = a"
    using assms by (intro int_div_pos_eq [of _ _ _ "100 * b + 4 * c + e"]) auto
  show ?thesis unfolding days_before_year_def by (simp add: 1 2 3)
qed

lemma month_cases:
  assumes "1 \<le> m" "m \<le> (12::int)"
  shows "m \<in> {1, 2, 3, 4, 5, 6, 7, 8, 9, 10, 11, 12}"
  using assms by (simp only: insert_iff empty_iff) presburger

lemma month_step:
  assumes "2 \<le> m" "m \<le> 12"
  shows "days_before_month y (m - 1) + days_in_month y (m - 1) = days_before_month y m"
proof -
  have "m \<in> {1, 2, 3, 4, 5, 6, 7, 8, 9, 10, 11, 12}" using assms by (intro month_cases) auto
  with assms(1) show ?thesis
    by (elim insertE) (simp_all add: days_before_month_def days_in_month_def)
qed

lemma day_of_month:
  assumes "0 \<le> r" "r < 365" "m = (r + 50) div 32"
  shows "1 \<le> m \<and> m \<le> 12"
    and "days_before_month y m \<le> r \<Longrightarrow> r - days_before_month y m < days_in_month y m"
    and "r < days_before_month y m \<Longrightarrow> 2 \<le> m \<and> days_before_month y (m - 1) \<le> r \<and> r - days_before_month y (m - 1) < 31"
proof -
  have m: "32 * m \<le> r + 50" "r + 50 < 32 * m + 32" "1 \<le> m \<and> m \<le> 12" using assms by auto
  then show "1 \<le> m \<and> m \<le> 12" by simp
  have mm: "m \<in> {1, 2, 3, 4, 5, 6, 7, 8, 9, 10, 11, 12}" using m(3) by (intro month_cases) auto
  show "days_before_month y m \<le> r \<Longrightarrow> r - days_before_month y m < days_in_month y m"
    using mm m(1,2) assms(1,2) by (elim insertE) (simp_all add: days_before_month_def days_in_month_def)
  show "r < days_before_month y m \<Longrightarrow> 2 \<le> m \<and> days_before_month y (m - 1) \<le> r \<and> r - days_before_month y (m - 1) < 31"
    using mm m(1,2) assms(1,2) by (elim insertE) (simp_all add: days_before_month_def split: if_splits)
qed


lemma ord2ymd_split:
  assumes "1 \<le> n"
  obtains a b c e r where "n - 1 = 146097 * a + 36524 * b + 1461 * c + 365 * e + r"
    "0 \<le> a" "0 \<le> b" "b \<le> 4" "0 \<le> c" "c \<le> 24" "0 \<le> e" "e \<le> 4" "0 \<le> r" "r < 365"
    "e = 4 \<Longrightarrow> r = 0 \<and> c \<le> 23 \<and> b \<le> 3" "b = 4 \<Longrightarrow> c = 0 \<and> e = 0 \<and> r = 0"
    "ord2ymd n =
       (let year = a * 400 + 1 + b * 100 + c * 4 + e
        in if e = 4 \<or> b = 4 then (year - 1, 12, 31)
           else let month = (r + 50) div 32; preceding = days_before_month year month
                in if preceding > r
                   then (year, month - 1, r - (preceding - days_in_month year (month - 1)) + 1)
                   else (year, month, r - preceding + 1))"
proof -
  define n0 a r400 b r100 c r4 e r where defs: "n0 = n - 1" "a = n0 div 146097" "r400 = n0 mod 146097"
    "b = r400 div 36524" "r100 = r400 mod 36524" "c = r100 div 1461" "r4 = r100 mod 1461"
    "e = r4 div 365" "r = r4 mod 365"
  have n0: "n0 = 146097 * a + r400" "0 \<le> r400" "r400 < 146097" "0 \<le> a"
    using assms by (simp_all add: defs(1-3) pos_imp_zdiv_nonneg_iff)
  have r400: "r400 = 36524 * b + r100" "0 \<le> r100" "r100 < 36524" by (simp_all add: defs(4,5))
  have r100: "r100 = 1461 * c + r4" "0 \<le> r4" "r4 < 1461" by (simp_all add: defs(6,7))
  have r4: "r4 = 365 * e + r" "0 \<le> r" "r < 365" by (simp_all add: defs(8,9))
  have nn: "0 \<le> b" "0 \<le> c" "0 \<le> e"
    using n0(2) r400(2) r100(2) by (simp_all add: defs(4,6,8) pos_imp_zdiv_nonneg_iff)
  have "b \<le> 4" using n0(3) r400 by linarith
  moreover have "c \<le> 24" using r400(3) r100 by linarith
  moreover have "e \<le> 4" using r100(3) r4 by linarith
  moreover have "r = 0 \<and> c \<le> 23 \<and> b \<le> 3" if "e = 4"
  proof -
    have "r4 = 1460" "r = 0" using that r4 r100(3) by linarith+
    moreover have "c \<le> 23" using \<open>r4 = 1460\<close> r100(1) r400(3) by linarith
    moreover have "b \<le> 3" using \<open>r4 = 1460\<close> r100(1) r400(1) n0(3) nn by linarith
    ultimately show ?thesis by simp
  qed
  moreover have "c = 0 \<and> e = 0 \<and> r = 0" if "b = 4"
  proof -
    have "r100 = 0" using that r400 n0(3) by linarith
    then show ?thesis using r100 r4 nn by linarith
  qed
  moreover have "n - 1 = 146097 * a + 36524 * b + 1461 * c + 365 * e + r"
    using n0(1) r400(1) r100(1) r4(1) defs(1) by linarith
  moreover have "ord2ymd n =
       (let year = a * 400 + 1 + b * 100 + c * 4 + e
        in if e = 4 \<or> b = 4 then (year - 1, 12, 31)
           else let month = (r + 50) div 32; preceding = days_before_month year month
                in if preceding > r
                   then (year, month - 1, r - (preceding - days_in_month year (month - 1)) + 1)
                   else (year, month, r - preceding + 1))"
    unfolding ord2ymd_def Let_def defs by (rule refl)
  ultimately show thesis using n0(4) nn r4(2,3) that by blast
qed

lemma ord2ymd_inverse:
  assumes "1 \<le> n" "n \<le> 3652059" "ord2ymd n = (y, m, d)"
  shows "ymd2ord y m d = n" "1 \<le> y" "y \<le> 9999" "1 \<le> m" "m \<le> 12" "1 \<le> d" "d \<le> days_in_month y m"
proof -
  obtain a b c e r where n: "n - 1 = 146097 * a + 36524 * b + 1461 * c + 365 * e + r"
    and rng: "0 \<le> a" "0 \<le> b" "b \<le> 4" "0 \<le> c" "c \<le> 24" "0 \<le> e" "e \<le> 4" "0 \<le> r" "r < 365"
    and e4: "e = 4 \<Longrightarrow> r = 0 \<and> c \<le> 23 \<and> b \<le> 3" and b4: "b = 4 \<Longrightarrow> c = 0 \<and> e = 0 \<and> r = 0"
    and ymd: "ord2ymd n =
       (let year = a * 400 + 1 + b * 100 + c * 4 + e
        in if e = 4 \<or> b = 4 then (year - 1, 12, 31)
           else let month = (r + 50) div 32; preceding = days_before_month year month
                in if preceding > r
                   then (year, month - 1, r - (preceding - days_in_month year (month - 1)) + 1)
                   else (year, month, r - preceding + 1))"
    using ord2ymd_split [OF assms(1)] by blast
  have yr: "a * 400 + 1 + b * 100 + c * 4 + e = 400 * a + 100 * b + 4 * c + e + 1" by simp
  note ymd = ymd [unfolded yr]
  let ?year = "400 * a + 100 * b + 4 * c + e + 1"
  have a24: "a \<le> 24" using n rng assms(2) by linarith
  have all: "ymd2ord y m d = n \<and> 1 \<le> y \<and> y \<le> 9999 \<and> 1 \<le> m \<and> m \<le> 12 \<and> 1 \<le> d \<and> d \<le> days_in_month y m"
  proof (cases "e = 4 \<or> b = 4")
    case True
    then have v: "y = ?year - 1" "m = 12" "d = 31" using ymd assms(3) by (auto simp: Let_def)
    have "ymd2ord y m d = n"
    proof (cases "e = 4")
      case True
      with e4 have "r = 0" "c \<le> 23" "b \<le> 3" by auto
      have y: "y = 400 * a + 100 * b + 4 * c + 3 + 1" using v True by simp
      have "is_leap y"
      proof -
        have "y = 4 * (100 * a + 25 * b + c + 1)" unfolding y by simp
        then have "y mod 4 = 0" by simp
        moreover have "y mod 100 = 4 * c + 4"
          unfolding y using \<open>c \<le> 23\<close> rng(4) by (intro int_mod_pos_eq [of _ _ "4 * a + b"]) auto
        ultimately show ?thesis using rng(4) by (simp add: is_leap_def)
      qed
      then show ?thesis
        using days_before_year_split [of b c 3 a] rng(2,4,5) \<open>b \<le> 3\<close> \<open>r = 0\<close> n True v
        unfolding ymd2ord_def y by (simp add: days_before_month_def)
    next
      case False
      then have "b = 4" "c = 0" "e = 0" "r = 0" using True b4 by auto
      have y: "y = 400 * a + 100 * 3 + 4 * 24 + 3 + 1" using v \<open>b = 4\<close> \<open>c = 0\<close> \<open>e = 0\<close> by simp
      have "y = 4 * (100 * (a + 1))" "y = 400 * (a + 1)" using y by simp_all
      then have "y mod 4 = 0" "y mod 400 = 0" by (metis mod_mult_self1_is_0)+
      then have "is_leap y" by (simp add: is_leap_def)
      then show ?thesis
        using days_before_year_split [of 3 24 3 a] \<open>b = 4\<close> \<open>c = 0\<close> \<open>e = 0\<close> \<open>r = 0\<close> n v
        unfolding ymd2ord_def y by (simp add: days_before_month_def)
    qed
    moreover have "1 \<le> y" using v rng True by auto
    moreover have "y \<le> 9999"
    proof (cases "e = 4")
      case True
      with e4 have "r = 0" "c \<le> 23" "b \<le> 3" by auto
      with v True a24 show ?thesis by linarith
    next
      case False
      with True b4 have "b = 4" "c = 0" "e = 0" "r = 0" by auto
      with v n rng assms(2) show ?thesis by linarith
    qed
    ultimately show ?thesis using v by (simp add: days_in_month_def)
  next
    case False
    then have r3: "e \<le> 3" "b \<le> 3" using rng by auto
    let ?m = "(r + 50) div 32" let ?p = "days_before_month ?year ?m"
    note dm1 = day_of_month(1) [OF rng(8,9) refl] and dm2 = day_of_month(2) [OF rng(8,9) refl, of ?year]
      and dm3 = day_of_month(3) [OF rng(8,9) refl, of ?year]
    have dby: "days_before_year ?year = 146097 * a + 36524 * b + 1461 * c + 365 * e"
      using days_before_year_split [of b c e a] rng r3 by simp
    have y: "y = ?year" using ymd assms(3) False by (auto simp: Let_def split: if_splits)
    have yb: "1 \<le> y" "y \<le> 9999" using y n rng r3 a24 assms(2) by linarith+
    show ?thesis
    proof (cases "?p > r")
      case True
      then have v: "m = ?m - 1" "d = r - (?p - days_in_month ?year (?m - 1)) + 1"
        using ymd assms(3) False by (auto simp: Let_def)
      have st: "days_before_month ?year (?m - 1) + days_in_month ?year (?m - 1) = ?p"
        using dm1 dm3 True by (intro month_step) auto
      show ?thesis
        using v(2) st dby n yb [unfolded y] dm1 dm3 [OF True] True unfolding ymd2ord_def y v(1)
        by (intro conjI) linarith+
    next
      case False
      then have v: "m = ?m" "d = r - ?p + 1"
        using ymd assms(3) \<open>\<not> (e = 4 \<or> b = 4)\<close> by (auto simp: Let_def)
      have "?p \<le> r" using False by simp
      then show ?thesis
        using v dby n yb dm1 dm2 [OF \<open>?p \<le> r\<close>] unfolding ymd2ord_def y by simp
    qed
  qed
  then show "ymd2ord y m d = n" "1 \<le> y" "y \<le> 9999" "1 \<le> m" "m \<le> 12" "1 \<le> d" "d \<le> days_in_month y m" by auto
qed


section \<open>The round trip\<close>

lemma length_dec_fixed [simp]: "length (dec_fixed w n) = w"
  by (induction w arbitrary: n) auto

lemma digits_value_dec_fixed: "digits_value 10 True acc (dec_fixed w n) = Some (acc * 10 ^ w + n mod 10 ^ w)"
proof (induction w arbitrary: n)
  case (Suc w)
  have "digits_value 10 True acc (dec_fixed (Suc w) n) = Some ((acc * 10 ^ w + n div 10 mod 10 ^ w) * 10 + n mod 10)"
    by (simp add: digits_value_snoc Suc.IH)
  moreover have "n mod 10 ^ Suc w = n div 10 mod 10 ^ w * 10 + n mod 10"
    by (simp add: mod_mult2_eq mult.commute)
  ultimately show ?case by (simp add: algebra_simps)
qed simp

lemma num_at_dec:
  assumes "s = pre @ dec_fixed w (nat v) @ post" "length pre = i" "0 \<le> v" "v < 10 ^ w"
  shows "num_at i w s = Some v"
proof -
  have "nat v mod 10 ^ w = nat v" using assms(3,4) by (simp add: nat_less_iff)
  then show ?thesis using assms by (simp add: num_at_def digits_value_dec_fixed)
qed

lemma days_in_month_le: "1 \<le> m \<Longrightarrow> m \<le> 12 \<Longrightarrow> days_in_month y m \<le> 31"
  using month_cases [of m] by (auto simp: days_in_month_def)

lemma day_number_range:
  "valid_datetime t \<Longrightarrow> 1 \<le> 719163 + t div 86400000000 \<and> 719163 + t div 86400000000 \<le> 3652059"
  unfolding valid_datetime_def by linarith

lemma isoformat_roundtrip:
  assumes "valid_datetime t"
  shows "fromisoformat (isoformat t) = Some t"
proof -
  define day us where du: "day = t div 86400000000" "us = t mod 86400000000"
  define secs frac where sf: "secs = us div 1000000" "frac = us mod 1000000"
  have us: "0 \<le> us" "us < 86400000000" "t = day * 86400000000 + us" using du by auto
  have s: "0 \<le> secs" "secs < 86400" "us = secs * 1000000 + frac" "0 \<le> frac" "frac < 1000000"
    using us sf by auto
  define hh mm ss where h: "hh = secs div 3600" "mm = secs div 60 mod 60" "ss = secs mod 60"
  have "hh = secs div 60 div 60" unfolding h using zdiv_zmult2_eq [of 60 secs 60] by simp
  then have "secs = (hh * 60 + mm) * 60 + ss"
    unfolding h(2,3) using div_mult_mod_eq [of secs 60] div_mult_mod_eq [of "secs div 60" 60] by simp
  then have hms: "0 \<le> hh" "hh < 24" "0 \<le> mm" "mm < 60" "0 \<le> ss" "ss < 60" "secs = (hh * 60 + mm) * 60 + ss"
    using s(1,2) unfolding h by auto
  obtain y m d where ymd: "ord2ymd (719163 + day) = (y, m, d)" by (cases "ord2ymd (719163 + day)")
  note dr = day_number_range [OF assms, folded du(1)]
  note inv = ord2ymd_inverse [OF _ _ ymd]
  have r: "ymd2ord y m d = 719163 + day" "1 \<le> y" "y \<le> 9999" "1 \<le> m" "m \<le> 12" "1 \<le> d" "d \<le> days_in_month y m"
    using inv dr by auto
  have d31: "d \<le> 31" using r(4,5,7) days_in_month_le [of m y] by simp
  define tl where "tl = (if frac = 0 then [] else ''.'' @ dec_fixed 6 (nat frac)) @ ''+00:00''"
  have iso: "isoformat t = dec_fixed 4 (nat y) @ ''-'' @ dec_fixed 2 (nat m) @ ''-'' @ dec_fixed 2 (nat d) @ ''T''
      @ dec_fixed 2 (nat hh) @ '':'' @ dec_fixed 2 (nat mm) @ '':'' @ dec_fixed 2 (nat ss) @ tl"
    unfolding isoformat_def Let_def tl_def by (simp add: ymd du(1)[symmetric] du(2)[symmetric] sf[symmetric] h[symmetric])
  have n1: "num_at 0 4 (isoformat t) = Some y"
    by (rule num_at_dec [where pre = "[]"]) (use r in \<open>simp_all add: iso\<close>)
  have n2: "num_at 5 2 (isoformat t) = Some m"
    by (rule num_at_dec [where pre = "dec_fixed 4 (nat y) @ ''-''"]) (use r in \<open>simp_all add: iso\<close>)
  have n3: "num_at 8 2 (isoformat t) = Some d"
    by (rule num_at_dec [where pre = "dec_fixed 4 (nat y) @ ''-'' @ dec_fixed 2 (nat m) @ ''-''"])
      (use r d31 in \<open>simp_all add: iso\<close>)
  have n4: "num_at 11 2 (isoformat t) = Some hh"
    by (rule num_at_dec [where pre = "dec_fixed 4 (nat y) @ ''-'' @ dec_fixed 2 (nat m) @ ''-''
          @ dec_fixed 2 (nat d) @ ''T''"]) (use hms in \<open>simp_all add: iso\<close>)
  have n5: "num_at 14 2 (isoformat t) = Some mm"
    by (rule num_at_dec [where pre = "dec_fixed 4 (nat y) @ ''-'' @ dec_fixed 2 (nat m) @ ''-''
          @ dec_fixed 2 (nat d) @ ''T'' @ dec_fixed 2 (nat hh) @ '':''"]) (use hms in \<open>simp_all add: iso\<close>)
  have n6: "num_at 17 2 (isoformat t) = Some ss"
    by (rule num_at_dec [where pre = "dec_fixed 4 (nat y) @ ''-'' @ dec_fixed 2 (nat m) @ ''-''
          @ dec_fixed 2 (nat d) @ ''T'' @ dec_fixed 2 (nat hh) @ '':'' @ dec_fixed 2 (nat mm) @ '':''"])
      (use hms in \<open>simp_all add: iso\<close>)
  have n7: "(if length (isoformat t) = 32 then num_at 20 6 (isoformat t)
      else if length (isoformat t) = 25 then Some 0 else None) = Some frac"
  proof (cases "frac = 0")
    case True
    then show ?thesis by (simp add: iso tl_def)
  next
    case False
    have "num_at 20 6 (isoformat t) = Some frac"
      by (rule num_at_dec [where pre = "dec_fixed 4 (nat y) @ ''-'' @ dec_fixed 2 (nat m) @ ''-''
            @ dec_fixed 2 (nat d) @ ''T'' @ dec_fixed 2 (nat hh) @ '':'' @ dec_fixed 2 (nat mm) @ '':''
            @ dec_fixed 2 (nat ss) @ ''.''" and post = "''+00:00''"])
        (use s False in \<open>simp_all add: iso tl_def\<close>)
    with False show ?thesis by (simp add: iso tl_def)
  qed
  have "(ymd2ord y m d - 719163) * 86400000000 + ((hh * 60 + mm) * 60 + ss) * 1000000 + frac = t"
    using r(1) s(3) us(3) hms(7) by simp
  then show ?thesis
    unfolding fromisoformat_def n1 n2 n3 n4 n5 n6 n7 using r(2-7) hms(2,4,6) by simp
qed

end
