(* ===== verification/Domain.thy ===== *)
theory Domain
  imports Py_Time
begin

text \<open>
  The framework-free core: \<open>access.py\<close> (roles, actors, the order access rule),
  \<open>domain.py\<close> (the order aggregate and its state machine), \<open>commands.py\<close> (the
  inputs of the use cases) and \<open>events.py\<close> (domain facts and their integration
  payloads). \<open>uuid4()\<close> and \<open>datetime.now(UTC)\<close> are arguments of the
  operations that call them.
\<close>

section \<open>access.py\<close>

definition DEFAULT_TENANT_ID :: uuid where
  "DEFAULT_TENANT_ID = 1"

datatype Role = CUSTOMER | COURIER | DISPATCHER

fun role_value :: "Role \<Rightarrow> string" where
  "role_value CUSTOMER = ''customer''"
| "role_value COURIER = ''courier''"
| "role_value DISPATCHER = ''dispatcher''"

record Actor =
  a_user_id :: uuid
  a_role :: Role
  a_tenant_id :: uuid

definition actor_subject :: "Actor \<Rightarrow> string" where
  "actor_subject a = role_value (a_role a) @ '':'' @ str_uuid (a_user_id a)"

definition can_access_order :: "Actor \<Rightarrow> uuid \<Rightarrow> uuid \<Rightarrow> uuid option \<Rightarrow> bool" where
  "can_access_order actor order_tenant_id customer_id courier_id =
     (if a_tenant_id actor \<noteq> order_tenant_id then False
      else if a_role actor = DISPATCHER then True
      else if a_role actor = CUSTOMER then a_user_id actor = customer_id
      else if a_role actor = COURIER then courier_id \<noteq> None \<and> Some (a_user_id actor) = courier_id
      else False)"

section \<open>domain.py\<close>

datatype OrderStatus = CREATED | ASSIGNED | PICKED_UP | DELIVERED | CANCELLED

fun status_value :: "OrderStatus \<Rightarrow> string" where
  "status_value CREATED = ''created''"
| "status_value ASSIGNED = ''assigned''"
| "status_value PICKED_UP = ''picked_up''"
| "status_value DELIVERED = ''delivered''"
| "status_value CANCELLED = ''cancelled''"

fun ALLOWED_TRANSITIONS :: "OrderStatus \<Rightarrow> OrderStatus set" where
  "ALLOWED_TRANSITIONS CREATED = {ASSIGNED, CANCELLED}"
| "ALLOWED_TRANSITIONS ASSIGNED = {PICKED_UP, CANCELLED}"
| "ALLOWED_TRANSITIONS PICKED_UP = {DELIVERED}"
| "ALLOWED_TRANSITIONS DELIVERED = {}"
| "ALLOWED_TRANSITIONS CANCELLED = {}"

definition allows :: "OrderStatus \<Rightarrow> OrderStatus \<Rightarrow> bool" where
  "allows current target \<longleftrightarrow> target \<in> ALLOWED_TRANSITIONS current"

record DeliveryOrder =
  o_id :: uuid
  o_tenant_id :: uuid
  o_customer_id :: uuid
  o_pickup_address :: string
  o_destination_address :: string
  o_weight_grams :: int
  o_status :: OrderStatus
  o_courier_id :: "uuid option"
  o_version :: int
  o_created_at :: datetime

definition order_create ::
  "uuid \<Rightarrow> datetime \<Rightarrow> uuid \<Rightarrow> uuid \<Rightarrow> string \<Rightarrow> string \<Rightarrow> int \<Rightarrow> datetime option \<Rightarrow> DeliveryOrder result" where
  "order_create new_id now customer_id tenant_id pickup_address destination_address weight_grams created_at =
     (if \<not> (0 < weight_grams \<and> weight_grams \<le> 100000)
      then Inl (ValueError ''weight_grams must be between 1 and 100000'')
      else Inr \<lparr> o_id = new_id, o_tenant_id = tenant_id, o_customer_id = customer_id,
                 o_pickup_address = pickup_address, o_destination_address = destination_address,
                 o_weight_grams = weight_grams, o_status = CREATED, o_courier_id = None,
                 o_version = 1,
                 o_created_at = (case created_at of Some t \<Rightarrow> t | None \<Rightarrow> now) \<rparr>)"

definition order_transition :: "DeliveryOrder \<Rightarrow> OrderStatus \<Rightarrow> DeliveryOrder result" where
  "order_transition self target =
     (if \<not> allows (o_status self) target
      then Inl (InvalidTransition (status_value (o_status self)) (status_value target))
      else Inr (self \<lparr> o_status := target, o_version := o_version self + 1 \<rparr>))"

definition order_assign :: "DeliveryOrder \<Rightarrow> uuid \<Rightarrow> DeliveryOrder result" where
  "order_assign self courier_id =
     (case order_transition self ASSIGNED of
        Inl e \<Rightarrow> Inl e
      | Inr assigned \<Rightarrow> Inr (assigned \<lparr> o_courier_id := Some courier_id \<rparr>))"

text \<open>
  \<open>update_details(**changes)\<close>: the keyword arguments are a dict of \<open>str | int\<close>
  values. \<open>replace\<close> stores any value; a value of the wrong type fails where it is
  first used, \<open>.casefold()\<close> on an int or \<open>0 < ..\<close> on a str.
\<close>

datatype change_value = StrV string | IntV int

type_synonym changes = "(string \<times> change_value) list"

definition changed_text :: "changes \<Rightarrow> string \<Rightarrow> string \<Rightarrow> string result" where
  "changed_text ch key old =
     (case dict_get ch key of
        None \<Rightarrow> Inr old
      | Some (StrV v) \<Rightarrow> Inr v
      | Some (IntV _) \<Rightarrow> Inl (AttributeError ''casefold''))"

definition changed_int :: "changes \<Rightarrow> string \<Rightarrow> int \<Rightarrow> int result" where
  "changed_int ch key old =
     (case dict_get ch key of
        None \<Rightarrow> Inr old
      | Some (IntV v) \<Rightarrow> Inr v
      | Some (StrV _) \<Rightarrow> Inl (TypeError ''not supported between instances of int and str''))"

definition update_details :: "DeliveryOrder \<Rightarrow> changes \<Rightarrow> DeliveryOrder result" where
  "update_details self ch =
     (if \<not> set (map fst ch) \<subseteq> {''pickup_address'', ''destination_address'', ''weight_grams''}
      then Inl (ValueError ''unsupported order field'')
      else case changed_text ch ''pickup_address'' (o_pickup_address self) of Inl e \<Rightarrow> Inl e | Inr pickup \<Rightarrow>
      (case changed_text ch ''destination_address'' (o_destination_address self) of Inl e \<Rightarrow> Inl e | Inr destination \<Rightarrow>
      (if casefold pickup = casefold destination
       then Inl (ValueError ''pickup and destination addresses must differ'')
       else case changed_int ch ''weight_grams'' (o_weight_grams self) of Inl e \<Rightarrow> Inl e | Inr weight \<Rightarrow>
       (if \<not> (0 < weight \<and> weight \<le> 100000)
        then Inl (ValueError ''weight_grams must be between 1 and 100000'')
        else Inr (self \<lparr> o_pickup_address := pickup, o_destination_address := destination,
                         o_weight_grams := weight, o_version := o_version self + 1 \<rparr>)))))"

section \<open>commands.py\<close>

record CreateOrderCommand =
  cc_customer_id :: uuid
  cc_pickup_address :: string
  cc_destination_address :: string
  cc_weight_grams :: int

definition canonical_payload :: "CreateOrderCommand \<Rightarrow> json_object" where
  "canonical_payload c =
     [(''customer_id'', JStr (str_uuid (cc_customer_id c))),
      (''pickup_address'', JStr (cc_pickup_address c)),
      (''destination_address'', JStr (cc_destination_address c)),
      (''weight_grams'', JInt (cc_weight_grams c))]"

record UpdateOrderCommand =
  uc_pickup_address :: "string option"
  uc_destination_address :: "string option"
  uc_weight_grams :: "int option"

definition command_changes :: "UpdateOrderCommand \<Rightarrow> changes" where
  "command_changes c =
     List.map_filter (\<lambda>(name, v). map_option (\<lambda>x. (name, x)) v)
       [(''pickup_address'', map_option StrV (uc_pickup_address c)),
        (''destination_address'', map_option StrV (uc_destination_address c)),
        (''weight_grams'', map_option IntV (uc_weight_grams c))]"

record TransitionOrderCommand =
  tc_target :: OrderStatus
  tc_expected_version :: int
  tc_actor_id :: uuid
  tc_actor_role :: string
  tc_correlation_id :: string

section \<open>events.py\<close>

record OrderCreated =
  oc_event_id :: uuid
  oc_order_id :: uuid
  oc_customer_id :: uuid
  oc_tenant_id :: uuid
  oc_occurred_at :: datetime
  oc_order_version :: int

definition created_from_order :: "uuid \<Rightarrow> DeliveryOrder \<Rightarrow> OrderCreated" where
  "created_from_order new_event_id order =
     \<lparr> oc_event_id = new_event_id, oc_order_id = o_id order, oc_customer_id = o_customer_id order,
       oc_tenant_id = o_tenant_id order, oc_occurred_at = o_created_at order,
       oc_order_version = o_version order \<rparr>"

definition created_integration_payload :: "OrderCreated \<Rightarrow> json_object" where
  "created_integration_payload e =
     [(''schema_version'', JInt 1),
      (''event_id'', JStr (str_uuid (oc_event_id e))),
      (''event_type'', JStr ''order.created''),
      (''aggregate_id'', JStr (str_uuid (oc_order_id e))),
      (''aggregate_version'', JInt (oc_order_version e)),
      (''tenant_id'', JStr (str_uuid (oc_tenant_id e))),
      (''customer_id'', JStr (str_uuid (oc_customer_id e))),
      (''occurred_at'', JStr (isoformat (oc_occurred_at e)))]"

record OrderStatusChanged =
  sc_event_id :: uuid
  sc_order_id :: uuid
  sc_tenant_id :: uuid
  sc_from_status :: OrderStatus
  sc_to_status :: OrderStatus
  sc_order_version :: int
  sc_actor_id :: uuid
  sc_actor_role :: string
  sc_occurred_at :: datetime
  sc_correlation_id :: string

definition from_transition ::
  "uuid \<Rightarrow> DeliveryOrder \<Rightarrow> DeliveryOrder \<Rightarrow> uuid \<Rightarrow> string \<Rightarrow> datetime \<Rightarrow> string \<Rightarrow> OrderStatusChanged result" where
  "from_transition new_event_id before after actor_id actor_role occurred_at correlation_id =
     (if o_id before \<noteq> o_id after \<or> o_version after \<noteq> o_version before + 1
      then Inl (ValueError ''transition event requires one aggregate version step'')
      else if o_status before = o_status after
      then Inl (ValueError ''transition event requires a changed status'')
      else Inr \<lparr> sc_event_id = new_event_id, sc_order_id = o_id after, sc_tenant_id = o_tenant_id after,
                 sc_from_status = o_status before, sc_to_status = o_status after,
                 sc_order_version = o_version after, sc_actor_id = actor_id,
                 sc_actor_role = actor_role, sc_occurred_at = occurred_at,
                 sc_correlation_id = correlation_id \<rparr>)"

definition status_integration_payload :: "OrderStatusChanged \<Rightarrow> json_object" where
  "status_integration_payload e =
     [(''schema_version'', JInt 1),
      (''event_id'', JStr (str_uuid (sc_event_id e))),
      (''event_type'', JStr ''order.status_changed''),
      (''aggregate_id'', JStr (str_uuid (sc_order_id e))),
      (''aggregate_version'', JInt (sc_order_version e)),
      (''tenant_id'', JStr (str_uuid (sc_tenant_id e))),
      (''from_status'', JStr (status_value (sc_from_status e))),
      (''to_status'', JStr (status_value (sc_to_status e))),
      (''actor_id'', JStr (str_uuid (sc_actor_id e))),
      (''actor_role'', JStr (sc_actor_role e)),
      (''occurred_at'', JStr (isoformat (sc_occurred_at e))),
      (''correlation_id'', JStr (sc_correlation_id e))]"


section \<open>The order lifecycle\<close>

text \<open>
  \<open>order_ok\<close> is the well-formedness of one aggregate: the weight bound, a positive
  version that has paid for every status change so far, and no courier before the
  assignment. The operations of \<open>domain.py\<close> keep it.
\<close>

fun status_depth :: "OrderStatus \<Rightarrow> int" where
  "status_depth CREATED = 0"
| "status_depth ASSIGNED = 1"
| "status_depth PICKED_UP = 2"
| "status_depth DELIVERED = 3"
| "status_depth CANCELLED = 1"

definition order_ok :: "DeliveryOrder \<Rightarrow> bool" where
  "order_ok x \<longleftrightarrow> 0 < o_weight_grams x \<and> o_weight_grams x \<le> 100000
     \<and> 1 + status_depth (o_status x) \<le> o_version x
     \<and> (o_status x = CREATED \<longrightarrow> o_courier_id x = None)"

inductive order_evolves :: "DeliveryOrder \<Rightarrow> DeliveryOrder \<Rightarrow> bool" where
  transition: "order_transition x target = Inr y \<Longrightarrow> order_evolves x y"
| assign: "order_assign x courier = Inr y \<Longrightarrow> order_evolves x y"
| update: "update_details x ch = Inr y \<Longrightarrow> order_evolves x y"

lemma allows_simps [simp]:
  "allows CREATED t \<longleftrightarrow> t = ASSIGNED \<or> t = CANCELLED"
  "allows ASSIGNED t \<longleftrightarrow> t = PICKED_UP \<or> t = CANCELLED"
  "allows PICKED_UP t \<longleftrightarrow> t = DELIVERED"
  "allows DELIVERED t \<longleftrightarrow> False"
  "allows CANCELLED t \<longleftrightarrow> False"
  by (auto simp: allows_def)

lemma allows_neq: "allows s t \<Longrightarrow> s \<noteq> t"
  by (cases s) auto

lemma allows_not_created: "allows s t \<Longrightarrow> t \<noteq> CREATED"
  by (cases s) auto

lemma allows_depth: "allows s t \<Longrightarrow> status_depth t \<le> status_depth s + 1"
  by (cases s) auto

lemma allows_assigned: "allows s ASSIGNED \<longleftrightarrow> s = CREATED"
  by (cases s) auto

lemma order_transition_Inr:
  "order_transition x target = Inr y \<longleftrightarrow>
     allows (o_status x) target \<and> y = x \<lparr> o_status := target, o_version := o_version x + 1 \<rparr>"
  by (auto simp: order_transition_def)

lemma order_assign_Inr:
  "order_assign x c = Inr y \<longleftrightarrow>
     o_status x = CREATED \<and>
     y = x \<lparr> o_status := ASSIGNED, o_version := o_version x + 1, o_courier_id := Some c \<rparr>"
  by (auto simp: order_assign_def order_transition_def allows_assigned split: sum.splits if_splits)

lemma update_details_Inr:
  assumes "update_details x ch = Inr y"
  shows "o_id y = o_id x" "o_tenant_id y = o_tenant_id x" "o_customer_id y = o_customer_id x"
    "o_status y = o_status x" "o_courier_id y = o_courier_id x" "o_created_at y = o_created_at x"
    "o_version y = o_version x + 1" "0 < o_weight_grams y" "o_weight_grams y \<le> 100000"
    "casefold (o_pickup_address y) \<noteq> casefold (o_destination_address y)"
  using assms by (auto simp: update_details_def split: if_splits sum.splits)

lemma order_create_Inr:
  "order_create i now c t p d w (Some tm) = Inr y \<longleftrightarrow>
     0 < w \<and> w \<le> 100000 \<and>
     y = \<lparr> o_id = i, o_tenant_id = t, o_customer_id = c, o_pickup_address = p,
           o_destination_address = d, o_weight_grams = w, o_status = CREATED,
           o_courier_id = None, o_version = 1, o_created_at = tm \<rparr>"
  by (auto simp: order_create_def)

lemma order_create_ok: "order_create i now c t p d w tm = Inr y \<Longrightarrow> order_ok y"
  by (auto simp: order_create_def order_ok_def split: if_splits)

lemma order_transition_ok: "order_transition x t = Inr y \<Longrightarrow> order_ok x \<Longrightarrow> order_ok y"
  using allows_depth [of "o_status x" t] allows_not_created [of "o_status x" t]
  by (auto simp: order_transition_Inr order_ok_def)

lemma order_assign_ok: "order_assign x c = Inr y \<Longrightarrow> order_ok x \<Longrightarrow> order_ok y"
  by (auto simp: order_assign_Inr order_ok_def)

lemma update_details_ok: "update_details x ch = Inr y \<Longrightarrow> order_ok x \<Longrightarrow> order_ok y"
  using update_details_Inr [of x ch y] by (auto simp: order_ok_def)

lemmas order_ops_ok = order_create_ok order_transition_ok order_assign_ok update_details_ok

lemma order_evolves_ok: "order_evolves x y \<Longrightarrow> order_ok x \<Longrightarrow> order_ok y"
  by (induction rule: order_evolves.induct) (auto intro: order_ops_ok)

lemma order_evolves_frame:
  assumes "order_evolves x y"
  shows "o_id y = o_id x" "o_tenant_id y = o_tenant_id x" "o_customer_id y = o_customer_id x"
    "o_created_at y = o_created_at x" "o_version y = o_version x + 1"
    "o_status y = o_status x \<or> allows (o_status x) (o_status y)"
  using assms
  by (induction rule: order_evolves.induct)
    (auto simp: order_transition_Inr order_assign_Inr dest: update_details_Inr)

lemma order_evolves_star:
  assumes "order_evolves\<^sup>*\<^sup>* x y"
  shows "o_id y = o_id x \<and> o_tenant_id y = o_tenant_id x \<and> o_customer_id y = o_customer_id x
    \<and> o_created_at y = o_created_at x \<and> o_version x \<le> o_version y"
  using assms by (induction rule: rtranclp_induct) (auto simp: order_evolves_frame)

lemma from_transition_Inr:
  "from_transition ev x y a r tm cid = Inr e \<longleftrightarrow>
     o_id x = o_id y \<and> o_version y = o_version x + 1 \<and> o_status x \<noteq> o_status y \<and>
     e = \<lparr> sc_event_id = ev, sc_order_id = o_id y, sc_tenant_id = o_tenant_id y,
           sc_from_status = o_status x, sc_to_status = o_status y,
           sc_order_version = o_version y, sc_actor_id = a, sc_actor_role = r,
           sc_occurred_at = tm, sc_correlation_id = cid \<rparr>"
  by (auto simp: from_transition_def)

text \<open>The audit trail of an order read as a run of the state machine.\<close>

fun replay :: "OrderStatus \<Rightarrow> OrderStatusChanged list \<Rightarrow> OrderStatus option" where
  "replay s [] = Some s"
| "replay s (e # es) =
     (if sc_from_status e = s \<and> allows s (sc_to_status e) then replay (sc_to_status e) es else None)"

lemma replay_snoc:
  "replay s es = Some t \<Longrightarrow> sc_from_status e = t \<Longrightarrow> allows t (sc_to_status e) \<Longrightarrow>
   replay s (es @ [e]) = Some (sc_to_status e)"
  by (induction es arbitrary: s) (auto split: if_splits)

fun steps_left :: "OrderStatus \<Rightarrow> nat" where
  "steps_left CREATED = 3"
| "steps_left ASSIGNED = 2"
| "steps_left PICKED_UP = 1"
| "steps_left DELIVERED = 0"
| "steps_left CANCELLED = 0"

lemma allows_steps_left: "allows s t \<Longrightarrow> steps_left t < steps_left s"
  by (cases s) auto

lemma replay_length: "replay s es = Some t \<Longrightarrow> length es + steps_left t \<le> steps_left s"
proof (induction es arbitrary: s)
  case (Cons e es)
  then have "length es + steps_left t \<le> steps_left (sc_to_status e)"
    and "allows s (sc_to_status e)"
    by (auto split: if_splits)
  then show ?case using allows_steps_left [of s "sc_to_status e"] by simp
qed simp

lemma status_value_inject [simp]: "status_value s = status_value t \<longleftrightarrow> s = t"
  by (cases s; cases t) auto

lemma role_value_inject [simp]: "role_value r = role_value q \<longleftrightarrow> r = q"
  by (cases r; cases q) auto

end
