(* ===== verification/Order_Port.thy ===== *)
theory Order_Port
  imports Domain
begin

text \<open>
  \<open>ports.py\<close>: the repository port of the application layer as a record of operations
  over an arbitrary storage state, and the contract an adapter promises. The contract is
  stated over an \<open>OrderBook\<close>, the storage-independent view of what is stored: the
  orders by id, the transition history, the outbox messages of the order use cases and the
  remembered replies. \<open>book_ok\<close> is the consistency of a book.
\<close>

section \<open>ports.py\<close>

record 's OrderRepository =
  repo_add :: "DeliveryOrder \<Rightarrow> ('s, unit) action"
  repo_get :: "uuid \<Rightarrow> ('s, DeliveryOrder option) action"
  repo_list :: "int \<Rightarrow> int \<Rightarrow> ('s, DeliveryOrder list) action"
  repo_list_visible ::
    "string \<Rightarrow> uuid \<Rightarrow> int \<Rightarrow> int \<Rightarrow> string \<Rightarrow> string option \<Rightarrow> uuid \<Rightarrow> ('s, DeliveryOrder list) action"
  repo_save :: "DeliveryOrder \<Rightarrow> int \<Rightarrow> ('s, unit) action"
  repo_save_transition :: "DeliveryOrder \<Rightarrow> int \<Rightarrow> OrderStatusChanged \<Rightarrow> ('s, unit) action"
  repo_claim_next_created_order ::
    "uuid \<Rightarrow> datetime \<Rightarrow> uuid \<Rightarrow> uuid \<Rightarrow> datetime option \<Rightarrow> string \<Rightarrow> ('s, DeliveryOrder option) action"
  repo_idempotent_order :: "string \<Rightarrow> string \<Rightarrow> ('s, DeliveryOrder option) action"
  repo_remember_idempotency :: "datetime \<Rightarrow> string \<Rightarrow> string \<Rightarrow> DeliveryOrder \<Rightarrow> ('s, unit) action"
  repo_record_created_event :: "OrderCreated \<Rightarrow> ('s, unit) action"


section \<open>What is stored, independently of the adapter\<close>

record OrderBook =
  view :: "uuid \<Rightarrow> DeliveryOrder option"
  trail :: "OrderStatusChanged list"
  messages :: "json_object list"
  replies :: "string \<Rightarrow> (string \<times> DeliveryOrder) option"

definition trail_of :: "uuid \<Rightarrow> OrderBook \<Rightarrow> OrderStatusChanged list" where
  "trail_of i b = filter (\<lambda>e. sc_order_id e = i) (trail b)"

definition is_status_message :: "json_object \<Rightarrow> bool" where
  "is_status_message m \<longleftrightarrow> dict_get m ''event_type'' = Some (JStr ''order.status_changed'')"

text \<open>
  The audit trail of an order agrees with the order: its events are steps of the state
  machine from \<open>CREATED\<close> to the stored status, their versions increase up to the stored
  version, and they belong to the order's tenant.
\<close>

definition trail_ok :: "DeliveryOrder \<Rightarrow> OrderStatusChanged list \<Rightarrow> bool" where
  "trail_ok x es \<longleftrightarrow> replay CREATED es = Some (o_status x)
     \<and> sorted_wrt (<) (map sc_order_version es)
     \<and> (\<forall>e \<in> set es. sc_order_version e \<le> o_version x \<and> sc_tenant_id e = o_tenant_id x)"

definition book_ok :: "OrderBook \<Rightarrow> bool" where
  "book_ok b \<longleftrightarrow>
     (\<forall>i x. view b i = Some x \<longrightarrow> o_id x = i \<and> order_ok x \<and> trail_ok x (trail_of i b))
     \<and> (\<forall>i. view b i = None \<longrightarrow> trail_of i b = [])
     \<and> map status_integration_payload (trail b) = filter is_status_message (messages b)"

definition empty_book :: OrderBook where
  "empty_book = \<lparr> view = (\<lambda>_. None), trail = [], messages = [], replies = (\<lambda>_. None) \<rparr>"

definition put_order :: "DeliveryOrder \<Rightarrow> OrderBook \<Rightarrow> OrderBook" where
  "put_order x b = b \<lparr> view := (view b)(o_id x \<mapsto> x) \<rparr>"

definition put_event :: "OrderStatusChanged \<Rightarrow> OrderBook \<Rightarrow> OrderBook" where
  "put_event e b = b \<lparr> trail := trail b @ [e], messages := messages b @ [status_integration_payload e] \<rparr>"

definition put_message :: "json_object \<Rightarrow> OrderBook \<Rightarrow> OrderBook" where
  "put_message m b = b \<lparr> messages := messages b @ [m] \<rparr>"

definition put_reply :: "string \<Rightarrow> string \<Rightarrow> DeliveryOrder \<Rightarrow> OrderBook \<Rightarrow> OrderBook" where
  "put_reply scope fp x b = b \<lparr> replies := (replies b)(scope \<mapsto> (fp, x)) \<rparr>"

lemmas put_defs = put_order_def put_event_def put_message_def put_reply_def

lemma is_status_message_payload [simp]:
  "is_status_message (status_integration_payload e)"
  "\<not> is_status_message (created_integration_payload c)"
  by (simp_all add: is_status_message_def status_integration_payload_def
      created_integration_payload_def)

lemma trail_of_put [simp]:
  "trail_of i (put_order x b) = trail_of i b"
  "trail_of i (put_message m b) = trail_of i b"
  "trail_of i (put_reply sc fp x b) = trail_of i b"
  "trail_of i (put_event e b) = trail_of i b @ (if sc_order_id e = i then [e] else [])"
  by (simp_all add: trail_of_def put_defs)

lemma view_put [simp]:
  "view (put_order x b) = (view b)(o_id x \<mapsto> x)" "view (put_event e b) = view b"
  "view (put_message m b) = view b" "view (put_reply sc fp x b) = view b"
  by (simp_all add: put_defs)

lemma replies_put [simp]:
  "replies (put_order x b) = replies b" "replies (put_event e b) = replies b"
  "replies (put_message m b) = replies b"
  "replies (put_reply sc fp x b) = (replies b)(sc \<mapsto> (fp, x))"
  by (simp_all add: put_defs)

lemma trail_put [simp]:
  "trail (put_order x b) = trail b" "trail (put_event e b) = trail b @ [e]"
  "trail (put_message m b) = trail b" "trail (put_reply sc fp x b) = trail b"
  by (simp_all add: put_defs)

lemma messages_put [simp]:
  "messages (put_order x b) = messages b"
  "messages (put_event e b) = messages b @ [status_integration_payload e]"
  "messages (put_message m b) = messages b @ [m]" "messages (put_reply sc fp x b) = messages b"
  by (simp_all add: put_defs)

section \<open>Consistency is kept by the changes the use cases make\<close>

lemma book_ok_empty: "book_ok empty_book"
  by (simp add: book_ok_def empty_book_def trail_of_def)

lemma book_okD:
  assumes "book_ok b" "view b i = Some x"
  shows "o_id x = i" "order_ok x" "trail_ok x (trail_of i b)"
  using assms by (auto simp: book_ok_def)

lemma book_ok_put_new:
  assumes "book_ok b" "view b (o_id x) = None" "order_ok x" "o_status x = CREATED"
  shows "book_ok (put_order x b)"
  using assms by (auto simp: book_ok_def trail_ok_def)

lemma book_ok_put_details:
  assumes "book_ok b" "view b (o_id x) = Some c" "order_ok x" "o_status x = o_status c"
    "o_version c \<le> o_version x" "o_tenant_id x = o_tenant_id c"
  shows "book_ok (put_order x b)"
proof -
  have "trail_ok x (trail_of (o_id x) b)"
    using book_okD(3) [OF assms(1,2)] assms(4-6) unfolding trail_ok_def by fastforce
  then show ?thesis using assms unfolding book_ok_def by auto
qed

lemma trail_ok_snoc:
  assumes "trail_ok c es" "sc_from_status e = o_status c" "sc_to_status e = o_status x"
    "sc_order_version e = o_version x" "sc_tenant_id e = o_tenant_id x"
    "allows (o_status c) (o_status x)" "o_version c < o_version x" "o_tenant_id x = o_tenant_id c"
  shows "trail_ok x (es @ [e])"
proof -
  have "replay CREATED (es @ [e]) = Some (sc_to_status e)"
    using assms by (intro replay_snoc) (auto simp: trail_ok_def)
  then show ?thesis using assms by (fastforce simp: trail_ok_def sorted_wrt_append)
qed

lemma book_ok_put_transition:
  assumes "book_ok b" "view b (o_id x) = Some c" "order_ok x"
    "from_transition ev c x a r tm cid = Inr e" "allows (o_status c) (o_status x)"
    "o_tenant_id x = o_tenant_id c"
  shows "book_ok (put_event e (put_order x b))"
proof -
  have "trail_ok x (trail_of (o_id x) b @ [e])"
    using assms book_okD(3) [OF assms(1,2)]
    by (intro trail_ok_snoc) (auto simp: from_transition_Inr)
  then show ?thesis
    using assms unfolding book_ok_def by (auto simp: from_transition_Inr)
qed

lemma book_ok_put_message:
  "book_ok b \<Longrightarrow> \<not> is_status_message m \<Longrightarrow> book_ok (put_message m b)"
  by (simp add: book_ok_def)

lemma book_ok_put_reply: "book_ok b \<Longrightarrow> book_ok (put_reply sc fp x b)"
  by (simp add: book_ok_def)

lemmas book_ok_put = book_ok_put_new book_ok_put_details book_ok_put_transition
  book_ok_put_message book_ok_put_reply


section \<open>Growth of a book\<close>

text \<open>
  Between two states of a book orders only evolve through the domain operations, the audit
  trail and the messages only grow at the end, and a remembered reply never changes.
\<close>

definition book_extends :: "OrderBook \<Rightarrow> OrderBook \<Rightarrow> bool" where
  "book_extends b b' \<longleftrightarrow>
     (\<forall>i c. view b i = Some c \<longrightarrow> (\<exists>c'. view b' i = Some c' \<and> order_evolves\<^sup>*\<^sup>* c c'))
     \<and> (\<exists>es. trail b' = trail b @ es) \<and> (\<exists>ms. messages b' = messages b @ ms)
     \<and> replies b \<subseteq>\<^sub>m replies b'"

lemma book_extends_refl [simp]: "book_extends b b"
  by (simp add: book_extends_def)

lemma book_extends_trans:
  assumes "book_extends a b" "book_extends b c"
  shows "book_extends a c"
proof -
  have "\<exists>y. view c i = Some y \<and> order_evolves\<^sup>*\<^sup>* x y" if "view a i = Some x" for i x
    using assms that unfolding book_extends_def by (meson rtranclp_trans)
  then show ?thesis
    using assms unfolding book_extends_def by (auto intro: map_le_trans)
qed

lemma book_extends_put:
  assumes "view b (o_id x) = Some c" "order_evolves c x"
  shows "book_extends b (put_order x b)"
  using assms by (auto simp: book_extends_def)

lemma book_extends_new: "view b (o_id x) = None \<Longrightarrow> book_extends b (put_order x b)"
  by (auto simp: book_extends_def)

lemma book_extends_add:
  "book_extends b (put_event e b)" "book_extends b (put_message m b)"
  "replies b sc = None \<Longrightarrow> book_extends b (put_reply sc fp x b)"
  by (auto simp: book_extends_def map_le_def dom_def)

lemmas book_extends_rules = book_extends_put book_extends_new book_extends_add

section \<open>The contract of a repository adapter\<close>

text \<open>
  \<open>book\<close> reads an adapter's state as an order book, \<open>ok\<close> is the adapter's own
  invariant and \<open>taken\<close> the event identifiers it already stores. \<open>storable\<close>,
  \<open>fits\<close> and \<open>fits_event\<close> describe the values its columns hold. An adapter
  promises how the book changes when an operation succeeds (the \<open>_law\<close>s), and that
  operations on storable values succeed (the \<open>_progress\<close> laws); what an operation that
  raises has written belongs to the surrounding transaction.
\<close>

locale order_port =
  fixes repo :: "'s OrderRepository"
    and book :: "'s \<Rightarrow> OrderBook"
    and ok :: "'s \<Rightarrow> bool"
    and taken :: "'s \<Rightarrow> uuid set"
    and storable :: "DeliveryOrder \<Rightarrow> bool"
    and fits :: "string \<Rightarrow> bool"
    and fits_event :: "OrderStatusChanged \<Rightarrow> bool"
  assumes get_law: "ok s \<Longrightarrow> repo_get repo i s = (Inr (view (book s) i), s)"
    and add_law: "ok s \<Longrightarrow> view (book s) (o_id x) = None \<Longrightarrow> order_ok x \<Longrightarrow> o_courier_id x = None \<Longrightarrow>
      book_ok (book s) \<Longrightarrow> repo_add repo x s = (Inr (), s') \<Longrightarrow>
      ok s' \<and> taken s' = taken s \<and> book s' = put_order x (book s)"
    and add_progress: "ok s \<Longrightarrow> view (book s) (o_id x) = None \<Longrightarrow> order_ok x \<Longrightarrow> storable x \<Longrightarrow>
      fst (repo_add repo x s) = Inr ()"
    and save_law: "ok s \<Longrightarrow> view (book s) (o_id x) = Some c \<Longrightarrow> order_ok x \<Longrightarrow>
      order_evolves c x \<Longrightarrow> o_courier_id x = o_courier_id c \<Longrightarrow>
      repo_save repo x (o_version c) s = (Inr (), s') \<Longrightarrow>
      ok s' \<and> taken s' = taken s \<and> book s' = put_order x (book s)"
    and save_progress: "ok s \<Longrightarrow> view (book s) (o_id x) = Some c \<Longrightarrow> order_ok x \<Longrightarrow>
      order_evolves c x \<Longrightarrow> o_courier_id x = o_courier_id c \<Longrightarrow> storable x \<Longrightarrow>
      fst (repo_save repo x (o_version c) s) = Inr ()"
    and save_conflict: "ok s \<Longrightarrow> o_version x = v + 1 \<Longrightarrow>
      map_option o_version (view (book s) (o_id x)) \<noteq> Some v \<Longrightarrow>
      repo_save repo x v s = (Inl (ConcurrentUpdate ''optimistic version conflict''), s)"
    and save_transition_law: "ok s \<Longrightarrow> view (book s) (o_id x) = Some c \<Longrightarrow> order_ok x \<Longrightarrow>
      order_evolves c x \<Longrightarrow> from_transition ev c x a r tm cid = Inr e \<Longrightarrow> ev \<notin> taken s \<Longrightarrow>
      book_ok (book s) \<Longrightarrow> repo_save_transition repo x (o_version c) e s = (Inr (), s') \<Longrightarrow>
      ok s' \<and> taken s' \<subseteq> insert ev (taken s) \<and> book s' = put_event e (put_order x (book s))"
    and save_transition_progress: "ok s \<Longrightarrow> view (book s) (o_id x) = Some c \<Longrightarrow> order_ok x \<Longrightarrow>
      order_evolves c x \<Longrightarrow> from_transition ev c x a r tm cid = Inr e \<Longrightarrow> ev \<notin> taken s \<Longrightarrow>
      book_ok (book s) \<Longrightarrow> o_courier_id x = o_courier_id c \<Longrightarrow> storable x \<Longrightarrow> fits_event e \<Longrightarrow>
      fst (repo_save_transition repo x (o_version c) e s) = Inr ()"
    and claim_law: "ok s \<Longrightarrow>
      repo_claim_next_created_order repo ev now k t (Some tm) cid s = (Inr (Some y), s') \<Longrightarrow>
      ev \<notin> taken s \<Longrightarrow> book_ok (book s) \<Longrightarrow>
      \<exists>c e. view (book s) (o_id c) = Some c \<and> o_tenant_id c = t \<and> order_assign c k = Inr y
        \<and> (\<forall>i d. view (book s) i = Some d \<and> o_tenant_id d = t \<and> o_status d = CREATED \<longrightarrow>
              (o_created_at c, o_id c) \<le> (o_created_at d, o_id d))
        \<and> from_transition ev c y k ''courier'' tm cid = Inr e
        \<and> ok s' \<and> taken s' \<subseteq> insert ev (taken s)
        \<and> book s' = put_event e (put_order y (book s))"
    and claim_none: "ok s \<Longrightarrow>
      repo_claim_next_created_order repo ev now k t tmo cid s = (Inr None, s') \<Longrightarrow>
      s' = s \<and> (\<forall>i d. view (book s) i = Some d \<and> o_tenant_id d = t \<longrightarrow> o_status d \<noteq> CREATED)"
    and idempotent_law: "ok s \<Longrightarrow> repo_idempotent_order repo scope fp s =
      (case replies (book s) scope of
         None \<Rightarrow> (Inr None, s)
       | Some (fp', x) \<Rightarrow>
           if fp' \<noteq> fp
           then (Inl (IdempotencyConflict ''idempotency key was already used for another request''), s)
           else (Inr (Some x), s))"
    and remember_law: "ok s \<Longrightarrow> replies (book s) scope = None \<Longrightarrow> valid_datetime (o_created_at x) \<Longrightarrow>
      repo_remember_idempotency repo now scope fp x s = (Inr (), s') \<Longrightarrow>
      ok s' \<and> taken s' = taken s \<and> book s' = put_reply scope fp x (book s)"
    and remember_progress: "ok s \<Longrightarrow> replies (book s) scope = None \<Longrightarrow> fits scope \<Longrightarrow>
      fst (repo_remember_idempotency repo now scope fp x s) = Inr ()"
    and record_created_law: "ok s \<Longrightarrow> oc_event_id created \<notin> taken s \<Longrightarrow>
      repo_record_created_event repo created s = (Inr (), s') \<Longrightarrow>
      ok s' \<and> taken s' \<subseteq> insert (oc_event_id created) (taken s)
        \<and> book s' = put_message (created_integration_payload created) (book s)"
    and record_created_progress: "ok s \<Longrightarrow> oc_event_id created \<notin> taken s \<Longrightarrow>
      fst (repo_record_created_event repo created s) = Inr ()"

text \<open>
  An atomic adapter also leaves its state alone when an operation raises, without a
  transaction around it.
\<close>

locale atomic_order_port = order_port +
  assumes save_frame: "ok s \<Longrightarrow> repo_save repo x v s = (Inl err, s') \<Longrightarrow> s' = s"
    and save_transition_frame: "ok s \<Longrightarrow> repo_save_transition repo x v e s = (Inl err, s') \<Longrightarrow> s' = s"
    and claim_frame: "ok s \<Longrightarrow>
      repo_claim_next_created_order repo ev now k t tmo cid s = (Inl err, s') \<Longrightarrow> s' = s"

end
