(* ===== verification/Order_Store.thy ===== *)
theory Order_Store
  imports Order_Port
begin

text \<open>
  \<open>InMemoryOrderRepository\<close> of \<open>repository.py\<close>: the adapter of the repository
  port that keeps dicts and lists in the process, and the proof that it meets the
  contract of \<open>Order_Port\<close>.
\<close>

section \<open>The in-memory adapter\<close>

record InMemoryOrderRepository =
  orders :: "(uuid \<times> DeliveryOrder) list"
  idempotency :: "(string \<times> (string \<times> DeliveryOrder)) list"
  outbox :: "json_object list"
  transition_history :: "OrderStatusChanged list"

definition empty_store :: InMemoryOrderRepository where
  "empty_store = \<lparr> orders = [], idempotency = [], outbox = [], transition_history = [] \<rparr>"

definition mem_add :: "DeliveryOrder \<Rightarrow> (InMemoryOrderRepository, unit) action" where
  "mem_add order s = (Inr (), s \<lparr> orders := dict_set (o_id order) order (orders s) \<rparr>)"

definition mem_get :: "uuid \<Rightarrow> (InMemoryOrderRepository, DeliveryOrder option) action" where
  "mem_get order_id s = (Inr (dict_get (orders s) order_id), s)"

definition mem_list :: "int \<Rightarrow> int \<Rightarrow> (InMemoryOrderRepository, DeliveryOrder list) action" where
  "mem_list limit offset s = (Inr (py_slice offset (offset + limit) (values_of (orders s))), s)"

definition visible_to :: "string \<Rightarrow> uuid \<Rightarrow> uuid \<Rightarrow> DeliveryOrder \<Rightarrow> bool" where
  "visible_to role actor_id tenant_id order \<longleftrightarrow>
     o_tenant_id order = tenant_id \<and>
     (role = ''dispatcher''
      \<or> (role = ''customer'' \<and> o_customer_id order = actor_id)
      \<or> (role = ''courier'' \<and> o_courier_id order = Some actor_id))"

definition sort_orders :: "string \<Rightarrow> DeliveryOrder list \<Rightarrow> DeliveryOrder list" where
  "sort_orders sort_by xs =
     (if sort_by = ''status'' then sort_key (\<lambda>x. (status_value (o_status x), o_id x)) xs
      else sort_key (\<lambda>x. (o_created_at x, o_id x)) xs)"

definition mem_list_visible ::
  "string \<Rightarrow> uuid \<Rightarrow> int \<Rightarrow> int \<Rightarrow> string \<Rightarrow> string option \<Rightarrow> uuid
   \<Rightarrow> (InMemoryOrderRepository, DeliveryOrder list) action" where
  "mem_list_visible role actor_id limit offset sort_by status_filter tenant_id s =
     (if sort_by \<notin> {''created_at'', ''status''} then (Inl (ValueError ''unsupported sort field''), s)
      else let visible = filter (visible_to role actor_id tenant_id) (values_of (orders s));
               visible = (case status_filter of
                            None \<Rightarrow> visible
                          | Some f \<Rightarrow> filter (\<lambda>x. status_value (o_status x) = f) visible);
               visible = sort_orders sort_by visible
           in (Inr (py_slice offset (offset + limit) visible), s))"

definition mem_save :: "DeliveryOrder \<Rightarrow> int \<Rightarrow> (InMemoryOrderRepository, unit) action" where
  "mem_save order expected_version s =
     (case dict_get (orders s) (o_id order) of
        None \<Rightarrow> (Inl (ConcurrentUpdate ''optimistic version conflict''), s)
      | Some current \<Rightarrow>
          if o_version current \<noteq> expected_version
          then (Inl (ConcurrentUpdate ''optimistic version conflict''), s)
          else if o_version order \<noteq> expected_version + 1
          then (Inl (ValueError ''domain state must advance version exactly once''), s)
          else (Inr (), s \<lparr> orders := dict_set (o_id order) order (orders s) \<rparr>))"

definition mem_save_transition ::
  "DeliveryOrder \<Rightarrow> int \<Rightarrow> OrderStatusChanged \<Rightarrow> (InMemoryOrderRepository, unit) action" where
  "mem_save_transition order expected_version event =
     andThen (check (\<not> (sc_order_id event \<noteq> o_id order \<or> sc_order_version event \<noteq> o_version order))
               (ValueError ''transition event does not describe the persisted order'')) (\<lambda>_.
     andThen (mem_save order expected_version) (\<lambda>_ s.
       (Inr (), s \<lparr> transition_history := transition_history s @ [event],
                   outbox := outbox s @ [status_integration_payload event] \<rparr>)))"

definition courier_busy :: "uuid \<Rightarrow> uuid \<Rightarrow> DeliveryOrder \<Rightarrow> bool" where
  "courier_busy tenant_id courier_id order \<longleftrightarrow>
     o_tenant_id order = tenant_id \<and> o_courier_id order = Some courier_id
     \<and> status_value (o_status order) \<in> {''assigned'', ''picked_up''}"

definition claim_candidates :: "uuid \<Rightarrow> DeliveryOrder list \<Rightarrow> DeliveryOrder list" where
  "claim_candidates tenant_id xs =
     sort_key (\<lambda>x. (o_created_at x, o_id x))
       (filter (\<lambda>x. o_tenant_id x = tenant_id \<and> status_value (o_status x) = ''created'') xs)"

definition mem_claim_next_created_order ::
  "uuid \<Rightarrow> datetime \<Rightarrow> uuid \<Rightarrow> uuid \<Rightarrow> datetime option \<Rightarrow> string
   \<Rightarrow> (InMemoryOrderRepository, DeliveryOrder option) action" where
  "mem_claim_next_created_order new_event_id now courier_id tenant_id occurred_at correlation_id s =
     (if list_ex (courier_busy tenant_id courier_id) (values_of (orders s))
      then (Inl (CourierAlreadyBusy ''courier already has an active assignment''), s)
      else case claim_candidates tenant_id (values_of (orders s)) of
        [] \<Rightarrow> (Inr None, s)
      | candidate # _ \<Rightarrow>
          (case order_assign candidate courier_id of
             Inl e \<Rightarrow> (Inl e, s)
           | Inr claimed \<Rightarrow>
               let s1 = s \<lparr> orders := dict_set (o_id claimed) claimed (orders s) \<rparr>
               in (case from_transition new_event_id candidate claimed courier_id ''courier''
                          (case occurred_at of Some t \<Rightarrow> t | None \<Rightarrow> now) correlation_id of
                     Inl e \<Rightarrow> (Inl e, s1)
                   | Inr event \<Rightarrow>
                       (Inr (Some claimed),
                        s1 \<lparr> transition_history := transition_history s1 @ [event],
                             outbox := outbox s1 @ [status_integration_payload event] \<rparr>))))"

definition mem_idempotent_order ::
  "string \<Rightarrow> string \<Rightarrow> (InMemoryOrderRepository, DeliveryOrder option) action" where
  "mem_idempotent_order scope request_fingerprint s =
     (case dict_get (idempotency s) scope of
        None \<Rightarrow> (Inr None, s)
      | Some (saved_fingerprint, response_snapshot) \<Rightarrow>
          if saved_fingerprint \<noteq> request_fingerprint
          then (Inl (IdempotencyConflict ''idempotency key was already used for another request''), s)
          else (Inr (Some response_snapshot), s))"

definition mem_remember_idempotency ::
  "datetime \<Rightarrow> string \<Rightarrow> string \<Rightarrow> DeliveryOrder \<Rightarrow> (InMemoryOrderRepository, unit) action" where
  "mem_remember_idempotency now scope request_fingerprint order s =
     (Inr (), s \<lparr> idempotency := dict_set scope (request_fingerprint, order) (idempotency s) \<rparr>)"

definition mem_record_created_event :: "OrderCreated \<Rightarrow> (InMemoryOrderRepository, unit) action" where
  "mem_record_created_event event s =
     (Inr (), s \<lparr> outbox := outbox s @ [created_integration_payload event] \<rparr>)"

definition in_memory_repository :: "InMemoryOrderRepository OrderRepository" where
  "in_memory_repository =
     \<lparr> repo_add = mem_add, repo_get = mem_get, repo_list = mem_list,
       repo_list_visible = mem_list_visible, repo_save = mem_save,
       repo_save_transition = mem_save_transition,
       repo_claim_next_created_order = mem_claim_next_created_order,
       repo_idempotent_order = mem_idempotent_order,
       repo_remember_idempotency = mem_remember_idempotency,
       repo_record_created_event = mem_record_created_event \<rparr>"


section \<open>The adapter meets the contract\<close>

definition mem_book :: "InMemoryOrderRepository \<Rightarrow> OrderBook" where
  "mem_book s = \<lparr> view = map_of (orders s), trail = transition_history s, messages = outbox s,
                  replies = map_of (idempotency s) \<rparr>"

definition mem_ok :: "InMemoryOrderRepository \<Rightarrow> bool" where
  "mem_ok s \<longleftrightarrow> dict_ok (orders s) \<and> dict_ok (idempotency s) \<and> (\<forall>(i, x) \<in> set (orders s). o_id x = i)"

lemma mem_book_simps [simp]:
  "view (mem_book s) = map_of (orders s)" "trail (mem_book s) = transition_history s"
  "messages (mem_book s) = outbox s" "replies (mem_book s) = map_of (idempotency s)"
  by (simp_all add: mem_book_def)

lemma in_memory_repository_simps [simp]:
  "repo_add in_memory_repository = mem_add" "repo_get in_memory_repository = mem_get"
  "repo_list in_memory_repository = mem_list"
  "repo_list_visible in_memory_repository = mem_list_visible"
  "repo_save in_memory_repository = mem_save"
  "repo_save_transition in_memory_repository = mem_save_transition"
  "repo_claim_next_created_order in_memory_repository = mem_claim_next_created_order"
  "repo_idempotent_order in_memory_repository = mem_idempotent_order"
  "repo_remember_idempotency in_memory_repository = mem_remember_idempotency"
  "repo_record_created_event in_memory_repository = mem_record_created_event"
  by (simp_all add: in_memory_repository_def)

lemma mem_ok_empty [simp]: "mem_ok empty_store"
  by (simp add: mem_ok_def empty_store_def)

lemma mem_ok_put: "mem_ok s \<Longrightarrow> mem_ok (s \<lparr> orders := dict_set (o_id x) x (orders s) \<rparr>)"
  by (auto simp: mem_ok_def dest!: set_dict_set [THEN subsetD])

lemma mem_ok_id: "mem_ok s \<Longrightarrow> map_of (orders s) i = Some x \<Longrightarrow> o_id x = i"
  by (auto simp: mem_ok_def dest: map_of_SomeD)

lemma mem_ok_value:
  "mem_ok s \<Longrightarrow> x \<in> set (values_of (orders s)) \<longleftrightarrow> map_of (orders s) (o_id x) = Some x"
  by (force simp: mem_ok_def)


lemma mem_save_cases:
  "mem_save x v s =
     (if map_option o_version (map_of (orders s) (o_id x)) \<noteq> Some v
      then (Inl (ConcurrentUpdate ''optimistic version conflict''), s)
      else if o_version x \<noteq> v + 1
      then (Inl (ValueError ''domain state must advance version exactly once''), s)
      else (Inr (), s \<lparr> orders := dict_set (o_id x) x (orders s) \<rparr>))"
  by (auto simp: mem_save_def split: option.splits)

lemma claim_candidates_Cons:
  assumes "mem_ok s" "claim_candidates t (values_of (orders s)) = c # cs"
  shows "map_of (orders s) (o_id c) = Some c" "o_tenant_id c = t" "o_status c = CREATED"
    "map_of (orders s) i = Some d \<Longrightarrow> o_tenant_id d = t \<Longrightarrow> o_status d = CREATED \<Longrightarrow>
     (o_created_at c, o_id c) \<le> (o_created_at d, o_id d)"
proof -
  let ?f = "\<lambda>x. o_tenant_id x = t \<and> status_value (o_status x) = ''created''"
  have st: "status_value s = ''created'' \<longleftrightarrow> s = CREATED" for s by (cases s) auto
  note srt = assms(2) [unfolded claim_candidates_def]
  from sort_key_hd_in [OF srt] show "map_of (orders s) (o_id c) = Some c" "o_tenant_id c = t"
    "o_status c = CREATED"
    using mem_ok_value [OF assms(1)] by (auto simp: st)
  assume d: "map_of (orders s) i = Some d" "o_tenant_id d = t" "o_status d = CREATED"
  then have "d \<in> set (filter ?f (values_of (orders s)))"
    using mem_ok_value [OF assms(1), of d] mem_ok_id [OF assms(1)] by (auto simp: st)
  with srt show "(o_created_at c, o_id c) \<le> (o_created_at d, o_id d)"
    using sort_key_hd_le [of "\<lambda>x. (o_created_at x, o_id x)" "filter ?f (values_of (orders s))" c cs d]
    by simp
qed

lemma claim_candidates_Nil:
  assumes "mem_ok s" "claim_candidates t (values_of (orders s)) = []"
    "map_of (orders s) i = Some d" "o_tenant_id d = t"
  shows "o_status d \<noteq> CREATED"
proof
  assume "o_status d = CREATED"
  moreover have "d \<in> set (values_of (orders s))"
    using assms(3) mem_ok_value [OF assms(1), of d] mem_ok_id [OF assms(1,3)] by simp
  ultimately show False using assms(2,4) by (auto simp: claim_candidates_def filter_empty_conv)
qed

text \<open>A claim either refuses, finds nothing, or stores the least candidate with its event.\<close>

lemma mem_claim_cases:
  assumes "mem_ok s"
  shows "mem_claim_next_created_order ev now k t tmo cid s =
     (if list_ex (courier_busy t k) (values_of (orders s))
      then (Inl (CourierAlreadyBusy ''courier already has an active assignment''), s)
      else case claim_candidates t (values_of (orders s)) of
        [] \<Rightarrow> (Inr None, s)
      | c # _ \<Rightarrow>
         let y = c \<lparr> o_status := ASSIGNED, o_version := o_version c + 1, o_courier_id := Some k \<rparr>;
             e = \<lparr> sc_event_id = ev, sc_order_id = o_id c, sc_tenant_id = o_tenant_id c,
                   sc_from_status = CREATED, sc_to_status = ASSIGNED,
                   sc_order_version = o_version c + 1, sc_actor_id = k,
                   sc_actor_role = ''courier'', sc_occurred_at = (case tmo of Some t \<Rightarrow> t | None \<Rightarrow> now),
                   sc_correlation_id = cid \<rparr>
         in (Inr (Some y), s \<lparr> orders := dict_set (o_id y) y (orders s),
                               transition_history := transition_history s @ [e],
                               outbox := outbox s @ [status_integration_payload e] \<rparr>))"
proof (cases "claim_candidates t (values_of (orders s))")
  case Nil
  then show ?thesis by (simp add: mem_claim_next_created_order_def)
next
  case (Cons c cs)
  then have "o_status c = CREATED" by (rule claim_candidates_Cons(3) [OF assms])
  with Cons show ?thesis
    by (simp add: mem_claim_next_created_order_def order_assign_def order_transition_def
        from_transition_def Let_def)
qed

lemma mem_book_put:
  "mem_book (s \<lparr> orders := dict_set (o_id x) x (orders s) \<rparr>) = put_order x (mem_book s)"
  by (simp add: mem_book_def put_order_def)

lemma mem_book_put_event:
  "mem_book (s \<lparr> transition_history := transition_history s @ [e],
               outbox := outbox s @ [status_integration_payload e] \<rparr>) = put_event e (mem_book s)"
  by (simp add: mem_book_def put_event_def)


lemma mem_ok_put_event [simp]:
  "mem_ok (s \<lparr> transition_history := h, outbox := m \<rparr>) \<longleftrightarrow> mem_ok s"
  by (simp add: mem_ok_def)

lemma mem_save_transition_ok:
  assumes "mem_ok s" "map_of (orders s) (o_id x) = Some c" "o_version x = o_version c + 1"
    "sc_order_id e = o_id x" "sc_order_version e = o_version x"
  shows "\<exists>s'. mem_save_transition x (o_version c) e s = (Inr (), s') \<and> mem_ok s'
           \<and> mem_book s' = put_event e (put_order x (mem_book s))"
proof -
  let ?s1 = "s \<lparr> orders := dict_set (o_id x) x (orders s) \<rparr>"
  let ?s2 = "?s1 \<lparr> transition_history := transition_history ?s1 @ [e],
                   outbox := outbox ?s1 @ [status_integration_payload e] \<rparr>"
  have "mem_save x (o_version c) s = (Inr (), ?s1)"
    using assms by (simp add: mem_save_cases)
  then have "mem_save_transition x (o_version c) e s = (Inr (), ?s2)"
    using assms(4,5) by (simp add: mem_save_transition_def andThen_def check_def)
  moreover have "mem_book ?s2 = put_event e (put_order x (mem_book s))"
    by (simp only: mem_book_put_event mem_book_put)
  moreover have "mem_ok ?s2" using mem_ok_put [OF assms(1), of x] by simp
  ultimately show ?thesis by blast
qed

lemma mem_claim_Some:
  assumes "mem_ok s" "mem_claim_next_created_order ev now k t (Some tm) cid s = (Inr (Some y), s')"
  shows "\<exists>c e. map_of (orders s) (o_id c) = Some c \<and> o_tenant_id c = t \<and> order_assign c k = Inr y
        \<and> (\<forall>i d. map_of (orders s) i = Some d \<and> o_tenant_id d = t \<and> o_status d = CREATED \<longrightarrow>
              (o_created_at c, o_id c) \<le> (o_created_at d, o_id d))
        \<and> from_transition ev c y k ''courier'' tm cid = Inr e
        \<and> mem_ok s' \<and> mem_book s' = put_event e (put_order y (mem_book s))"
proof -
  from assms obtain c cs where cs: "claim_candidates t (values_of (orders s)) = c # cs"
    by (auto simp: mem_claim_cases split: if_splits list.splits)
  note c = claim_candidates_Cons [OF assms(1) cs]
  let ?y = "c \<lparr> o_status := ASSIGNED, o_version := o_version c + 1, o_courier_id := Some k \<rparr>"
  let ?e = "\<lparr> sc_event_id = ev, sc_order_id = o_id c, sc_tenant_id = o_tenant_id c,
              sc_from_status = CREATED, sc_to_status = ASSIGNED,
              sc_order_version = o_version c + 1, sc_actor_id = k, sc_actor_role = ''courier'',
              sc_occurred_at = tm, sc_correlation_id = cid \<rparr>"
  let ?s1 = "s \<lparr> orders := dict_set (o_id ?y) ?y (orders s) \<rparr>"
  have y: "y = ?y" and s': "s' = ?s1 \<lparr> transition_history := transition_history ?s1 @ [?e],
      outbox := outbox ?s1 @ [status_integration_payload ?e] \<rparr>"
    using assms(2) cs by (auto simp: mem_claim_cases [OF assms(1)] Let_def split: if_splits)
  have "mem_book s' = put_event ?e (put_order ?y (mem_book s))"
    unfolding s' by (simp only: mem_book_put_event mem_book_put)
  moreover have "mem_ok s'"
    unfolding s' using mem_ok_put [OF assms(1), of ?y] by simp
  moreover have "order_assign c k = Inr y" "from_transition ev c y k ''courier'' tm cid = Inr ?e"
    using c(3) unfolding y by (simp_all add: order_assign_Inr from_transition_def)
  ultimately show ?thesis using c(1,2,4) unfolding y by blast
qed

interpretation mem: atomic_order_port in_memory_repository mem_book mem_ok "\<lambda>_. {}"
  "\<lambda>_. True" "\<lambda>_. True" "\<lambda>_. True"
proof (unfold_locales, goal_cases)
  case (1 s i)
  then show ?case by (simp add: mem_get_def)
next
  case (2 s x s')
  then show ?case by (auto simp: mem_add_def mem_ok_put mem_book_put)
next
  case (3 s x)
  then show ?case by (simp add: mem_add_def)
next
  case (4 s x c s')
  then have "o_version x = o_version c + 1" by (simp add: order_evolves_frame(5))
  with 4 show ?case by (auto simp: mem_save_cases mem_ok_put mem_book_put)
next
  case (5 s x c)
  then have "o_version x = o_version c + 1" by (simp add: order_evolves_frame(5))
  with 5 show ?case by (simp add: mem_save_cases)
next
  case (6 s x v)
  then show ?case by (simp add: mem_save_cases)
next
  case (7 s x c ev a r tm cid e s')
  then show ?case using mem_save_transition_ok [of s x c e]
    by (fastforce simp: from_transition_Inr)
next
  case (8 s x c ev a r tm cid e)
  then show ?case using mem_save_transition_ok [of s x c e]
    by (fastforce simp: from_transition_Inr)
next
  case (9 s ev now k t tm cid y s')
  then show ?case using mem_claim_Some [of s ev now k t tm cid y s']
    by (simp only: mem_book_simps in_memory_repository_simps empty_subsetI simp_thms)
next
  case (10 s ev now k t tmo cid s')
  then show ?case
    by (auto simp: mem_claim_cases Let_def claim_candidates_Nil split: if_splits list.splits)
next
  case (11 s scope fp)
  then show ?case by (simp add: mem_idempotent_order_def split: option.splits)
next
  case (12 s scope x now fp s')
  then show ?case
    by (auto simp: mem_remember_idempotency_def mem_ok_def mem_book_def put_reply_def)
next
  case (13 s scope now fp x)
  then show ?case by (simp add: mem_remember_idempotency_def)
next
  case (14 s created s')
  then show ?case
    by (auto simp: mem_record_created_event_def mem_ok_def mem_book_def put_message_def)
next
  case (15 s created)
  then show ?case by (simp add: mem_record_created_event_def)
next
  case (16 s x v err s')
  then show ?case by (auto simp: mem_save_cases split: if_splits)
next
  case (17 s x v e err s')
  then show ?case
    by (auto simp: mem_save_transition_def mem_save_cases andThen_def check_def split: if_splits)
next
  case (18 s ev now k t tmo cid err s')
  then show ?case
    by (auto simp: mem_claim_cases Let_def split: if_splits list.splits)
qed

end
