(* ===== verification/Sha256.thy ===== *)
theory Sha256
  imports Py_Text
begin

unbundle bit_operations_syntax

text \<open>
  \<open>hashlib.sha256\<close> and \<open>hmac\<close> as FIPS 180-4 and RFC 2104 define them, on byte
  strings (a \<open>string\<close> whose characters are the bytes). The service uses the digests
  as fingerprints and signatures; the lemmas give the shape of a digest, 64 hexadecimal
  digits.
\<close>

type_synonym u32 = "32 word"

definition sha_K :: "u32 list" where
  "sha_K =
    [0x428a2f98, 0x71374491, 0xb5c0fbcf, 0xe9b5dba5, 0x3956c25b, 0x59f111f1, 0x923f82a4, 0xab1c5ed5,
     0xd807aa98, 0x12835b01, 0x243185be, 0x550c7dc3, 0x72be5d74, 0x80deb1fe, 0x9bdc06a7, 0xc19bf174,
     0xe49b69c1, 0xefbe4786, 0x0fc19dc6, 0x240ca1cc, 0x2de92c6f, 0x4a7484aa, 0x5cb0a9dc, 0x76f988da,
     0x983e5152, 0xa831c66d, 0xb00327c8, 0xbf597fc7, 0xc6e00bf3, 0xd5a79147, 0x06ca6351, 0x14292967,
     0x27b70a85, 0x2e1b2138, 0x4d2c6dfc, 0x53380d13, 0x650a7354, 0x766a0abb, 0x81c2c92e, 0x92722c85,
     0xa2bfe8a1, 0xa81a664b, 0xc24b8b70, 0xc76c51a3, 0xd192e819, 0xd6990624, 0xf40e3585, 0x106aa070,
     0x19a4c116, 0x1e376c08, 0x2748774c, 0x34b0bcb5, 0x391c0cb3, 0x4ed8aa4a, 0x5b9cca4f, 0x682e6ff3,
     0x748f82ee, 0x78a5636f, 0x84c87814, 0x8cc70208, 0x90befffa, 0xa4506ceb, 0xbef9a3f7, 0xc67178f2]"

record sha_state =
  sh_a :: u32  sh_b :: u32  sh_c :: u32  sh_d :: u32
  sh_e :: u32  sh_f :: u32  sh_g :: u32  sh_h :: u32

definition sha_H0 :: sha_state where
  "sha_H0 = \<lparr> sh_a = 0x6a09e667, sh_b = 0xbb67ae85, sh_c = 0x3c6ef372, sh_d = 0xa54ff53a,
              sh_e = 0x510e527f, sh_f = 0x9b05688c, sh_g = 0x1f83d9ab, sh_h = 0x5be0cd19 \<rparr>"

definition rotr :: "nat \<Rightarrow> u32 \<Rightarrow> u32" where
  "rotr n x = drop_bit n x OR push_bit (32 - n) x"

definition sha_round :: "u32 \<times> u32 \<Rightarrow> sha_state \<Rightarrow> sha_state" where
  "sha_round kw s =
     (let e = sh_e s; a = sh_a s;
          s1 = rotr 6 e XOR rotr 11 e XOR rotr 25 e;
          ch = (e AND sh_f s) XOR (NOT e AND sh_g s);
          t1 = sh_h s + s1 + ch + fst kw + snd kw;
          s0 = rotr 2 a XOR rotr 13 a XOR rotr 22 a;
          maj = (a AND sh_b s) XOR (a AND sh_c s) XOR (sh_b s AND sh_c s);
          t2 = s0 + maj
      in \<lparr> sh_a = t1 + t2, sh_b = a, sh_c = sh_b s, sh_d = sh_c s,
           sh_e = sh_d s + t1, sh_f = e, sh_g = sh_f s, sh_h = sh_g s \<rparr>)"

text \<open>The message schedule, newest word first.\<close>

definition sha_next :: "u32 list \<Rightarrow> u32" where
  "sha_next ws =
     (let w2 = ws ! 1; w15 = ws ! 14;
          s0 = rotr 7 w15 XOR rotr 18 w15 XOR drop_bit 3 w15;
          s1 = rotr 17 w2 XOR rotr 19 w2 XOR drop_bit 10 w2
      in ws ! 15 + s0 + ws ! 6 + s1)"

primrec sha_extend :: "nat \<Rightarrow> u32 list \<Rightarrow> u32 list" where
  "sha_extend 0 ws = ws"
| "sha_extend (Suc n) ws = sha_extend n (sha_next ws # ws)"

definition sha_block :: "u32 list \<Rightarrow> sha_state \<Rightarrow> sha_state" where
  "sha_block block s =
     (let r = fold sha_round (zip sha_K (rev (sha_extend 48 (rev block)))) s
      in \<lparr> sh_a = sh_a s + sh_a r, sh_b = sh_b s + sh_b r, sh_c = sh_c s + sh_c r,
           sh_d = sh_d s + sh_d r, sh_e = sh_e s + sh_e r, sh_f = sh_f s + sh_f r,
           sh_g = sh_g s + sh_g r, sh_h = sh_h s + sh_h r \<rparr>)"

primrec bytes_be :: "nat \<Rightarrow> nat \<Rightarrow> nat list" where
  "bytes_be 0 n = []"
| "bytes_be (Suc w) n = bytes_be w (n div 256) @ [n mod 256]"

definition sha_pad :: "string \<Rightarrow> nat list" where
  "sha_pad msg =
     (let n = length msg; zeros = (119 - n mod 64) mod 64
      in map code msg @ [128] @ replicate zeros 0 @ bytes_be 8 (8 * n))"

fun sha_words :: "nat list \<Rightarrow> u32 list" where
  "sha_words (a # b # c # d # rest) =
     word_of_nat (((a * 256 + b) * 256 + c) * 256 + d) # sha_words rest"
| "sha_words _ = []"

fun sha_blocks :: "u32 list \<Rightarrow> sha_state \<Rightarrow> sha_state" where
  "sha_blocks ws s = (if ws = [] then s else sha_blocks (drop 16 ws) (sha_block (take 16 ws) s))"

declare sha_blocks.simps [simp del]

definition sha256_words :: "string \<Rightarrow> u32 list" where
  "sha256_words msg =
     (let s = sha_blocks (sha_words (sha_pad msg)) sha_H0
      in [sh_a s, sh_b s, sh_c s, sh_d s, sh_e s, sh_f s, sh_g s, sh_h s])"

definition sha256_hexdigest :: "string \<Rightarrow> string" where
  "sha256_hexdigest msg = concat (map (\<lambda>w. hex_fixed 8 (unat w)) (sha256_words msg))"

definition sha256_digest :: "string \<Rightarrow> string" where
  "sha256_digest msg =
     concat (map (\<lambda>w. map char_of (bytes_be 4 (unat w))) (sha256_words msg))"

section \<open>HMAC-SHA256\<close>

definition hmac_pad :: "string \<Rightarrow> nat \<Rightarrow> string" where
  "hmac_pad key byte =
     (let k = (if length key > 64 then sha256_digest key else key);
          block = map code k @ replicate (64 - length k) 0
      in map (\<lambda>b. char_of (b XOR byte)) block)"

definition hmac_input :: "string \<Rightarrow> string \<Rightarrow> string" where
  "hmac_input key msg = hmac_pad key 0x5C @ sha256_digest (hmac_pad key 0x36 @ msg)"

definition hmac_sha256 :: "string \<Rightarrow> string \<Rightarrow> string" where
  "hmac_sha256 key msg = sha256_digest (hmac_input key msg)"

definition hmac_sha256_hex :: "string \<Rightarrow> string \<Rightarrow> string" where
  "hmac_sha256_hex key msg = sha256_hexdigest (hmac_input key msg)"

section \<open>Shape of a digest\<close>

lemma length_sha256_hexdigest [simp]: "length (sha256_hexdigest m) = 64"
  by (simp add: sha256_hexdigest_def sha256_words_def Let_def)

lemma set_sha256_hexdigest: "c \<in> set (sha256_hexdigest m) \<Longrightarrow> \<exists>d < 16. c = digit_char d"
  by (auto simp: sha256_hexdigest_def dest: set_hex_fixed)

lemma length_hmac_sha256_hex [simp]: "length (hmac_sha256_hex k m) = 64"
  by (simp add: hmac_sha256_hex_def)

end
