(* ===== verification/Order_Service.thy ===== *)
theory Order_Service
  imports Order_Store Sha256
begin

text \<open>
  \<open>service.py\<close>: the use cases of \<open>OrderService\<close> over any adapter of the
  repository port. The clock reading, the identifiers that \<open>uuid4()\<close> draws and the
  adapter are arguments. The lemmas about the use cases are proved once, in the context of
  the port's contract, and hold for every adapter that meets it.
\<close>

section \<open>service.py\<close>

definition idempotency_scope :: "uuid \<Rightarrow> uuid \<Rightarrow> string \<Rightarrow> string" where
  "idempotency_scope tenant_id customer_id key =
     ''create_order:'' @ str_uuid tenant_id @ '':'' @ str_uuid customer_id @ '':'' @ key"

text \<open>The payload holds strings and an int only, so no float is ever printed.\<close>

definition canonical_request :: "CreateOrderCommand \<Rightarrow> string" where
  "canonical_request command = json_dumps (\<lambda>_. []) (JObj (sort_keys (canonical_payload command)))"

definition request_fingerprint :: "CreateOrderCommand \<Rightarrow> string" where
  "request_fingerprint command = sha256_hexdigest (canonical_request command)"

text \<open>What the process draws for one call: fresh identifiers, \<open>clock.now()\<close> and \<open>datetime.now(UTC)\<close>.\<close>

record draws =
  d_order_id :: uuid
  d_event_id :: uuid
  d_clock :: datetime
  d_now :: datetime

definition place_order ::
  "'s OrderRepository \<Rightarrow> draws \<Rightarrow> CreateOrderCommand \<Rightarrow> uuid \<Rightarrow> (string \<times> string) option
   \<Rightarrow> ('s, DeliveryOrder) action" where
  "place_order repo d command tenant_id scope_and_fingerprint =
     andThen (lift_result (order_create (d_order_id d) (d_now d) (cc_customer_id command) tenant_id
                (cc_pickup_address command) (cc_destination_address command)
                (cc_weight_grams command) (Some (d_clock d)))) (\<lambda>order.
     andThen (repo_add repo order) (\<lambda>_.
     andThen (repo_record_created_event repo (created_from_order (d_event_id d) order)) (\<lambda>_.
     (case scope_and_fingerprint of
        None \<Rightarrow> ret order
      | Some (scope, fingerprint) \<Rightarrow>
          andThen (repo_remember_idempotency repo (d_now d) scope fingerprint order) (\<lambda>_.
          ret order)))))"

definition service_create ::
  "'s OrderRepository \<Rightarrow> draws \<Rightarrow> CreateOrderCommand \<Rightarrow> string option \<Rightarrow> uuid \<Rightarrow> ('s, DeliveryOrder) action" where
  "service_create repo d command idempotency_key tenant_id =
     (if idempotency_key = None \<or> idempotency_key = Some ''''
      then place_order repo d command tenant_id None
      else let scope = idempotency_scope tenant_id (cc_customer_id command) (the idempotency_key);
               fingerprint = request_fingerprint command
           in andThen (repo_idempotent_order repo scope fingerprint) (\<lambda>existing.
              (case existing of
                 Some order \<Rightarrow> ret order
               | None \<Rightarrow> place_order repo d command tenant_id (Some (scope, fingerprint)))))"

definition service_get :: "'s OrderRepository \<Rightarrow> uuid \<Rightarrow> ('s, DeliveryOrder) action" where
  "service_get repo order_id =
     andThen (repo_get repo order_id) (\<lambda>order.
     (case order of None \<Rightarrow> raise (OrderNotFound order_id) | Some x \<Rightarrow> ret x))"

definition service_list :: "'s OrderRepository \<Rightarrow> int \<Rightarrow> int \<Rightarrow> ('s, DeliveryOrder list) action" where
  "service_list repo limit offset = repo_list repo limit offset"

definition service_list_visible ::
  "'s OrderRepository \<Rightarrow> string \<Rightarrow> uuid \<Rightarrow> int \<Rightarrow> int \<Rightarrow> string \<Rightarrow> string option \<Rightarrow> uuid
   \<Rightarrow> ('s, DeliveryOrder list) action" where
  "service_list_visible repo role actor_id limit offset sort_by status_filter tenant_id =
     repo_list_visible repo role actor_id limit offset sort_by status_filter tenant_id"

definition service_assign ::
  "'s OrderRepository \<Rightarrow> draws \<Rightarrow> uuid \<Rightarrow> uuid \<Rightarrow> ('s, DeliveryOrder) action" where
  "service_assign repo d order_id courier_id =
     andThen (service_get repo order_id) (\<lambda>current.
     andThen (lift_result (order_assign current courier_id)) (\<lambda>updated.
     andThen (lift_result (from_transition (d_event_id d) current updated courier_id ''courier''
                (d_clock d) ''assignment'')) (\<lambda>event.
     andThen (repo_save_transition repo updated (o_version current) event) (\<lambda>_.
     ret updated))))"

definition service_claim_next ::
  "'s OrderRepository \<Rightarrow> draws \<Rightarrow> uuid \<Rightarrow> uuid \<Rightarrow> string \<Rightarrow> ('s, DeliveryOrder option) action" where
  "service_claim_next repo d courier_id tenant_id correlation_id =
     repo_claim_next_created_order repo (d_event_id d) (d_now d) courier_id tenant_id
       (Some (d_clock d)) correlation_id"

definition service_update ::
  "'s OrderRepository \<Rightarrow> uuid \<Rightarrow> UpdateOrderCommand \<Rightarrow> int \<Rightarrow> ('s, DeliveryOrder) action" where
  "service_update repo order_id command expected_version =
     andThen (service_get repo order_id) (\<lambda>current.
     andThen (check (o_version current = expected_version)
               (ConcurrentUpdate ''optimistic version conflict'')) (\<lambda>_.
     andThen (lift_result (update_details current (command_changes command))) (\<lambda>updated.
     andThen (repo_save repo updated expected_version) (\<lambda>_.
     ret updated))))"

definition service_transition ::
  "'s OrderRepository \<Rightarrow> draws \<Rightarrow> uuid \<Rightarrow> TransitionOrderCommand \<Rightarrow> ('s, DeliveryOrder) action" where
  "service_transition repo d order_id command =
     andThen (service_get repo order_id) (\<lambda>current.
     andThen (check (o_version current = tc_expected_version command)
               (ConcurrentUpdate ''optimistic version conflict'')) (\<lambda>_.
     andThen (lift_result (order_transition current (tc_target command))) (\<lambda>updated.
     andThen (lift_result (from_transition (d_event_id d) current updated (tc_actor_id command)
                (tc_actor_role command) (d_clock d) (tc_correlation_id command))) (\<lambda>event.
     andThen (repo_save_transition repo updated (tc_expected_version command) event) (\<lambda>_.
     ret updated)))))"


section \<open>The use cases under the port's contract\<close>

text \<open>One completed use case; identifiers are drawn fresh.\<close>

inductive use_case :: "'s OrderRepository \<Rightarrow> ('s \<Rightarrow> uuid set) \<Rightarrow> 's \<Rightarrow> 's \<Rightarrow> bool"
  for repo :: "'s OrderRepository" and taken :: "'s \<Rightarrow> uuid set" where
  create: "service_create repo d command key tenant s = (Inr x, s') \<Longrightarrow>
    fst (repo_get repo (d_order_id d) s) = Inr None \<Longrightarrow> d_event_id d \<notin> taken s \<Longrightarrow>
    valid_datetime (d_clock d) \<Longrightarrow> use_case repo taken s s'"
| assign: "service_assign repo d i courier s = (Inr x, s') \<Longrightarrow> d_event_id d \<notin> taken s \<Longrightarrow>
    use_case repo taken s s'"
| claim: "service_claim_next repo d courier tenant cid s = (Inr r, s') \<Longrightarrow> d_event_id d \<notin> taken s \<Longrightarrow>
    use_case repo taken s s'"
| update: "service_update repo i ucommand v s = (Inr x, s') \<Longrightarrow> use_case repo taken s s'"
| transition: "service_transition repo d i tcommand s = (Inr x, s') \<Longrightarrow> d_event_id d \<notin> taken s \<Longrightarrow>
    use_case repo taken s s'"

text \<open>The refusals of the two guarded use cases, read off a book.\<close>

definition transition_refusal :: "OrderBook \<Rightarrow> uuid \<Rightarrow> TransitionOrderCommand \<Rightarrow> exn option" where
  "transition_refusal b i k =
     (case view b i of
        None \<Rightarrow> Some (OrderNotFound i)
      | Some c \<Rightarrow>
          if o_version c \<noteq> tc_expected_version k then Some (ConcurrentUpdate ''optimistic version conflict'')
          else if \<not> allows (o_status c) (tc_target k)
          then Some (InvalidTransition (status_value (o_status c)) (status_value (tc_target k)))
          else None)"

definition update_refusal :: "OrderBook \<Rightarrow> uuid \<Rightarrow> UpdateOrderCommand \<Rightarrow> int \<Rightarrow> exn option" where
  "update_refusal b i k v =
     (case view b i of
        None \<Rightarrow> Some (OrderNotFound i)
      | Some c \<Rightarrow>
          if o_version c \<noteq> v then Some (ConcurrentUpdate ''optimistic version conflict'')
          else (case update_details c (command_changes k) of Inl e \<Rightarrow> Some e | Inr _ \<Rightarrow> None))"

context order_port
begin

lemma service_get_eq:
  "ok s \<Longrightarrow> service_get repo i s =
     (case view (book s) i of None \<Rightarrow> (Inl (OrderNotFound i), s) | Some x \<Rightarrow> (Inr x, s))"
  by (simp add: service_get_def andThen_def get_law ret_def raise_def split: option.splits)

lemma service_transition_done:
  assumes "ok s" "book_ok (book s)" "d_event_id d \<notin> taken s"
    "service_transition repo d i k s = (Inr y, s')"
  shows "\<exists>c e. view (book s) i = Some c \<and> o_version c = tc_expected_version k
    \<and> order_transition c (tc_target k) = Inr y
    \<and> from_transition (d_event_id d) c y (tc_actor_id k) (tc_actor_role k) (d_clock d)
        (tc_correlation_id k) = Inr e
    \<and> ok s' \<and> taken s' \<subseteq> insert (d_event_id d) (taken s)
    \<and> book s' = put_event e (put_order y (book s))"
proof -
  from assms(1,4) obtain c e where c: "view (book s) i = Some c" "o_version c = tc_expected_version k"
    "order_transition c (tc_target k) = Inr y"
    "from_transition (d_event_id d) c y (tc_actor_id k) (tc_actor_role k) (d_clock d)
      (tc_correlation_id k) = Inr e"
    and s': "repo_save_transition repo y (o_version c) e s = (Inr (), s')"
    by (auto simp: service_transition_def service_get_eq split: option.splits)
  have "view (book s) (o_id y) = Some c" "order_ok y" "order_evolves c y"
    using book_okD(1,2) [OF assms(2) c(1)] c order_transition_ok [OF c(3)] order_evolves.transition [OF c(3)]
    by (auto simp: order_transition_Inr)
  from save_transition_law [OF assms(1) this c(4) assms(3,2) s'] c show ?thesis by blast
qed

lemma service_transition_accepted:
  assumes "ok s" "book_ok (book s)" "d_event_id d \<notin> taken s"
    "view (book s) i = Some c" "o_version c = tc_expected_version k"
    "y = c \<lparr> o_status := tc_target k, o_version := o_version c + 1 \<rparr>"
    "from_transition (d_event_id d) c y (tc_actor_id k) (tc_actor_role k) (d_clock d)
       (tc_correlation_id k) = Inr e"
    "allows (o_status c) (tc_target k)" "storable y" "fits_event e"
  shows "fst (service_transition repo d i k s) = Inr y"
proof -
  have y: "order_transition c (tc_target k) = Inr y" using assms(6,8) by (simp add: order_transition_Inr)
  have c: "o_id c = i" "order_ok c" using book_okD [OF assms(2,4)] by auto
  have pre: "view (book s) (o_id y) = Some c" "order_ok y" "order_evolves c y"
    "o_courier_id y = o_courier_id c"
    using assms(4,6) c order_transition_ok [OF y c(2)] order_evolves.transition [OF y] by simp_all
  obtain s' where s': "repo_save_transition repo y (o_version c) e s = (Inr (), s')"
    using save_transition_progress [OF assms(1) pre(1-3) assms(7,3,2) pre(4) assms(9,10)]
    by (metis prod.collapse)
  then show ?thesis
    using assms(1,4,5,7) y
    by (simp add: service_transition_def andThen_def service_get_eq check_def lift_result_def ret_def)
qed

lemma service_transition_refused:
  assumes "ok s"
  shows "view (book s) i = None \<Longrightarrow> service_transition repo d i k s = (Inl (OrderNotFound i), s)"
    "view (book s) i = Some c \<Longrightarrow> o_version c \<noteq> tc_expected_version k \<Longrightarrow>
     service_transition repo d i k s = (Inl (ConcurrentUpdate ''optimistic version conflict''), s)"
    "view (book s) i = Some c \<Longrightarrow> o_version c = tc_expected_version k \<Longrightarrow>
     \<not> allows (o_status c) (tc_target k) \<Longrightarrow>
     service_transition repo d i k s =
       (Inl (InvalidTransition (status_value (o_status c)) (status_value (tc_target k))), s)"
  using assms
  by (simp_all add: service_transition_def andThen_def service_get_eq check_def lift_result_def
      order_transition_def)

lemma service_update_done:
  assumes "ok s" "book_ok (book s)" "service_update repo i k v s = (Inr y, s')"
  shows "\<exists>c. view (book s) i = Some c \<and> o_version c = v \<and> update_details c (command_changes k) = Inr y
    \<and> ok s' \<and> taken s' = taken s \<and> book s' = put_order y (book s)"
proof -
  from assms(1,3) obtain c where c: "view (book s) i = Some c" "o_version c = v"
    "update_details c (command_changes k) = Inr y" and s': "repo_save repo y (o_version c) s = (Inr (), s')"
    by (auto simp: service_update_def service_get_eq split: option.splits)
  note y = update_details_Inr [OF c(3)]
  have "view (book s) (o_id y) = Some c" "order_ok y" "order_evolves c y"
    using y c book_okD [OF assms(2) c(1)] update_details_ok [OF c(3)] order_evolves.update [OF c(3)]
    by simp_all
  from save_law [OF assms(1) this y(5) s'] c show ?thesis by blast
qed

lemma service_update_refused:
  assumes "ok s"
  shows "view (book s) i = None \<Longrightarrow> service_update repo i k v s = (Inl (OrderNotFound i), s)"
    "view (book s) i = Some c \<Longrightarrow> o_version c \<noteq> v \<Longrightarrow>
     service_update repo i k v s = (Inl (ConcurrentUpdate ''optimistic version conflict''), s)"
    "view (book s) i = Some c \<Longrightarrow> o_version c = v \<Longrightarrow>
     update_details c (command_changes k) = Inl e \<Longrightarrow> service_update repo i k v s = (Inl e, s)"
  using assms
  by (simp_all add: service_update_def andThen_def service_get_eq check_def lift_result_def)

lemma service_refusals:
  assumes "ok s"
  shows "transition_refusal (book s) i k = Some e \<Longrightarrow> service_transition repo d i k s = (Inl e, s)"
    "update_refusal (book s) i u v = Some e \<Longrightarrow> service_update repo i u v s = (Inl e, s)"
  using service_transition_refused [OF assms] service_update_refused [OF assms]
  by (auto simp: transition_refusal_def update_refusal_def split: option.splits if_splits sum.splits)

lemma service_update_accepted:
  assumes "ok s" "book_ok (book s)" "view (book s) i = Some c" "o_version c = v"
    "update_details c (command_changes u) = Inr y" "storable y"
  shows "fst (service_update repo i u v s) = Inr y"
proof -
  note y = update_details_Inr [OF assms(5)]
  have pre: "view (book s) (o_id y) = Some c" "order_ok y" "order_evolves c y"
    using y assms(3) book_okD [OF assms(2,3)] update_details_ok [OF assms(5)] order_evolves.update [OF assms(5)]
    by simp_all
  from save_progress [OF assms(1) this y(5) assms(6)]
  obtain s' where "repo_save repo y (o_version c) s = (Inr (), s')" by (metis prod.collapse)
  with assms show ?thesis
    by (simp add: service_update_def andThen_def service_get_eq check_def lift_result_def ret_def)
qed

text \<open>A storable change that is not refused is made.\<close>

lemma service_accepts:
  assumes "ok s" "book_ok (book s)"
  shows "transition_refusal (book s) i k = None \<Longrightarrow> d_event_id d \<notin> taken s \<Longrightarrow>
      (\<And>x. storable x) \<Longrightarrow> (\<And>e. fits_event e) \<Longrightarrow> \<exists>y. fst (service_transition repo d i k s) = Inr y"
    and "update_refusal (book s) i u v = None \<Longrightarrow> (\<And>x. storable x) \<Longrightarrow>
      \<exists>y. fst (service_update repo i u v s) = Inr y"
proof -
  assume "transition_refusal (book s) i k = None" and a: "d_event_id d \<notin> taken s" "\<And>x. storable x" "\<And>e. fits_event e"
  then obtain c where c: "view (book s) i = Some c" "o_version c = tc_expected_version k"
    "allows (o_status c) (tc_target k)" by (auto simp: transition_refusal_def split: option.splits if_splits)
  let ?y = "c \<lparr> o_status := tc_target k, o_version := o_version c + 1 \<rparr>"
  obtain e where "from_transition (d_event_id d) c ?y (tc_actor_id k) (tc_actor_role k) (d_clock d)
      (tc_correlation_id k) = Inr e" using allows_neq [OF c(3)] by (simp add: from_transition_def)
  from service_transition_accepted [OF assms a(1) c(1,2) refl this c(3) a(2,3)]
  show "\<exists>y. fst (service_transition repo d i k s) = Inr y" by blast
next
  assume "update_refusal (book s) i u v = None" and "\<And>x. storable x"
  then show "\<exists>y. fst (service_update repo i u v s) = Inr y"
    using service_update_accepted [OF assms]
    by (auto simp: update_refusal_def split: option.splits if_splits sum.splits)
qed

lemma service_assign_done:
  assumes "ok s" "book_ok (book s)" "d_event_id d \<notin> taken s"
    "service_assign repo d i k s = (Inr y, s')"
  shows "\<exists>c e. view (book s) i = Some c \<and> order_assign c k = Inr y
    \<and> from_transition (d_event_id d) c y k ''courier'' (d_clock d) ''assignment'' = Inr e
    \<and> ok s' \<and> taken s' \<subseteq> insert (d_event_id d) (taken s)
    \<and> book s' = put_event e (put_order y (book s))"
proof -
  from assms(1,4) obtain c e where c: "view (book s) i = Some c" "order_assign c k = Inr y"
    "from_transition (d_event_id d) c y k ''courier'' (d_clock d) ''assignment'' = Inr e"
    and s': "repo_save_transition repo y (o_version c) e s = (Inr (), s')"
    by (auto simp: service_assign_def service_get_eq split: option.splits)
  have "view (book s) (o_id y) = Some c" "order_ok y" "order_evolves c y"
    using book_okD(1,2) [OF assms(2) c(1)] c order_assign_ok [OF c(2)] order_evolves.assign [OF c(2)]
    by (auto simp: order_assign_Inr)
  from save_transition_law [OF assms(1) this c(3) assms(3,2) s'] c show ?thesis by blast
qed

lemma place_order_done:
  assumes "ok s" "book_ok (book s)" "view (book s) (d_order_id d) = None" "d_event_id d \<notin> taken s"
    "valid_datetime (d_clock d)" "case sf of None \<Rightarrow> True | Some (sc, fp) \<Rightarrow> replies (book s) sc = None"
    "place_order repo d k t sf s = (Inr x, s')"
  shows "order_create (d_order_id d) (d_now d) (cc_customer_id k) t (cc_pickup_address k)
        (cc_destination_address k) (cc_weight_grams k) (Some (d_clock d)) = Inr x
    \<and> ok s' \<and> taken s' \<subseteq> insert (d_event_id d) (taken s)
    \<and> book s' = (case sf of None \<Rightarrow> id | Some (sc, fp) \<Rightarrow> put_reply sc fp x)
        (put_message (created_integration_payload (created_from_order (d_event_id d) x))
          (put_order x (book s)))"
proof -
  let ?e = "created_from_order (d_event_id d) x"
  obtain s1 s2 where x: "order_create (d_order_id d) (d_now d) (cc_customer_id k) t (cc_pickup_address k)
        (cc_destination_address k) (cc_weight_grams k) (Some (d_clock d)) = Inr x"
    and s1: "repo_add repo x s = (Inr (), s1)"
    and s2: "repo_record_created_event repo ?e s1 = (Inr (), s2)"
    and s3: "case sf of None \<Rightarrow> s' = s2
       | Some (sc, fp) \<Rightarrow> repo_remember_idempotency repo (d_now d) sc fp x s2 = (Inr (), s')"
    using assms(7) by (cases sf) (auto simp: place_order_def)
  have xs: "o_id x = d_order_id d" "o_courier_id x = None" "o_created_at x = d_clock d"
    using x by (auto simp: order_create_Inr)
  have e1: "ok s1" "taken s1 = taken s" "book s1 = put_order x (book s)"
    using add_law [OF assms(1) _ order_create_ok [OF x] xs(2) assms(2) s1] assms(3) xs(1) by auto
  have "oc_event_id ?e \<notin> taken s1" using assms(4) e1(2) by (simp add: created_from_order_def)
  from record_created_law [OF e1(1) this s2] have e2: "ok s2" "taken s2 \<subseteq> insert (d_event_id d) (taken s)"
    "book s2 = put_message (created_integration_payload ?e) (put_order x (book s))"
    using e1 by (auto simp: created_from_order_def)
  show ?thesis
  proof (cases sf)
    case None
    then show ?thesis using x e2 s3 by simp
  next
    case (Some p)
    then obtain sc fp where sf: "sf = Some (sc, fp)" by (cases p) auto
    have "replies (book s2) sc = None" "valid_datetime (o_created_at x)" using assms(5,6) e2(3) sf xs(3) by auto
    from remember_law [OF e2(1) this, of "d_now d" fp s'] s3 sf x e2 show ?thesis by simp
  qed
qed

lemma place_order_accepted:
  assumes "ok s" "book_ok (book s)" "view (book s) (d_order_id d) = None" "d_event_id d \<notin> taken s"
    "case sf of None \<Rightarrow> True | Some (sc, fp) \<Rightarrow> replies (book s) sc = None \<and> fits sc"
    "order_create (d_order_id d) (d_now d) (cc_customer_id k) t (cc_pickup_address k)
        (cc_destination_address k) (cc_weight_grams k) (Some (d_clock d)) = Inr x" "storable x"
  shows "fst (place_order repo d k t sf s) = Inr x"
proof -
  let ?e = "created_from_order (d_event_id d) x"
  have xs: "o_id x = d_order_id d" "o_courier_id x = None" using assms(6) by (auto simp: order_create_Inr)
  note okx = order_create_ok [OF assms(6)]
  obtain s1 where s1: "repo_add repo x s = (Inr (), s1)"
    using add_progress [OF assms(1) _ okx assms(7)] assms(3) xs(1) by (metis prod.collapse)
  have e1: "ok s1" "taken s1 = taken s" "book s1 = put_order x (book s)"
    using add_law [OF assms(1) _ okx xs(2) assms(2) s1] assms(3) xs(1) by auto
  have ev: "oc_event_id ?e \<notin> taken s1" using assms(4) e1(2) by (simp add: created_from_order_def)
  obtain s2 where s2: "repo_record_created_event repo ?e s1 = (Inr (), s2)"
    using record_created_progress [OF e1(1) ev] by (metis prod.collapse)
  have e2: "ok s2" "replies (book s2) = replies (book s)"
    using record_created_law [OF e1(1) ev s2] e1(3) by auto
  show ?thesis
  proof (cases sf)
    case None
    then show ?thesis using assms(6) s1 s2 by (simp add: place_order_def andThen_def lift_result_def ret_def)
  next
    case (Some p)
    then obtain sc fp where sf: "sf = Some (sc, fp)" by (cases p) auto
    with assms(5) e2(2) have "replies (book s2) sc = None" "fits sc" by simp_all
    then obtain s3 where "repo_remember_idempotency repo (d_now d) sc fp x s2 = (Inr (), s3)"
      using remember_progress [OF e2(1), of sc "d_now d" fp x] by (metis prod.collapse)
    then show ?thesis
      using assms(6) s1 s2 sf by (simp add: place_order_def andThen_def lift_result_def ret_def)
  qed
qed

text \<open>\<open>create\<close> with a key: replay of a remembered reply, conflict, or a first placement.\<close>

lemma service_create_keyed:
  assumes "ok s" "key \<noteq> ''''"
  shows "service_create repo d k (Some key) t s =
    (case replies (book s) (idempotency_scope t (cc_customer_id k) key) of
       Some (fp, x) \<Rightarrow>
         if fp \<noteq> request_fingerprint k
         then (Inl (IdempotencyConflict ''idempotency key was already used for another request''), s)
         else (Inr x, s)
     | None \<Rightarrow> place_order repo d k t
         (Some (idempotency_scope t (cc_customer_id k) key, request_fingerprint k)) s)"
  using assms
  by (auto simp: service_create_def andThen_def idempotent_law Let_def ret_def split: option.splits)

lemma service_create_unkeyed:
  "key = None \<or> key = Some '''' \<Longrightarrow> service_create repo d k key t s = place_order repo d k t None s"
  by (simp add: service_create_def)

text \<open>Adding a new order with its message, and perhaps a reply, keeps and extends the book.\<close>

lemma placed_book:
  assumes "book_ok b" "order_create i n c t p e w (Some tm) = Inr x" "view b i = None"
    "case sf of None \<Rightarrow> True | Some (sc, fp) \<Rightarrow> replies b sc = None"
  shows "book_ok ((case sf of None \<Rightarrow> id | Some (sc, fp) \<Rightarrow> put_reply sc fp x)
           (put_message (created_integration_payload (created_from_order ev x)) (put_order x b)))"
    and "book_extends b ((case sf of None \<Rightarrow> id | Some (sc, fp) \<Rightarrow> put_reply sc fp x)
           (put_message (created_integration_payload (created_from_order ev x)) (put_order x b)))"
proof -
  let ?b = "put_message (created_integration_payload (created_from_order ev x)) (put_order x b)"
  have x: "o_id x = i" "o_status x = CREATED" "order_ok x"
    using assms(2) order_create_ok [OF assms(2)] by (auto simp: order_create_Inr)
  have ok: "book_ok ?b"
    using x assms(1,3) by (intro book_ok_put_message book_ok_put_new) simp_all
  have ext: "book_extends b ?b"
    using x assms(3) book_extends_add(2) book_extends_new book_extends_trans by metis
  show "book_ok ((case sf of None \<Rightarrow> id | Some (sc, fp) \<Rightarrow> put_reply sc fp x) ?b)"
    using ok by (auto intro: book_ok_put_reply split: option.splits)
  show "book_extends b ((case sf of None \<Rightarrow> id | Some (sc, fp) \<Rightarrow> put_reply sc fp x) ?b)"
  proof (cases sf)
    case None
    with ext show ?thesis by simp
  next
    case (Some p)
    with assms(4) have "replies ?b (fst p) = None" by (cases p) simp
    from book_extends_add(3) [OF this, of "snd p" x] ext Some show ?thesis
      by (cases p) (auto intro: book_extends_trans)
  qed
qed

lemma transition_book:
  assumes "book_ok b" "view b i = Some c" "order_evolves c y" "order_ok y"
    "from_transition ev c y a r tm cid = Inr e"
  shows "book_ok (put_event e (put_order y b))" "book_extends b (put_event e (put_order y b))"
proof -
  note fr = order_evolves_frame [OF assms(3)]
  have c: "view b (o_id y) = Some c" using assms(2) fr(1) book_okD(1) [OF assms(1,2)] by simp
  have "allows (o_status c) (o_status y)" using fr(6) assms(5) by (auto simp: from_transition_Inr)
  then show "book_ok (put_event e (put_order y b))"
    using book_ok_put_transition [OF assms(1) c assms(4,5)] fr(2) by simp
  show "book_extends b (put_event e (put_order y b))"
    using book_extends_put [OF c assms(3)] book_extends_add(1) book_extends_trans by blast
qed

lemma place_order_book:
  assumes "ok s" "book_ok (book s)" "view (book s) (d_order_id d) = None" "d_event_id d \<notin> taken s"
    "valid_datetime (d_clock d)" "case sf of None \<Rightarrow> True | Some (sc, fp) \<Rightarrow> replies (book s) sc = None"
    "place_order repo d k t sf s = (Inr x, s')"
  shows "ok s' \<and> book_ok (book s') \<and> book_extends (book s) (book s')"
  using place_order_done [OF assms] placed_book [OF assms(2) _ assms(3,6)] by metis

lemma service_create_book:
  assumes "ok s" "book_ok (book s)" "view (book s) (d_order_id d) = None" "d_event_id d \<notin> taken s"
    "valid_datetime (d_clock d)" "service_create repo d k key t s = (Inr x, s')"
  shows "ok s' \<and> book_ok (book s') \<and> book_extends (book s) (book s')"
proof (cases "key = None \<or> key = Some ''''")
  case True
  then show ?thesis
    using assms(6) place_order_book [OF assms(1-5), of None] by (simp add: service_create_unkeyed)
next
  case False
  then obtain c where c: "key = Some c" "c \<noteq> ''''" by auto
  let ?sc = "idempotency_scope t (cc_customer_id k) c"
  show ?thesis
  proof (cases "replies (book s) ?sc")
    case None
    with assms(6) c show ?thesis
      using place_order_book [OF assms(1-5), of "Some (?sc, request_fingerprint k)"]
        service_create_keyed [OF assms(1) c(2), of d k t] by simp
  next
    case (Some p)
    with assms(1,2,6) c show ?thesis
      using service_create_keyed [OF assms(1) c(2), of d k t] by (cases p) (simp split: if_splits)
  qed
qed

lemma service_claim_book:
  assumes "ok s" "book_ok (book s)" "d_event_id d \<notin> taken s"
    "service_claim_next repo d k t cid s = (Inr r, s')"
  shows "ok s' \<and> book_ok (book s') \<and> book_extends (book s) (book s')"
proof (cases r)
  case None
  then have "s' = s" using assms(4) claim_none [OF assms(1)] unfolding service_claim_next_def by blast
  with assms(1,2) show ?thesis by simp
next
  case (Some y)
  with assms claim_law obtain c e where c: "view (book s) (o_id c) = Some c" "order_assign c k = Inr y"
    "from_transition (d_event_id d) c y k ''courier'' (d_clock d) cid = Inr e" "ok s'"
    "book s' = put_event e (put_order y (book s))"
    unfolding service_claim_next_def by metis
  have "order_evolves c y" "order_ok y"
    using c(2) book_okD(2) [OF assms(2) c(1)] by (auto intro: order_evolves.assign order_assign_ok)
  from transition_book [OF assms(2) c(1) this c(3)] c(4,5) show ?thesis by simp
qed

lemma use_case_book:
  assumes "use_case repo taken s s'" "ok s" "book_ok (book s)"
  shows "ok s' \<and> book_ok (book s') \<and> book_extends (book s) (book s')"
  using assms
proof (induction rule: use_case.induct)
  case (create d command key tenant s x s')
  then show ?case using service_create_book [of s d command key tenant x s'] by (simp add: get_law)
next
  case (assign d i courier s y s')
  then obtain c e where c: "view (book s) i = Some c" "order_assign c courier = Inr y"
    "from_transition (d_event_id d) c y courier ''courier'' (d_clock d) ''assignment'' = Inr e"
    "ok s'" "book s' = put_event e (put_order y (book s))"
    using service_assign_done by blast
  have "order_evolves c y" "order_ok y"
    using c(2) book_okD(2) [OF assign(4) c(1)] by (auto intro: order_evolves.assign order_assign_ok)
  from transition_book [OF assign(4) c(1) this c(3)] c(4,5) show ?case by simp
next
  case (claim d courier tenant cid s r s')
  then show ?case by (intro service_claim_book)
next
  case (update i k v s y s')
  from service_update_done [OF update(2,3,1)] obtain c where c: "view (book s) i = Some c"
    "update_details c (command_changes k) = Inr y" "ok s'" "book s' = put_order y (book s)" by blast
  note fr = update_details_Inr [OF c(2)]
  have "o_id c = i" "order_ok y"
    using book_okD [OF update(3) c(1)] update_details_ok [OF c(2)] by auto
  with fr c show ?case
    using book_ok_put_details [OF update(3), of y c] book_extends_put [of "book s" y c]
      order_evolves.update [OF c(2)] by simp
next
  case (transition d i k s y s')
  from service_transition_done [OF transition(3,4,2,1)] obtain c e where c: "view (book s) i = Some c"
    "order_transition c (tc_target k) = Inr y"
    "from_transition (d_event_id d) c y (tc_actor_id k) (tc_actor_role k) (d_clock d)
      (tc_correlation_id k) = Inr e" "ok s'" "book s' = put_event e (put_order y (book s))" by blast
  have "order_evolves c y" "order_ok y"
    using c(2) book_okD(2) [OF transition(4) c(1)]
    by (auto intro: order_evolves.transition order_transition_ok)
  from transition_book [OF transition(4) c(1) this c(3)] c(4,5) show ?case by simp
qed

lemma use_cases_book:
  assumes "(use_case repo taken)\<^sup>*\<^sup>* s s'" "ok s" "book_ok (book s)"
  shows "ok s' \<and> book_ok (book s') \<and> book_extends (book s) (book s')"
  using assms
  by (induction rule: rtranclp_induct) (auto dest: use_case_book intro: book_extends_trans)

text \<open>A version that has been overtaken is refused in every later state.\<close>

lemma overtaken_version_refused:
  assumes "ok s" "book_ok (book s)" "view (book s) i = Some y" "v < o_version y"
    "(use_case repo taken)\<^sup>*\<^sup>* s s'"
  shows "service_update repo i k v s' = (Inl (ConcurrentUpdate ''optimistic version conflict''), s')"
    "tc_expected_version tk = v \<Longrightarrow>
     service_transition repo d i tk s' = (Inl (ConcurrentUpdate ''optimistic version conflict''), s')"
proof -
  note later = use_cases_book [OF assms(5,1,2)]
  then obtain c where c: "view (book s') i = Some c" "order_evolves\<^sup>*\<^sup>* y c"
    using assms(3) unfolding book_extends_def by blast
  then have "o_version c \<noteq> v" using order_evolves_star [OF c(2)] assms(4) by simp
  with c(1) later show "service_update repo i k v s' =
      (Inl (ConcurrentUpdate ''optimistic version conflict''), s')"
    "tc_expected_version tk = v \<Longrightarrow>
     service_transition repo d i tk s' = (Inl (ConcurrentUpdate ''optimistic version conflict''), s')"
    using service_update_refused(2) service_transition_refused(2) by blast+
qed

lemma remembered_reply_replayed:
  assumes "ok s" "book_ok (book s)" "key \<noteq> ''''"
    "replies (book s) (idempotency_scope t (cc_customer_id k) key) = Some (fp, x)"
    "(use_case repo taken)\<^sup>*\<^sup>* s s'"
  shows "service_create repo d k (Some key) t s' =
    (if fp \<noteq> request_fingerprint k
     then (Inl (IdempotencyConflict ''idempotency key was already used for another request''), s')
     else (Inr x, s'))"
proof -
  note later = use_cases_book [OF assms(5,1,2)]
  then have "replies (book s') (idempotency_scope t (cc_customer_id k) key) = Some (fp, x)"
    using assms(4) unfolding book_extends_def by (metis domI map_le_def)
  with later assms(3) show ?thesis by (simp add: service_create_keyed)
qed

end

context atomic_order_port
begin

lemma failed_call_frame:
  assumes "ok s"
  shows "service_update repo i k v s = (Inl err, s') \<Longrightarrow> s' = s"
    "service_transition repo d i tk s = (Inl err, s') \<Longrightarrow> s' = s"
    "service_assign repo d i courier s = (Inl err, s') \<Longrightarrow> s' = s"
    "service_claim_next repo d courier tenant cid s = (Inl err, s') \<Longrightarrow> s' = s"
  using assms
  by (auto simp: service_update_def service_transition_def service_assign_def service_claim_next_def
      andThen_Inl service_get_eq dest: save_frame save_transition_frame claim_frame split: option.splits)

end

end
