(* ===== verification/Order_Properties.thy ===== *)
theory Order_Properties
  imports Order_Service
begin

text \<open>
  The properties of the order component over the in-memory adapter. Each rests on the
  lemmas proved for every adapter in the context of the port's contract and on the
  interpretation \<open>mem\<close>. The sample values at the start are the inputs of the
  witnesses.
\<close>

section \<open>Sample inputs\<close>

definition sample_draws :: "uuid \<Rightarrow> datetime \<Rightarrow> draws" where
  "sample_draws i t = \<lparr> d_order_id = i, d_event_id = i + 1000, d_clock = t, d_now = t \<rparr>"

definition sample_command :: CreateOrderCommand where
  "sample_command = \<lparr> cc_customer_id = 7, cc_pickup_address = ''Lenina 1'',
     cc_destination_address = ''Mira 2'', cc_weight_grams = 500 \<rparr>"

definition sample_order :: DeliveryOrder where
  "sample_order = \<lparr> o_id = 1, o_tenant_id = DEFAULT_TENANT_ID, o_customer_id = 7,
     o_pickup_address = ''Lenina 1'', o_destination_address = ''Mira 2'', o_weight_grams = 500,
     o_status = CREATED, o_courier_id = None, o_version = 1, o_created_at = 5 \<rparr>"

definition sample_store :: InMemoryOrderRepository where
  "sample_store = snd (service_create in_memory_repository (sample_draws 1 5) sample_command None
     DEFAULT_TENANT_ID empty_store)"

lemmas sample_defs = sample_draws_def sample_command_def sample_order_def

lemmas service_eval = service_create_def place_order_def order_create_def mem_add_def
  mem_record_created_event_def mem_remember_idempotency_def mem_get_def ret_def andThen_def
  lift_result_def check_def raise_def

lemma sample_store_eq:
  "sample_store = empty_store \<lparr> orders := [(1, sample_order)],
     outbox := [created_integration_payload (created_from_order 1001 sample_order)] \<rparr>"
  by (simp add: sample_store_def sample_defs service_eval empty_store_def)

lemma sample_create:
  "service_create in_memory_repository (sample_draws 1 5) sample_command None DEFAULT_TENANT_ID
     empty_store = (Inr sample_order, sample_store)"
  unfolding sample_store_eq by (simp add: sample_defs service_eval empty_store_def)

abbreviation memory_run :: "InMemoryOrderRepository \<Rightarrow> InMemoryOrderRepository \<Rightarrow> bool" where
  "memory_run \<equiv> (use_case in_memory_repository (\<lambda>_. {}))\<^sup>*\<^sup>*"

lemma sample_run: "memory_run empty_store sample_store"
proof -
  have "use_case in_memory_repository (\<lambda>_. {}) empty_store sample_store"
    by (rule use_case.create [OF sample_create])
      (simp_all add: mem_get_def empty_store_def valid_datetime_def sample_draws_def)
  then show ?thesis by blast
qed

lemma empty_store_book [simp]: "mem_book empty_store = empty_book"
  by (simp add: mem_book_def empty_store_def empty_book_def)

lemma memory_run_book:
  assumes "memory_run empty_store s"
  shows "mem_ok s" "book_ok (mem_book s)"
  using mem.use_cases_book [OF assms] by (auto simp: book_ok_empty)

lemma mem_busy_iff:
  assumes "mem_ok s"
  shows "list_ex (courier_busy t k) (values_of (orders s))
      \<longleftrightarrow> (\<exists>i x. dict_get (orders s) i = Some x \<and> courier_busy t k x)"
  using assms by (force simp: list_ex_iff mem_ok_def)

lemma mem_claim_not_busy:
  assumes "mem_ok s" "mem_claim_next_created_order ev now c t tmo cid s = (Inr r, s')"
    "dict_get (orders s) i = Some x"
  shows "\<not> courier_busy t c x"
  using assms mem_busy_iff [OF assms(1), of t c]
  by (auto simp: mem_claim_cases split: if_splits)

lemma mem_transition_done:
  assumes "mem_ok s" "service_transition in_memory_repository d i k s = (Inr y, s')"
  shows "\<exists>c. dict_get (orders s) i = Some c \<and> order_transition c (tc_target k) = Inr y
    \<and> orders s' = dict_set i y (orders s)"
proof -
  from assms obtain c where c: "dict_get (orders s) i = Some c" "order_transition c (tc_target k) = Inr y"
    "\<exists>e. mem_save_transition y (tc_expected_version k) e s = (Inr (), s')"
    by (auto simp: service_transition_def mem.service_get_eq split: option.splits)
  moreover have "o_id y = i"
    using c(2) mem_ok_id [OF assms(1) c(1)] by (auto simp: order_transition_Inr)
  ultimately show ?thesis by (auto simp: mem_save_transition_def mem_save_cases split: if_splits)
qed

section \<open>The audit trail\<close>

text \<open>
  C1. In every state that any sequence of completed use cases reaches from an empty
  repository, each stored order is well formed and its recorded history is a run of the
  order state machine from \<open>created\<close> to its present status, with strictly increasing
  versions up to the stored one, of at most three events, all of its own tenant; and the
  outbox carries exactly the status messages of the history, in the same order.
\<close>

theorem order_history_consistent:
  assumes "memory_run empty_store s" "dict_get (orders s) i = Some x"
    and "es = filter (\<lambda>e. sc_order_id e = i) (transition_history s)"
  shows "o_id x = i \<and> order_ok x
    \<and> replay CREATED es = Some (o_status x) \<and> length es \<le> 3
    \<and> sorted_wrt (<) (map sc_order_version es)
    \<and> (\<forall>e \<in> set es. sc_order_version e \<le> o_version x \<and> sc_tenant_id e = o_tenant_id x)
    \<and> filter is_status_message (outbox s) = map status_integration_payload (transition_history s)"
proof -
  note ok = memory_run_book(2) [OF assms(1)]
  have x: "view (mem_book s) i = Some x" using assms(2) by simp
  have es: "trail_of i (mem_book s) = es" using assms(3) by (simp add: trail_of_def)
  note tr = book_okD [OF ok x, unfolded es trail_ok_def]
  moreover have "length es \<le> 3" using replay_length [of CREATED es] tr(3) by fastforce
  moreover have "filter is_status_message (outbox s) =
      map status_integration_payload (transition_history s)" using ok by (simp add: book_ok_def)
  ultimately show ?thesis by simp
qed

theorem order_history_consistent_witness:
  "replay CREATED (filter (\<lambda>e. sc_order_id e = 1) (transition_history sample_store)) = Some CREATED"
  using order_history_consistent [OF sample_run _ refl, of 1 sample_order]
  by (simp add: sample_store_eq sample_order_def)

section \<open>The use cases on every branch\<close>

text \<open>
  C2. \<open>OrderService.transition\<close> on every branch: an unknown order, a stale expected
  version and a forbidden target are refused with their own exception and leave the whole
  repository as it was; an allowed one stores the order with the new status and the next
  version, appends exactly one history event and exactly one outbox message for it, and
  touches nothing else.
\<close>

theorem transition_effect:
  assumes "mem_ok s"
  shows "service_transition in_memory_repository d i k s =
    (case dict_get (orders s) i of
       None \<Rightarrow> (Inl (OrderNotFound i), s)
     | Some c \<Rightarrow>
         if o_version c \<noteq> tc_expected_version k
         then (Inl (ConcurrentUpdate ''optimistic version conflict''), s)
         else if \<not> allows (o_status c) (tc_target k)
         then (Inl (InvalidTransition (status_value (o_status c)) (status_value (tc_target k))), s)
         else let y = c \<lparr> o_status := tc_target k, o_version := o_version c + 1 \<rparr>;
                  e = \<lparr> sc_event_id = d_event_id d, sc_order_id = i, sc_tenant_id = o_tenant_id c,
                        sc_from_status = o_status c, sc_to_status = tc_target k,
                        sc_order_version = o_version c + 1, sc_actor_id = tc_actor_id k,
                        sc_actor_role = tc_actor_role k, sc_occurred_at = d_clock d,
                        sc_correlation_id = tc_correlation_id k \<rparr>
              in (Inr y, s \<lparr> orders := dict_set i y (orders s),
                             transition_history := transition_history s @ [e],
                             outbox := outbox s @ [status_integration_payload e] \<rparr>))"
proof (cases "dict_get (orders s) i")
  case None
  then show ?thesis using mem.service_transition_refused(1) [OF assms] by simp
next
  case (Some c)
  note id = mem_ok_id [OF assms Some]
  show ?thesis
  proof (cases "o_version c = tc_expected_version k \<and> allows (o_status c) (tc_target k)")
    case True
    then have "o_status c \<noteq> tc_target k" using allows_neq by blast
    with True Some id show ?thesis
      by (simp add: service_transition_def andThen_def mem.service_get_eq [OF assms] check_def
          lift_result_def order_transition_def from_transition_def mem_save_transition_def
          mem_save_cases ret_def Let_def)
  next
    case False
    with Some show ?thesis using mem.service_transition_refused(2,3) [OF assms, of i c] by auto
  qed
qed

theorem transition_effect_witness:
  "fst (service_transition in_memory_repository (sample_draws 2 6) 1
      \<lparr> tc_target = CANCELLED, tc_expected_version = 1, tc_actor_id = 7,
        tc_actor_role = ''customer'', tc_correlation_id = ''c'' \<rparr> sample_store)
    = Inr (sample_order \<lparr> o_status := CANCELLED, o_version := 2 \<rparr>)"
  using transition_effect [OF memory_run_book(1) [OF sample_run], of "sample_draws 2 6" 1
      "\<lparr> tc_target = CANCELLED, tc_expected_version = 1, tc_actor_id = 7,
         tc_actor_role = ''customer'', tc_correlation_id = ''c'' \<rparr>"]
  by (simp add: sample_store_eq sample_order_def Let_def)

text \<open>
  Optimistic locking: once a use case has taken an order to a version above \<open>v\<close>,
  every later \<open>update\<close> or \<open>transition\<close> that still expects \<open>v\<close> is refused
  as a concurrent update and changes nothing, whatever completed use cases lie in between.
\<close>

theorem stale_version_refused:
  assumes "memory_run empty_store s" "dict_get (orders s) i = Some y" "v < o_version y"
    "memory_run s s'" "tc_expected_version tk = v"
  shows "service_update in_memory_repository i k v s'
           = (Inl (ConcurrentUpdate ''optimistic version conflict''), s')
    \<and> service_transition in_memory_repository d i tk s'
           = (Inl (ConcurrentUpdate ''optimistic version conflict''), s')"
proof -
  have "view (mem_book s) i = Some y" using assms(2) by simp
  from mem.overtaken_version_refused [OF memory_run_book [OF assms(1)] this assms(3,4)] assms(5)
  show ?thesis by blast
qed

theorem stale_version_refused_witness:
  "fst (service_update in_memory_repository 1
      \<lparr> uc_pickup_address = None, uc_destination_address = None, uc_weight_grams = Some 3 \<rparr> 0 sample_store)
    = Inl (ConcurrentUpdate ''optimistic version conflict'')"
  using stale_version_refused [OF sample_run, of 1 sample_order 0 sample_store
      "\<lparr> tc_target = CANCELLED, tc_expected_version = 0, tc_actor_id = 7,
         tc_actor_role = ''customer'', tc_correlation_id = ''c'' \<rparr>"
      "\<lparr> uc_pickup_address = None, uc_destination_address = None, uc_weight_grams = Some 3 \<rparr>"]
  by (simp add: sample_store_eq sample_order_def)

text \<open>
  C3. Idempotent creation: when \<open>create\<close> with a key has returned an order, then after
  any further completed use cases the same command with the same key and tenant returns
  that very snapshot and changes nothing, and another command of the same customer under
  that key is refused unless its SHA-256 fingerprint is the same.
\<close>

theorem create_idempotent:
  assumes "memory_run empty_store s" "key \<noteq> ''''" "dict_get (orders s) (d_order_id d) = None"
    "service_create in_memory_repository d k (Some key) t s = (Inr x, s')"
    "memory_run s' s''" "cc_customer_id k2 = cc_customer_id k" "valid_datetime (d_clock d)"
  shows "service_create in_memory_repository d' k (Some key) t s'' = (Inr x, s'')
    \<and> (request_fingerprint k2 \<noteq> request_fingerprint k \<longrightarrow>
        service_create in_memory_repository d' k2 (Some key) t s''
          = (Inl (IdempotencyConflict ''idempotency key was already used for another request''), s''))"
proof -
  let ?sc = "idempotency_scope t (cc_customer_id k) key"
  note ok = memory_run_book [OF assms(1)]
  have step: "mem_ok s' \<and> book_ok (mem_book s') \<and> book_extends (mem_book s) (mem_book s')"
    using assms(3) by (intro mem.service_create_book [OF ok _ _ assms(7,4)]) simp_all
  have "replies (mem_book s') ?sc = Some (request_fingerprint k, x)"
  proof (cases "replies (mem_book s) ?sc")
    case None
    have "place_order in_memory_repository d k t (Some (?sc, request_fingerprint k)) s = (Inr x, s')"
      using assms(4) mem.service_create_keyed [OF ok(1) assms(2), of d k t] None by simp
    then show ?thesis
      using mem.place_order_done [OF ok _ _ assms(7), of "Some (?sc, request_fingerprint k)" k t x s']
        None assms(3) by simp
  next
    case (Some p)
    then have "p = (request_fingerprint k, x) \<and> s' = s"
      using assms(4) mem.service_create_keyed [OF ok(1) assms(2), of d k t]
      by (cases p) (auto split: if_splits)
    with Some show ?thesis by simp
  qed
  with mem.remembered_reply_replayed [of s' key t k "request_fingerprint k" x s'' d']
    mem.remembered_reply_replayed [of s' key t k2 "request_fingerprint k" x s'' d']
    step assms(2,5,6) show ?thesis by simp
qed

lemma sample_keyed:
  "\<exists>s'. service_create in_memory_repository (sample_draws 2 6) sample_command (Some ''k'')
     DEFAULT_TENANT_ID sample_store = (Inr (sample_order \<lparr> o_id := 2, o_created_at := 6 \<rparr>), s')"
  by (simp add: sample_store_eq sample_defs service_eval empty_store_def mem_idempotent_order_def Let_def)

theorem create_idempotent_witness:
  "\<exists>s'. service_create in_memory_repository (sample_draws 3 9) sample_command (Some ''k'')
     DEFAULT_TENANT_ID s' = (Inr (sample_order \<lparr> o_id := 2, o_created_at := 6 \<rparr>), s')"
proof -
  from sample_keyed obtain s' where s': "service_create in_memory_repository (sample_draws 2 6)
      sample_command (Some ''k'') DEFAULT_TENANT_ID sample_store
      = (Inr (sample_order \<lparr> o_id := 2, o_created_at := 6 \<rparr>), s')" by blast
  have "dict_get (orders sample_store) (d_order_id (sample_draws 2 6)) = None"
    by (simp add: sample_store_eq sample_draws_def)
  from create_idempotent [OF sample_run _ this s', of s' sample_command "sample_draws 3 9"]
  show ?thesis by (auto simp: valid_datetime_def sample_draws_def)
qed

text \<open>
  \<open>claim_next\<close> on every branch: a courier with an assigned or picked-up order of
  the tenant is refused; a tenant with no created order yields nothing; otherwise the
  oldest created order of the tenant (ties broken by id) becomes assigned to the courier
  with its event. The repository changes in the last case only.
\<close>

theorem claim_next_fifo:
  assumes "mem_ok s"
  shows "case service_claim_next in_memory_repository d k t cid s of
      (Inl e, s') \<Rightarrow> e = CourierAlreadyBusy ''courier already has an active assignment'' \<and> s' = s
        \<and> (\<exists>i x. dict_get (orders s) i = Some x \<and> courier_busy t k x)
    | (Inr None, s') \<Rightarrow> s' = s
        \<and> (\<forall>i x. dict_get (orders s) i = Some x \<longrightarrow> o_tenant_id x = t \<longrightarrow> o_status x \<noteq> CREATED)
    | (Inr (Some y), s') \<Rightarrow>
        (\<forall>i x. dict_get (orders s) i = Some x \<longrightarrow> \<not> courier_busy t k x)
        \<and> (\<exists>c e. dict_get (orders s) (o_id c) = Some c \<and> o_tenant_id c = t \<and> order_assign c k = Inr y
             \<and> (\<forall>i x. dict_get (orders s) i = Some x \<and> o_tenant_id x = t \<and> o_status x = CREATED
                  \<longrightarrow> (o_created_at c, o_id c) \<le> (o_created_at x, o_id x))
             \<and> from_transition (d_event_id d) c y k ''courier'' (d_clock d) cid = Inr e
             \<and> mem_book s' = put_event e (put_order y (mem_book s)))"
proof -
  obtain r s' where r: "service_claim_next in_memory_repository d k t cid s = (r, s')" by fastforce
  then have claim: "mem_claim_next_created_order (d_event_id d) (d_now d) k t (Some (d_clock d)) cid s
      = (r, s')" by (simp add: service_claim_next_def)
  note busy = mem_busy_iff [OF assms, of t k]
  note cs = claim [unfolded mem_claim_cases [OF assms]]
  show ?thesis
  proof (cases r)
    case (Inl e)
    with cs busy show ?thesis unfolding r by (auto simp: Let_def split: if_splits list.splits)
  next
    case (Inr yo)
    then have nb: "\<forall>i x. dict_get (orders s) i = Some x \<longrightarrow> \<not> courier_busy t k x"
      using mem_claim_not_busy [OF assms] claim by blast
    show ?thesis
    proof (cases yo)
      case None
      with Inr mem.claim_none [OF assms] claim show ?thesis unfolding r by fastforce
    next
      case (Some y)
      with mem_claim_Some [OF assms] claim Inr nb show ?thesis unfolding r by simp blast
    qed
  qed
qed

theorem claim_next_fifo_witness:
  "case service_claim_next in_memory_repository (sample_draws 4 9) 42 DEFAULT_TENANT_ID ''c'' sample_store of
     (Inr (Some y), _) \<Rightarrow> (\<exists>c. order_assign c 42 = Inr y) | _ \<Rightarrow> False"
proof -
  have ok: "mem_ok sample_store" by (rule memory_run_book(1) [OF sample_run])
  have "courier_busy DEFAULT_TENANT_ID 42 sample_order = False"
    by (simp add: courier_busy_def sample_order_def)
  then have "\<exists>y s'. service_claim_next in_memory_repository (sample_draws 4 9) 42 DEFAULT_TENANT_ID ''c''
      sample_store = (Inr (Some y), s')"
    by (simp add: service_claim_next_def mem_claim_cases [OF ok] Let_def)
      (simp add: sample_store_eq sample_order_def claim_candidates_def Let_def)
  with claim_next_fifo [OF ok, where d = "sample_draws 4 9" and k = 42 and t = DEFAULT_TENANT_ID and cid = "''c''"] show ?thesis
    by fastforce
qed

section \<open>One active order for each courier\<close>

text \<open>The completed calls that the HTTP API exposes; \<open>assign\<close> is not among them.\<close>

inductive api_step :: "InMemoryOrderRepository \<Rightarrow> InMemoryOrderRepository \<Rightarrow> bool" where
  create: "service_create in_memory_repository d k key t s = (Inr x, s') \<Longrightarrow>
    dict_get (orders s) (d_order_id d) = None \<Longrightarrow> valid_datetime (d_clock d) \<Longrightarrow> api_step s s'"
| claim: "service_claim_next in_memory_repository d courier t cid s = (Inr r, s') \<Longrightarrow> api_step s s'"
| update: "service_update in_memory_repository i uk v s = (Inr x, s') \<Longrightarrow> api_step s s'"
| transition: "service_transition in_memory_repository d i tk s = (Inr x, s') \<Longrightarrow> api_step s s'"

definition one_active :: "InMemoryOrderRepository \<Rightarrow> bool" where
  "one_active s \<longleftrightarrow> (\<forall>i j x y t k. dict_get (orders s) i = Some x \<and> dict_get (orders s) j = Some y
     \<and> courier_busy t k x \<and> courier_busy t k y \<longrightarrow> i = j)"

lemma one_active_put:
  assumes "one_active s" "map_of (orders s') = (map_of (orders s))(i \<mapsto> y)"
    "\<And>t k. courier_busy t k y \<Longrightarrow>
       (\<exists>c. dict_get (orders s) i = Some c \<and> courier_busy t k c)
       \<or> (\<forall>j x. dict_get (orders s) j = Some x \<longrightarrow> \<not> courier_busy t k x)"
  shows "one_active s'"
  unfolding one_active_def
proof (intro allI impI)
  fix j l x z t k
  assume a: "dict_get (orders s') j = Some x \<and> dict_get (orders s') l = Some z
    \<and> courier_busy t k x \<and> courier_busy t k z"
  have active: "\<exists>c. dict_get (orders s) m = Some c \<and> courier_busy t k c"
    if m: "dict_get (orders s') m = Some w" "courier_busy t k w"
      and n: "dict_get (orders s) n = Some u" "courier_busy t k u" for m w n u
    using m n assms(2) assms(3) [of t k] by (cases "m = i") auto
  show "j = l"
  proof (cases "j = i \<and> l = i")
    case False
    then obtain n u where "dict_get (orders s) n = Some u" "courier_busy t k u"
      using a assms(2) by (auto split: if_splits)
    with a active obtain c c' where "dict_get (orders s) j = Some c" "courier_busy t k c"
      "dict_get (orders s) l = Some c'" "courier_busy t k c'" by meson
    with assms(1) show ?thesis unfolding one_active_def by blast
  qed simp
qed

lemma use_case_api_step:
  "api_step s s' \<Longrightarrow> use_case in_memory_repository (\<lambda>_. {}) s s'"
  by (induction rule: api_step.induct) (auto intro: use_case.intros simp: mem_get_def)

lemma courier_busy_transition:
  "allows (o_status c) st \<Longrightarrow> courier_busy t k (c \<lparr> o_status := st, o_version := v \<rparr>) \<Longrightarrow>
   (o_status c = CREATED \<longrightarrow> o_courier_id c = None) \<Longrightarrow> courier_busy t k c"
  by (cases "o_status c") (auto simp: courier_busy_def)

lemma place_order_orders:
  "place_order in_memory_repository d k t sf s = (Inr x, s') \<Longrightarrow>
   orders s' = dict_set (d_order_id d) x (orders s) \<and> o_status x = CREATED"
  by (cases sf) (auto simp: place_order_def mem_add_def mem_record_created_event_def order_create_Inr
      mem_remember_idempotency_def)

lemma service_create_orders:
  assumes "service_create in_memory_repository d k key t s = (Inr x, s')"
  shows "orders s' = orders s \<or> (orders s' = dict_set (d_order_id d) x (orders s) \<and> o_status x = CREATED)"
proof -
  consider "s' = s" | sf where "place_order in_memory_repository d k t sf s = (Inr x, s')"
    using assms unfolding service_create_def Let_def andThen_def mem_idempotent_order_def
      in_memory_repository_simps
    by (fastforce split: if_splits option.splits prod.splits)
  then show ?thesis by cases (auto dest: place_order_orders)
qed

lemma api_step_one_active:
  assumes "api_step s s'" "mem_ok s" "book_ok (mem_book s)" "one_active s"
  shows "one_active s'"
  using assms
proof (induction rule: api_step.induct)
  case (create d k key t s x s')
  from service_create_orders [OF create(1)] show ?case
  proof
    assume "orders s' = orders s"
    with create(6) show ?thesis by (simp add: one_active_def)
  next
    assume a: "orders s' = dict_set (d_order_id d) x (orders s) \<and> o_status x = CREATED"
    then show ?thesis
      by (intro one_active_put [OF create(6), of s' "d_order_id d" x]) (simp_all add: courier_busy_def)
  qed
next
  case (claim d courier t cid s r s')
  then have cl: "mem_claim_next_created_order (d_event_id d) (d_now d) courier t (Some (d_clock d)) cid s
      = (Inr r, s')" by (simp add: service_claim_next_def)
  show ?case
  proof (cases r)
    case None
    with mem.claim_none [OF claim(2)] cl claim(4) show ?thesis by fastforce
  next
    case (Some y)
    with mem_claim_Some [OF claim(2)] cl obtain c e where c: "o_tenant_id c = t"
      "order_assign c courier = Inr y" "mem_book s' = put_event e (put_order y (mem_book s))" by blast
    have "map_of (orders s') = (map_of (orders s))(o_id y \<mapsto> y)"
      using c(3) by (metis mem_book_simps(1) view_put(1,2))
    moreover have "tt = t \<and> kk = courier" if "courier_busy tt kk y" for tt kk
      using that c(1,2) by (auto simp: courier_busy_def order_assign_Inr)
    ultimately show ?thesis
      using one_active_put [OF claim(4)] mem_claim_not_busy [OF claim(2) cl] by metis
  qed
next
  case (update i uk v s y s')
  then obtain c where c: "dict_get (orders s) i = Some c" "update_details c (command_changes uk) = Inr y"
    and s': "mem_save y v s = (Inr (), s')"
    by (auto simp: service_update_def mem.service_get_eq split: option.splits)
  note fr = update_details_Inr [OF c(2)] and id = mem_ok_id [OF update(2) c(1)]
  have "map_of (orders s') = (map_of (orders s))(i \<mapsto> y)"
    using s' fr(1) id by (auto simp: mem_save_cases split: if_splits)
  then show ?case using c(1) fr(2,4,5)
    by (intro one_active_put [OF update(4)]) (auto simp: courier_busy_def)
next
  case (transition d i tk s y s')
  then obtain c where c: "dict_get (orders s) i = Some c" "allows (o_status c) (tc_target tk)"
    "y = c \<lparr> o_status := tc_target tk, o_version := o_version c + 1 \<rparr>"
    "orders s' = dict_set i y (orders s)"
    using mem_transition_done [OF transition(2,1)] by (auto simp: order_transition_Inr)
  moreover have "o_status c = CREATED \<longrightarrow> o_courier_id c = None"
    using book_okD(2) [OF transition(3), of i c] c(1) by (simp add: order_ok_def)
  ultimately show ?case using courier_busy_transition [OF c(2)]
    by (intro one_active_put [OF transition(4), of s' i y]) auto
qed

text \<open>
  C4. Along any sequence of completed calls of the HTTP API from an empty repository, a
  courier holds at most one assigned or picked-up order of a tenant.
\<close>

theorem courier_has_one_active_order:
  assumes "api_step\<^sup>*\<^sup>* empty_store s" "dict_get (orders s) i = Some x" "dict_get (orders s) j = Some y"
    "o_courier_id x = Some k" "o_courier_id y = Some k" "o_tenant_id x = o_tenant_id y"
    "o_status x \<in> {ASSIGNED, PICKED_UP}" "o_status y \<in> {ASSIGNED, PICKED_UP}"
  shows "i = j"
proof -
  have "mem_ok s \<and> book_ok (mem_book s) \<and> one_active s"
    using assms(1)
  proof (induction rule: rtranclp_induct)
    case base
    have "one_active empty_store" by (simp add: one_active_def empty_store_def)
    then show ?case by (simp add: book_ok_empty)
  next
    case (step s s')
    then show ?case
      using mem.use_case_book [OF use_case_api_step] api_step_one_active by blast
  qed
  moreover have "courier_busy (o_tenant_id x) k x" "courier_busy (o_tenant_id x) k y"
    using assms(4-8) by (auto simp: courier_busy_def)
  ultimately show ?thesis using assms(2,3) unfolding one_active_def by blast
qed

lemma sample_claimed:
  "\<exists>s y. api_step\<^sup>*\<^sup>* empty_store s \<and> dict_get (orders s) 1 = Some y
     \<and> o_courier_id y = Some 42 \<and> o_status y = ASSIGNED"
proof -
  let ?y = "sample_order \<lparr> o_status := ASSIGNED, o_version := 2, o_courier_id := Some 42 \<rparr>"
  have ok: "mem_ok sample_store" by (rule memory_run_book(1) [OF sample_run])
  have "api_step empty_store sample_store"
    by (rule api_step.create [OF sample_create])
      (simp_all add: empty_store_def valid_datetime_def sample_draws_def)
  moreover obtain s where s: "service_claim_next in_memory_repository (sample_draws 4 9) 42
      DEFAULT_TENANT_ID ''c'' sample_store = (Inr (Some ?y), s)" "orders s = [(1, ?y)]"
    by (simp add: service_claim_next_def mem_claim_cases [OF ok] Let_def)
      (simp add: sample_store_eq sample_order_def claim_candidates_def courier_busy_def Let_def)
  moreover have "api_step sample_store s" by (rule api_step.claim [OF s(1)])
  ultimately show ?thesis
    by (intro exI [of _ s] exI [of _ ?y]) (auto intro: rtranclp_trans)
qed

theorem courier_has_one_active_order_witness:
  "\<exists>s y. api_step\<^sup>*\<^sup>* empty_store s \<and> dict_get (orders s) 1 = Some y
     \<and> o_courier_id y = Some 42 \<and> o_status y = ASSIGNED
     \<and> (\<nexists>j x. j \<noteq> 1 \<and> dict_get (orders s) j = Some x \<and> o_courier_id x = Some 42
          \<and> o_tenant_id x = o_tenant_id y \<and> o_status x \<in> {ASSIGNED, PICKED_UP})"
proof -
  from sample_claimed obtain s y where s: "api_step\<^sup>*\<^sup>* empty_store s" "dict_get (orders s) 1 = Some y"
    "o_courier_id y = Some 42" "o_status y = ASSIGNED" by blast
  have "j = 1" if "dict_get (orders s) j = Some x" "o_courier_id x = Some 42"
      "o_tenant_id x = o_tenant_id y" "o_status x \<in> {ASSIGNED, PICKED_UP}" for j x
    by (rule courier_has_one_active_order [OF s(1) that(1) s(2) that(2) s(3) that(3,4)]) (simp add: s(4))
  with s show ?thesis by blast
qed

section \<open>Reading: access and paging\<close>

definition readable :: "Actor \<Rightarrow> string option \<Rightarrow> DeliveryOrder \<Rightarrow> bool" where
  "readable a flt x \<longleftrightarrow>
     can_access_order a (o_tenant_id x) (o_customer_id x) (o_courier_id x)
     \<and> (case flt of None \<Rightarrow> True | Some f \<Rightarrow> status_value (o_status x) = f)"

lemma visible_to_iff:
  "visible_to (role_value (a_role a)) (a_user_id a) (a_tenant_id a) x \<longleftrightarrow>
     can_access_order a (o_tenant_id x) (o_customer_id x) (o_courier_id x)"
  by (cases "a_role a") (auto simp: visible_to_def can_access_order_def)

lemma mem_list_visible_eq:
  assumes "by \<in> {''created_at'', ''status''}"
  shows "service_list_visible in_memory_repository (role_value (a_role a)) (a_user_id a) limit offset by
      flt (a_tenant_id a) s
    = (Inr (py_slice offset (offset + limit)
        (sort_orders by (filter (readable a flt) (values_of (orders s))))), s)"
proof -
  have "(\<lambda>x. visible_to (role_value (a_role a)) (a_user_id a) (a_tenant_id a) x \<and>
          (case flt of None \<Rightarrow> True | Some f \<Rightarrow> status_value (o_status x) = f)) = readable a flt"
    by (auto simp: readable_def visible_to_iff)
  then show ?thesis
    using assms by (cases flt)
      (simp_all add: service_list_visible_def mem_list_visible_def Let_def filter_filter conj_commute)
qed

lemma mem_ok_distinct_values: "mem_ok s \<Longrightarrow> distinct (values_of (orders s))"
proof -
  assume a: "mem_ok s"
  then have "map fst (orders s) = map o_id (values_of (orders s))"
    by (auto simp: mem_ok_def)
  with a show ?thesis unfolding mem_ok_def by (metis distinct_map)
qed

text \<open>
  C6. \<open>list_visible\<close> shows an actor exactly the stored orders that
  \<open>can_access_order\<close> grants, restricted to the requested status: every page is a
  slice of one list whose elements are those orders without repetition, sorted by
  creation time or by status with the id as tie breaker; consecutive pages are disjoint
  and together give the whole list.
\<close>

theorem list_visible_pages:
  assumes "mem_ok s" "by \<in> {''created_at'', ''status''}" "0 \<le> limit" "0 \<le> offset"
  shows "\<exists>all. set all = {x. \<exists>i. dict_get (orders s) i = Some x \<and> readable a flt x}
    \<and> distinct all
    \<and> (if by = ''status'' then sorted (map (\<lambda>x. (status_value (o_status x), o_id x)) all)
       else sorted (map (\<lambda>x. (o_created_at x, o_id x)) all))
    \<and> service_list_visible in_memory_repository (role_value (a_role a)) (a_user_id a) limit offset by
        flt (a_tenant_id a) s = (Inr (take (nat limit) (drop (nat offset) all)), s)"
proof -
  let ?all = "sort_orders by (filter (readable a flt) (values_of (orders s)))"
  have "set ?all = {x. \<exists>i. dict_get (orders s) i = Some x \<and> readable a flt x}"
    using set_values_iff [of "orders s"] assms(1) by (auto simp: sort_orders_def mem_ok_def)
  moreover have "distinct ?all"
    using mem_ok_distinct_values [OF assms(1)] by (simp add: sort_orders_def)
  moreover have "if by = ''status'' then sorted (map (\<lambda>x. (status_value (o_status x), o_id x)) ?all)
       else sorted (map (\<lambda>x. (o_created_at x, o_id x)) ?all)"
    by (simp add: sort_orders_def)
  ultimately show ?thesis
    by (intro exI [of _ ?all]) (simp only: mem_list_visible_eq [OF assms(2)] py_slice_nonneg [OF assms(4,3)] simp_thms)
qed

theorem list_visible_pages_witness:
  "\<exists>all. set all = {sample_order} \<and> distinct all
    \<and> service_list_visible in_memory_repository ''customer'' 7 10 0 ''created_at'' None
        DEFAULT_TENANT_ID sample_store = (Inr (take 10 (drop 0 all)), sample_store)"
proof -
  have "{x. \<exists>i. dict_get (orders sample_store) i = Some x \<and>
      readable \<lparr> a_user_id = 7, a_role = CUSTOMER, a_tenant_id = DEFAULT_TENANT_ID \<rparr> None x}
      = {sample_order}"
    by (auto simp: sample_store_eq readable_def can_access_order_def sample_order_def)
  with list_visible_pages [OF memory_run_book(1) [OF sample_run], of "''created_at''" 10 0
      "\<lparr> a_user_id = 7, a_role = CUSTOMER, a_tenant_id = DEFAULT_TENANT_ID \<rparr>" None]
  show ?thesis by simp blast
qed

section \<open>Failures and fingerprints\<close>

lemma place_order_refused:
  assumes "place_order in_memory_repository d k t sf s = (Inl err, s')"
  shows "s' = s"
  using assms
  by (cases sf) (auto simp: place_order_def mem_add_def mem_record_created_event_def
      mem_remember_idempotency_def andThen_Inl)

lemma service_create_refused:
  assumes "service_create in_memory_repository d k key t s = (Inl err, s')"
  shows "s' = s"
proof -
  consider "s' = s" | sf where "place_order in_memory_repository d k t sf s = (Inl err, s')"
    using assms unfolding service_create_def Let_def andThen_def mem_idempotent_order_def
      in_memory_repository_simps
    by (fastforce split: if_splits option.splits prod.splits)
  then show ?thesis by cases (auto dest: place_order_refused)
qed

text \<open>
  A use case that raises leaves the whole repository (orders, replies, history and
  outbox) exactly as it was: there is no partly applied use case.
\<close>

theorem failed_use_case_changes_nothing:
  assumes "mem_ok s"
  shows "(fst (service_create in_memory_repository d k key t s) = Inl err \<longrightarrow>
      snd (service_create in_memory_repository d k key t s) = s)
    \<and> (fst (service_update in_memory_repository i uk v s) = Inl err \<longrightarrow>
      snd (service_update in_memory_repository i uk v s) = s)
    \<and> (fst (service_transition in_memory_repository d i tk s) = Inl err \<longrightarrow>
      snd (service_transition in_memory_repository d i tk s) = s)
    \<and> (fst (service_assign in_memory_repository d i courier s) = Inl err \<longrightarrow>
      snd (service_assign in_memory_repository d i courier s) = s)
    \<and> (fst (service_claim_next in_memory_repository d courier t cid s) = Inl err \<longrightarrow>
      snd (service_claim_next in_memory_repository d courier t cid s) = s)"
  using service_create_refused mem.failed_call_frame [OF assms]
  by (metis prod.collapse)

theorem failed_use_case_changes_nothing_witness:
  "snd (service_transition in_memory_repository (sample_draws 2 6) 1
      \<lparr> tc_target = DELIVERED, tc_expected_version = 1, tc_actor_id = 7,
        tc_actor_role = ''customer'', tc_correlation_id = ''c'' \<rparr> sample_store) = sample_store"
proof -
  let ?k = "\<lparr> tc_target = DELIVERED, tc_expected_version = 1, tc_actor_id = 7,
    tc_actor_role = ''customer'', tc_correlation_id = ''c'' \<rparr>"
  obtain r s' where r: "service_transition in_memory_repository (sample_draws 2 6) 1 ?k sample_store = (r, s')"
    by fastforce
  then have "r = Inl (InvalidTransition ''created'' ''delivered'')"
    by (simp add: sample_store_eq sample_order_def service_transition_def service_get_def mem_get_def
        andThen_def ret_def check_def lift_result_def order_transition_def)
  with r failed_use_case_changes_nothing [OF memory_run_book(1) [OF sample_run]] show ?thesis
    by (metis fst_conv)
qed

text \<open>
  The idempotency scope determines tenant, customer and key, and the canonical JSON
  text whose digest is the request fingerprint determines the command: two different
  requests get the same scope and fingerprint only through a SHA-256 collision.
\<close>

theorem idempotency_identity:
  "(idempotency_scope t c key = idempotency_scope t' c' key' \<longleftrightarrow> t = t' \<and> c = c' \<and> key = key')
   \<and> (canonical_request k = canonical_request k' \<longleftrightarrow> k = k')"
proof
  show "idempotency_scope t c key = idempotency_scope t' c' key' \<longleftrightarrow> t = t' \<and> c = c' \<and> key = key'"
    by (auto simp: idempotency_scope_def)
  have "sort_keys (canonical_payload x) =
     [(''customer_id'', JStr (str_uuid (cc_customer_id x))),
      (''destination_address'', JStr (cc_destination_address x)),
      (''pickup_address'', JStr (cc_pickup_address x)),
      (''weight_grams'', JInt (cc_weight_grams x))]" for x
    by (simp add: sort_keys_def canonical_payload_def)
  then show "canonical_request k = canonical_request k' \<longleftrightarrow> k = k'"
    by (cases k; cases k') (auto simp: canonical_request_def json_string_append)
qed

end
