(* ===== verification/Rate_Limit.thy ===== *)
theory Rate_Limit
  imports Sha256
begin

text \<open>
  \<open>policy.py\<close>: the append-only audit trail, the sliding-window rate limiter with
  several budgets consumed atomically, and the normalisation of login identifiers. A
  \<open>deque\<close> is a list, its left end the head; \<open>total_seconds()\<close> is kept in
  whole microseconds, exact for the windows the service configures.
\<close>

section \<open>Audit trail\<close>

record AuditEvent =
  ae_event_id :: uuid
  ae_actor_id :: "string option"
  ae_subject_fingerprint :: string
  ae_action :: string
  ae_resource_id :: "string option"
  ae_outcome :: string
  ae_reason_code :: string
  ae_client_network_key :: string
  ae_correlation_id :: string
  ae_occurred_at :: datetime

type_synonym AuditTrail = "AuditEvent list"

definition audit_clear :: "AuditTrail \<Rightarrow> AuditTrail" where
  "audit_clear events = []"

definition audit_record ::
  "uuid \<Rightarrow> datetime \<Rightarrow> string option \<Rightarrow> string \<Rightarrow> string \<Rightarrow> string option \<Rightarrow> string \<Rightarrow> string
   \<Rightarrow> string \<Rightarrow> string \<Rightarrow> AuditTrail \<Rightarrow> AuditTrail" where
  "audit_record new_id now actor_id fingerprint action resource_id outcome reason_code
       client_network_key correlation_id events =
     events @ [\<lparr> ae_event_id = new_id, ae_actor_id = actor_id, ae_subject_fingerprint = fingerprint,
       ae_action = action, ae_resource_id = resource_id, ae_outcome = outcome,
       ae_reason_code = reason_code, ae_client_network_key = client_network_key,
       ae_correlation_id = correlation_id, ae_occurred_at = now \<rparr>]"

section \<open>Sliding window\<close>

record RateLimitDecision =
  rd_allowed :: bool
  rd_retry_after_seconds :: int

record SlidingWindowRateLimiter =
  rl_limit :: int
  rl_window :: int
  rl_requests :: "(string \<times> datetime list) list"

definition limiter_init :: "int \<Rightarrow> int \<Rightarrow> SlidingWindowRateLimiter" where
  "limiter_init limit window = \<lparr> rl_limit = limit, rl_window = window, rl_requests = [] \<rparr>"

text \<open>\<open>self._requests[key]\<close> of a \<open>defaultdict(deque)\<close>: a missing key is inserted empty.\<close>

definition bucket :: "(string \<times> datetime list) list \<Rightarrow> string \<Rightarrow> datetime list" where
  "bucket d key = (case dict_get d key of None \<Rightarrow> [] | Some b \<Rightarrow> b)"

definition touch_bucket ::
  "string \<Rightarrow> (string \<times> datetime list) list \<Rightarrow> (string \<times> datetime list) list" where
  "touch_bucket key d = (case dict_get d key of None \<Rightarrow> dict_set key [] d | Some _ \<Rightarrow> d)"

definition prune_bucket ::
  "datetime \<Rightarrow> string \<Rightarrow> (string \<times> datetime list) list \<Rightarrow> (string \<times> datetime list) list" where
  "prune_bucket threshold key d = dict_set key (dropWhile (\<lambda>r. r \<le> threshold) (bucket d key)) d"

definition append_bucket ::
  "datetime \<Rightarrow> string \<Rightarrow> (string \<times> datetime list) list \<Rightarrow> (string \<times> datetime list) list" where
  "append_bucket current key d = dict_set key (bucket d key @ [current]) d"

definition ceil_seconds :: "int \<Rightarrow> int" where
  "ceil_seconds microseconds = - ((- microseconds) div 1000000)"

definition check_many ::
  "datetime \<Rightarrow> string list \<Rightarrow> datetime option \<Rightarrow> (SlidingWindowRateLimiter, RateLimitDecision) action" where
  "check_many clock_now keys now s =
     (if keys = [] \<or> \<not> distinct keys
      then (Inl (ValueError ''rate-limit keys must be non-empty and unique''), s)
      else
        let current = (case now of Some t \<Rightarrow> t | None \<Rightarrow> clock_now);
            threshold = current - rl_window s;
            pruned = fold (prune_bucket threshold) keys (fold touch_bucket keys (rl_requests s));
            s1 = s \<lparr> rl_requests := pruned \<rparr>;
            blocked = filter (\<lambda>b. rl_limit s \<le> int (length b)) (map (bucket pruned) keys)
        in if blocked \<noteq> []
           then if [] \<in> set blocked then (Inl IndexError, s1)
                else let retry_after = Max (set (map (\<lambda>b. ceil_seconds (hd b + rl_window s - current)) blocked))
                     in (Inr \<lparr> rd_allowed = False, rd_retry_after_seconds = max 1 retry_after \<rparr>, s1)
           else (Inr \<lparr> rd_allowed = True, rd_retry_after_seconds = 0 \<rparr>,
                 s \<lparr> rl_requests := fold (append_bucket current) keys pruned \<rparr>))"

definition check_one ::
  "datetime \<Rightarrow> string \<Rightarrow> datetime option \<Rightarrow> (SlidingWindowRateLimiter, RateLimitDecision) action" where
  "check_one clock_now key now = check_many clock_now [key] now"

definition limiter_allow ::
  "datetime \<Rightarrow> string \<Rightarrow> datetime option \<Rightarrow> (SlidingWindowRateLimiter, bool) action" where
  "limiter_allow clock_now key now =
     andThen (check_one clock_now key now) (\<lambda>decision. ret (rd_allowed decision))"

definition limiter_clear :: "SlidingWindowRateLimiter \<Rightarrow> SlidingWindowRateLimiter" where
  "limiter_clear s = s \<lparr> rl_requests := [] \<rparr>"

section \<open>Login identifiers\<close>

definition normalize_login_subject :: "string \<Rightarrow> string result" where
  "normalize_login_subject raw =
     (let normalized = casefold (strip raw)
      in if \<not> (3 \<le> length normalized \<and> length normalized \<le> 160)
         then Inl (ValueError ''invalid login identifier'')
         else if list_ex (\<lambda>c. code c < 32 \<or> code c = 127) normalized
         then Inl (ValueError ''invalid login identifier'')
         else Inr normalized)"

definition subject_fingerprint :: "string \<Rightarrow> string" where
  "subject_fingerprint subject = sha256_hexdigest subject"

definition login_limit_keys :: "string \<Rightarrow> string \<Rightarrow> string list" where
  "login_limit_keys client_network_key subject =
     [''login:network:'' @ client_network_key, ''login:subject:'' @ subject_fingerprint subject]"

definition login_rate_limiter :: SlidingWindowRateLimiter where
  "login_rate_limiter = limiter_init 5 60000000"

section \<open>Buckets after the three passes\<close>

lemma bucket_update [simp]: "bucket (AList.update k v d) j = (if j = k then v else bucket d j)"
  by (simp add: bucket_def)

lemma bucket_touch [simp]: "bucket (fold touch_bucket keys d) j = bucket d j"
proof (induction keys arbitrary: d)
  case (Cons k ks)
  have "bucket (touch_bucket k d) j = bucket d j"
    by (auto simp: touch_bucket_def bucket_def split: option.splits)
  with Cons show ?case by simp
qed simp

lemma dropWhile_twice [simp]: "dropWhile P (dropWhile P xs) = dropWhile P xs"
  by (induction xs) auto

lemma bucket_prune [simp]:
  "bucket (fold (prune_bucket th) keys d) j =
     (if j \<in> set keys then dropWhile (\<lambda>r. r \<le> th) (bucket d j) else bucket d j)"
  by (induction keys arbitrary: d) (auto simp: prune_bucket_def)

lemma bucket_append [simp]:
  "distinct keys \<Longrightarrow> bucket (fold (append_bucket t) keys d) j =
     (if j \<in> set keys then bucket d j @ [t] else bucket d j)"
  by (induction keys arbitrary: d) (auto simp: append_bucket_def)

text \<open>The live part of a budget at a time, and the decision read off the live parts.\<close>

definition live :: "SlidingWindowRateLimiter \<Rightarrow> datetime \<Rightarrow> string \<Rightarrow> datetime list" where
  "live s t key = dropWhile (\<lambda>r. r \<le> t - rl_window s) (bucket (rl_requests s) key)"

definition limiter_ok :: "SlidingWindowRateLimiter \<Rightarrow> bool" where
  "limiter_ok s \<longleftrightarrow> 0 < rl_limit s \<and>
     (\<forall>key. sorted (bucket (rl_requests s) key) \<and> int (length (bucket (rl_requests s) key)) \<le> rl_limit s)"

lemma Max_map_in: "xs \<noteq> [] \<Longrightarrow> Max (set (map f xs)) \<in> set (map f xs)"
  by (intro Max_in) auto

lemma Max_map_ge: "x \<in> set xs \<Longrightarrow> f x \<le> Max (set (map f xs))"
  by (intro Max_ge) auto

lemma check_many_cases:
  assumes "keys \<noteq> []" "distinct keys" "limiter_ok s"
  shows "\<exists>d s'. check_many c keys (Some t) s = (Inr d, s') \<and> rl_limit s' = rl_limit s
    \<and> rl_window s' = rl_window s
    \<and> (rd_allowed d \<longleftrightarrow> (\<forall>k \<in> set keys. int (length (live s t k)) < rl_limit s))
    \<and> (\<forall>k. bucket (rl_requests s') k =
         (if k \<in> set keys then live s t k @ (if rd_allowed d then [t] else [])
          else bucket (rl_requests s) k))
    \<and> (\<not> rd_allowed d \<longrightarrow> 1 \<le> rd_retry_after_seconds d \<and>
         (\<forall>k \<in> set keys. rl_limit s \<le> int (length (live s t k)) \<longrightarrow>
            ceil_seconds (hd (live s t k) + rl_window s - t) \<le> rd_retry_after_seconds d)
         \<and> (\<exists>k \<in> set keys. rl_limit s \<le> int (length (live s t k))
              \<and> rd_retry_after_seconds d = max 1 (ceil_seconds (hd (live s t k) + rl_window s - t))))"
proof -
  let ?th = "t - rl_window s"
  let ?pr = "fold (prune_bucket ?th) keys (fold touch_bucket keys (rl_requests s))"
  let ?bl = "filter (\<lambda>b. rl_limit s \<le> int (length b)) (map (bucket ?pr) keys)"
  let ?f = "\<lambda>b. ceil_seconds (hd b + rl_window s - t)"
  have bl: "set ?bl = {live s t k | k. k \<in> set keys \<and> rl_limit s \<le> int (length (live s t k))}"
    by (auto simp: live_def)
  have ne: "[] \<notin> set ?bl" using assms(3) by (auto simp: limiter_ok_def)
  show ?thesis
  proof (cases "?bl = []")
    case True
    then have "check_many c keys (Some t) s = (Inr \<lparr> rd_allowed = True, rd_retry_after_seconds = 0 \<rparr>,
        s \<lparr> rl_requests := fold (append_bucket t) keys ?pr \<rparr>)"
      using assms(1,2) by (simp add: check_many_def Let_def)
    moreover have "\<forall>k \<in> set keys. int (length (live s t k)) < rl_limit s" using bl True by force
    ultimately show ?thesis using assms(2) by (simp add: live_def)
  next
    case False
    let ?r = "Max (set (map ?f ?bl))"
    have m: "?r \<in> set (map ?f ?bl)" "\<And>b. b \<in> set ?bl \<Longrightarrow> ?f b \<le> ?r"
      by (rule Max_map_in [OF False], rule Max_map_ge)
    obtain k where k: "k \<in> set keys" "rl_limit s \<le> int (length (live s t k))" "?r = ?f (live s t k)"
      using m(1) bl by auto
    have eq: "check_many c keys (Some t) s =
        (Inr \<lparr> rd_allowed = False, rd_retry_after_seconds = max 1 ?r \<rparr>, s \<lparr> rl_requests := ?pr \<rparr>)"
      using assms(1,2) False ne unfolding check_many_def Let_def by simp
    have ge: "\<forall>k \<in> set keys. rl_limit s \<le> int (length (live s t k)) \<longrightarrow> ?f (live s t k) \<le> max 1 ?r"
    proof (intro ballI impI)
      fix k assume "k \<in> set keys" "rl_limit s \<le> int (length (live s t k))"
      then have "live s t k \<in> set ?bl" unfolding bl by blast
      from m(2) [OF this] show "?f (live s t k) \<le> max 1 ?r" by linarith
    qed
    have ex: "\<exists>k \<in> set keys. rl_limit s \<le> int (length (live s t k))
        \<and> max 1 ?r = max 1 (?f (live s t k))" using k by metis
    have bk: "bucket ?pr j = (if j \<in> set keys then live s t j else bucket (rl_requests s) j)" for j
      by (simp add: live_def)
    have na: "\<not> (\<forall>k \<in> set keys. int (length (live s t k)) < rl_limit s)" using k(1,2) by force
    define P R where "P = ?pr" and "R = ?r"
    note folded = eq [folded P_def R_def] ge [folded R_def] ex [folded R_def] bk [folded P_def]
    show ?thesis using na folded(2,3) by (simp add: folded(1,4))
  qed
qed

lemma check_many_done:
  assumes "keys \<noteq> []" "distinct keys" "limiter_ok s" "check_many c keys (Some t) s = (r, s')"
  obtains d where "r = Inr d" "rl_limit s' = rl_limit s" "rl_window s' = rl_window s"
    "rd_allowed d \<longleftrightarrow> (\<forall>k \<in> set keys. int (length (live s t k)) < rl_limit s)"
    "\<And>k. bucket (rl_requests s') k =
       (if k \<in> set keys then live s t k @ (if rd_allowed d then [t] else []) else bucket (rl_requests s) k)"
proof -
  note cs = check_many_cases [OF assms(1-3), of c t]
  from cs assms(4) obtain d where "r = Inr d"
    "rl_limit s' = rl_limit s \<and> rl_window s' = rl_window s
     \<and> (rd_allowed d \<longleftrightarrow> (\<forall>k \<in> set keys. int (length (live s t k)) < rl_limit s))
     \<and> (\<forall>k. bucket (rl_requests s') k =
       (if k \<in> set keys then live s t k @ (if rd_allowed d then [t] else []) else bucket (rl_requests s) k))"
    by (metis (no_types, lifting) prod.inject)
  with that show thesis by blast
qed

section \<open>What the limiter guarantees\<close>

lemma sorted_dropWhile_int: "sorted (xs :: int list) \<Longrightarrow> sorted (dropWhile P xs)"
  by (metis sorted_wrt_append takeWhile_dropWhile_id)

lemma dropWhile_le_sorted:
  "sorted xs \<Longrightarrow> dropWhile (\<lambda>r. r \<le> (th :: int)) xs = filter (\<lambda>r. th < r) xs"
proof (induction xs)
  case (Cons a xs)
  then have "th < a \<Longrightarrow> filter (\<lambda>r. th < r) xs = xs" by (auto simp: filter_id_conv)
  with Cons show ?case by simp
qed simp

lemma live_sorted: "limiter_ok s \<Longrightarrow> sorted (live s t k)"
  by (simp add: live_def limiter_ok_def sorted_dropWhile_int)

lemma live_length: "length (live s t k) \<le> length (bucket (rl_requests s) k)"
  by (simp add: live_def length_dropWhile_le)

lemma live_bounds: "limiter_ok s \<Longrightarrow> x \<in> set (live s t k) \<Longrightarrow> t - rl_window s < x"
  by (simp add: live_def limiter_ok_def dropWhile_le_sorted)

definition before :: "SlidingWindowRateLimiter \<Rightarrow> datetime \<Rightarrow> bool" where
  "before s t \<longleftrightarrow> (\<forall>k. \<forall>r \<in> set (bucket (rl_requests s) k). r \<le> t)"

lemma check_many_ok:
  assumes "limiter_ok s" "before s t" "check_many c keys (Some t) s = (r, s')"
  shows "limiter_ok s'" "before s' t" "rl_limit s' = rl_limit s" "rl_window s' = rl_window s"
proof -
  have "limiter_ok s' \<and> before s' t \<and> rl_limit s' = rl_limit s \<and> rl_window s' = rl_window s"
  proof (cases "keys = [] \<or> \<not> distinct keys")
    case True
    with assms show ?thesis by (auto simp: check_many_def)
  next
    case False
    then have k: "keys \<noteq> []" "distinct keys" by auto
    obtain d where d: "r = Inr d" "rl_limit s' = rl_limit s" "rl_window s' = rl_window s"
      "rd_allowed d \<longleftrightarrow> (\<forall>k \<in> set keys. int (length (live s t k)) < rl_limit s)"
      "\<And>k. bucket (rl_requests s') k =
         (if k \<in> set keys then live s t k @ (if rd_allowed d then [t] else [])
          else bucket (rl_requests s) k)"
      using check_many_done [OF k assms(1,3)] by blast
    have old: "x \<in> set (live s t k) \<Longrightarrow> x \<le> t" for x k
      using assms(2) by (auto simp: before_def live_def dest: set_dropWhileD)
    have "sorted (bucket (rl_requests s') k)" for k
      using assms(1) live_sorted [OF assms(1), of t k] old by (auto simp: d(5) sorted_append limiter_ok_def)
    moreover have "int (length (bucket (rl_requests s') k)) \<le> rl_limit s'" for k
    proof -
      have "int (length (bucket (rl_requests s) k)) \<le> rl_limit s" using assms(1) by (simp add: limiter_ok_def)
      then show ?thesis using live_length [of s t k] d(2,4) by (force simp: d(5))
    qed
    moreover have "before s' t" using assms(2) old by (auto simp: before_def d(5) split: if_splits)
    ultimately show ?thesis using assms(1) d(2,3) by (simp add: limiter_ok_def)
  qed
  then show "limiter_ok s'" "before s' t" "rl_limit s' = rl_limit s" "rl_window s' = rl_window s" by auto
qed

text \<open>The times at which a key was granted a slot, along a sequence of checks.\<close>

fun granted :: "datetime \<Rightarrow> string \<Rightarrow> (string list \<times> datetime) list \<Rightarrow> SlidingWindowRateLimiter \<Rightarrow> datetime list" where
  "granted c k [] s = []"
| "granted c k ((keys, t) # calls) s =
     (case check_many c keys (Some t) s of
        (Inl _, s') \<Rightarrow> granted c k calls s'
      | (Inr d, s') \<Rightarrow> (if rd_allowed d \<and> k \<in> set keys then [t] else []) @ granted c k calls s')"

definition in_window :: "int \<Rightarrow> datetime \<Rightarrow> datetime list \<Rightarrow> datetime list" where
  "in_window w T xs = filter (\<lambda>x. T - w < x \<and> x \<le> T) xs"

text \<open>\<open>G\<close> is the history of a key: its old part has left the window, the rest is stored.\<close>

definition tracks :: "SlidingWindowRateLimiter \<Rightarrow> string \<Rightarrow> datetime \<Rightarrow> datetime list \<Rightarrow> bool" where
  "tracks s k t G \<longleftrightarrow> (\<exists>old. G = old @ bucket (rl_requests s) k \<and> (\<forall>x \<in> set old. x \<le> t - rl_window s))
     \<and> (\<forall>T. int (length (in_window (rl_window s) T G)) \<le> rl_limit s) \<and> (\<forall>x \<in> set G. x \<le> t)"

lemma in_window_snoc:
  assumes "limiter_ok s" "tracks s k t0 G" "t0 \<le> t" "0 \<le> rl_window s"
    "int (length (live s t k)) < rl_limit s"
  shows "int (length (in_window (rl_window s) T (G @ [t]))) \<le> rl_limit s"
proof (cases "t \<le> T")
  case False
  with assms(2) show ?thesis by (simp add: in_window_def tracks_def)
next
  case True
  from assms(2) obtain old where G: "G = old @ bucket (rl_requests s) k"
    "\<forall>x \<in> set old. x \<le> t0 - rl_window s" unfolding tracks_def by blast
  have "in_window (rl_window s) T old = []" using G(2) assms(3) True
    by (fastforce simp: in_window_def filter_empty_conv)
  moreover have "length (in_window (rl_window s) T (bucket (rl_requests s) k)) \<le> length (live s t k)"
  proof -
    have "in_window (rl_window s) T (bucket (rl_requests s) k)
        = filter (\<lambda>x. T - rl_window s < x \<and> x \<le> T) (live s t k)"
      using assms(1) True
      by (auto simp: in_window_def live_def limiter_ok_def dropWhile_le_sorted intro!: filter_cong)
    then show ?thesis by simp
  qed
  moreover have "length (in_window (rl_window s) T [t]) \<le> 1" by (simp add: in_window_def)
  ultimately show ?thesis using assms(5) G(1) by (simp add: in_window_def)
qed

lemma tracks_later: "tracks s k t0 G \<Longrightarrow> t0 \<le> t \<Longrightarrow> tracks s k t G"
  unfolding tracks_def by force

lemma tracks_step:
  assumes "limiter_ok s" "0 \<le> rl_window s" "tracks s k t0 G" "t0 \<le> t"
    "rl_limit s' = rl_limit s" "rl_window s' = rl_window s"
    "grant \<Longrightarrow> k \<in> set keys \<Longrightarrow> int (length (live s t k)) < rl_limit s"
    "bucket (rl_requests s') k =
       (if k \<in> set keys then live s t k @ (if grant then [t] else []) else bucket (rl_requests s) k)"
  shows "tracks s' k t (G @ (if grant \<and> k \<in> set keys then [t] else []))"
proof (cases "k \<in> set keys")
  case False
  with tracks_later [OF assms(3,4)] assms(5,6,8) show ?thesis by (simp add: tracks_def)
next
  case True
  let ?b = "bucket (rl_requests s) k"
  from tracks_later [OF assms(3,4)] obtain old where G: "G = old @ ?b" "\<forall>x \<in> set old. x \<le> t - rl_window s"
    unfolding tracks_def by blast
  have split: "?b = takeWhile (\<lambda>r. r \<le> t - rl_window s) ?b @ live s t k" by (simp add: live_def)
  have "\<forall>x \<in> set (old @ takeWhile (\<lambda>r. r \<le> t - rl_window s) ?b). x \<le> t - rl_window s"
    using G(2) by (auto dest: set_takeWhileD)
  moreover have "G @ (if grant then [t] else [])
      = (old @ takeWhile (\<lambda>r. r \<le> t - rl_window s) ?b) @ bucket (rl_requests s') k"
    using G(1) split assms(8) True by simp
  moreover have "\<forall>T. int (length (in_window (rl_window s) T (G @ (if grant then [t] else [])))) \<le> rl_limit s"
    using in_window_snoc [OF assms(1,3,4,2)] assms(3,7) True by (simp add: tracks_def)
  moreover have "\<forall>x \<in> set (G @ (if grant then [t] else [])). x \<le> t"
    using tracks_later [OF assms(3,4)] by (auto simp: tracks_def)
  ultimately show ?thesis
    unfolding tracks_def assms(5,6) using True
    by (intro conjI exI [of _ "old @ takeWhile (\<lambda>r. r \<le> t - rl_window s) ?b"]) simp_all
qed

lemma granted_bound:
  assumes "limiter_ok s" "0 \<le> rl_window s" "tracks s k t0 G" "before s t0" "sorted (t0 # map snd calls)"
  shows "int (length (in_window (rl_window s) T (G @ granted c k calls s))) \<le> rl_limit s"
  using assms
proof (induction calls arbitrary: s t0 G)
  case Nil
  then show ?case by (simp add: tracks_def)
next
  case (Cons call calls)
  obtain keys t where call: "call = (keys, t)" by (cases call)
  obtain r s' where r: "check_many c keys (Some t) s = (r, s')" by fastforce
  have t: "t0 \<le> t" "sorted (t # map snd calls)" using Cons.prems(5) call by auto
  have bf: "before s t" using Cons.prems(4) t(1) unfolding before_def by force
  note ok = check_many_ok [OF Cons.prems(1) bf r]
  show ?case
  proof (cases "keys = [] \<or> \<not> distinct keys")
    case True
    then have "s' = s \<and> (\<exists>e. r = Inl e)" using r by (auto simp: check_many_def)
    with Cons.IH [OF Cons.prems(1,2) tracks_later [OF Cons.prems(3) t(1)] bf t(2)] r call
    show ?thesis by auto
  next
    case False
    then have k: "keys \<noteq> []" "distinct keys" by auto
    obtain d where d: "r = Inr d" "rl_limit s' = rl_limit s" "rl_window s' = rl_window s"
      "rd_allowed d \<longleftrightarrow> (\<forall>k \<in> set keys. int (length (live s t k)) < rl_limit s)"
      "\<And>k. bucket (rl_requests s') k =
         (if k \<in> set keys then live s t k @ (if rd_allowed d then [t] else []) else bucket (rl_requests s) k)"
      using check_many_done [OF k Cons.prems(1) r] by blast
    have "tracks s' k t (G @ (if rd_allowed d \<and> k \<in> set keys then [t] else []))"
      using d(4) by (intro tracks_step [OF Cons.prems(1-3) t(1) d(2,3) _ d(5)]) blast
    from Cons.IH [OF ok(1) _ this ok(2) t(2)] Cons.prems(2) d(1-3) r call show ?thesis by simp
  qed
qed

lemma limiter_init_ok:
  "0 < limit \<Longrightarrow> limiter_ok (limiter_init limit w) \<and> before (limiter_init limit w) t
     \<and> tracks (limiter_init limit w) k t []"
  by (simp add: limiter_ok_def before_def tracks_def limiter_init_def bucket_def in_window_def)

text \<open>
  C12. Whatever checks are made, on whatever key combinations, in the order of the clock:
  no window of the configured length contains more granted requests of one key than the
  limit.
\<close>

theorem rate_limit_window_bound:
  assumes "0 < limit" "0 \<le> window" "sorted (map snd calls)"
  shows "int (length (in_window window T (granted c key calls (limiter_init limit window)))) \<le> limit"
proof (cases calls)
  case Nil
  with assms(1) show ?thesis by (simp add: in_window_def)
next
  case (Cons call rest)
  let ?s = "limiter_init limit window"
  have "rl_limit ?s = limit" "rl_window ?s = window" by (simp_all add: limiter_init_def)
  moreover have "sorted (snd call # map snd calls)" using assms(3) Cons by simp
  ultimately show ?thesis
    using granted_bound [of ?s key "snd call" "[]" calls T c] limiter_init_ok [OF assms(1)] assms(2)
    by simp
qed

theorem rate_limit_window_bound_witness:
  "int (length (in_window 60000000 60 (granted 0 ''a'' [([''a''], 10), ([''a'', ''b''], 20)]
     (limiter_init 5 60000000)))) \<le> 5"
  using rate_limit_window_bound [of 5 60000000 "[([''a''], 10), ([''a'', ''b''], 20)]" 60 0 "''a''"]
  by simp

lemma ceil_seconds_le: "ceil_seconds x \<le> r \<longleftrightarrow> x \<le> r * 1000000"
proof -
  define q m where "q = (- x) div 1000000" and "m = (- x) mod 1000000"
  then have "- x = q * 1000000 + m" "0 \<le> m" "m < 1000000" by simp_all
  then have "- q \<le> r \<longleftrightarrow> x \<le> r * 1000000" by linarith
  then show ?thesis by (simp add: ceil_seconds_def q_def)
qed

text \<open>The part of a budget that a refusal left is still there, or gone, at a later time.\<close>

lemma live_again:
  assumes "rl_window s' = rl_window s" "bucket (rl_requests s') k = live s t k" "limiter_ok s"
  shows "live s' t' k = dropWhile (\<lambda>r. r \<le> t' - rl_window s) (live s t k)"
  using assms by (simp add: live_def)

text \<open>
  \<open>Retry-After\<close> is sound and tight. After a refusal that names \<open>r\<close> seconds,
  with no other request in between, the same check is granted at every time from
  \<open>r\<close> seconds on, and refused at every time more than one second earlier.
  A refusal consumes no budget: every bucket keeps exactly its unexpired entries.
\<close>

theorem retry_after_exact:
  assumes "limiter_ok s" "keys \<noteq> []" "distinct keys"
    "check_many c keys (Some t) s = (Inr d, s')" "\<not> rd_allowed d" "before s t"
  shows "1 \<le> rd_retry_after_seconds d
    \<and> (\<forall>k \<in> set keys. bucket (rl_requests s') k = live s t k)
    \<and> (t + rd_retry_after_seconds d * 1000000 \<le> t' \<longrightarrow>
        (\<exists>d' s''. check_many c keys (Some t') s' = (Inr d', s'') \<and> rd_allowed d'))
    \<and> (t' < t + (rd_retry_after_seconds d - 1) * 1000000 \<longrightarrow>
        (\<exists>d' s''. check_many c keys (Some t') s' = (Inr d', s'') \<and> \<not> rd_allowed d'))"
proof -
  let ?r = "rd_retry_after_seconds d"
  have ok': "limiter_ok s'" by (rule check_many_ok(1) [OF assms(1,6,4)])
  have eff: "rl_limit s' = rl_limit s" "rl_window s' = rl_window s"
    "\<forall>k \<in> set keys. bucket (rl_requests s') k = live s t k" "1 \<le> ?r"
    "\<forall>k \<in> set keys. rl_limit s \<le> int (length (live s t k)) \<longrightarrow>
        ceil_seconds (hd (live s t k) + rl_window s - t) \<le> ?r"
    "\<exists>k \<in> set keys. rl_limit s \<le> int (length (live s t k))
        \<and> ?r = max 1 (ceil_seconds (hd (live s t k) + rl_window s - t))"
    using check_many_cases [OF assms(2,3,1), of c t] assms(4,5) by auto
  note lim = assms(1) [unfolded limiter_ok_def]
  obtain d' s'' where c': "check_many c keys (Some t') s' = (Inr d', s'')"
    "rd_allowed d' \<longleftrightarrow> (\<forall>k \<in> set keys. int (length (live s' t' k)) < rl_limit s')"
    using check_many_cases [OF assms(2,3) ok', of c t'] by blast
  note again = live_again [OF eff(2) _ assms(1)]
  have "int (length (live s' t' k)) < rl_limit s'" if k: "k \<in> set keys" and l: "t + ?r * 1000000 \<le> t'" for k
  proof (cases "rl_limit s \<le> int (length (live s t k))")
    case True
    then obtain x xs where x: "live s t k = x # xs" using lim by (cases "live s t k") auto
    have "x + rl_window s - t \<le> ?r * 1000000" using eff(5) k True x ceil_seconds_le by auto
    then have "x \<le> t' - rl_window s" using l by linarith
    then have "live s' t' k = dropWhile (\<lambda>r. r \<le> t' - rl_window s) xs"
      using again [of k t t'] eff(3) k x by simp
    moreover have "int (length (x # xs)) \<le> rl_limit s"
      using live_length [of s t k] lim x by (metis int_ops(1) nat_int_comparison(3) order_trans)
    ultimately show ?thesis using length_dropWhile_le [of "\<lambda>r. r \<le> t' - rl_window s" xs] eff(1) by simp
  next
    case False
    then show ?thesis
      using again [of k t t'] eff(1,3) k length_dropWhile_le [of "\<lambda>r. r \<le> t' - rl_window s" "live s t k"]
      by simp
  qed
  moreover have "\<exists>k \<in> set keys. \<not> int (length (live s' t' k)) < rl_limit s'"
    if e: "t' < t + (?r - 1) * 1000000"
  proof -
    from eff(6) obtain k where k: "k \<in> set keys" "rl_limit s \<le> int (length (live s t k))"
      "?r = max 1 (ceil_seconds (hd (live s t k) + rl_window s - t))" by blast
    then obtain x xs where x: "live s t k = x # xs" using lim by (cases "live s t k") auto
    show ?thesis
    proof (cases "t \<le> t'")
      case True
      then have "\<not> ceil_seconds (x + rl_window s - t) \<le> ?r - 1" using k(3) e x by auto
      then have "\<not> x \<le> t' - rl_window s" unfolding ceil_seconds_le using e by linarith
      then have "live s' t' k = live s t k" using again [of k t t'] eff(3) k(1) x by simp
      then show ?thesis using k(1,2) eff(1) by force
    next
      case False
      have "\<forall>y \<in> set (live s t k). \<not> y \<le> t' - rl_window s"
        using live_bounds [OF assms(1), of _ t k] False by fastforce
      then have "live s' t' k = live s t k"
        using again [of k t t'] eff(3) k(1) x by simp
      then show ?thesis using k(1,2) eff(1) by force
    qed
  qed
  ultimately show ?thesis using eff(3,4) c' by blast
qed

theorem retry_after_exact_witness:
  "\<exists>s' d'. check_many 0 [''a''] (Some 60000000) s' = (Inr d', s' \<lparr> rl_requests := [(''a'', [60000000])] \<rparr>)
    \<and> rd_allowed d'"
proof -
  let ?s = "\<lparr> rl_limit = 1, rl_window = 50000000, rl_requests = [(''a'', [5000000])] \<rparr>"
  have ok: "limiter_ok ?s" "before ?s 10000000" by (auto simp: limiter_ok_def bucket_def before_def)
  have c: "check_many 0 [''a''] (Some 10000000) ?s =
      (Inr \<lparr> rd_allowed = False, rd_retry_after_seconds = 45 \<rparr>, ?s)"
    by (simp add: check_many_def Let_def touch_bucket_def prune_bucket_def bucket_def ceil_seconds_def)
  obtain d' s'' where "check_many 0 [''a''] (Some 60000000) ?s = (Inr d', s'')" "rd_allowed d'"
    using retry_after_exact [OF ok(1) _ _ c _ ok(2), of 60000000] by auto
  moreover have "s'' = ?s \<lparr> rl_requests := [(''a'', [60000000])] \<rparr>"
    using calculation
    by (simp add: check_many_def Let_def touch_bucket_def prune_bucket_def bucket_def append_bucket_def)
  ultimately show ?thesis by blast
qed

section \<open>Login identifiers\<close>

lemma lower_space [simp]: "is_space (lower c) = is_space c"
  by (auto simp: lower_def is_space_def code_def)

lemma lower_idem [simp]: "lower (lower c) = lower c"
  by (auto simp: lower_def code_def)

lemma casefold_strip: "casefold (strip s) = strip (casefold s)"
  by (simp add: casefold_def strip_def lstrip_def dropWhile_map o_def rev_map)

lemma dropWhile_rev_idem:
  "dropWhile P (rev (dropWhile P (rev (dropWhile P xs)))) = rev (dropWhile P (rev (dropWhile P xs)))"
proof (cases "dropWhile P xs")
  case (Cons y ys)
  then have y: "\<not> P y" by (metis dropWhile_eq_Cons_conv)
  then have "dropWhile P (rev (y # ys)) = dropWhile P (rev ys) @ [y]"
    by (induction ys rule: rev_induct) auto
  then show ?thesis using Cons y by simp
next
  case Nil
  show ?thesis unfolding Nil by simp
qed

lemma strip_idem: "strip (strip s) = strip s"
  unfolding strip_def lstrip_def using dropWhile_rev_idem [of is_space s] by simp

text \<open>
  An accepted login identifier is in normal form: 3 to 160 characters, no control
  character, and normalising it again returns it; equal identifiers up to case and
  surrounding space get the same rate-limit keys, which are two different keys of bounded
  length apart from the network part.
\<close>

theorem normalize_login_subject_normal_form:
  assumes "normalize_login_subject raw = Inr subject"
  shows "3 \<le> length subject \<and> length subject \<le> 160
    \<and> (\<forall>c \<in> set subject. 32 \<le> code c \<and> code c \<noteq> 127)
    \<and> normalize_login_subject subject = Inr subject
    \<and> distinct (login_limit_keys net subject)
    \<and> (casefold (strip raw') = casefold (strip raw) \<longrightarrow> normalize_login_subject raw' = Inr subject)
    \<and> length (login_limit_keys net subject ! 1) = 78"
proof -
  from assms have s: "subject = casefold (strip raw)" "3 \<le> length subject" "length subject \<le> 160"
    "\<not> list_ex (\<lambda>c. code c < 32 \<or> code c = 127) subject"
    by (auto simp: normalize_login_subject_def Let_def split: if_splits)
  have fix_pt: "casefold (strip subject) = subject"
    unfolding s(1) by (simp add: casefold_strip strip_idem) (simp add: casefold_def o_def)
  have "\<forall>c \<in> set subject. 32 \<le> code c \<and> code c \<noteq> 127"
    using s(4) by (auto simp: list_ex_iff not_less)
  moreover have "normalize_login_subject subject = Inr subject"
    using s(2-4) fix_pt by (simp add: normalize_login_subject_def Let_def)
  moreover have "casefold (strip raw') = casefold (strip raw) \<longrightarrow> normalize_login_subject raw' = Inr subject"
    using assms by (auto simp: normalize_login_subject_def)
  ultimately show ?thesis
    using s(2,3) by (simp add: login_limit_keys_def subject_fingerprint_def)
qed

theorem normalize_login_subject_normal_form_witness:
  "normalize_login_subject ''ab-1'' = Inr ''ab-1''"
proof -
  have "normalize_login_subject '' AB-1'' = Inr ''ab-1''" by code_simp
  from normalize_login_subject_normal_form [OF this] show ?thesis by blast
qed

end
