(* ===== verification/Circuit.thy ===== *)
theory Circuit
  imports Py_Text
begin

text \<open>
  \<open>retry_policy.py\<close> and the route lookup of \<open>integrations.py\<close>: the circuit
  breaker, the bounded retry of one logical lookup, the validation of the provider's
  answer and the adapter that combines them. The HTTP client and Tenacity's
  \<open>AsyncRetrying\<close> are third-party code and arguments of the definitions; the clock
  reading of a breaker call is an argument of it. A breaker method holds the breaker's
  lock, so it is one step; the calls of concurrent lookups interleave between the steps.
\<close>

section \<open>Circuit breaker\<close>

datatype CircuitState = CLOSED_CIRCUIT | OPEN_CIRCUIT | HALF_OPEN_CIRCUIT

record CircuitPermit =
  half_open_probe :: bool

record CircuitBreaker =
  failure_threshold :: int
  recovery_timeout :: real
  cb_state :: CircuitState
  consecutive_failures :: int
  opened_at :: "real option"
  probe_in_flight :: bool

definition circuit_breaker :: "int \<Rightarrow> real \<Rightarrow> CircuitBreaker result" where
  "circuit_breaker threshold timeout =
     (if threshold < 1 then Inl (ValueError ''failure_threshold must be positive'')
      else if timeout \<le> 0 then Inl (ValueError ''recovery_timeout must be positive'')
      else Inr \<lparr> failure_threshold = threshold, recovery_timeout = timeout,
                 cb_state = CLOSED_CIRCUIT, consecutive_failures = 0, opened_at = None,
                 probe_in_flight = False \<rparr>)"

definition cb_acquire :: "real \<Rightarrow> (CircuitBreaker, CircuitPermit) action" where
  "cb_acquire now s =
     (if cb_state s = CLOSED_CIRCUIT then (Inr \<lparr> half_open_probe = False \<rparr>, s)
      else case opened_at s of
        None \<Rightarrow> (Inl (AssertionError ''''), s)
      | Some t \<Rightarrow>
          if now - t < recovery_timeout s
          then (Inl (CircuitOpenError ''route service circuit is open''), s)
          else let s1 = s \<lparr> cb_state := HALF_OPEN_CIRCUIT \<rparr>
               in if probe_in_flight s1
                  then (Inl (CircuitOpenError ''route service recovery probe is already running''), s1)
                  else (Inr \<lparr> half_open_probe = True \<rparr>, s1 \<lparr> probe_in_flight := True \<rparr>))"

definition open_now :: "real \<Rightarrow> CircuitBreaker \<Rightarrow> CircuitBreaker" where
  "open_now now s = s \<lparr> cb_state := OPEN_CIRCUIT, opened_at := Some now \<rparr>"

definition record_success :: "CircuitPermit \<Rightarrow> CircuitBreaker \<Rightarrow> CircuitBreaker" where
  "record_success permit s =
     (let s1 = s \<lparr> cb_state := CLOSED_CIRCUIT, consecutive_failures := 0, opened_at := None \<rparr>
      in if half_open_probe permit then s1 \<lparr> probe_in_flight := False \<rparr> else s1)"

definition record_failure :: "real \<Rightarrow> CircuitPermit \<Rightarrow> CircuitBreaker \<Rightarrow> CircuitBreaker" where
  "record_failure now permit s =
     (if half_open_probe permit then open_now now (s \<lparr> probe_in_flight := False \<rparr>)
      else let s1 = s \<lparr> consecutive_failures := consecutive_failures s + 1 \<rparr>
           in if failure_threshold s1 \<le> consecutive_failures s1 then open_now now s1 else s1)"

definition abandon :: "real \<Rightarrow> CircuitPermit \<Rightarrow> CircuitBreaker \<Rightarrow> CircuitBreaker" where
  "abandon now permit s =
     (if half_open_probe permit then open_now now (s \<lparr> probe_in_flight := False \<rparr>) else s)"

section \<open>Errors of one lookup\<close>

text \<open>The concrete \<open>httpx.RequestError\<close> classes; the first four are its \<open>TimeoutException\<close>s.\<close>

datatype request_error =
    ConnectTimeout | ReadTimeout | WriteTimeout | PoolTimeout
  | ConnectError | ReadError | WriteError | CloseError
  | LocalProtocolError | RemoteProtocolError | ProxyError | UnsupportedProtocol
  | DecodingError | TooManyRedirects

datatype route_error =
    LookupCancelled
  | DeadlineExceeded
  | RequestFailed request_error
  | StatusError bool int
  | InvalidRoutePayload
  | Unexpected string

definition is_timeout_exception :: "request_error \<Rightarrow> bool" where
  "is_timeout_exception e \<longleftrightarrow> e \<in> {ConnectTimeout, ReadTimeout, WriteTimeout, PoolTimeout}"

text \<open>\<open>StatusError True\<close> is a \<open>RetryableRouteStatus\<close>.\<close>

definition retryable_route_error :: "route_error \<Rightarrow> bool" where
  "retryable_route_error e =
     (case e of
        RequestFailed r \<Rightarrow> r \<in> {ConnectError, ConnectTimeout, ReadError, ReadTimeout, RemoteProtocolError}
      | StatusError retryable _ \<Rightarrow> retryable
      | _ \<Rightarrow> False)"

type_synonym ('w, 'a) lookup = "'w \<Rightarrow> (route_error + 'a) \<times> 'w"

text \<open>
  \<open>async_retrying retryable attempts\<close> stands for \<open>AsyncRetrying\<close> with
  \<open>retry_if_exception_type\<close>, \<open>stop_after_attempt\<close> and \<open>reraise=True\<close>, run over an operation.
\<close>

definition build_route_retrying ::
  "((route_error \<Rightarrow> bool) \<Rightarrow> int \<Rightarrow> ('w, 'a) lookup \<Rightarrow> ('w, 'a) lookup) \<Rightarrow> int
   \<Rightarrow> (('w, 'a) lookup \<Rightarrow> ('w, 'a) lookup) result" where
  "build_route_retrying async_retrying attempts =
     (if attempts < 1 then Inl (ValueError ''attempts must be positive'')
      else Inr (async_retrying retryable_route_error attempts))"

definition run_with_route_retry ::
  "(('w, 'a) lookup \<Rightarrow> ('w, 'a) lookup) \<Rightarrow> ('w, 'a) lookup \<Rightarrow> ('w, 'a) lookup" where
  "run_with_route_retry controller operation = controller operation"

section \<open>Queries and answers\<close>

record RouteQuery =
  rq_origin :: string
  rq_destination :: string

definition route_query :: "string \<Rightarrow> string \<Rightarrow> RouteQuery result" where
  "route_query origin destination =
     (if strip origin = '''' \<or> strip destination = ''''
      then Inl (ValueError ''origin and destination must not be blank'')
      else Inr \<lparr> rq_origin = origin, rq_destination = destination \<rparr>)"

record RouteEstimate =
  distance_m :: int
  duration_s :: int
  provider_ref :: string

definition estimate_minutes :: "RouteEstimate \<Rightarrow> int" where
  "estimate_minutes e = (duration_s e + 59) div 60"

record ProviderRoutePayload =
  route_id :: string
  distance_meters :: int
  duration_seconds :: int

text \<open>Strict validation with \<open>extra="forbid"\<close>: exactly the three fields, each of its JSON type and in range.\<close>

definition validate_route_payload :: "json \<Rightarrow> ProviderRoutePayload option" where
  "validate_route_payload v =
     (case v of
        JObj kvs \<Rightarrow>
          if \<not> set (map fst kvs) \<subseteq> {''route_id'', ''distance_meters'', ''duration_seconds''} then None
          else (case (dict_get kvs ''route_id'', dict_get kvs ''distance_meters'', dict_get kvs ''duration_seconds'') of
                  (Some (JStr r), Some (JInt d), Some (JInt t)) \<Rightarrow>
                    if 1 \<le> length r \<and> length r \<le> 128 \<and> 0 < d \<and> d \<le> 2000000 \<and> 0 < t \<and> t \<le> 172800
                    then Some \<lparr> route_id = r, distance_meters = d, duration_seconds = t \<rparr> else None
                | _ \<Rightarrow> None)
      | _ \<Rightarrow> None)"

text \<open>A response: its status and its decoded body (\<open>None\<close> when \<open>response.json()\<close> raises).\<close>

record route_response =
  rr_status :: int
  rr_json :: "json option"

text \<open>\<open>raises_for_status\<close> stands for httpx's \<open>raise_for_status\<close>.\<close>

definition estimate_once ::
  "(int \<Rightarrow> bool) \<Rightarrow> (RouteQuery \<Rightarrow> ('w, route_response) lookup) \<Rightarrow> RouteQuery \<Rightarrow> ('w, RouteEstimate) lookup" where
  "estimate_once raises_for_status client_get query w =
     (case client_get query w of
        (Inl e, w') \<Rightarrow> (Inl e, w')
      | (Inr response, w') \<Rightarrow>
          (if rr_status response \<in> {429, 502, 503, 504} then Inl (StatusError True (rr_status response))
           else if raises_for_status (rr_status response) then Inl (StatusError False (rr_status response))
           else case Option.bind (rr_json response) validate_route_payload of
                  None \<Rightarrow> Inl InvalidRoutePayload
                | Some remote \<Rightarrow>
                    Inr \<lparr> distance_m = distance_meters remote, duration_s = duration_seconds remote,
                          provider_ref = route_id remote \<rparr>, w'))"

section \<open>The adapter\<close>

text \<open>
  \<open>RouteServiceAdapter.estimate\<close> in its two breaker steps: the permit before the lookup,
  and what the handlers do with its outcome. The lookup in between runs without the lock.
\<close>

definition estimate_begin :: "real \<Rightarrow> (CircuitBreaker, CircuitPermit) action" where
  "estimate_begin now s =
     (case cb_acquire now s of
        (Inl (CircuitOpenError _), s') \<Rightarrow> (Inl (RouteServiceUnavailable ''route service is temporarily disabled''), s')
      | (r, s') \<Rightarrow> (r, s'))"

definition estimate_finish ::
  "real \<Rightarrow> CircuitPermit \<Rightarrow> route_error + RouteEstimate \<Rightarrow> (CircuitBreaker, RouteEstimate) action" where
  "estimate_finish now permit outcome s =
     (case outcome of
        Inl LookupCancelled \<Rightarrow> (Inl CancelledError, abandon now permit s)
      | Inl DeadlineExceeded \<Rightarrow>
          (Inl (RouteServiceUnavailable ''route lookup deadline exceeded''), record_failure now permit s)
      | Inl (RequestFailed e) \<Rightarrow>
          (if is_timeout_exception e
           then (Inl (RouteServiceUnavailable ''route service timed out''), record_failure now permit s)
           else (Inl (RouteServiceUnavailable ''route service is unreachable''), record_failure now permit s))
      | Inl InvalidRoutePayload \<Rightarrow>
          (Inl (InvalidRouteResponse ''route service returned an invalid payload''), record_failure now permit s)
      | Inl (StatusError _ status) \<Rightarrow>
          (if status \<in> {400, 404, 422}
           then (Inl (RouteRequestRejected ''route cannot be calculated''), record_success permit s)
           else (Inl (RouteServiceUnavailable ''route service returned an error''), record_failure now permit s))
      | Inl (Unexpected m) \<Rightarrow> (Inl (OtherException m), s)
      | Inr result \<Rightarrow> (Inr result, record_success permit s))"

text \<open>
  One lookup with no other lookup in between; \<open>with_timeout\<close> stands for \<open>asyncio.timeout\<close>,
  \<open>begins\<close> and \<open>ends\<close> are the clock readings.
\<close>

definition route_estimate ::
  "(int \<Rightarrow> bool) \<Rightarrow> (RouteQuery \<Rightarrow> ('w, route_response) lookup)
   \<Rightarrow> (('w, RouteEstimate) lookup \<Rightarrow> ('w, RouteEstimate) lookup)
   \<Rightarrow> (('w, RouteEstimate) lookup \<Rightarrow> ('w, RouteEstimate) lookup) \<Rightarrow> real \<Rightarrow> real \<Rightarrow> RouteQuery
   \<Rightarrow> (CircuitBreaker \<times> 'w, RouteEstimate) action" where
  "route_estimate raises_for_status client_get controller with_timeout begins ends query st =
     (let (s, w) = st in
      case estimate_begin begins s of
        (Inl e, s') \<Rightarrow> (Inl e, (s', w))
      | (Inr permit, s') \<Rightarrow>
          (case with_timeout (run_with_route_retry controller (estimate_once raises_for_status client_get query)) w of
             (outcome, w') \<Rightarrow>
               (case estimate_finish ends permit outcome s' of (r, s'') \<Rightarrow> (r, (s'', w')))))"

section \<open>The breaker's invariant\<close>

lemmas breaker_defs = cb_acquire_def open_now_def record_success_def record_failure_def abandon_def Let_def

definition breaker_ok :: "CircuitBreaker \<Rightarrow> bool" where
  "breaker_ok s \<longleftrightarrow> 1 \<le> failure_threshold s \<and> 0 < recovery_timeout s
     \<and> (opened_at s = None \<longleftrightarrow> cb_state s = CLOSED_CIRCUIT)
     \<and> 0 \<le> consecutive_failures s
     \<and> (cb_state s = CLOSED_CIRCUIT \<longrightarrow> consecutive_failures s < failure_threshold s)
     \<and> (cb_state s = HALF_OPEN_CIRCUIT \<longrightarrow> probe_in_flight s)"

lemma breaker_ok_init: "circuit_breaker n t = Inr s \<Longrightarrow> breaker_ok s \<and> \<not> probe_in_flight s"
  by (auto simp: circuit_breaker_def breaker_ok_def split: if_splits)

lemma cb_acquire_ok: "breaker_ok s \<Longrightarrow> breaker_ok (snd (cb_acquire t s))"
  by (auto simp: breaker_ok_def cb_acquire_def Let_def split: option.splits)

lemma record_ok:
  assumes "breaker_ok s"
  shows "breaker_ok (record_success p s)" "breaker_ok (record_failure t p s)" "breaker_ok (abandon t p s)"
  using assms by (auto simp: breaker_ok_def breaker_defs)

lemma estimate_finish_cases:
  "snd (estimate_finish t p outcome s) \<in>
     (if \<exists>m. outcome = Inl (Unexpected m) then {s}
      else {record_success p s, record_failure t p s, abandon t p s})"
  by (cases outcome) (auto simp: estimate_finish_def split: route_error.splits)

lemma estimate_finish_ok: "breaker_ok s \<Longrightarrow> breaker_ok (snd (estimate_finish t p outcome s))"
  using estimate_finish_cases [of t p outcome s] record_ok [of s] by (auto split: if_splits)

lemma estimate_begin_acquire:
  "estimate_begin t s = (Inr p, s') \<longleftrightarrow> cb_acquire t s = (Inr p, s')"
  "snd (estimate_begin t s) = snd (cb_acquire t s)"
  by (auto simp: estimate_begin_def split: prod.splits sum.splits exn.splits)

text \<open>A permit is a probe only if it reserves the flag; finishing a probe releases it.\<close>

lemma cb_acquire_probe:
  "cb_acquire t s = (Inr p, s') \<Longrightarrow>
     (if half_open_probe p then \<not> probe_in_flight s \<and> probe_in_flight s' else s' = s)"
  by (auto simp: cb_acquire_def Let_def split: option.splits if_splits)

lemma cb_acquire_refused: "cb_acquire t s = (Inl e, s') \<Longrightarrow> probe_in_flight s' = probe_in_flight s"
  by (auto simp: cb_acquire_def Let_def split: option.splits if_splits)

lemma record_probe:
  "probe_in_flight (record_success p s) = (probe_in_flight s \<and> \<not> half_open_probe p)"
  "probe_in_flight (record_failure t p s) = (probe_in_flight s \<and> \<not> half_open_probe p)"
  "probe_in_flight (abandon t p s) = (probe_in_flight s \<and> \<not> half_open_probe p)"
  by (auto simp: breaker_defs)

section \<open>Concurrent lookups\<close>

text \<open>
  The breaker with the permits of the lookups in progress. With \<open>unexpected\<close> a lookup may
  also end in an exception that no handler of \<open>estimate\<close> names.
\<close>

inductive lookup_step ::
  "bool \<Rightarrow> CircuitBreaker \<times> CircuitPermit list \<Rightarrow> CircuitBreaker \<times> CircuitPermit list \<Rightarrow> bool"
  for unexpected :: bool where
  begin_lookup: "estimate_begin t s = (Inr p, s') \<Longrightarrow> lookup_step unexpected (s, ps) (s', p # ps)"
| refuse_lookup: "estimate_begin t s = (Inl e, s') \<Longrightarrow> lookup_step unexpected (s, ps) (s', ps)"
| finish_lookup: "estimate_finish t p outcome s = (r, s') \<Longrightarrow> p \<in> set ps \<Longrightarrow>
    unexpected \<or> (\<nexists>m. outcome = Inl (Unexpected m)) \<Longrightarrow>
    lookup_step unexpected (s, ps) (s', remove1 p ps)"

definition probes :: "CircuitPermit list \<Rightarrow> nat" where
  "probes ps = length (filter half_open_probe ps)"

lemma probes_remove1:
  "p \<in> set ps \<Longrightarrow> probes ps = probes (remove1 p ps) + (if half_open_probe p then 1 else 0)"
  by (induction ps) (auto simp: probes_def)

definition lookups_ok :: "bool \<Rightarrow> CircuitBreaker \<times> CircuitPermit list \<Rightarrow> bool" where
  "lookups_ok unexpected st \<longleftrightarrow> (case st of (s, ps) \<Rightarrow> breaker_ok s
     \<and> probes ps \<le> (if probe_in_flight s then 1 else 0)
     \<and> (\<not> unexpected \<longrightarrow> probes ps = (if probe_in_flight s then 1 else 0)))"

lemma lookup_step_ok:
  assumes "lookup_step u st st'" "lookups_ok u st"
  shows "lookups_ok u st'"
  using assms
proof (induction rule: lookup_step.induct)
  case (begin_lookup t s p s' ps)
  then have a: "cb_acquire t s = (Inr p, s')" by (simp add: estimate_begin_acquire)
  with cb_acquire_probe [OF a] cb_acquire_ok [of s t] begin_lookup(2) show ?case
    by (auto simp: lookups_ok_def probes_def split: if_splits)
next
  case (refuse_lookup t s e s' ps)
  then obtain e' where "cb_acquire t s = (Inl e', s')"
    using estimate_begin_acquire(1) [of t s] estimate_begin_acquire(2) [of t s]
    by (metis prod.collapse snd_conv sum.exhaust fst_conv Inl_Inr_False)
  with cb_acquire_refused [OF this] cb_acquire_ok [of s t] refuse_lookup(2) show ?case
    by (auto simp: lookups_ok_def)
next
  case (finish_lookup t p outcome s r s' ps)
  have s': "s' = snd (estimate_finish t p outcome s)" using finish_lookup(1) by simp
  have ok: "breaker_ok s'" using finish_lookup(4) estimate_finish_ok unfolding s' by (simp add: lookups_ok_def)
  show ?case
  proof (cases "\<exists>m. outcome = Inl (Unexpected m)")
    case True
    then have "s' = s" "u" using s' estimate_finish_cases [of t p outcome s] finish_lookup(3) by auto
    with finish_lookup(2,4) probes_remove1 [OF finish_lookup(2)] show ?thesis by (simp add: lookups_ok_def)
  next
    case False
    then have "s' \<in> {record_success p s, record_failure t p s, abandon t p s}"
      using s' estimate_finish_cases [of t p outcome s] by simp
    then have "probe_in_flight s' = (probe_in_flight s \<and> \<not> half_open_probe p)"
      using record_probe by auto
    with finish_lookup(2,4) ok probes_remove1 [OF finish_lookup(2)] show ?thesis
      by (auto simp: lookups_ok_def split: if_splits)
  qed
qed

lemma lookup_run_ok:
  assumes "circuit_breaker n t = Inr s" "(lookup_step u)\<^sup>*\<^sup>* (s, []) st"
  shows "lookups_ok u st"
  using assms(2) breaker_ok_init [OF assms(1)]
  by (induction rule: rtranclp_induct) (auto simp: lookups_ok_def probes_def dest: lookup_step_ok)

definition sample_breaker :: CircuitBreaker where
  "sample_breaker = \<lparr> failure_threshold = 1, recovery_timeout = 30, cb_state = CLOSED_CIRCUIT,
     consecutive_failures = 0, opened_at = None, probe_in_flight = False \<rparr>"

lemma sample_breaker_init: "circuit_breaker 1 30 = Inr sample_breaker"
  by (simp add: circuit_breaker_def sample_breaker_def)

definition sample_open :: CircuitBreaker where
  "sample_open = sample_breaker \<lparr> cb_state := OPEN_CIRCUIT, consecutive_failures := 1, opened_at := Some 5 \<rparr>"

lemma sample_open_run: "(lookup_step u)\<^sup>*\<^sup>* (sample_breaker, []) (sample_open, [])"
proof -
  let ?p = "\<lparr> half_open_probe = False \<rparr>"
  have "lookup_step u (sample_breaker, []) (sample_breaker, [?p])"
    by (rule lookup_step.begin_lookup [of 0])
      (simp add: estimate_begin_acquire cb_acquire_def sample_breaker_def)
  moreover have "lookup_step u (sample_breaker, [?p]) (sample_open, remove1 ?p [?p])"
    by (rule lookup_step.finish_lookup [of 5 ?p "Inl DeadlineExceeded" _
          "Inl (RouteServiceUnavailable ''route lookup deadline exceeded'')"])
      (simp_all add: estimate_finish_def breaker_defs sample_breaker_def sample_open_def)
  ultimately show ?thesis by (simp add: converse_rtranclp_into_rtranclp)
qed

text \<open>
  C13. However concurrent lookups interleave, and whatever exceptions they end in, at most
  one half-open probe is in progress at any time, and taking a permit never fails the
  assertion that an open circuit has an opening time.
\<close>

theorem circuit_single_probe:
  assumes "circuit_breaker threshold timeout = Inr s0" "(lookup_step True)\<^sup>*\<^sup>* (s0, []) (s, permits)"
  shows "probes permits \<le> 1 \<and> fst (cb_acquire now s) \<noteq> Inl (AssertionError m)"
proof -
  have ok: "lookups_ok True (s, permits)" by (rule lookup_run_ok [OF assms])
  then have "breaker_ok s" by (simp add: lookups_ok_def)
  then have "fst (cb_acquire now s) \<noteq> Inl (AssertionError m)"
    by (auto simp: cb_acquire_def breaker_ok_def Let_def split: option.splits)
  with ok show ?thesis by (simp add: lookups_ok_def split: if_splits)
qed

theorem circuit_single_probe_witness: "fst (cb_acquire 40 sample_open) \<noteq> Inl (AssertionError '''')"
  using circuit_single_probe [OF sample_breaker_init sample_open_run] by blast

fun failed_lookups :: "real list \<Rightarrow> CircuitBreaker \<Rightarrow> CircuitBreaker" where
  "failed_lookups [] s = s"
| "failed_lookups (t # ts) s = failed_lookups ts (record_failure t \<lparr> half_open_probe = False \<rparr> s)"

lemma failed_lookups_snoc:
  "failed_lookups (ts @ [t]) s = record_failure t \<lparr> half_open_probe = False \<rparr> (failed_lookups ts s)"
  by (induction ts arbitrary: s) auto

lemma failed_lookups_closed:
  assumes "breaker_ok s" "cb_state s = CLOSED_CIRCUIT" "consecutive_failures s = 0"
    "int (length ts) < failure_threshold s"
  shows "failed_lookups ts s = s \<lparr> consecutive_failures := int (length ts) \<rparr>"
  using assms
proof (induction ts rule: rev_induct)
  case (snoc t ts)
  then show ?case by (simp add: failed_lookups_snoc record_failure_def Let_def)
qed simp

text \<open>
  Opening: a closed breaker stays closed through fewer than the threshold of
  consecutive failed lookups; with the threshold reached it refuses every lookup until
  \<open>recovery_timeout\<close> seconds after the last failure, without changing.
\<close>

theorem circuit_opens_at_threshold:
  assumes "breaker_ok s" "cb_state s = CLOSED_CIRCUIT" "consecutive_failures s = 0"
  shows "(int (length ts) < failure_threshold s \<longrightarrow>
      estimate_begin now (failed_lookups ts s) = (Inr \<lparr> half_open_probe = False \<rparr>, failed_lookups ts s))
    \<and> (int (length (ts @ [t])) = failure_threshold s \<and> now - t < recovery_timeout s \<longrightarrow>
      estimate_begin now (failed_lookups (ts @ [t]) s)
        = (Inl (RouteServiceUnavailable ''route service is temporarily disabled''), failed_lookups (ts @ [t]) s))"
proof (intro conjI impI)
  assume "int (length ts) < failure_threshold s"
  from failed_lookups_closed [OF assms this] assms(2)
  show "estimate_begin now (failed_lookups ts s) = (Inr \<lparr> half_open_probe = False \<rparr>, failed_lookups ts s)"
    by (simp add: estimate_begin_def cb_acquire_def)
next
  assume a: "int (length (ts @ [t])) = failure_threshold s \<and> now - t < recovery_timeout s"
  then have "int (length ts) < failure_threshold s" by simp
  from failed_lookups_closed [OF assms this] a
  show "estimate_begin now (failed_lookups (ts @ [t]) s)
      = (Inl (RouteServiceUnavailable ''route service is temporarily disabled''), failed_lookups (ts @ [t]) s)"
    by (simp add: failed_lookups_snoc record_failure_def open_now_def Let_def estimate_begin_def cb_acquire_def)
qed

theorem circuit_opens_at_threshold_witness:
  "estimate_begin 30 (failed_lookups ([] @ [5]) sample_breaker)
    = (Inl (RouteServiceUnavailable ''route service is temporarily disabled''),
       failed_lookups ([] @ [5]) sample_breaker)"
proof -
  have "breaker_ok sample_breaker" using breaker_ok_init [OF sample_breaker_init] by simp
  from circuit_opens_at_threshold [OF this, of "[]" 30 5] show ?thesis by (simp add: sample_breaker_def)
qed

text \<open>
  Recovery: when every lookup ends in a success or in an exception that
  \<open>estimate\<close> handles, then once none is in progress and the recovery time has passed,
  a lookup gets a permit.
\<close>

theorem circuit_recovers:
  assumes "circuit_breaker threshold timeout = Inr s0" "(lookup_step False)\<^sup>*\<^sup>* (s0, []) (s, [])"
    "\<And>t. opened_at s = Some t \<Longrightarrow> t + recovery_timeout s \<le> now"
  shows "\<exists>permit s'. estimate_begin now s = (Inr permit, s')"
proof -
  have ok: "breaker_ok s" "\<not> probe_in_flight s"
    using lookup_run_ok [OF assms(1,2)] by (auto simp: lookups_ok_def probes_def split: if_splits)
  show ?thesis
  proof (cases "opened_at s")
    case None
    with ok show ?thesis by (simp add: estimate_begin_acquire cb_acquire_def breaker_ok_def)
  next
    case (Some t)
    with assms(3) have "\<not> now - t < recovery_timeout s" by fastforce
    with Some ok show ?thesis
      by (simp add: estimate_begin_acquire cb_acquire_def breaker_ok_def Let_def)
  qed
qed

theorem circuit_recovers_witness: "\<exists>permit s'. estimate_begin 35 sample_open = (Inr permit, s')"
  by (rule circuit_recovers [OF sample_breaker_init sample_open_run])
    (simp add: sample_open_def sample_breaker_def)

definition probe_lost :: "CircuitBreaker \<times> CircuitPermit list \<Rightarrow> bool" where
  "probe_lost st \<longleftrightarrow> probe_in_flight (fst st) \<and> cb_state (fst st) \<noteq> CLOSED_CIRCUIT
     \<and> breaker_ok (fst st) \<and> snd st = []"

lemma probe_lost_refuses:
  assumes "probe_lost (s, ps)"
  shows "\<exists>m s'. cb_acquire t s = (Inl (CircuitOpenError m), s') \<and> probe_lost (s', [])"
  using assms by (auto simp: probe_lost_def breaker_ok_def cb_acquire_def Let_def split: option.splits)

lemma probe_lost_begin:
  assumes "probe_lost (s, ps)"
  shows "\<exists>s'. estimate_begin t s = (Inl (RouteServiceUnavailable ''route service is temporarily disabled''), s')
    \<and> probe_lost (s', [])"
  using probe_lost_refuses [OF assms, of t] by (auto simp: estimate_begin_def)

lemma probe_lost_step: "lookup_step u st st' \<Longrightarrow> probe_lost st \<Longrightarrow> probe_lost st'"
proof (induction rule: lookup_step.induct)
  case (begin_lookup t s p s' ps)
  with probe_lost_begin [of s ps t] show ?case by auto
next
  case (refuse_lookup t s e s' ps)
  with probe_lost_begin [of s ps t] show ?case by (auto simp: probe_lost_def)
next
  case (finish_lookup t p outcome s r s' ps)
  then show ?case by (simp add: probe_lost_def)
qed

lemma probe_lost_run: "(lookup_step u)\<^sup>*\<^sup>* st st' \<Longrightarrow> probe_lost st \<Longrightarrow> probe_lost st'"
  by (induction rule: rtranclp_induct) (auto dest: probe_lost_step)

text \<open>
  An exception that no handler of \<open>estimate\<close> names, raised while the half-open
  probe is the only lookup in progress, disables the route service for the life of the
  process: the probe flag is never released, and every later lookup at any time is
  refused, whatever happens in between.
\<close>

theorem unexpected_exception_disables_route_service:
  assumes "breaker_ok s" "estimate_begin t0 s = (Inr permit, s1)" "half_open_probe permit"
    "(lookup_step True)\<^sup>*\<^sup>* (snd (estimate_finish t1 permit (Inl (Unexpected m)) s1), []) (s2, permits)"
  shows "fst (estimate_begin now s2) = Inl (RouteServiceUnavailable ''route service is temporarily disabled'')"
proof -
  have a: "cb_acquire t0 s = (Inr permit, s1)" using assms(2) by (simp add: estimate_begin_acquire)
  have "snd (estimate_finish t1 permit (Inl (Unexpected m)) s1) = s1" by (simp add: estimate_finish_def)
  moreover have "probe_lost (s1, [])"
    using a assms(3) cb_acquire_ok [OF assms(1), of t0]
    by (auto simp: probe_lost_def cb_acquire_def Let_def split: option.splits if_splits)
  ultimately have "probe_lost (s2, permits)"
    using probe_lost_run [OF assms(4)] by simp
  from probe_lost_begin [OF this, of now] show ?thesis by auto
qed

theorem unexpected_exception_disables_route_service_witness:
  "fst (estimate_begin 1000000 (sample_open \<lparr> cb_state := HALF_OPEN_CIRCUIT, probe_in_flight := True \<rparr>))
    = Inl (RouteServiceUnavailable ''route service is temporarily disabled'')"
proof -
  have ok: "breaker_ok sample_open" by (simp add: breaker_ok_def sample_open_def sample_breaker_def)
  have b: "estimate_begin 40 sample_open = (Inr \<lparr> half_open_probe = True \<rparr>,
      sample_open \<lparr> cb_state := HALF_OPEN_CIRCUIT, probe_in_flight := True \<rparr>)"
    by (simp add: estimate_begin_acquire cb_acquire_def Let_def sample_open_def sample_breaker_def)
  show ?thesis
    by (rule unexpected_exception_disables_route_service [OF ok b, where m = "''closed client''" and ?t1.0 = 41
          and permits = "[]"])
      (simp_all add: estimate_finish_def)
qed

section \<open>Bounded retries\<close>

text \<open>
  What the service relies on from Tenacity: with \<open>stop_after_attempt(n)\<close>,
  \<open>retry_if_exception_type\<close> and \<open>reraise=True\<close> an attempt that returns ends the
  loop, one that raises a retryable error is repeated while attempts remain, any other
  error and the last error are raised.
\<close>

definition retries_as_documented ::
  "((route_error \<Rightarrow> bool) \<Rightarrow> int \<Rightarrow> ('w, 'a) lookup \<Rightarrow> ('w, 'a) lookup) \<Rightarrow> bool" where
  "retries_as_documented async_retrying \<longleftrightarrow>
     (\<forall>p n op w. 1 \<le> n \<longrightarrow> async_retrying p n op w =
        (case op w of
           (Inr x, w') \<Rightarrow> (Inr x, w')
         | (Inl e, w') \<Rightarrow> if p e \<and> 1 < n then async_retrying p (n - 1) op w' else (Inl e, w')))"

text \<open>A provider that gives the outcomes of a script, one for each attempt.\<close>

fun scripted :: "((route_error + 'a) list, 'a) lookup" where
  "scripted [] = (Inl (Unexpected ''script''), [])"
| "scripted (r # rs) = (r, rs)"

lemma retry_script:
  assumes "retries_as_documented ar" "int n = attempts" "1 \<le> n" "n \<le> length outcomes"
  shows "\<exists>k < n. ar p attempts scripted outcomes = (outcomes ! k, drop (Suc k) outcomes)
    \<and> (\<forall>j < k. \<exists>e. outcomes ! j = Inl e \<and> p e)
    \<and> (Suc k = n \<or> (\<forall>e. outcomes ! k = Inl e \<longrightarrow> \<not> p e))"
  using assms(2-4)
proof (induction n arbitrary: attempts outcomes)
  case (Suc n)
  then obtain r rs where o: "outcomes = r # rs" by (cases outcomes) auto
  have step: "ar p attempts scripted outcomes =
      (case r of Inr x \<Rightarrow> (Inr x, rs)
       | Inl e \<Rightarrow> if p e \<and> 1 < attempts then ar p (attempts - 1) scripted rs else (Inl e, rs))"
    using assms(1) Suc.prems unfolding retries_as_documented_def o by (simp split: sum.splits)
  show ?case
  proof (cases "\<exists>e. r = Inl e \<and> p e \<and> 1 < attempts")
    case True
    then have "n \<ge> 1" "int n = attempts - 1" "n \<le> length rs" using Suc.prems o by auto
    from Suc.IH [OF this(2,1,3)] obtain k where k: "k < n"
      "ar p (attempts - 1) scripted rs = (rs ! k, drop (Suc k) rs)"
      "\<forall>j < k. \<exists>e. rs ! j = Inl e \<and> p e" "Suc k = n \<or> (\<forall>e. rs ! k = Inl e \<longrightarrow> \<not> p e)" by blast
    with True step o show ?thesis
      by (intro exI [of _ "Suc k"]) (auto simp: less_Suc_eq_0_disj)
  next
    case False
    then have "Suc 0 = Suc n \<or> (\<forall>e. r = Inl e \<longrightarrow> \<not> p e)" using Suc.prems(1) by auto
    moreover have "ar p attempts scripted outcomes = (r, rs)"
      using step False by (cases r) auto
    ultimately show ?thesis using o by (intro exI [of _ 0]) auto
  qed
qed simp

text \<open>
  One logical route lookup makes at most three attempts: it stops at the first
  attempt that succeeds or fails with an error that is not retryable, only retryable
  errors are retried, and what it returns or raises is the outcome of the last attempt.
\<close>

theorem route_retry_bounded:
  assumes "retries_as_documented async_retrying" "build_route_retrying async_retrying 3 = Inr controller"
    "3 \<le> length outcomes"
  shows "\<exists>k < 3. run_with_route_retry controller scripted outcomes = (outcomes ! k, drop (Suc k) outcomes)
    \<and> (\<forall>j < k. \<exists>e. outcomes ! j = Inl e \<and> retryable_route_error e)
    \<and> (Suc k = 3 \<or> (\<forall>e. outcomes ! k = Inl e \<longrightarrow> \<not> retryable_route_error e))"
  using retry_script [OF assms(1), of 3 3 outcomes retryable_route_error] assms(2,3)
  by (simp add: build_route_retrying_def run_with_route_retry_def)

fun bounded_retry :: "nat \<Rightarrow> (route_error \<Rightarrow> bool) \<Rightarrow> ('w, 'a) lookup \<Rightarrow> ('w, 'a) lookup" where
  "bounded_retry 0 p op w = op w"
| "bounded_retry (Suc n) p op w =
     (case op w of (Inr x, w') \<Rightarrow> (Inr x, w') | (Inl e, w') \<Rightarrow> if p e then bounded_retry n p op w' else (Inl e, w'))"

lemma bounded_retry_documented: "retries_as_documented
    (\<lambda>p n. bounded_retry (nat (n - 1)) p :: ('w, 'a) lookup \<Rightarrow> ('w, 'a) lookup)"
  unfolding retries_as_documented_def
proof (intro allI impI)
  fix p :: "route_error \<Rightarrow> bool" and n :: int and op :: "('w, 'a) lookup" and w
  assume "1 \<le> n"
  then consider "n = 1" | "nat (n - 1) = Suc (nat (n - 1 - 1))" "1 < n" by linarith
  then show "bounded_retry (nat (n - 1)) p op w =
     (case op w of (Inr x, w') \<Rightarrow> (Inr x, w')
      | (Inl e, w') \<Rightarrow> if p e \<and> 1 < n then bounded_retry (nat (n - 1 - 1)) p op w' else (Inl e, w'))"
    by cases (auto split: prod.splits sum.splits)
qed

theorem route_retry_bounded_witness:
  "\<exists>k < 3. bounded_retry 2 retryable_route_error scripted
      [Inl (RequestFailed ConnectError), Inr (5 :: int), Inr 6]
    = ([Inl (RequestFailed ConnectError), Inr 5, Inr 6] ! k,
       drop (Suc k) [Inl (RequestFailed ConnectError), Inr 5, Inr 6])"
  using route_retry_bounded [OF bounded_retry_documented, of "bounded_retry 2 retryable_route_error"
      "[Inl (RequestFailed ConnectError), Inr (5 :: int), Inr 6]"]
  by (auto simp: build_route_retrying_def run_with_route_retry_def)

end
