(* ===== verification/Sql_Orders.thy ===== *)
theory Sql_Orders
  imports Order_Service
begin

text \<open>
  \<open>SqlAlchemyOrderRepository\<close> of \<open>repository.py\<close> over the tables of
  \<open>db.py\<close>. A table is an association list by primary key in insertion order (the
  surrogate key of \<open>courier_assignment\<close>, drawn at random and never read, is left out).
  A \<open>flush\<close> checks the constraints the mapped classes declare: primary keys, unique and
  partial unique indexes, foreign keys, check constraints, string widths and the 32-bit
  range of \<open>Integer\<close>. The methods run inside one transaction of the caller; what an
  exception leaves behind is undone by \<open>transactional\<close>. The adapter interprets the
  contract of \<open>Order_Port\<close>, so every lemma about the use cases holds for it.
\<close>

section \<open>Tables\<close>

record OrderRow =
  or_id :: uuid
  or_tenant_id :: uuid
  or_customer_id :: uuid
  or_pickup_address :: string
  or_destination_address :: string
  or_weight_grams :: int
  or_status :: string
  or_version :: int
  or_created_at :: datetime

record AssignmentRow =
  as_order_id :: uuid
  as_courier_id :: uuid
  as_active :: bool

record IdempotencyRow =
  ir_key :: string
  ir_operation :: string
  ir_resource_id :: uuid
  ir_response :: json_object
  ir_created_at :: datetime

record OutboxRow =
  ob_id :: uuid
  ob_event_type :: string
  ob_payload :: json_object
  ob_legacy_processed_at :: "datetime option"
  ob_created_at :: datetime
  ob_published_at :: "datetime option"

record TransitionHistoryRow =
  th_event_id :: uuid
  th_tenant_id :: uuid
  th_order_id :: uuid
  th_from_status :: string
  th_to_status :: string
  th_order_version :: int
  th_actor_id :: uuid
  th_actor_role :: string
  th_occurred_at :: datetime
  th_correlation_id :: string

record order_tables =
  t_orders :: "(uuid \<times> OrderRow) list"
  t_assignments :: "AssignmentRow list"
  t_idempotency :: "(string \<times> IdempotencyRow) list"
  t_outbox :: "(uuid \<times> OutboxRow) list"
  t_history :: "(uuid \<times> TransitionHistoryRow) list"

definition empty_tables :: order_tables where
  "empty_tables = \<lparr> t_orders = [], t_assignments = [], t_idempotency = [], t_outbox = [], t_history = [] \<rparr>"

definition int4 :: "int \<Rightarrow> bool" where
  "int4 v \<longleftrightarrow> -2147483648 \<le> v \<and> v \<le> 2147483647"

definition status_texts :: "string list" where
  "status_texts = [''created'', ''assigned'', ''picked_up'', ''delivered'', ''cancelled'']"

text \<open>The column types and check constraints of one row.\<close>

definition order_row_error :: "OrderRow \<Rightarrow> exn option" where
  "order_row_error r =
     (if 300 < length (or_pickup_address r) \<or> 300 < length (or_destination_address r)
         \<or> 32 < length (or_status r) then Some (DBAPIError (Some ''22001''))
      else if \<not> int4 (or_weight_grams r) \<or> \<not> int4 (or_version r) then Some (DBAPIError (Some ''22003''))
      else if \<not> (0 < or_weight_grams r \<and> or_weight_grams r \<le> 100000) then Some (IntegrityError ''ck_order_weight'')
      else if or_status r \<notin> set status_texts then Some (IntegrityError ''ck_order_status'')
      else if \<not> 0 < or_version r then Some (IntegrityError ''ck_order_version'')
      else None)"

definition insert_order_row :: "OrderRow \<Rightarrow> (order_tables, unit) action" where
  "insert_order_row r db =
     (case order_row_error r of
        Some e \<Rightarrow> (Inl e, db)
      | None \<Rightarrow>
          if dict_get (t_orders db) (or_id r) \<noteq> None then (Inl (IntegrityError ''delivery_order_pkey''), db)
          else (Inr (), db \<lparr> t_orders := dict_set (or_id r) r (t_orders db) \<rparr>))"

definition update_order_row :: "OrderRow \<Rightarrow> (order_tables, unit) action" where
  "update_order_row r db =
     (case order_row_error r of
        Some e \<Rightarrow> (Inl e, db)
      | None \<Rightarrow> (Inr (), db \<lparr> t_orders := dict_set (or_id r) r (t_orders db) \<rparr>))"

definition insert_assignment_row :: "AssignmentRow \<Rightarrow> (order_tables, unit) action" where
  "insert_assignment_row a db =
     (if dict_get (t_orders db) (as_order_id a) = None then (Inl (IntegrityError ''fk_assignment_order''), db)
      else if as_active a \<and> list_ex (\<lambda>b. as_active b \<and> as_order_id b = as_order_id a) (t_assignments db)
      then (Inl (IntegrityError ''uq_active_assignment_order''), db)
      else if as_active a \<and> list_ex (\<lambda>b. as_active b \<and> as_courier_id b = as_courier_id a) (t_assignments db)
      then (Inl (IntegrityError ''uq_active_assignment_courier''), db)
      else (Inr (), db \<lparr> t_assignments := t_assignments db @ [a] \<rparr>))"

definition insert_history_row :: "TransitionHistoryRow \<Rightarrow> (order_tables, unit) action" where
  "insert_history_row h db =
     (if 32 < length (th_actor_role h) \<or> 128 < length (th_correlation_id h) then (Inl (DBAPIError (Some ''22001'')), db)
      else if \<not> int4 (th_order_version h) then (Inl (DBAPIError (Some ''22003'')), db)
      else if th_from_status h \<notin> set status_texts then (Inl (IntegrityError ''ck_transition_history_from_status''), db)
      else if th_to_status h \<notin> set status_texts then (Inl (IntegrityError ''ck_transition_history_to_status''), db)
      else if th_from_status h = th_to_status h then (Inl (IntegrityError ''ck_transition_history_changed''), db)
      else if \<not> 1 < th_order_version h then (Inl (IntegrityError ''ck_transition_history_version''), db)
      else if dict_get (t_orders db) (th_order_id h) = None then (Inl (IntegrityError ''fk_transition_history_order''), db)
      else if dict_get (t_history db) (th_event_id h) \<noteq> None then (Inl (IntegrityError ''order_transition_history_pkey''), db)
      else if list_ex (\<lambda>g. th_tenant_id g = th_tenant_id h \<and> th_order_id g = th_order_id h
                \<and> th_order_version g = th_order_version h) (values_of (t_history db))
      then (Inl (IntegrityError ''ix_transition_history_order_version''), db)
      else (Inr (), db \<lparr> t_history := dict_set (th_event_id h) h (t_history db) \<rparr>))"

definition insert_outbox_row :: "OutboxRow \<Rightarrow> (order_tables, unit) action" where
  "insert_outbox_row r db =
     (if 100 < length (ob_event_type r) then (Inl (DBAPIError (Some ''22001'')), db)
      else if dict_get (t_outbox db) (ob_id r) \<noteq> None then (Inl (IntegrityError ''outbox_pkey''), db)
      else (Inr (), db \<lparr> t_outbox := dict_set (ob_id r) r (t_outbox db) \<rparr>))"

definition insert_idempotency_row :: "IdempotencyRow \<Rightarrow> (order_tables, unit) action" where
  "insert_idempotency_row r db =
     (if 200 < length (ir_key r) \<or> 100 < length (ir_operation r) then (Inl (DBAPIError (Some ''22001'')), db)
      else if dict_get (t_idempotency db) (ir_key r) \<noteq> None then (Inl (IntegrityError ''idempotency_record_pkey''), db)
      else (Inr (), db \<lparr> t_idempotency := dict_set (ir_key r) r (t_idempotency db) \<rparr>))"

text \<open>\<open>transactional_session\<close>: one transaction, committed on return and rolled back on any exception.\<close>

definition transactional :: "('s, 'a) action \<Rightarrow> ('s, 'a) action" where
  "transactional m s = (case m s of (Inl e, _) \<Rightarrow> (Inl e, s) | (Inr x, s') \<Rightarrow> (Inr x, s'))"

section \<open>Rows and domain objects\<close>

definition status_of_text :: "string \<Rightarrow> OrderStatus option" where
  "status_of_text s =
     find (\<lambda>st. status_value st = s) [CREATED, ASSIGNED, PICKED_UP, DELIVERED, CANCELLED]"

definition active_courier :: "order_tables \<Rightarrow> uuid \<Rightarrow> uuid option" where
  "active_courier db i =
     map_option as_courier_id (find (\<lambda>a. as_active a) (filter (\<lambda>a. as_order_id a = i) (t_assignments db)))"

definition sql_domain :: "order_tables \<Rightarrow> OrderRow \<Rightarrow> DeliveryOrder result" where
  "sql_domain db row =
     thenR (of_option (ValueError ''not a valid OrderStatus'') (status_of_text (or_status row))) (\<lambda>status.
     Inr \<lparr> o_id = or_id row, o_tenant_id = or_tenant_id row, o_customer_id = or_customer_id row,
           o_pickup_address = or_pickup_address row, o_destination_address = or_destination_address row,
           o_weight_grams = or_weight_grams row, o_status = status,
           o_courier_id = active_courier db (or_id row), o_version = or_version row,
           o_created_at = or_created_at row \<rparr>)"

definition response_snapshot :: "DeliveryOrder \<Rightarrow> json_object" where
  "response_snapshot order =
     [(''id'', JStr (str_uuid (o_id order))),
      (''tenant_id'', JStr (str_uuid (o_tenant_id order))),
      (''customer_id'', JStr (str_uuid (o_customer_id order))),
      (''pickup_address'', JStr (o_pickup_address order)),
      (''destination_address'', JStr (o_destination_address order)),
      (''weight_grams'', JInt (o_weight_grams order)),
      (''status'', JStr (status_value (o_status order))),
      (''courier_id'', case o_courier_id order of None \<Rightarrow> JNull | Some c \<Rightarrow> JStr (str_uuid c)),
      (''version'', JInt (o_version order)),
      (''created_at'', JStr (isoformat (o_created_at order)))]"

text \<open>\<open>str(v)\<close> and \<open>int(v)\<close> of the scalar JSON values a snapshot holds.\<close>

fun json_str :: "json \<Rightarrow> string result" where
  "json_str (JStr s) = Inr s"
| "json_str (JInt i) = Inr (dec_int i)"
| "json_str (JBool b) = Inr (if b then ''True'' else ''False'')"
| "json_str JNull = Inr ''None''"
| "json_str _ = Inl (TypeError ''outside the snapshot format'')"

fun json_int :: "json \<Rightarrow> int result" where
  "json_int (JInt i) = Inr i"
| "json_int (JBool b) = Inr (if b then 1 else 0)"
| "json_int (JStr s) = of_option (ValueError ''invalid literal for int()'') (py_int 10 s)"
| "json_int _ = Inl (TypeError ''int() argument must be a string or a number'')"

definition json_get :: "json_object \<Rightarrow> string \<Rightarrow> json result" where
  "json_get payload key = of_option (KeyError key) (dict_get payload key)"

definition json_get_str :: "json_object \<Rightarrow> string \<Rightarrow> string result" where
  "json_get_str payload key = thenR (json_get payload key) json_str"

definition json_get_uuid :: "json_object \<Rightarrow> string \<Rightarrow> uuid result" where
  "json_get_uuid payload key =
     thenR (json_get_str payload key) (\<lambda>s.
       of_option (ValueError ''badly formed hexadecimal UUID string'') (uuid_of_text s))"

definition domain_from_snapshot :: "json_object \<Rightarrow> DeliveryOrder result" where
  "domain_from_snapshot payload =
     thenR (json_get_uuid payload ''id'') (\<lambda>i.
     thenR (json_get_uuid payload ''tenant_id'') (\<lambda>t.
     thenR (json_get_uuid payload ''customer_id'') (\<lambda>c.
     thenR (json_get_str payload ''pickup_address'') (\<lambda>p.
     thenR (json_get_str payload ''destination_address'') (\<lambda>d.
     thenR (thenR (json_get payload ''weight_grams'') json_int) (\<lambda>w.
     thenR (thenR (json_get_str payload ''status'') (\<lambda>s.
              of_option (ValueError ''not a valid OrderStatus'') (status_of_text s))) (\<lambda>st.
     thenR (if dict_get payload ''courier_id'' \<in> {None, Some JNull, Some (JStr '''')} then Inr None
            else thenR (json_get_uuid payload ''courier_id'') (\<lambda>k. Inr (Some k))) (\<lambda>k.
     thenR (thenR (json_get payload ''version'') json_int) (\<lambda>v.
     thenR (thenR (json_get_str payload ''created_at'') (\<lambda>s.
              of_option (ValueError ''Invalid isoformat string'') (fromisoformat s))) (\<lambda>tm.
     Inr \<lparr> o_id = i, o_tenant_id = t, o_customer_id = c, o_pickup_address = p,
           o_destination_address = d, o_weight_grams = w, o_status = st, o_courier_id = k,
           o_version = v, o_created_at = tm \<rparr>))))))))))"

lemma status_of_text_value [simp]: "status_of_text (status_value st) = Some st"
  by (cases st) (simp_all add: status_of_text_def)

lemma snapshot_roundtrip:
  assumes "valid_datetime (o_created_at x)"
  shows "domain_from_snapshot (response_snapshot x) = Inr x"
proof -
  have "str_uuid k \<noteq> ''''" for k using length_str_uuid [of k] by force
  then show ?thesis
    using isoformat_roundtrip [OF assms]
    by (cases "o_courier_id x") (simp_all add: domain_from_snapshot_def response_snapshot_def json_get_uuid_def
        json_get_str_def json_get_def)
qed

section \<open>The adapter\<close>

definition sql_add :: "DeliveryOrder \<Rightarrow> (order_tables, unit) action" where
  "sql_add order =
     insert_order_row
       \<lparr> or_id = o_id order, or_tenant_id = o_tenant_id order, or_customer_id = o_customer_id order,
         or_pickup_address = o_pickup_address order, or_destination_address = o_destination_address order,
         or_weight_grams = o_weight_grams order, or_status = status_value (o_status order),
         or_version = o_version order, or_created_at = o_created_at order \<rparr>"

definition sql_get :: "uuid \<Rightarrow> (order_tables, DeliveryOrder option) action" where
  "sql_get order_id db =
     (case dict_get (t_orders db) order_id of
        None \<Rightarrow> (Inr None, db)
      | Some row \<Rightarrow> (thenR (sql_domain db row) (\<lambda>x. Inr (Some x)), db))"

text \<open>\<open>LIMIT\<close> and \<open>OFFSET\<close>; PostgreSQL refuses negative ones.\<close>

definition sql_page ::
  "order_tables \<Rightarrow> int \<Rightarrow> int \<Rightarrow> OrderRow list \<Rightarrow> DeliveryOrder list result" where
  "sql_page db limit offset rows =
     (if limit < 0 \<or> offset < 0 then Inl (DBAPIError (Some ''2201W''))
      else map_result (sql_domain db) (take (nat limit) (drop (nat offset) rows)))"

definition sql_list :: "int \<Rightarrow> int \<Rightarrow> (order_tables, DeliveryOrder list) action" where
  "sql_list limit offset db =
     (sql_page db limit offset
        (sort_key (\<lambda>r. (or_created_at r, or_id r)) (values_of (t_orders db))), db)"

definition sql_list_visible ::
  "string \<Rightarrow> uuid \<Rightarrow> int \<Rightarrow> int \<Rightarrow> string \<Rightarrow> string option \<Rightarrow> uuid
   \<Rightarrow> (order_tables, DeliveryOrder list) action" where
  "sql_list_visible role actor_id limit offset sort_by status_filter tenant_id db =
     (if sort_by \<notin> {''created_at'', ''status''} then (Inl (ValueError ''unsupported sort field''), db)
      else if role \<notin> {''customer'', ''courier'', ''dispatcher''} then (Inr [], db)
      else
        let rows = filter (\<lambda>r. or_tenant_id r = tenant_id) (values_of (t_orders db));
            rows = (if role = ''customer'' then filter (\<lambda>r. or_customer_id r = actor_id) rows
                    else if role = ''courier''
                    then filter (\<lambda>r. list_ex (\<lambda>a. as_order_id a = or_id r \<and> as_courier_id a = actor_id)
                                       (t_assignments db)) rows
                    else rows);
            rows = (case status_filter of None \<Rightarrow> rows | Some f \<Rightarrow> filter (\<lambda>r. or_status r = f) rows);
            rows = (if sort_by = ''status'' then sort_key (\<lambda>r. (or_status r, or_id r)) rows
                    else sort_key (\<lambda>r. (or_created_at r, or_id r)) rows)
        in (sql_page db limit offset rows, db))"

text \<open>
  \<open>save\<close>: the guarded \<open>UPDATE ... WHERE id = .. AND version = .. RETURNING version\<close>, then a
  first active assignment when the order has a courier.
\<close>

definition sql_save :: "DeliveryOrder \<Rightarrow> int \<Rightarrow> (order_tables, unit) action" where
  "sql_save order expected_version =
     andThen (check (o_version order = expected_version + 1)
               (ValueError ''domain state must advance version exactly once'')) (\<lambda>_ db.
     (case dict_get (t_orders db) (o_id order) of
        None \<Rightarrow> (Inl (ConcurrentUpdate ''optimistic version conflict''), db)
      | Some row \<Rightarrow>
          if or_version row \<noteq> expected_version
          then (Inl (ConcurrentUpdate ''optimistic version conflict''), db)
          else
            andThen (update_order_row (row \<lparr> or_pickup_address := o_pickup_address order,
                       or_destination_address := o_destination_address order,
                       or_weight_grams := o_weight_grams order, or_status := status_value (o_status order),
                       or_version := or_version row + 1 \<rparr>)) (\<lambda>_.
            andThen (check (or_version row + 1 = o_version order)
                      (RuntimeError ''persisted version differs from domain state'')) (\<lambda>_ db1.
            (case o_courier_id order of
               None \<Rightarrow> (Inr (), db1)
             | Some courier \<Rightarrow>
                 if list_ex (\<lambda>a. as_order_id a = o_id order \<and> as_active a) (t_assignments db1)
                 then (Inr (), db1)
                 else insert_assignment_row
                        \<lparr> as_order_id = o_id order, as_courier_id = courier, as_active = True \<rparr> db1))) db))"

definition history_row :: "OrderStatusChanged \<Rightarrow> TransitionHistoryRow" where
  "history_row event =
     \<lparr> th_event_id = sc_event_id event, th_tenant_id = sc_tenant_id event, th_order_id = sc_order_id event,
       th_from_status = status_value (sc_from_status event), th_to_status = status_value (sc_to_status event),
       th_order_version = sc_order_version event, th_actor_id = sc_actor_id event,
       th_actor_role = sc_actor_role event, th_occurred_at = sc_occurred_at event,
       th_correlation_id = sc_correlation_id event \<rparr>"

definition status_outbox_row :: "OrderStatusChanged \<Rightarrow> OutboxRow" where
  "status_outbox_row event =
     \<lparr> ob_id = sc_event_id event, ob_event_type = ''order.status_changed'',
       ob_payload = status_integration_payload event, ob_legacy_processed_at = None,
       ob_created_at = sc_occurred_at event, ob_published_at = None \<rparr>"

definition sql_save_transition ::
  "DeliveryOrder \<Rightarrow> int \<Rightarrow> OrderStatusChanged \<Rightarrow> (order_tables, unit) action" where
  "sql_save_transition order expected_version event =
     andThen (check (\<not> (sc_order_id event \<noteq> o_id order \<or> sc_order_version event \<noteq> o_version order))
               (ValueError ''transition event does not describe the persisted order'')) (\<lambda>_.
     andThen (sql_save order expected_version) (\<lambda>_.
     andThen (insert_history_row (history_row event)) (\<lambda>_.
     insert_outbox_row (status_outbox_row event))))"

text \<open>
  \<open>claim_next_created_order\<close>; \<open>locked\<close> are the rows other transactions hold, which
  \<open>SKIP LOCKED\<close> passes over.
\<close>

definition sql_claim_next_created_order ::
  "(uuid \<Rightarrow> bool) \<Rightarrow> uuid \<Rightarrow> datetime \<Rightarrow> uuid \<Rightarrow> uuid \<Rightarrow> datetime option \<Rightarrow> string
   \<Rightarrow> (order_tables, DeliveryOrder option) action" where
  "sql_claim_next_created_order locked new_event_id now courier_id tenant_id occurred_at correlation_id db =
     (case sort_key (\<lambda>r. (or_created_at r, or_id r))
             (filter (\<lambda>r. or_tenant_id r = tenant_id \<and> or_status r = status_value CREATED \<and> \<not> locked (or_id r))
               (values_of (t_orders db))) of
        [] \<Rightarrow> (Inr None, db)
      | row # _ \<Rightarrow>
          let before = \<lparr> o_id = or_id row, o_tenant_id = or_tenant_id row, o_customer_id = or_customer_id row,
                         o_pickup_address = or_pickup_address row,
                         o_destination_address = or_destination_address row,
                         o_weight_grams = or_weight_grams row, o_status = CREATED, o_courier_id = None,
                         o_version = or_version row, o_created_at = or_created_at row \<rparr>
          in andThen (lift_result (order_assign before courier_id)) (\<lambda>claimed.
             andThen (lift_result (from_transition new_event_id before claimed courier_id ''courier''
                        (case occurred_at of Some t \<Rightarrow> t | None \<Rightarrow> now) correlation_id)) (\<lambda>event db0.
             (case andThen (update_order_row (row \<lparr> or_status := status_value (o_status claimed),
                                                    or_version := o_version claimed \<rparr>)) (\<lambda>_.
                   andThen (insert_assignment_row \<lparr> as_order_id = or_id row, as_courier_id = courier_id,
                                                    as_active = True \<rparr>) (\<lambda>_.
                   andThen (insert_history_row (history_row event)) (\<lambda>_.
                   insert_outbox_row (status_outbox_row event)))) db0 of
                (Inl (IntegrityError constraint), db') \<Rightarrow>
                  (Inl (if constraint = ''uq_active_assignment_courier''
                        then CourierAlreadyBusy ''courier already has an active assignment''
                        else IntegrityError constraint), db')
              | (Inl e, db') \<Rightarrow> (Inl e, db')
              | (Inr _, db') \<Rightarrow> (Inr (Some claimed), db')))) db)"

definition sql_idempotent_order :: "string \<Rightarrow> string \<Rightarrow> (order_tables, DeliveryOrder option) action" where
  "sql_idempotent_order scope fingerprint db =
     (case dict_get (t_idempotency db) scope of
        None \<Rightarrow> (Inr None, db)
      | Some record \<Rightarrow>
          if dict_get (ir_response record) ''request_fingerprint'' \<noteq> Some (JStr fingerprint)
          then (Inl (IdempotencyConflict ''idempotency key was already used for another request''), db)
          else (case dict_get (ir_response record) ''response'' of
                  Some (JObj response) \<Rightarrow> (thenR (domain_from_snapshot response) (\<lambda>x. Inr (Some x)), db)
                | _ \<Rightarrow> (Inl (RuntimeError ''idempotency record has no response snapshot''), db)))"

definition sql_remember_idempotency ::
  "datetime \<Rightarrow> string \<Rightarrow> string \<Rightarrow> DeliveryOrder \<Rightarrow> (order_tables, unit) action" where
  "sql_remember_idempotency now scope fingerprint order =
     insert_idempotency_row
       \<lparr> ir_key = scope, ir_operation = ''create_order'', ir_resource_id = o_id order,
         ir_response = [(''request_fingerprint'', JStr fingerprint), (''status_code'', JInt 201),
                        (''response'', JObj (response_snapshot order))],
         ir_created_at = now \<rparr>"

definition sql_record_created_event :: "OrderCreated \<Rightarrow> (order_tables, unit) action" where
  "sql_record_created_event event =
     insert_outbox_row
       \<lparr> ob_id = oc_event_id event, ob_event_type = ''order.created'',
         ob_payload = created_integration_payload event, ob_legacy_processed_at = None,
         ob_created_at = oc_occurred_at event, ob_published_at = None \<rparr>"

definition sql_repository :: "(uuid \<Rightarrow> bool) \<Rightarrow> order_tables OrderRepository" where
  "sql_repository locked =
     \<lparr> repo_add = sql_add, repo_get = sql_get, repo_list = sql_list,
       repo_list_visible = sql_list_visible, repo_save = sql_save,
       repo_save_transition = sql_save_transition,
       repo_claim_next_created_order = sql_claim_next_created_order locked,
       repo_idempotent_order = sql_idempotent_order,
       repo_remember_idempotency = sql_remember_idempotency,
       repo_record_created_event = sql_record_created_event \<rparr>"

text \<open>\<open>lock_available_order\<close> and \<open>claim_available_order\<close> of \<open>db.py\<close>.\<close>

definition lock_available_order :: "(uuid \<Rightarrow> bool) \<Rightarrow> bool \<Rightarrow> order_tables \<Rightarrow> OrderRow option result" where
  "lock_available_order locked in_transaction db =
     (if \<not> in_transaction then Inl (RuntimeError ''lock_available_order requires an active transaction'')
      else Inr (case sort_key (\<lambda>r. (or_created_at r, or_id r))
                       (filter (\<lambda>r. or_status r = ''created'' \<and> \<not> locked (or_id r)) (values_of (t_orders db))) of
                  [] \<Rightarrow> None | row # _ \<Rightarrow> Some row))"

definition claim_available_order :: "(uuid \<Rightarrow> bool) \<Rightarrow> uuid \<Rightarrow> (order_tables, uuid option) action" where
  "claim_available_order locked courier_id =
     transactional (\<lambda>db.
       andThen (lift_result (lock_available_order locked True db)) (\<lambda>found.
       (case found of
          None \<Rightarrow> ret None
        | Some order \<Rightarrow>
            andThen (update_order_row (order \<lparr> or_status := ''assigned'', or_version := or_version order + 1 \<rparr>)) (\<lambda>_.
            andThen (insert_assignment_row \<lparr> as_order_id = or_id order, as_courier_id = courier_id,
                                             as_active = True \<rparr>) (\<lambda>_.
            ret (Some (or_id order)))))) db)"

section \<open>The adapter meets the contract\<close>

definition reply_of_row :: "IdempotencyRow \<Rightarrow> (string \<times> DeliveryOrder) option" where
  "reply_of_row r =
     (case (dict_get (ir_response r) ''request_fingerprint'', dict_get (ir_response r) ''response'') of
        (Some (JStr fp), Some (JObj snap)) \<Rightarrow>
          (case domain_from_snapshot snap of Inr x \<Rightarrow> Some (fp, x) | Inl _ \<Rightarrow> None)
      | _ \<Rightarrow> None)"

definition history_event :: "TransitionHistoryRow \<Rightarrow> OrderStatusChanged" where
  "history_event h =
     \<lparr> sc_event_id = th_event_id h, sc_order_id = th_order_id h, sc_tenant_id = th_tenant_id h,
       sc_from_status = the (status_of_text (th_from_status h)),
       sc_to_status = the (status_of_text (th_to_status h)), sc_order_version = th_order_version h,
       sc_actor_id = th_actor_id h, sc_actor_role = th_actor_role h, sc_occurred_at = th_occurred_at h,
       sc_correlation_id = th_correlation_id h \<rparr>"

definition row_order :: "order_tables \<Rightarrow> OrderRow \<Rightarrow> DeliveryOrder" where
  "row_order db row = projr (sql_domain db row)"

definition sql_book :: "order_tables \<Rightarrow> OrderBook" where
  "sql_book db =
     \<lparr> view = (\<lambda>i. map_option (row_order db) (map_of (t_orders db) i)),
       trail = map (history_event \<circ> snd) (t_history db),
       messages = map (ob_payload \<circ> snd) (t_outbox db),
       replies = (\<lambda>sc. Option.bind (map_of (t_idempotency db) sc) reply_of_row) \<rparr>"

definition sql_taken :: "order_tables \<Rightarrow> uuid set" where
  "sql_taken db = fst ` set (t_outbox db) \<union> fst ` set (t_history db)"

definition sql_ok :: "order_tables \<Rightarrow> bool" where
  "sql_ok db \<longleftrightarrow> dict_ok (t_orders db) \<and> dict_ok (t_idempotency db) \<and> dict_ok (t_outbox db) \<and> dict_ok (t_history db)
     \<and> (\<forall>(i, r) \<in> set (t_orders db). or_id r = i \<and> or_status r \<in> set status_texts)
     \<and> (\<forall>(k, r) \<in> set (t_idempotency db). reply_of_row r \<noteq> None)
     \<and> (\<forall>a \<in> set (t_assignments db). as_order_id a \<in> fst ` set (t_orders db))
     \<and> distinct (map as_order_id (filter as_active (t_assignments db)))
     \<and> distinct (map as_courier_id (filter as_active (t_assignments db)))"

definition sql_storable :: "DeliveryOrder \<Rightarrow> bool" where
  "sql_storable x \<longleftrightarrow> length (o_pickup_address x) \<le> 300 \<and> length (o_destination_address x) \<le> 300
     \<and> o_version x \<le> 2147483647"

definition sql_fits :: "string \<Rightarrow> bool" where
  "sql_fits scope \<longleftrightarrow> length scope \<le> 200"

definition sql_fits_event :: "OrderStatusChanged \<Rightarrow> bool" where
  "sql_fits_event e \<longleftrightarrow> length (sc_actor_role e) \<le> 32 \<and> length (sc_correlation_id e) \<le> 128"

lemma sql_book_simps [simp]:
  "view (sql_book db) = (\<lambda>i. map_option (row_order db) (map_of (t_orders db) i))"
  "trail (sql_book db) = map (history_event \<circ> snd) (t_history db)"
  "messages (sql_book db) = map (ob_payload \<circ> snd) (t_outbox db)"
  "replies (sql_book db) = (\<lambda>sc. Option.bind (map_of (t_idempotency db) sc) reply_of_row)"
  by (simp_all add: sql_book_def)

lemma sql_repository_simps [simp]:
  "repo_add (sql_repository l) = sql_add" "repo_get (sql_repository l) = sql_get"
  "repo_list (sql_repository l) = sql_list" "repo_list_visible (sql_repository l) = sql_list_visible"
  "repo_save (sql_repository l) = sql_save" "repo_save_transition (sql_repository l) = sql_save_transition"
  "repo_claim_next_created_order (sql_repository l) = sql_claim_next_created_order l"
  "repo_idempotent_order (sql_repository l) = sql_idempotent_order"
  "repo_remember_idempotency (sql_repository l) = sql_remember_idempotency"
  "repo_record_created_event (sql_repository l) = sql_record_created_event"
  by (simp_all add: sql_repository_def)

lemma status_texts_iff: "s \<in> set status_texts \<longleftrightarrow> (\<exists>st. s = status_value st)"
proof
  assume "s \<in> set status_texts"
  then show "\<exists>st. s = status_value st"
    unfolding status_texts_def by (auto intro: status_value.simps [symmetric])
next
  assume "\<exists>st. s = status_value st"
  then obtain st where "s = status_value st" by blast
  then show "s \<in> set status_texts" by (cases st) (simp_all add: status_texts_def)
qed

lemma sql_domain_row:
  "or_status r \<in> set status_texts \<Longrightarrow> sql_domain db r = Inr (row_order db r)"
  by (auto simp: status_texts_iff sql_domain_def row_order_def)

lemma row_order_simps:
  assumes "or_status r \<in> set status_texts"
  shows "o_id (row_order db r) = or_id r" "o_tenant_id (row_order db r) = or_tenant_id r"
    "o_customer_id (row_order db r) = or_customer_id r" "o_pickup_address (row_order db r) = or_pickup_address r"
    "o_destination_address (row_order db r) = or_destination_address r"
    "o_weight_grams (row_order db r) = or_weight_grams r" "status_value (o_status (row_order db r)) = or_status r"
    "o_courier_id (row_order db r) = active_courier db (or_id r)" "o_version (row_order db r) = or_version r"
    "o_created_at (row_order db r) = or_created_at r"
  using assms by (auto simp: status_texts_iff row_order_def sql_domain_def)

lemma sql_ok_row:
  assumes "sql_ok db" "map_of (t_orders db) i = Some r"
  shows "or_id r = i" "or_status r \<in> set status_texts"
  using assms by (auto simp: sql_ok_def dest!: map_of_SomeD)

lemma order_row_error_None:
  "order_row_error r = None \<Longrightarrow> or_status r \<in> set status_texts"
  by (auto simp: order_row_error_def split: if_splits)

lemma active_courier_cong:
  "t_assignments db' = t_assignments db \<Longrightarrow> active_courier db' i = active_courier db i"
  by (simp add: active_courier_def)

lemma row_order_cong: "t_assignments db' = t_assignments db \<Longrightarrow> row_order db' r = row_order db r"
  by (simp add: row_order_def sql_domain_def active_courier_def)

lemma find_None_list_ex: "find P xs = None \<longleftrightarrow> \<not> list_ex P xs"
  by (induction xs) auto

lemma active_courier_None:
  "active_courier db i = None \<longleftrightarrow> \<not> list_ex (\<lambda>a. as_order_id a = i \<and> as_active a) (t_assignments db)"
  by (auto simp: active_courier_def find_None_list_ex list_ex_iff)

lemma find_append: "find P (xs @ ys) = (case find P xs of None \<Rightarrow> find P ys | Some x \<Rightarrow> Some x)"
  by (induction xs) auto

lemma active_courier_add:
  assumes "t_assignments db' = t_assignments db @ [\<lparr> as_order_id = j, as_courier_id = k, as_active = True \<rparr>]"
    "active_courier db j = None"
  shows "active_courier db' i = (if i = j then Some k else active_courier db i)"
  using assms by (auto simp: active_courier_def find_append split: option.splits)

lemma sql_ok_put:
  assumes "sql_ok db" "or_status r \<in> set status_texts"
  shows "sql_ok (db \<lparr> t_orders := dict_set (or_id r) r (t_orders db) \<rparr>)"
proof -
  have "\<forall>(i, q) \<in> set (dict_set (or_id r) r (t_orders db)). or_id q = i \<and> or_status q \<in> set status_texts"
    using assms by (auto simp: sql_ok_def dest!: set_dict_set [THEN subsetD])
  then show ?thesis using assms(1) by (auto simp: sql_ok_def dom_update)
qed

lemma insert_assignment_done:
  assumes "sql_ok db" "insert_assignment_row \<lparr> as_order_id = j, as_courier_id = k, as_active = True \<rparr> db = (Inr (), db')"
  shows "db' = db \<lparr> t_assignments := t_assignments db @ [\<lparr> as_order_id = j, as_courier_id = k, as_active = True \<rparr>] \<rparr>"
    "sql_ok db'" "active_courier db j = None"
proof -
  let ?a = "\<lparr> as_order_id = j, as_courier_id = k, as_active = True \<rparr>"
  have c: "map_of (t_orders db) j \<noteq> None" "\<not> list_ex (\<lambda>b. as_active b \<and> as_order_id b = j) (t_assignments db)"
    "\<not> list_ex (\<lambda>b. as_active b \<and> as_courier_id b = k) (t_assignments db)"
    and db': "db' = db \<lparr> t_assignments := t_assignments db @ [?a] \<rparr>"
    using assms(2) by (auto simp: insert_assignment_row_def split: if_splits)
  show "db' = db \<lparr> t_assignments := t_assignments db @ [?a] \<rparr>" by (rule db')
  show "active_courier db j = None" using c(2) by (auto simp: active_courier_None list_ex_iff)
  have "j \<in> fst ` set (t_orders db)" using c(1) by (auto dest: map_of_SomeD intro: rev_image_eqI)
  moreover have "j \<notin> as_order_id ` set (filter as_active (t_assignments db))"
    "k \<notin> as_courier_id ` set (filter as_active (t_assignments db))" using c(2,3) by (auto simp: list_ex_iff)
  ultimately show "sql_ok db'" using assms(1) unfolding db' by (simp add: sql_ok_def)
qed

lemma sql_book_put:
  assumes "t_outbox db' = t_outbox db" "t_history db' = t_history db" "t_idempotency db' = t_idempotency db"
    "map_of (t_orders db') = (map_of (t_orders db))(o_id x \<mapsto> r)" "row_order db' r = x"
    "\<And>j q. map_of (t_orders db) j = Some q \<Longrightarrow> j \<noteq> o_id x \<Longrightarrow> row_order db' q = row_order db q"
  shows "sql_book db' = put_order x (sql_book db)"
proof -
  have "(\<lambda>i. map_option (row_order db') (map_of (t_orders db') i))
      = (\<lambda>i. map_option (row_order db) (map_of (t_orders db) i))(o_id x \<mapsto> x)"
  proof
    fix i
    show "map_option (row_order db') (map_of (t_orders db') i)
        = ((\<lambda>i. map_option (row_order db) (map_of (t_orders db) i))(o_id x \<mapsto> x)) i"
      using assms(4,5) assms(6) [of i] by (cases "i = o_id x"; cases "map_of (t_orders db) i") simp_all
  qed
  then show ?thesis using assms(1-3) by (simp add: sql_book_def put_order_def)
qed

lemma row_order_eqI:
  assumes "or_status r = status_value (o_status x)" "o_id x = or_id r" "o_tenant_id x = or_tenant_id r"
    "o_customer_id x = or_customer_id r" "o_pickup_address x = or_pickup_address r"
    "o_destination_address x = or_destination_address r" "o_weight_grams x = or_weight_grams r"
    "o_courier_id x = active_courier db (or_id r)" "o_version x = or_version r" "o_created_at x = or_created_at r"
  shows "row_order db r = x"
proof -
  have "or_status r \<in> set status_texts" using assms(1) status_texts_iff by blast
  note s = row_order_simps [OF this, of db]
  show ?thesis using assms s by (intro DeliveryOrder.equality) simp_all
qed

text \<open>The effect of a successful \<open>save\<close>.\<close>

lemma sql_save_done:
  assumes "sql_ok db" "view (sql_book db) (o_id x) = Some c" "order_evolves c x"
    "o_courier_id x = o_courier_id c \<or> o_courier_id c = None"
    "sql_save x (o_version c) db = (Inr (), db')"
  shows "sql_ok db'" "sql_book db' = put_order x (sql_book db)" "t_outbox db' = t_outbox db"
    "t_history db' = t_history db" "o_id x \<in> fst ` set (t_orders db')"
proof -
  let ?i = "o_id x"
  obtain row where row: "map_of (t_orders db) ?i = Some row" "c = row_order db row" using assms(2) by auto
  note rw = sql_ok_row [OF assms(1) row(1)]
  note cs = row_order_simps [OF rw(2), of db, folded row(2), unfolded rw(1)] and fr = order_evolves_frame [OF assms(3)]
  let ?r = "row \<lparr> or_pickup_address := o_pickup_address x, or_destination_address := o_destination_address x,
      or_weight_grams := o_weight_grams x, or_status := status_value (o_status x), or_version := or_version row + 1 \<rparr>"
  let ?db1 = "db \<lparr> t_orders := dict_set ?i ?r (t_orders db) \<rparr>"
  have fin: "(case o_courier_id x of None \<Rightarrow> (Inr (), ?db1)
     | Some courier \<Rightarrow> if list_ex (\<lambda>a. as_order_id a = ?i \<and> as_active a) (t_assignments ?db1) then (Inr (), ?db1)
         else insert_assignment_row \<lparr> as_order_id = ?i, as_courier_id = courier, as_active = True \<rparr> ?db1)
      = (Inr (), db')"
  proof (cases "order_row_error ?r")
    case None
    have "sql_save x (o_version c) db = (case o_courier_id x of None \<Rightarrow> (Inr (), ?db1)
       | Some courier \<Rightarrow> if list_ex (\<lambda>a. as_order_id a = ?i \<and> as_active a) (t_assignments ?db1) then (Inr (), ?db1)
           else insert_assignment_row \<lparr> as_order_id = ?i, as_courier_id = courier, as_active = True \<rparr> ?db1)"
      unfolding sql_save_def andThen_def check_def update_order_row_def
      using row(1) rw(1) cs(9) fr(5) None by simp
    with assms(5) show ?thesis by simp
  next
    case (Some e)
    have "sql_save x (o_version c) db = (Inl e, db)"
      unfolding sql_save_def andThen_def check_def update_order_row_def
      using row(1) rw(1) cs(9) fr(5) Some by simp
    with assms(5) show ?thesis by simp
  qed
  have st: "or_status ?r \<in> set status_texts" using status_texts_iff by auto
  have ok1: "sql_ok ?db1" using sql_ok_put [OF assms(1) st] rw(1) by simp
  have xf: "o_tenant_id x = or_tenant_id row" "o_customer_id x = or_customer_id row"
    "o_created_at x = or_created_at row" "o_version x = or_version row + 1"
    using fr(2-5) cs(2,3,9,10) by simp_all
  have eqx: "row_order d ?r = x" if "active_courier d ?i = o_courier_id x" for d
    by (intro row_order_eqI) (simp_all add: that rw(1) xf)
  have "sql_ok db' \<and> sql_book db' = put_order x (sql_book db) \<and> t_outbox db' = t_outbox db
      \<and> t_history db' = t_history db \<and> o_id x \<in> fst ` set (t_orders db')"
  proof (cases "\<exists>k. o_courier_id x = Some k \<and> active_courier db ?i = None")
    case True
    then obtain k where k: "o_courier_id x = Some k" "active_courier db ?i = None" by blast
    then have ins: "insert_assignment_row \<lparr> as_order_id = ?i, as_courier_id = k, as_active = True \<rparr> ?db1 = (Inr (), db')"
      using fin by (simp add: active_courier_None)
    note a = insert_assignment_done [OF ok1 ins]
    have ac: "active_courier db' j = (if j = ?i then Some k else active_courier db j)" for j
      using active_courier_add [of db' ?db1 ?i k j] a(1,3) by (simp add: active_courier_def)
    have "sql_book db' = put_order x (sql_book db)"
    proof (rule sql_book_put [where r = ?r])
      fix j q assume "map_of (t_orders db) j = Some q" "j \<noteq> ?i"
      with sql_ok_row [OF assms(1), of j q] ac show "row_order db' q = row_order db q"
        by (simp add: row_order_def sql_domain_def)
    qed (use a(1) ac k(1) eqx [of db'] in simp_all)
    then show ?thesis using a(1,2) by (simp add: dom_update)
  next
    case False
    then have db': "db' = ?db1" using fin by (auto simp: active_courier_None split: option.splits)
    have "active_courier db ?i = o_courier_id x" using False assms(4) cs(8) by (cases "o_courier_id x") auto
    then have "row_order db' ?r = x" using eqx [of db'] db' by (simp add: active_courier_def)
    then have "sql_book db' = put_order x (sql_book db)"
    proof (intro sql_book_put [where r = ?r])
      fix j q
      show "row_order db' q = row_order db q" by (rule row_order_cong) (simp add: db')
    qed (simp_all add: db')
    then show ?thesis using ok1 db' by (simp add: dom_update)
  qed
  then show "sql_ok db'" "sql_book db' = put_order x (sql_book db)" "t_outbox db' = t_outbox db"
    "t_history db' = t_history db" "o_id x \<in> fst ` set (t_orders db')" by auto
qed

lemma dict_get_None_new: "map_of d k = None \<Longrightarrow> AList.update k v d = d @ [(k, v)]"
  by (intro dict_set_new) (simp add: map_of_eq_None_iff)

lemma history_event_row [simp]: "history_event (history_row e) = e"
  by (simp add: history_event_def history_row_def)

lemma sql_book_event:
  assumes "map_of (t_history db) (sc_event_id e) = None" "map_of (t_outbox db) (sc_event_id e) = None"
  shows "sql_book (db \<lparr> t_history := dict_set (sc_event_id e) (history_row e) (t_history db),
      t_outbox := dict_set (sc_event_id e) (status_outbox_row e) (t_outbox db) \<rparr>) = put_event e (sql_book db)"
proof -
  have "row_order (db \<lparr> t_history := h, t_outbox := m \<rparr>) = row_order db" for h m
    by (rule ext, rule row_order_cong) simp
  then show ?thesis
    using assms by (simp add: sql_book_def put_event_def dict_get_None_new status_outbox_row_def)
qed

text \<open>The history row and the outbox row of one event.\<close>

definition insert_event_rows :: "OrderStatusChanged \<Rightarrow> (order_tables, unit) action" where
  "insert_event_rows e = andThen (insert_history_row (history_row e)) (\<lambda>_. insert_outbox_row (status_outbox_row e))"

lemma insert_event_done:
  assumes "sql_ok db" "insert_event_rows e db = (Inr (), db')"
  shows "sql_ok db'" "sql_taken db' = insert (sc_event_id e) (sql_taken db)"
    "sql_book db' = put_event e (sql_book db)"
proof -
  let ?i = "sc_event_id e"
  have n: "map_of (t_history db) ?i = None" "map_of (t_outbox db) ?i = None"
    and db': "db' = db \<lparr> t_history := dict_set ?i (history_row e) (t_history db),
      t_outbox := dict_set ?i (status_outbox_row e) (t_outbox db) \<rparr>"
    using assms(2) by (auto simp: insert_event_rows_def insert_history_row_def insert_outbox_row_def
        history_row_def status_outbox_row_def split: if_splits)
  show "sql_ok db'" using assms(1) unfolding db' by (simp add: sql_ok_def)
  show "sql_taken db' = insert ?i (sql_taken db)" unfolding db' by (auto simp: sql_taken_def dom_update)
  show "sql_book db' = put_event e (sql_book db)" unfolding db' by (rule sql_book_event [OF n])
qed

lemma insert_event_progress:
  assumes "sql_fits_event e" "1 < sc_order_version e" "sc_order_version e \<le> 2147483647"
    "sc_from_status e \<noteq> sc_to_status e" "sc_order_id e \<in> fst ` set (t_orders db)" "sc_event_id e \<notin> sql_taken db"
    "\<And>h. h \<in> set (trail_of (sc_order_id e) (sql_book db)) \<Longrightarrow> sc_order_version h < sc_order_version e"
  shows "fst (insert_event_rows e db) = Inr ()"
proof -
  have ord: "map_of (t_orders db) (sc_order_id e) \<noteq> None" using assms(5) by (simp add: map_of_eq_None_iff)
  have new: "map_of (t_history db) (sc_event_id e) = None" "map_of (t_outbox db) (sc_event_id e) = None"
    using assms(6) by (auto simp: sql_taken_def map_of_eq_None_iff)
  have ver: "\<not> list_ex (\<lambda>g. th_tenant_id g = sc_tenant_id e \<and> th_order_id g = sc_order_id e
      \<and> th_order_version g = sc_order_version e) (values_of (t_history db))"
  proof
    assume "list_ex (\<lambda>g. th_tenant_id g = sc_tenant_id e \<and> th_order_id g = sc_order_id e
      \<and> th_order_version g = sc_order_version e) (values_of (t_history db))"
    then obtain p where p: "p \<in> set (t_history db)" "th_order_id (snd p) = sc_order_id e"
      "th_order_version (snd p) = sc_order_version e" by (auto simp: list_ex_iff)
    then have "history_event (snd p) \<in> set (trail_of (sc_order_id e) (sql_book db))"
      by (auto simp: trail_of_def history_event_def image_iff)
    from assms(7) [OF this] p(3) show False by (simp add: history_event_def)
  qed
  have "status_value st \<in> set status_texts" for st using status_texts_iff by blast
  then show ?thesis
    using assms(1-4) ord new ver
    by (simp add: insert_event_rows_def andThen_def insert_history_row_def insert_outbox_row_def
        history_row_def status_outbox_row_def sql_fits_event_def int4_def)
qed

lemma sql_save_transition_event:
  "sql_save_transition x v e =
     andThen (check (\<not> (sc_order_id e \<noteq> o_id x \<or> sc_order_version e \<noteq> o_version x))
       (ValueError ''transition event does not describe the persisted order'')) (\<lambda>_.
     andThen (sql_save x v) (\<lambda>_. insert_event_rows e))"
  by (simp add: sql_save_transition_def insert_event_rows_def)

lemma order_evolves_courier:
  "order_evolves c x \<Longrightarrow> order_ok c \<Longrightarrow> o_courier_id x = o_courier_id c \<or> o_courier_id c = None"
  by (induction rule: order_evolves.induct)
    (auto simp: order_transition_Inr order_assign_Inr order_ok_def dest: update_details_Inr)

lemma sql_save_transition_done:
  assumes "sql_ok db" "view (sql_book db) (o_id x) = Some c" "order_evolves c x" "book_ok (sql_book db)"
    "sql_save_transition x (o_version c) e db = (Inr (), db')"
  shows "sql_ok db'" "sql_taken db' = insert (sc_event_id e) (sql_taken db)"
    "sql_book db' = put_event e (put_order x (sql_book db))"
proof -
  obtain db1 where db1: "sql_save x (o_version c) db = (Inr (), db1)" "insert_event_rows e db1 = (Inr (), db')"
    using assms(5) by (auto simp: sql_save_transition_event)
  have "o_courier_id x = o_courier_id c \<or> o_courier_id c = None"
    by (rule order_evolves_courier [OF assms(3) book_okD(2) [OF assms(4,2)]])
  note s = sql_save_done [OF assms(1-3) this db1(1)]
  have "sql_taken db1 = sql_taken db" using s(3,4) by (simp add: sql_taken_def)
  with insert_event_done [OF s(1) db1(2)] s(2)
  show "sql_ok db'" "sql_taken db' = insert (sc_event_id e) (sql_taken db)"
    "sql_book db' = put_event e (put_order x (sql_book db))" by simp_all
qed

text \<open>Progress of \<open>save\<close>: a storable order whose courier is unchanged is written.\<close>

lemma sql_save_progress:
  assumes "sql_ok db" "view (sql_book db) (o_id x) = Some c" "order_ok x" "order_evolves c x"
    "o_courier_id x = o_courier_id c" "sql_storable x"
  shows "fst (sql_save x (o_version c) db) = Inr ()"
proof -
  let ?i = "o_id x"
  obtain row where row: "map_of (t_orders db) ?i = Some row" "c = row_order db row" using assms(2) by auto
  note rw = sql_ok_row [OF assms(1) row(1)]
  note cs = row_order_simps [OF rw(2), of db, folded row(2), unfolded rw(1)] and fr = order_evolves_frame [OF assms(4)]
  let ?r = "row \<lparr> or_pickup_address := o_pickup_address x, or_destination_address := o_destination_address x,
      or_weight_grams := o_weight_grams x, or_status := status_value (o_status x), or_version := or_version row + 1 \<rparr>"
  have "order_row_error ?r = None"
  proof -
    have "status_value (o_status x) \<in> set status_texts" "length (status_value (o_status x)) \<le> 32"
      using status_texts_iff by (blast, cases "o_status x", simp_all)
    moreover have "0 < or_version row + 1" "or_version row + 1 \<le> 2147483647"
      using assms(3,6) cs(9) fr(5) by (auto simp: order_ok_def sql_storable_def intro: less_le_trans)
        (cases "o_status x"; simp)+
    ultimately show ?thesis
      using assms(3,6) by (simp add: order_row_error_def sql_storable_def order_ok_def int4_def)
  qed
  moreover have "list_ex (\<lambda>a. as_order_id a = ?i \<and> as_active a) (t_assignments db)" if "o_courier_id x \<noteq> None"
    using that assms(5) cs(8) active_courier_None [of db ?i] by auto
  ultimately show ?thesis
    using row(1) rw(1) cs(9) fr(5)
    by (auto simp: sql_save_def andThen_def check_def update_order_row_def split: option.splits)
qed

definition claimable :: "(uuid \<Rightarrow> bool) \<Rightarrow> uuid \<Rightarrow> OrderRow \<Rightarrow> bool" where
  "claimable locked t r \<longleftrightarrow> or_tenant_id r = t \<and> or_status r = status_value CREATED \<and> \<not> locked (or_id r)"

lemma sql_candidates:
  assumes "sql_ok db"
    "sort_key (\<lambda>r. (or_created_at r, or_id r)) (filter (claimable locked t) (values_of (t_orders db))) = row # rest"
  shows "map_of (t_orders db) (or_id row) = Some row" "claimable locked t row"
    "map_of (t_orders db) i = Some q \<Longrightarrow> claimable locked t q \<Longrightarrow>
      (or_created_at row, or_id row) \<le> (or_created_at q, or_id q)"
proof -
  have "row \<in> set (filter (claimable locked t) (values_of (t_orders db)))"
    by (rule sort_key_hd_in [OF assms(2)])
  then obtain i' where "(i', row) \<in> set (t_orders db)" "claimable locked t row" by auto
  with assms(1) show "map_of (t_orders db) (or_id row) = Some row" "claimable locked t row"
    by (auto simp: sql_ok_def)
  assume "map_of (t_orders db) i = Some q" "claimable locked t q"
  then have "q \<in> set (filter (claimable locked t) (values_of (t_orders db)))"
    by (auto dest!: map_of_SomeD intro: rev_image_eqI)
  from sort_key_hd_le [OF assms(2) this]
  show "(or_created_at row, or_id row) \<le> (or_created_at q, or_id q)" .
qed

definition row_before :: "OrderRow \<Rightarrow> DeliveryOrder" where
  "row_before row = \<lparr> o_id = or_id row, o_tenant_id = or_tenant_id row, o_customer_id = or_customer_id row,
     o_pickup_address = or_pickup_address row, o_destination_address = or_destination_address row,
     o_weight_grams = or_weight_grams row, o_status = CREATED, o_courier_id = None,
     o_version = or_version row, o_created_at = or_created_at row \<rparr>"

definition claim_rows :: "OrderRow \<Rightarrow> uuid \<Rightarrow> OrderStatusChanged \<Rightarrow> (order_tables, unit) action" where
  "claim_rows row k e =
     andThen (update_order_row (row \<lparr> or_status := status_value ASSIGNED, or_version := or_version row + 1 \<rparr>)) (\<lambda>_.
     andThen (insert_assignment_row \<lparr> as_order_id = or_id row, as_courier_id = k, as_active = True \<rparr>) (\<lambda>_.
     insert_event_rows e))"

definition claim_event :: "uuid \<Rightarrow> OrderRow \<Rightarrow> uuid \<Rightarrow> datetime \<Rightarrow> string \<Rightarrow> OrderStatusChanged" where
  "claim_event ev row k tm cid =
     \<lparr> sc_event_id = ev, sc_order_id = or_id row, sc_tenant_id = or_tenant_id row, sc_from_status = CREATED,
       sc_to_status = ASSIGNED, sc_order_version = or_version row + 1, sc_actor_id = k,
       sc_actor_role = ''courier'', sc_occurred_at = tm, sc_correlation_id = cid \<rparr>"

lemma row_before_assign:
  "order_assign (row_before row) k = Inr (row_before row \<lparr> o_status := ASSIGNED,
     o_version := or_version row + 1, o_courier_id := Some k \<rparr>)"
  "from_transition ev (row_before row) (row_before row \<lparr> o_status := ASSIGNED,
     o_version := or_version row + 1, o_courier_id := Some k \<rparr>) k ''courier'' tm cid
   = Inr (claim_event ev row k tm cid)"
  by (simp_all add: order_assign_Inr row_before_def from_transition_def claim_event_def)

lemma sql_claim_cases:
  "sql_claim_next_created_order locked ev now k t tmo cid db =
     (case sort_key (\<lambda>r. (or_created_at r, or_id r)) (filter (claimable locked t) (values_of (t_orders db))) of
        [] \<Rightarrow> (Inr None, db)
      | row # _ \<Rightarrow>
          (case claim_rows row k (claim_event ev row k (case tmo of Some t \<Rightarrow> t | None \<Rightarrow> now) cid) db of
             (Inl (IntegrityError constraint), db') \<Rightarrow>
               (Inl (if constraint = ''uq_active_assignment_courier''
                     then CourierAlreadyBusy ''courier already has an active assignment''
                     else IntegrityError constraint), db')
           | (Inl e, db') \<Rightarrow> (Inl e, db')
           | (Inr _, db') \<Rightarrow> (Inr (Some (row_before row \<lparr> o_status := ASSIGNED,
                                   o_version := or_version row + 1, o_courier_id := Some k \<rparr>)), db')))"
proof -
  have "claimable locked t = (\<lambda>r. or_tenant_id r = t \<and> or_status r = status_value CREATED \<and> \<not> locked (or_id r))"
    by (simp add: claimable_def fun_eq_iff)
  then show ?thesis
    unfolding sql_claim_next_created_order_def Let_def row_before_def [symmetric]
    by (simp add: andThen_def lift_result_def row_before_assign claim_rows_def insert_event_rows_def
        split: list.splits)
qed

lemma claim_rows_done:
  assumes "sql_ok db" "map_of (t_orders db) (or_id row) = Some row" "or_status row = status_value CREATED"
    "active_courier db (or_id row) = None" "claim_rows row k e db = (Inr (), db')"
    "y = row_before row \<lparr> o_status := ASSIGNED, o_version := or_version row + 1, o_courier_id := Some k \<rparr>"
  shows "sql_ok db'" "sql_taken db' = insert (sc_event_id e) (sql_taken db)"
    "sql_book db' = put_event e (put_order y (sql_book db))"
proof -
  let ?r = "row \<lparr> or_status := status_value ASSIGNED, or_version := or_version row + 1 \<rparr>"
  let ?db1 = "db \<lparr> t_orders := dict_set (or_id row) ?r (t_orders db) \<rparr>"
  obtain db2 where ins: "insert_assignment_row \<lparr> as_order_id = or_id row, as_courier_id = k, as_active = True \<rparr> ?db1
      = (Inr (), db2)" and ev: "insert_event_rows e db2 = (Inr (), db')"
    using assms(5) by (auto simp: claim_rows_def update_order_row_def split: option.splits)
  have st: "or_status ?r \<in> set status_texts" by (simp add: status_texts_def)
  have ok1: "sql_ok ?db1" using sql_ok_put [OF assms(1) st] by simp
  note a = insert_assignment_done [OF ok1 ins]
  have ac: "active_courier db2 j = (if j = or_id row then Some k else active_courier db j)" for j
    using active_courier_add [of db2 ?db1 "or_id row" k j] a(1,3) by (simp add: active_courier_def)
  have y: "o_id y = or_id row" using assms(6) by (simp add: row_before_def)
  have "sql_book db2 = put_order y (sql_book db)"
  proof (rule sql_book_put [where r = ?r])
    fix j q assume "map_of (t_orders db) j = Some q" "j \<noteq> o_id y"
    with sql_ok_row [OF assms(1), of j q] ac y show "row_order db2 q = row_order db q"
      by (simp add: row_order_def sql_domain_def)
  next
    show "row_order db2 ?r = y"
      using ac [of "or_id row"] by (intro row_order_eqI) (simp_all add: assms(6) row_before_def)
  qed (simp_all add: a(1) y)
  moreover have "sql_taken db2 = sql_taken db" by (simp add: a(1) sql_taken_def)
  ultimately show "sql_ok db'" "sql_taken db' = insert (sc_event_id e) (sql_taken db)"
    "sql_book db' = put_event e (put_order y (sql_book db))"
    using insert_event_done [OF a(2) ev] by simp_all
qed

lemma created_row:
  assumes "sql_ok db" "map_of (t_orders db) i = Some r"
  shows "o_status (row_order db r) = CREATED \<longleftrightarrow> or_status r = status_value CREATED"
  using row_order_simps(7) [OF sql_ok_row(2) [OF assms], of db] by (metis status_value_inject)

lemma sql_claim_Some:
  assumes "sql_ok db" "book_ok (sql_book db)"
    "sql_claim_next_created_order locked ev now k t (Some tm) cid db = (Inr (Some y), db')"
  shows "\<exists>c e. view (sql_book db) (o_id c) = Some c \<and> o_tenant_id c = t \<and> \<not> locked (o_id c) \<and> order_assign c k = Inr y
        \<and> (\<forall>i d. view (sql_book db) i = Some d \<and> o_tenant_id d = t \<and> o_status d = CREATED \<and> \<not> locked i \<longrightarrow>
              (o_created_at c, o_id c) \<le> (o_created_at d, o_id d))
        \<and> from_transition ev c y k ''courier'' tm cid = Inr e
        \<and> sql_ok db' \<and> sql_taken db' = insert ev (sql_taken db)
        \<and> sql_book db' = put_event e (put_order y (sql_book db))"
proof -
  let ?cand = "sort_key (\<lambda>r. (or_created_at r, or_id r)) (filter (claimable locked t) (values_of (t_orders db)))"
  from assms(3) obtain row rest where cand: "?cand = row # rest"
    by (cases ?cand) (simp_all add: sql_claim_cases)
  let ?e = "claim_event ev row k tm cid"
  let ?y = "row_before row \<lparr> o_status := ASSIGNED, o_version := or_version row + 1, o_courier_id := Some k \<rparr>"
  have rows: "claim_rows row k ?e db = (Inr (), db')" and y: "y = ?y"
    using assms(3) cand by (auto simp: sql_claim_cases split: prod.splits sum.splits exn.splits)
  note c = sql_candidates [OF assms(1) cand]
  have st: "or_status row = status_value CREATED" "or_tenant_id row = t" "\<not> locked (or_id row)"
    using c(2) by (auto simp: claimable_def)
  note rw = sql_ok_row [OF assms(1) c(1)]
  have v: "view (sql_book db) (or_id row) = Some (row_order db row)" using c(1) by simp
  have "o_status (row_order db row) = CREATED" using created_row [OF assms(1) c(1)] st(1) by simp
  then have ac: "active_courier db (or_id row) = None"
    using book_okD(2) [OF assms(2) v] row_order_simps(8) [OF rw(2), of db] by (simp add: order_ok_def)
  have bef: "row_order db row = row_before row"
    by (rule row_order_eqI) (simp_all add: row_before_def st(1) ac)
  have least: "(o_created_at (row_before row), o_id (row_before row)) \<le> (o_created_at d, o_id d)"
    if d: "view (sql_book db) i = Some d \<and> o_tenant_id d = t \<and> o_status d = CREATED \<and> \<not> locked i" for i d
  proof -
    from d obtain q where q: "map_of (t_orders db) i = Some q" "d = row_order db q" by auto
    note qs = row_order_simps [OF sql_ok_row(2) [OF assms(1) q(1)], of db, folded q(2)]
    have "claimable locked t q"
      using d qs(2,7) sql_ok_row(1) [OF assms(1) q(1)] by (auto simp: claimable_def)
    from c(3) [OF q(1) this] qs(1,10) show ?thesis by (simp add: row_before_def)
  qed
  note eff = claim_rows_done [OF assms(1) c(1) st(1) ac rows y]
  have "view (sql_book db) (o_id (row_before row)) = Some (row_before row)"
    "o_tenant_id (row_before row) = t" "\<not> locked (o_id (row_before row))"
    using v bef st(2,3) by (simp_all add: row_before_def)
  moreover have "order_assign (row_before row) k = Inr y"
    "from_transition ev (row_before row) y k ''courier'' tm cid = Inr ?e"
    unfolding y by (rule row_before_assign)+
  moreover have "sql_taken db' = insert ev (sql_taken db)" using eff(2) by (simp add: claim_event_def)
  ultimately show ?thesis using least eff(1,3) by blast
qed

lemma sql_claim_None:
  assumes "sql_ok db" "sql_claim_next_created_order (\<lambda>_. False) ev now k t tmo cid db = (Inr None, db')"
  shows "db' = db \<and> (\<forall>i d. view (sql_book db) i = Some d \<and> o_tenant_id d = t \<longrightarrow> o_status d \<noteq> CREATED)"
proof -
  let ?cand = "sort_key (\<lambda>r. (or_created_at r, or_id r)) (filter (claimable (\<lambda>_. False) t) (values_of (t_orders db)))"
  have cand: "?cand = []"
    using assms(2) by (cases ?cand) (auto simp: sql_claim_cases split: prod.splits sum.splits exn.splits)
  then have "db' = db" using assms(2) by (simp add: sql_claim_cases)
  moreover have "o_status d \<noteq> CREATED" if d: "view (sql_book db) i = Some d" "o_tenant_id d = t" for i d
  proof
    assume s: "o_status d = CREATED"
    from d obtain q where q: "map_of (t_orders db) i = Some q" "d = row_order db q" by auto
    have "claimable (\<lambda>_. False) t q"
      using s d(2) q created_row [OF assms(1) q(1)] row_order_simps(2) [OF sql_ok_row(2) [OF assms(1) q(1)], of db]
      by (simp add: claimable_def)
    moreover have "q \<in> set (values_of (t_orders db))" using q(1) by (auto dest!: map_of_SomeD intro: rev_image_eqI)
    ultimately show False using cand by (auto simp: filter_empty_conv)
  qed
  ultimately show ?thesis by blast
qed

lemma insert_order_progress:
  assumes "order_ok x" "sql_storable x" "map_of (t_orders db) (o_id x) = None"
  shows "fst (sql_add x db) = Inr ()"
proof -
  have "status_value (o_status x) \<in> set status_texts \<and> length (status_value (o_status x)) \<le> 32 \<and> 0 < o_version x"
    using assms(1) by (cases "o_status x") (simp_all add: status_texts_def order_ok_def)
  then show ?thesis
    using assms
    by (simp add: sql_add_def insert_order_row_def order_row_error_def sql_storable_def order_ok_def int4_def)
qed

lemma sql_add_done:
  assumes "sql_ok db" "map_of (t_orders db) (o_id x) = None" "o_courier_id x = None" "sql_add x db = (Inr (), db')"
  shows "sql_ok db'" "sql_taken db' = sql_taken db" "sql_book db' = put_order x (sql_book db)"
proof -
  let ?r = "\<lparr> or_id = o_id x, or_tenant_id = o_tenant_id x, or_customer_id = o_customer_id x,
         or_pickup_address = o_pickup_address x, or_destination_address = o_destination_address x,
         or_weight_grams = o_weight_grams x, or_status = status_value (o_status x),
         or_version = o_version x, or_created_at = o_created_at x \<rparr>"
  have db': "db' = db \<lparr> t_orders := dict_set (o_id x) ?r (t_orders db) \<rparr>"
    using assms(4) by (auto simp: sql_add_def insert_order_row_def split: option.splits if_splits)
  have "status_value (o_status x) \<in> set status_texts" using status_texts_iff by blast
  then show "sql_ok db'" using sql_ok_put [OF assms(1), of ?r] by (simp add: db')
  show "sql_taken db' = sql_taken db" by (simp add: db' sql_taken_def)
  have "o_id x \<notin> as_order_id ` set (t_assignments db)"
    using assms(1,2) by (auto simp: sql_ok_def map_of_eq_None_iff)
  then have "active_courier db' (o_id x) = None"
    by (force simp: active_courier_None list_ex_iff db')
  then have "row_order db' ?r = x" using assms(3) by (intro row_order_eqI) simp_all
  then show "sql_book db' = put_order x (sql_book db)"
  proof (intro sql_book_put [where r = ?r])
    fix q show "row_order db' q = row_order db q" by (rule row_order_cong) (simp add: db')
  qed (simp_all add: db')
qed

lemma sql_reply_ok:
  assumes "sql_ok db" "map_of (t_idempotency db) sc = Some r"
  obtains fp x snap where "reply_of_row r = Some (fp, x)"
    "dict_get (ir_response r) ''request_fingerprint'' = Some (JStr fp)"
    "dict_get (ir_response r) ''response'' = Some (JObj snap)" "domain_from_snapshot snap = Inr x"
proof -
  have "reply_of_row r \<noteq> None" using assms by (auto simp: sql_ok_def dest!: map_of_SomeD)
  then show thesis
    using that by (auto simp: reply_of_row_def split: option.splits json.splits sum.splits)
qed

lemma sql_remember_done:
  assumes "sql_ok db" "map_of (t_idempotency db) sc = None" "valid_datetime (o_created_at x)"
    "sql_remember_idempotency now sc fp x db = (Inr (), db')"
  shows "sql_ok db' \<and> sql_taken db' = sql_taken db \<and> sql_book db' = put_reply sc fp x (sql_book db)"
proof -
  let ?r = "\<lparr> ir_key = sc, ir_operation = ''create_order'', ir_resource_id = o_id x,
         ir_response = [(''request_fingerprint'', JStr fp), (''status_code'', JInt 201),
                        (''response'', JObj (response_snapshot x))], ir_created_at = now \<rparr>"
  have db': "db' = db \<lparr> t_idempotency := dict_set sc ?r (t_idempotency db) \<rparr>"
    using assms(4) by (auto simp: sql_remember_idempotency_def insert_idempotency_row_def split: if_splits)
  have rep: "reply_of_row ?r = Some (fp, x)" by (simp add: reply_of_row_def snapshot_roundtrip [OF assms(3)])
  have "sql_ok db'" using assms(1) rep unfolding db' by (auto simp: sql_ok_def dest!: set_dict_set [THEN subsetD])
  moreover have ro: "row_order db' = row_order db" by (rule ext, rule row_order_cong) (simp add: db')
  moreover have same: "t_orders db' = t_orders db" "t_history db' = t_history db" "t_outbox db' = t_outbox db"
    by (simp_all add: db')
  moreover have "(\<lambda>s. Option.bind (map_of (t_idempotency db') s) reply_of_row)
      = (\<lambda>s. Option.bind (map_of (t_idempotency db) s) reply_of_row)(sc \<mapsto> (fp, x))"
    by (auto simp: db' rep fun_eq_iff)
  ultimately show ?thesis by (simp add: sql_taken_def sql_book_def put_reply_def)
qed

interpretation sql: order_port "sql_repository (\<lambda>_. False)" sql_book sql_ok sql_taken sql_storable sql_fits
  sql_fits_event
proof (unfold_locales, goal_cases)
  case (1 s i)
  show ?case
  proof (cases "map_of (t_orders s) i")
    case (Some r)
    then show ?thesis using sql_domain_row [OF sql_ok_row(2) [OF 1 Some], of s] by (simp add: sql_get_def)
  qed (simp add: sql_get_def)
next
  case (2 s x s')
  then show ?case using sql_add_done [of s x s'] by simp
next
  case (3 s x)
  then show ?case using insert_order_progress [of x s] by simp
next
  case (4 s x c s')
  then show ?case using sql_save_done [of s x c s'] by (simp add: sql_taken_def)
next
  case (5 s x c)
  then show ?case using sql_save_progress [of s x c] by simp
next
  case (6 s x v)
  show ?case
  proof (cases "map_of (t_orders s) (o_id x)")
    case (Some r)
    then have "or_version r \<noteq> v"
      using 6 row_order_simps(9) [OF sql_ok_row(2) [OF 6(1) Some], of s] by simp
    with Some 6(2) show ?thesis by (simp add: sql_save_def andThen_def check_def)
  qed (use 6(2) in \<open>simp add: sql_save_def andThen_def check_def\<close>)
next
  case (7 s x c ev a r tm cid e s')
  then show ?case using sql_save_transition_done [of s x c e s'] by (auto simp: from_transition_Inr)
next
  case (8 s x c ev a r tm cid e)
  note e = 8(5) [unfolded from_transition_Inr]
  obtain s1 where s1: "sql_save x (o_version c) s = (Inr (), s1)"
    using sql_save_progress [of s x c] 8 by (metis prod.collapse)
  note d = sql_save_done [OF 8(1,2,4) _ s1]
  have "fst (insert_event_rows e s1) = Inr ()"
  proof (rule insert_event_progress)
    have tr: "trail_of (o_id x) (sql_book s1) = trail_of (o_id x) (sql_book s)" using d(2) 8(8) by simp
    show "sc_order_version h < sc_order_version e" if "h \<in> set (trail_of (sc_order_id e) (sql_book s1))" for h
      using that tr book_okD(3) [OF 8(7,2)] e by (auto simp: trail_ok_def)
    show "1 < sc_order_version e" using book_okD(2) [OF 8(7,2)] e
      by (cases "o_status c") (auto simp: order_ok_def)
    show "sc_event_id e \<notin> sql_taken s1" using 8(6) e d(3,4) 8(8) by (simp add: sql_taken_def)
    show "sc_order_id e \<in> fst ` set (t_orders s1)" using d(5) e 8(8) by simp
  qed (use 8(9,10) e in \<open>simp_all add: sql_storable_def\<close>)
  then show ?case using s1 e by (simp add: sql_save_transition_event andThen_def check_def)
next
  case (9 s ev now k t tm cid y s')
  from sql_claim_Some [OF 9(1,4) 9(2) [unfolded sql_repository_simps]] show ?case by blast
next
  case (10 s ev now k t tmo cid s')
  show ?case by (rule sql_claim_None [OF 10(1) 10(2) [unfolded sql_repository_simps]])
next
  case (11 s scope fp)
  show ?case
  proof (cases "map_of (t_idempotency s) scope")
    case (Some r)
    from sql_reply_ok [OF 11 Some] obtain fp' x snap where "reply_of_row r = Some (fp', x)"
      "dict_get (ir_response r) ''request_fingerprint'' = Some (JStr fp')"
      "dict_get (ir_response r) ''response'' = Some (JObj snap)" "domain_from_snapshot snap = Inr x" by blast
    with Some show ?thesis by (simp add: sql_idempotent_order_def)
  qed (simp add: sql_idempotent_order_def)
next
  case (12 s scope x now fp s')
  then have "map_of (t_idempotency s) scope = None"
    using sql_reply_ok [OF 12(1), of scope] by (cases "map_of (t_idempotency s) scope") fastforce+
  with 12 sql_remember_done [of s scope x now fp s'] show ?case by simp
next
  case (13 s scope now fp x)
  then have "map_of (t_idempotency s) scope = None"
    using sql_reply_ok [OF 13(1), of scope] by (cases "map_of (t_idempotency s) scope") fastforce+
  with 13 show ?case by (simp add: sql_remember_idempotency_def insert_idempotency_row_def sql_fits_def)
next
  case (14 s created s')
  let ?r = "\<lparr> ob_id = oc_event_id created, ob_event_type = ''order.created'',
         ob_payload = created_integration_payload created, ob_legacy_processed_at = None,
         ob_created_at = oc_occurred_at created, ob_published_at = None \<rparr>"
  have n: "map_of (t_outbox s) (oc_event_id created) = None"
    and s': "s' = s \<lparr> t_outbox := dict_set (oc_event_id created) ?r (t_outbox s) \<rparr>"
    using 14(3) by (auto simp: sql_record_created_event_def insert_outbox_row_def split: if_splits)
  have "row_order s' = row_order s" by (rule ext, rule row_order_cong) (simp add: s')
  with 14(1) n show ?case
    by (auto simp: s' sql_ok_def sql_taken_def dom_update sql_book_def put_message_def dict_get_None_new)
next
  case (15 s created)
  then show ?case
    by (auto simp: sql_record_created_event_def insert_outbox_row_def sql_taken_def map_of_eq_None_iff)
qed

end
