(* ===== verification/Sql_Properties.thy ===== *)
theory Sql_Properties
  imports Sql_Orders
begin

text \<open>
  Properties of the SQL adapter: the guarantees of the use cases through the
  interpretation \<open>sql\<close>, the agreement of the two adapters, and two places where the
  tables make the SQL adapter behave differently from the in-memory one.
\<close>

lemma sql_ok_empty: "sql_ok empty_tables"
  by (simp add: sql_ok_def empty_tables_def)

lemma sql_book_empty: "sql_book empty_tables = empty_book"
  by (simp add: sql_book_def empty_tables_def empty_book_def fun_eq_iff)

abbreviation sql_run :: "order_tables \<Rightarrow> order_tables \<Rightarrow> bool" where
  "sql_run \<equiv> (use_case (sql_repository (\<lambda>_. False)) sql_taken)\<^sup>*\<^sup>*"

lemma sql_run_book:
  assumes "sql_run empty_tables db"
  shows "sql_ok db" "book_ok (sql_book db)"
  using sql.use_cases_book [OF assms sql_ok_empty] by (auto simp: sql_book_empty book_ok_empty)

text \<open>
  C7. The SQL adapter keeps the same audit guarantee as the in-memory one: after any
  sequence of committed use cases on empty tables, every order row is well formed, its rows
  of \<open>order_transition_history\<close> replay through the state machine to its status with
  increasing versions, at most three of them, and the outbox holds exactly their messages
  among its status messages.
\<close>

theorem sql_history_consistent:
  assumes "sql_run empty_tables db" "sql_get i db = (Inr (Some x), db)"
    and "es = filter (\<lambda>e. sc_order_id e = i) (map (history_event \<circ> snd) (t_history db))"
  shows "o_id x = i \<and> order_ok x \<and> replay CREATED es = Some (o_status x) \<and> length es \<le> 3
    \<and> sorted_wrt (<) (map sc_order_version es)
    \<and> filter is_status_message (map (ob_payload \<circ> snd) (t_outbox db))
        = map (status_integration_payload \<circ> history_event \<circ> snd) (t_history db)"
proof -
  note ok = sql_run_book [OF assms(1)]
  have x: "view (sql_book db) i = Some x"
    using assms(2) sql.get_law [OF ok(1), of i] by simp
  have es: "trail_of i (sql_book db) = es" using assms(3) by (simp add: trail_of_def)
  note tr = book_okD [OF ok(2) x, unfolded es trail_ok_def]
  moreover have "length es \<le> 3" using replay_length [of CREATED es] tr(3) by fastforce
  moreover have "filter is_status_message (map (ob_payload \<circ> snd) (t_outbox db))
      = map (status_integration_payload \<circ> history_event \<circ> snd) (t_history db)"
    using ok(2) by (simp add: book_ok_def comp_assoc)
  ultimately show ?thesis by simp
qed

definition demo_draws :: draws where
  "demo_draws = \<lparr> d_order_id = 1, d_event_id = 1001, d_clock = 5, d_now = 5 \<rparr>"

definition demo_command :: CreateOrderCommand where
  "demo_command = \<lparr> cc_customer_id = 7, cc_pickup_address = ''Lenina 1'',
     cc_destination_address = ''Mira 2'', cc_weight_grams = 500 \<rparr>"

definition demo_order :: DeliveryOrder where
  "demo_order = \<lparr> o_id = 1, o_tenant_id = DEFAULT_TENANT_ID, o_customer_id = 7,
     o_pickup_address = ''Lenina 1'', o_destination_address = ''Mira 2'', o_weight_grams = 500,
     o_status = CREATED, o_courier_id = None, o_version = 1, o_created_at = 5 \<rparr>"

lemma demo_create:
  "order_create (d_order_id demo_draws) (d_now demo_draws) (cc_customer_id demo_command) DEFAULT_TENANT_ID
     (cc_pickup_address demo_command) (cc_destination_address demo_command) (cc_weight_grams demo_command)
     (Some (d_clock demo_draws)) = Inr demo_order"
  by (simp add: order_create_def demo_draws_def demo_command_def demo_order_def)

lemma demo_run:
  "\<exists>db. service_create (sql_repository (\<lambda>_. False)) demo_draws demo_command None DEFAULT_TENANT_ID empty_tables
       = (Inr demo_order, db) \<and> sql_run empty_tables db \<and> sql_get 1 db = (Inr (Some demo_order), db)"
proof -
  let ?s = "service_create (sql_repository (\<lambda>_. False)) demo_draws demo_command None DEFAULT_TENANT_ID empty_tables"
  have v: "view (sql_book empty_tables) (d_order_id demo_draws) = None" by (simp add: empty_tables_def)
  have ev: "d_event_id demo_draws \<notin> sql_taken empty_tables" by (simp add: empty_tables_def sql_taken_def)
  have "sql_storable demo_order" by (simp add: sql_storable_def demo_order_def)
  from sql.place_order_accepted [OF sql_ok_empty _ v ev _ demo_create this, of None]
  have "fst ?s = Inr demo_order" by (simp add: sql.service_create_unkeyed sql_book_empty book_ok_empty)
  then obtain db where db: "?s = (Inr demo_order, db)" by (metis prod.collapse)
  have tm: "valid_datetime (d_clock demo_draws)" by (simp add: valid_datetime_def demo_draws_def)
  have "use_case (sql_repository (\<lambda>_. False)) sql_taken empty_tables db"
    by (rule use_case.create [OF db]) (use ev tm in \<open>simp_all add: sql_get_def empty_tables_def\<close>)
  then have run: "sql_run empty_tables db" by blast
  have "place_order (sql_repository (\<lambda>_. False)) demo_draws demo_command DEFAULT_TENANT_ID None empty_tables
      = (Inr demo_order, db)" using db by (simp add: sql.service_create_unkeyed)
  from sql.place_order_done [OF sql_ok_empty _ v ev tm _ this]
  have "sql_ok db" "view (sql_book db) 1 = Some demo_order"
    by (auto simp: sql_book_empty book_ok_empty demo_order_def simp del: sql_book_simps)
  with sql.get_law [of db 1] have "sql_get 1 db = (Inr (Some demo_order), db)" by simp
  with db run show ?thesis by blast
qed

theorem sql_history_consistent_witness:
  "\<exists>db es. sql_run empty_tables db \<and> sql_get 1 db = (Inr (Some demo_order), db)
     \<and> replay CREATED es = Some CREATED \<and> length es \<le> 3"
proof -
  from demo_run obtain db where db: "sql_run empty_tables db" "sql_get 1 db = (Inr (Some demo_order), db)"
    by blast
  have "o_status demo_order = CREATED" by (simp add: demo_order_def)
  with sql_history_consistent [OF db refl] db show ?thesis by metis
qed

section \<open>The two adapters agree\<close>

lemma transitions_agree:
  assumes "mem_ok s" "sql_ok db" "mem_book s = sql_book db" "book_ok (mem_book s)" "d_event_id d \<notin> sql_taken db"
    and t: "service_transition in_memory_repository d i k s = (Inr y, s')"
      "service_transition (sql_repository (\<lambda>_. False)) d i k db = (Inr y', db')"
  shows "y = y'" "mem_book s' = sql_book db'"
proof -
  obtain c ev where c: "view (mem_book s) i = Some c" "order_transition c (tc_target k) = Inr y"
    "from_transition (d_event_id d) c y (tc_actor_id k) (tc_actor_role k) (d_clock d) (tc_correlation_id k) = Inr ev"
    "mem_book s' = put_event ev (put_order y (mem_book s))"
    using mem.service_transition_done [OF assms(1,4) _ t(1)] by blast
  obtain c' ev' where c': "view (sql_book db) i = Some c'" "order_transition c' (tc_target k) = Inr y'"
    "from_transition (d_event_id d) c' y' (tc_actor_id k) (tc_actor_role k) (d_clock d) (tc_correlation_id k) = Inr ev'"
    "sql_book db' = put_event ev' (put_order y' (sql_book db))"
    using sql.service_transition_done [OF assms(2) _ assms(5) t(2)] assms(3,4) by auto
  have "c' = c" using c(1) c'(1) by (simp only: assms(3) option.inject)
  with c c' show "y = y'" "mem_book s' = sql_book db'" using assms(3) by simp_all
qed

lemma updates_agree:
  assumes "mem_ok s" "sql_ok db" "mem_book s = sql_book db" "book_ok (mem_book s)"
    and t: "service_update in_memory_repository i u v s = (Inr z, s1)"
      "service_update (sql_repository (\<lambda>_. False)) i u v db = (Inr z', db1)"
  shows "z = z'" "mem_book s1 = sql_book db1"
proof -
  obtain c where c: "view (mem_book s) i = Some c" "update_details c (command_changes u) = Inr z"
    "mem_book s1 = put_order z (mem_book s)"
    using mem.service_update_done [OF assms(1,4) t(1)] by blast
  obtain c' where c': "view (sql_book db) i = Some c'" "update_details c' (command_changes u) = Inr z'"
    "sql_book db1 = put_order z' (sql_book db)"
    using sql.service_update_done [OF assms(2) _ t(2)] assms(3,4) by auto
  have "c' = c" using c(1) c'(1) by (simp only: assms(3) option.inject)
  with c c' show "z = z'" "mem_book s1 = sql_book db1" using assms(3) by simp_all
qed

text \<open>
  What one adapter answers the other answers too: a change the in-memory adapter makes, with
  columns wide enough for it, is made in the tables, and every change the tables take is
  made in memory.
\<close>

lemma sql_follows_transition:
  assumes "mem_ok s" "sql_ok db" "mem_book s = sql_book db" "book_ok (mem_book s)" "d_event_id d \<notin> sql_taken db"
    "service_transition in_memory_repository d i k s = (Inr y, s')" "sql_storable y"
    "length (tc_actor_role k) \<le> 32" "length (tc_correlation_id k) \<le> 128"
  shows "\<exists>db'. service_transition (sql_repository (\<lambda>_. False)) d i k db = (Inr y, db')"
proof -
  obtain c e where c: "view (mem_book s) i = Some c" "o_version c = tc_expected_version k"
    "order_transition c (tc_target k) = Inr y"
    "from_transition (d_event_id d) c y (tc_actor_id k) (tc_actor_role k) (d_clock d) (tc_correlation_id k) = Inr e"
    using mem.service_transition_done [OF assms(1,4) _ assms(6)] by blast
  have y: "y = c \<lparr> o_status := tc_target k, o_version := o_version c + 1 \<rparr>" "allows (o_status c) (tc_target k)"
    using c(3) by (auto simp: order_transition_Inr)
  have "sql_fits_event e" using c(4) assms(8,9) by (auto simp: from_transition_Inr sql_fits_event_def)
  from sql.service_transition_accepted [OF assms(2) _ assms(5) _ c(2) y(1) c(4) y(2) assms(7) this] c(1) assms(3,4)
  have "fst (service_transition (sql_repository (\<lambda>_. False)) d i k db) = Inr y" by simp
  then show ?thesis by (metis prod.collapse)
qed

lemma sql_follows_update:
  assumes "mem_ok s" "sql_ok db" "mem_book s = sql_book db" "book_ok (mem_book s)"
    "service_update in_memory_repository i u v s = (Inr y, s')" "sql_storable y"
  shows "\<exists>db'. service_update (sql_repository (\<lambda>_. False)) i u v db = (Inr y, db')"
proof -
  obtain c where c: "view (mem_book s) i = Some c" "o_version c = v" "update_details c (command_changes u) = Inr y"
    using mem.service_update_done [OF assms(1,4,5)] by blast
  from sql.service_update_accepted [OF assms(2) _ _ c(2,3) assms(6)] c(1) assms(3,4)
  have "fst (service_update (sql_repository (\<lambda>_. False)) i u v db) = Inr y" by simp
  then show ?thesis by (metis prod.collapse)
qed

lemma mem_refusal:
  assumes "mem_ok s" "book_ok (mem_book s)"
  shows "service_transition in_memory_repository d i k s = (Inl e, s') \<Longrightarrow>
      transition_refusal (mem_book s) i k = Some e \<and> s' = s"
    "service_update in_memory_repository i u v s = (Inl e, s') \<Longrightarrow>
      update_refusal (mem_book s) i u v = Some e \<and> s' = s"
proof -
  assume t: "service_transition in_memory_repository d i k s = (Inl e, s')"
  show "transition_refusal (mem_book s) i k = Some e \<and> s' = s"
    using mem.service_refusals(1) [OF assms(1), of i k] mem.service_accepts(1) [OF assms, of i k d] t
    by (cases "transition_refusal (mem_book s) i k") (auto simp del: mem_book_simps)
next
  assume t: "service_update in_memory_repository i u v s = (Inl e, s')"
  show "update_refusal (mem_book s) i u v = Some e \<and> s' = s"
    using mem.service_refusals(2) [OF assms(1), of i u v] mem.service_accepts(2) [OF assms, of i u v] t
    by (cases "update_refusal (mem_book s) i u v") (auto simp del: mem_book_simps)
qed

lemma mem_follows_transition:
  assumes "mem_ok s" "sql_ok db" "mem_book s = sql_book db" "book_ok (mem_book s)"
    "service_transition (sql_repository (\<lambda>_. False)) d i k db = (Inr y, db')"
  shows "\<exists>z s'. service_transition in_memory_repository d i k s = (Inr z, s')"
proof (cases "service_transition in_memory_repository d i k s")
  case (Pair r s')
  with mem_refusal(1) [OF assms(1,4)] sql.service_refusals(1) [OF assms(2)] assms(3,5)
  show ?thesis by (cases r) fastforce+
qed

lemma mem_follows_update:
  assumes "mem_ok s" "sql_ok db" "mem_book s = sql_book db" "book_ok (mem_book s)"
    "service_update (sql_repository (\<lambda>_. False)) i u v db = (Inr y, db')"
  shows "\<exists>z s'. service_update in_memory_repository i u v s = (Inr z, s')"
proof (cases "service_update in_memory_repository i u v s")
  case (Pair r s')
  with mem_refusal(2) [OF assms(1,4)] sql.service_refusals(2) [OF assms(2)] assms(3,5)
  show ?thesis by (cases r) fastforce+
qed

text \<open>
  C9. Equivalence of the adapters on stores that hold the same orders, history, messages and
  replies. A transition or an update that the in-memory adapter makes is made by the SQL
  adapter too, with the same order as answer and the same book afterwards, when the order
  and the texts of the event fit their columns; every transition or update the SQL adapter
  makes is made by the in-memory adapter with the same answer and book, without any such
  condition; and every refusal of the in-memory adapter (unknown order, stale version,
  forbidden transition, invalid details) is the same exception of the SQL adapter, with
  both stores unchanged.
\<close>

theorem adapters_agree:
  assumes "mem_ok s" "sql_ok db" "mem_book s = sql_book db" "book_ok (mem_book s)"
    "d_event_id d \<notin> sql_taken db"
  shows "(\<forall>y s'. service_transition in_memory_repository d i k s = (Inr y, s') \<and> sql_storable y
          \<and> length (tc_actor_role k) \<le> 32 \<and> length (tc_correlation_id k) \<le> 128
        \<longrightarrow> (\<exists>db'. service_transition (sql_repository (\<lambda>_. False)) d i k db = (Inr y, db') \<and> mem_book s' = sql_book db'))
    \<and> (\<forall>y db'. service_transition (sql_repository (\<lambda>_. False)) d i k db = (Inr y, db')
        \<longrightarrow> (\<exists>s'. service_transition in_memory_repository d i k s = (Inr y, s') \<and> mem_book s' = sql_book db'))
    \<and> (\<forall>e s'. service_transition in_memory_repository d i k s = (Inl e, s')
        \<longrightarrow> service_transition (sql_repository (\<lambda>_. False)) d i k db = (Inl e, db) \<and> s' = s)
    \<and> (\<forall>y s'. service_update in_memory_repository i u v s = (Inr y, s') \<and> sql_storable y
        \<longrightarrow> (\<exists>db'. service_update (sql_repository (\<lambda>_. False)) i u v db = (Inr y, db') \<and> mem_book s' = sql_book db'))
    \<and> (\<forall>y db'. service_update (sql_repository (\<lambda>_. False)) i u v db = (Inr y, db')
        \<longrightarrow> (\<exists>s'. service_update in_memory_repository i u v s = (Inr y, s') \<and> mem_book s' = sql_book db'))
    \<and> (\<forall>e s'. service_update in_memory_repository i u v s = (Inl e, s')
        \<longrightarrow> service_update (sql_repository (\<lambda>_. False)) i u v db = (Inl e, db) \<and> s' = s)"
proof (intro conjI allI impI; (elim conjE)?)
  fix y s' assume t: "service_transition in_memory_repository d i k s = (Inr y, s')" "sql_storable y"
    "length (tc_actor_role k) \<le> 32" "length (tc_correlation_id k) \<le> 128"
  from sql_follows_transition [OF assms t] transitions_agree [OF assms t(1)]
  show "\<exists>db'. service_transition (sql_repository (\<lambda>_. False)) d i k db = (Inr y, db') \<and> mem_book s' = sql_book db'"
    by blast
next
  fix y db' assume t: "service_transition (sql_repository (\<lambda>_. False)) d i k db = (Inr y, db')"
  from mem_follows_transition [OF assms(1-4) t] transitions_agree [OF assms _ t]
  show "\<exists>s'. service_transition in_memory_repository d i k s = (Inr y, s') \<and> mem_book s' = sql_book db'" by blast
next
  fix y s' assume t: "service_update in_memory_repository i u v s = (Inr y, s')" "sql_storable y"
  from sql_follows_update [OF assms(1-4) t] updates_agree [OF assms(1-4) t(1)]
  show "\<exists>db'. service_update (sql_repository (\<lambda>_. False)) i u v db = (Inr y, db') \<and> mem_book s' = sql_book db'"
    by blast
next
  fix y db' assume t: "service_update (sql_repository (\<lambda>_. False)) i u v db = (Inr y, db')"
  from mem_follows_update [OF assms(1-4) t] updates_agree [OF assms(1-4) _ t]
  show "\<exists>s'. service_update in_memory_repository i u v s = (Inr y, s') \<and> mem_book s' = sql_book db'" by blast
qed (use mem_refusal [OF assms(1,4)] sql.service_refusals [OF assms(2)] assms(3) in auto)

lemma empty_adapters:
  "mem_ok empty_store" "mem_book empty_store = sql_book empty_tables" "book_ok (mem_book empty_store)"
  "d_event_id demo_draws \<notin> sql_taken empty_tables"
  by (simp_all add: mem_ok_def empty_store_def sql_book_empty mem_book_def empty_book_def book_ok_def
      trail_of_def demo_draws_def sql_taken_def empty_tables_def)

text \<open>The same order placed through both adapters.\<close>

lemma demo_stores:
  "\<exists>s db. mem_ok s \<and> sql_ok db \<and> mem_book s = sql_book db \<and> book_ok (mem_book s) \<and> sql_run empty_tables db
     \<and> view (mem_book s) 1 = Some demo_order \<and> sql_taken db \<subseteq> {1001}"
proof -
  from demo_run obtain db where db: "sql_run empty_tables db"
    "service_create (sql_repository (\<lambda>_. False)) demo_draws demo_command None DEFAULT_TENANT_ID empty_tables = (Inr demo_order, db)"
    by blast
  let ?m = "service_create in_memory_repository demo_draws demo_command None DEFAULT_TENANT_ID empty_store"
  have m0: "mem_ok empty_store" "mem_book empty_store = empty_book"
    using empty_adapters(1,2) by (simp_all only: sql_book_empty)
  have fresh: "view empty_book (d_order_id demo_draws) = None" "valid_datetime (d_clock demo_draws)"
    by (simp_all add: empty_book_def valid_datetime_def demo_draws_def)
  have "fst ?m = Inr demo_order"
    using mem.place_order_accepted [OF m0(1) _ _ _ _ demo_create, of None] m0(2) fresh(1)
    by (simp add: mem.service_create_unkeyed book_ok_empty del: mem_book_simps)
  then obtain s where s: "?m = (Inr demo_order, s)" by (metis prod.collapse)
  from mem.place_order_done [OF m0(1) _ _ _ fresh(2), of None demo_command DEFAULT_TENANT_ID demo_order s]
  have ms: "mem_ok s" "mem_book s = put_message (created_integration_payload (created_from_order 1001 demo_order))
      (put_order demo_order empty_book)"
    using s m0(2) fresh(1)
    by (simp_all add: mem.service_create_unkeyed book_ok_empty demo_draws_def del: mem_book_simps)
  have ev: "d_event_id demo_draws \<notin> sql_taken empty_tables" "sql_taken empty_tables = {}"
    by (simp_all add: empty_tables_def sql_taken_def)
  from sql.place_order_done [OF sql_ok_empty _ _ ev(1) fresh(2), of None demo_command DEFAULT_TENANT_ID demo_order db]
  have ds: "sql_ok db" "sql_taken db \<subseteq> {1001}"
    "sql_book db = put_message (created_integration_payload (created_from_order 1001 demo_order))
      (put_order demo_order empty_book)"
    using db(2) fresh(1) ev(2)
    by (simp_all add: sql.service_create_unkeyed book_ok_empty sql_book_empty demo_draws_def del: sql_book_simps)
  have "view (mem_book s) 1 = Some demo_order" by (simp add: ms(2) demo_order_def del: mem_book_simps)
  with ms ds db(1) sql_run_book(2) [OF db(1)] show ?thesis by metis
qed

theorem adapters_agree_witness:
  "\<exists>s db s' db'. mem_book s = sql_book db \<and> mem_book s' = sql_book db' \<and> mem_book s' \<noteq> mem_book s
     \<and> service_transition in_memory_repository (demo_draws \<lparr> d_event_id := 1002 \<rparr>) 1
         \<lparr> tc_target = CANCELLED, tc_expected_version = 1, tc_actor_id = 7, tc_actor_role = ''customer'',
           tc_correlation_id = ''demo'' \<rparr> s
       = (Inr (demo_order \<lparr> o_status := CANCELLED, o_version := 2 \<rparr>), s')
     \<and> service_transition (sql_repository (\<lambda>_. False)) (demo_draws \<lparr> d_event_id := 1002 \<rparr>) 1
         \<lparr> tc_target = CANCELLED, tc_expected_version = 1, tc_actor_id = 7, tc_actor_role = ''customer'',
           tc_correlation_id = ''demo'' \<rparr> db
       = (Inr (demo_order \<lparr> o_status := CANCELLED, o_version := 2 \<rparr>), db')
     \<and> service_update (sql_repository (\<lambda>_. False)) 1
         \<lparr> uc_pickup_address = Some ''Lenina 3'', uc_destination_address = None, uc_weight_grams = None \<rparr> 9 db
       = (Inl (ConcurrentUpdate ''optimistic version conflict''), db)"
proof -
  let ?d = "demo_draws \<lparr> d_event_id := 1002 \<rparr>"
  let ?k = "\<lparr> tc_target = CANCELLED, tc_expected_version = 1, tc_actor_id = 7, tc_actor_role = ''customer'',
           tc_correlation_id = ''demo'' \<rparr>"
  let ?u = "\<lparr> uc_pickup_address = Some ''Lenina 3'', uc_destination_address = None, uc_weight_grams = None \<rparr>"
  let ?y = "demo_order \<lparr> o_status := CANCELLED, o_version := 2 \<rparr>"
  from demo_stores obtain s db where st: "mem_ok s" "sql_ok db" "mem_book s = sql_book db" "book_ok (mem_book s)"
    "view (mem_book s) 1 = Some demo_order" "sql_taken db \<subseteq> {1001}" by blast
  have ev: "d_event_id ?d \<notin> sql_taken db" using st(6) by auto
  obtain e where "from_transition (d_event_id ?d) demo_order ?y 7 ''customer'' (d_clock ?d) ''demo'' = Inr e"
    by (simp add: from_transition_def demo_order_def)
  then have "fst (service_transition in_memory_repository ?d 1 ?k s) = Inr ?y"
    using mem.service_transition_accepted [OF st(1,4) _ st(5), of ?d ?k ?y e]
    by (simp add: demo_order_def del: mem_book_simps)
  then obtain s' where s': "service_transition in_memory_repository ?d 1 ?k s = (Inr ?y, s')" by (metis prod.collapse)
  note agree = adapters_agree [OF st(1-4) ev, of 1 ?k ?u 9]
  have "sql_storable ?y" "length (tc_actor_role ?k) \<le> 32" "length (tc_correlation_id ?k) \<le> 128"
    by (simp_all add: sql_storable_def demo_order_def)
  with s' conjunct1 [OF agree] obtain db' where
    db': "service_transition (sql_repository (\<lambda>_. False)) ?d 1 ?k db = (Inr ?y, db')" "mem_book s' = sql_book db'"
    by blast
  from mem.service_transition_done [OF st(1,4) _ s'] obtain e' where
    "mem_book s' = put_event e' (put_order ?y (mem_book s))" by blast
  then have "trail (mem_book s') = trail (mem_book s) @ [e']" by (simp only: trail_put)
  then have "mem_book s' \<noteq> mem_book s" by (metis append_self_conv list.distinct(1))
  moreover have "service_update in_memory_repository 1 ?u 9 s = (Inl (ConcurrentUpdate ''optimistic version conflict''), s)"
    by (rule mem.service_update_refused(2) [OF st(1,5)]) (simp add: demo_order_def)
  ultimately show ?thesis using agree s' db' st(3) by blast
qed

section \<open>Where the tables differ from the in-memory store\<close>

text \<open>An assignment row of a courier is active from the claim on and no operation clears it.\<close>

lemma active_courier_row:
  "active_courier db i = Some k \<Longrightarrow> \<exists>a. a \<in> set (t_assignments db) \<and> as_active a \<and> as_courier_id a = k"
  by (auto simp: active_courier_def find_Some_iff) (metis filter_is_subset nth_mem subset_iff)

lemma insert_assignment_blocked:
  "active_courier db i = Some k \<Longrightarrow> t_assignments db1 = t_assignments db \<Longrightarrow>
   insert_assignment_row \<lparr> as_order_id = j, as_courier_id = k, as_active = True \<rparr> db1 \<noteq> (Inr u, db2)"
  using active_courier_row [of db i k] by (auto simp: insert_assignment_row_def list_ex_iff)

lemma claim_rows_blocked:
  assumes "active_courier db i = Some k"
  shows "claim_rows row k e db \<noteq> (Inr u, db')"
  using insert_assignment_blocked [OF assms]
  by (auto simp: claim_rows_def update_order_row_def split: option.splits)

lemma sql_claim_blocked:
  assumes "active_courier db i = Some k"
  shows "fst (sql_claim_next_created_order locked ev now k t tmo cid db) \<noteq> Inr (Some y)"
  using claim_rows_blocked [OF assms]
  by (auto simp: sql_claim_cases split: list.splits prod.splits sum.splits exn.splits)

lemma courier_is_final:
  assumes "order_evolves\<^sup>*\<^sup>* x y" "o_status x \<noteq> CREATED"
  shows "o_status y \<noteq> CREATED \<and> o_courier_id y = o_courier_id x"
  using assms
  by (induction rule: rtranclp_induct)
    (auto elim!: order_evolves.cases simp: order_transition_Inr order_assign_Inr dest: update_details_Inr allows_not_created)

text \<open>Once a courier has an order its assignment row stays active, whatever becomes of the order.\<close>

lemma assigned_row_stays:
  assumes "sql_ok db" "book_ok (sql_book db)" "view (sql_book db) i = Some x" "o_status x \<noteq> CREATED"
    "o_courier_id x = Some k" "sql_run db db'"
  shows "\<exists>z. sql_get i db' = (Inr (Some z), db') \<and> o_courier_id z = Some k \<and> active_courier db' i = Some k"
proof -
  note later = sql.use_cases_book [OF assms(6,1,2)]
  with assms(3) obtain z where z: "view (sql_book db') i = Some z" "order_evolves\<^sup>*\<^sup>* x z"
    unfolding book_extends_def by blast
  have k: "o_courier_id z = Some k" using courier_is_final [OF z(2) assms(4)] assms(5) by simp
  have "sql_get i db' = (Inr (Some z), db')" using sql.get_law [of db' i] later z(1) by simp
  moreover from z(1) obtain r where r: "map_of (t_orders db') i = Some r" "z = row_order db' r" by auto
  have "active_courier db' i = Some k"
    using k r row_order_simps(8) [OF sql_ok_row(2) [OF _ r(1)], of db'] sql_ok_row(1) [OF _ r(1)] later by simp
  ultimately show ?thesis using k by blast
qed

lemma courier_got_order:
  assumes "sql_ok db" "book_ok (sql_book db)" "d_event_id d \<notin> sql_taken db"
    "service_claim_next (sql_repository (\<lambda>_. False)) d k t cid db = (Inr (Some y), db1)
     \<or> service_assign (sql_repository (\<lambda>_. False)) d i k db = (Inr y, db1)"
  shows "sql_ok db1 \<and> book_ok (sql_book db1) \<and> view (sql_book db1) (o_id y) = Some y
    \<and> o_status y = ASSIGNED \<and> o_courier_id y = Some k"
proof -
  let ?R = "sql_repository (\<lambda>_. False)"
  have step: "use_case ?R sql_taken db db1" using assms(3,4) use_case.claim use_case.assign by metis
  have "\<exists>c e. order_assign c k = Inr y \<and> sql_book db1 = put_event e (put_order y (sql_book db))"
    using assms(4)
  proof
    assume "service_claim_next ?R d k t cid db = (Inr (Some y), db1)"
    from sql.claim_law [OF assms(1) this [unfolded service_claim_next_def] assms(3,2)] show ?thesis by blast
  next
    assume "service_assign ?R d i k db = (Inr y, db1)"
    from sql.service_assign_done [OF assms(1-3) this] show ?thesis by blast
  qed
  then show ?thesis
    using sql.use_case_book [OF step assms(1,2)] by (auto simp: order_assign_Inr simp del: sql_book_simps)
qed

text \<open>
  C16. A courier who once received an order through the SQL adapter, by a claim or by an
  assignment, can never claim another one: in every state reached later, also after the
  order was delivered or cancelled, \<open>claim_next\<close> of that courier returns no order, because
  no operation ends the active assignment. The in-memory adapter, on the same book, assigns
  a waiting order as soon as the courier's own orders are delivered or cancelled.
\<close>

theorem delivered_courier_blocked_in_sql:
  assumes "sql_run empty_tables db" "d_event_id d0 \<notin> sql_taken db"
    "service_claim_next (sql_repository (\<lambda>_. False)) d0 k t0 cid0 db = (Inr (Some x), db1)
     \<or> service_assign (sql_repository (\<lambda>_. False)) d0 i k db = (Inr x, db1)"
    "sql_run db1 db'"
  shows "fst (service_claim_next (sql_repository locked) d k t cid db') \<noteq> Inr (Some y)
    \<and> (\<exists>z. sql_get (o_id x) db' = (Inr (Some z), db') \<and> o_courier_id z = Some k)
    \<and> (mem_ok s \<and> mem_book s = sql_book db'
        \<and> (\<forall>j z. mem_get j s = (Inr (Some z), s) \<and> o_courier_id z = Some k \<longrightarrow> o_status z \<in> {DELIVERED, CANCELLED})
        \<and> mem_get n s = (Inr (Some w), s) \<and> o_tenant_id w = t \<and> o_status w = CREATED
       \<longrightarrow> (\<exists>y. fst (service_claim_next in_memory_repository d k t cid s) = Inr (Some y)))"
proof (intro conjI impI; (elim conjE)?)
  have "sql_ok db1 \<and> book_ok (sql_book db1) \<and> view (sql_book db1) (o_id x) = Some x
    \<and> o_status x = ASSIGNED \<and> o_courier_id x = Some k"
    by (rule courier_got_order [OF sql_run_book [OF assms(1)] assms(2,3)])
  then have *: "\<exists>z. sql_get (o_id x) db' = (Inr (Some z), db') \<and> o_courier_id z = Some k \<and> active_courier db' (o_id x) = Some k"
    using assigned_row_stays [OF _ _ _ _ _ assms(4), of "o_id x" x k] by simp
  then show "\<exists>z. sql_get (o_id x) db' = (Inr (Some z), db') \<and> o_courier_id z = Some k" by blast
  from * show "fst (service_claim_next (sql_repository locked) d k t cid db') \<noteq> Inr (Some y)"
    using sql_claim_blocked by (auto simp: service_claim_next_def sql_repository_def)
next
  assume m: "mem_ok s" "\<forall>j z. mem_get j s = (Inr (Some z), s) \<and> o_courier_id z = Some k \<longrightarrow> o_status z \<in> {DELIVERED, CANCELLED}"
    and w: "mem_get n s = (Inr (Some w), s)" "o_tenant_id w = t" "o_status w = CREATED"
  have "\<not> list_ex (courier_busy t k) (values_of (orders s))"
    using m mem_ok_value [OF m(1)] by (fastforce simp: list_ex_iff courier_busy_def mem_get_def)
  moreover have "claim_candidates t (values_of (orders s)) \<noteq> []"
    using w map_of_SomeD [of "orders s" n w] by (force simp: claim_candidates_def filter_empty_conv mem_get_def)
  ultimately show "\<exists>y. fst (service_claim_next in_memory_repository d k t cid s) = Inr (Some y)"
    by (cases "claim_candidates t (values_of (orders s))")
      (simp_all add: service_claim_next_def in_memory_repository_def mem_claim_cases [OF m(1)] Let_def)
qed

text \<open>
  A delivered order in the tables (created, assigned, picked up and delivered) and a second
  order that waits.
\<close>

definition demo_call :: "nat \<Rightarrow> (order_tables, DeliveryOrder) action" where
  "demo_call n =
     (let repo = sql_repository (\<lambda>_. False); draw = demo_draws \<lparr> d_event_id := 1001 + of_nat n \<rparr>;
          move = (\<lambda>st v. service_transition repo draw 1
            \<lparr> tc_target = st, tc_expected_version = v, tc_actor_id = 42, tc_actor_role = ''courier'',
              tc_correlation_id = ''demo'' \<rparr>)
      in if n = 0 then service_create repo draw demo_command None DEFAULT_TENANT_ID
         else if n = 1 then service_assign repo draw 1 42
         else if n = 2 then move PICKED_UP 2 else if n = 3 then move DELIVERED 3
         else service_create repo (draw \<lparr> d_order_id := 2 \<rparr>) demo_command None DEFAULT_TENANT_ID)"

fun demo_db :: "nat \<Rightarrow> order_tables" where
  "demo_db 0 = empty_tables"
| "demo_db (Suc n) = snd (demo_call n (demo_db n))"

lemmas sql_eval = service_create_def place_order_def order_create_def sql_add_def sql_record_created_event_def
  service_assign_def service_transition_def service_get_def sql_get_def sql_domain_def
  sql_save_transition_def sql_save_def update_order_row_def insert_order_row_def insert_outbox_row_def
  insert_assignment_row_def insert_history_row_def order_row_error_def int4_def status_texts_def
  history_row_def status_outbox_row_def from_transition_def created_from_order_def
  active_courier_def status_of_text_def order_assign_def order_transition_def
  ret_def andThen_def lift_result_def check_def raise_def demo_draws_def demo_command_def demo_order_def
  empty_tables_def demo_call_def Let_def

lemma demo_db_1: "demo_db 1 = snd (demo_call 0 empty_tables)"
  and demo_db_2: "demo_db 2 = snd (demo_call 1 (demo_db 1))"
  and demo_db_3: "demo_db 3 = snd (demo_call 2 (demo_db 2))"
  and demo_db_4: "demo_db 4 = snd (demo_call 3 (demo_db 3))"
  and demo_db_5: "demo_db 5 = snd (demo_call 4 (demo_db 4))"
  using demo_db.simps(2) [of 0] demo_db.simps(2) [of 1] demo_db.simps(2) [of 2] demo_db.simps(2) [of 3]
    demo_db.simps(2) [of 4]
  by (simp_all only: Suc_1 Suc_numeral semiring_norm demo_db.simps(1) One_nat_def [symmetric])

lemmas demo_dbs = demo_db_1 demo_db_2 demo_db_3 demo_db_4 demo_db_5

lemma demo_db_eval:
  "fst (demo_call 0 (demo_db 0)) = Inr demo_order"
  "fst (demo_call 1 (demo_db 1)) = Inr (demo_order \<lparr> o_status := ASSIGNED, o_version := 2, o_courier_id := Some 42 \<rparr>)"
  "fst (demo_call 2 (demo_db 2)) = Inr (demo_order \<lparr> o_status := PICKED_UP, o_version := 3, o_courier_id := Some 42 \<rparr>)"
  "fst (demo_call 3 (demo_db 3)) = Inr (demo_order \<lparr> o_status := DELIVERED, o_version := 4, o_courier_id := Some 42 \<rparr>)"
  "fst (demo_call 4 (demo_db 4)) = Inr (demo_order \<lparr> o_id := 2 \<rparr>)"
  by (simp_all add: sql_eval demo_dbs del: One_nat_def demo_db.simps(2))

lemma demo_db_claim:
  "sql_get 1 (demo_db 5)
   = (Inr (Some (demo_order \<lparr> o_status := DELIVERED, o_version := 4, o_courier_id := Some 42 \<rparr>)), demo_db 5)"
  "sql_get 2 (demo_db 5) = (Inr (Some (demo_order \<lparr> o_id := 2 \<rparr>)), demo_db 5)"
  by (simp_all add: sql_eval demo_dbs del: One_nat_def demo_db.simps(2))

lemma demo_db_taken: "1001 \<notin> sql_taken (demo_db 0)" "1002 \<notin> sql_taken (demo_db 1)"
    "1003 \<notin> sql_taken (demo_db 2)" "1004 \<notin> sql_taken (demo_db 3)" "1005 \<notin> sql_taken (demo_db 4)"
  by (simp_all add: sql_eval demo_dbs sql_taken_def del: One_nat_def demo_db.simps(2))

lemma demo_db_call:
  "demo_call 0 (demo_db 0) = (Inr demo_order, demo_db 1)"
  "demo_call 1 (demo_db 1) = (Inr (demo_order \<lparr> o_status := ASSIGNED, o_version := 2, o_courier_id := Some 42 \<rparr>), demo_db 2)"
  "demo_call 2 (demo_db 2) = (Inr (demo_order \<lparr> o_status := PICKED_UP, o_version := 3, o_courier_id := Some 42 \<rparr>), demo_db 3)"
  "demo_call 3 (demo_db 3) = (Inr (demo_order \<lparr> o_status := DELIVERED, o_version := 4, o_courier_id := Some 42 \<rparr>), demo_db 4)"
  "demo_call 4 (demo_db 4) = (Inr (demo_order \<lparr> o_id := 2 \<rparr>), demo_db 5)"
  using demo_db_eval by (simp_all add: prod_eq_iff demo_dbs del: demo_db.simps(2) One_nat_def)

lemma demo_db_runs: "sql_run empty_tables (demo_db 1)" "sql_run (demo_db 2) (demo_db 5)"
proof -
  let ?step = "use_case (sql_repository (\<lambda>_. False)) sql_taken"
  have "?step empty_tables (demo_db 1)"
    by (rule use_case.create [of _ "demo_draws \<lparr> d_event_id := 1001 \<rparr>" demo_command None DEFAULT_TENANT_ID])
      (use demo_db_call(1) demo_db_taken(1) in \<open>simp_all add: demo_call_def Let_def valid_datetime_def sql_get_def demo_draws_def empty_tables_def\<close>)
  then show "sql_run empty_tables (demo_db 1)" by blast
  have "?step (demo_db 2) (demo_db 3)"
    using demo_db_call(3) demo_db_taken(3)
    by (simp add: demo_call_def Let_def use_case.transition del: demo_db.simps)
  moreover have "?step (demo_db 3) (demo_db 4)"
    using demo_db_call(4) demo_db_taken(4)
    by (simp add: demo_call_def Let_def use_case.transition del: demo_db.simps)
  moreover have "fst (sql_get 2 (demo_db 4)) = Inr None"
    by (simp add: sql_eval demo_dbs del: One_nat_def demo_db.simps(2))
  then have "?step (demo_db 4) (demo_db 5)"
    by (intro use_case.create [of _ "demo_draws \<lparr> d_event_id := 1005, d_order_id := 2 \<rparr>" demo_command None DEFAULT_TENANT_ID])
      (use demo_db_call(5) demo_db_taken(5) in \<open>simp_all add: demo_call_def Let_def valid_datetime_def demo_draws_def del: demo_db.simps\<close>)
  ultimately show "sql_run (demo_db 2) (demo_db 5)" by (metis rtranclp.simps)
qed

theorem delivered_courier_blocked_in_sql_witness:
  "\<exists>db. sql_get 1 db = (Inr (Some (demo_order \<lparr> o_status := DELIVERED, o_version := 4, o_courier_id := Some 42 \<rparr>)), db)
     \<and> sql_get 2 db = (Inr (Some (demo_order \<lparr> o_id := 2 \<rparr>)), db)
     \<and> (\<forall>d cid y. fst (service_claim_next (sql_repository (\<lambda>_. False)) d 42 DEFAULT_TENANT_ID cid db) \<noteq> Inr (Some y))"
proof -
  have "service_assign (sql_repository (\<lambda>_. False)) (demo_draws \<lparr> d_event_id := 1002 \<rparr>) 1 42 (demo_db 1)
      = (Inr (demo_order \<lparr> o_status := ASSIGNED, o_version := 2, o_courier_id := Some 42 \<rparr>), demo_db 2)"
    using demo_db_call(2) by (simp add: demo_call_def Let_def del: demo_db.simps)
  moreover have "d_event_id (demo_draws \<lparr> d_event_id := 1002 \<rparr>) \<notin> sql_taken (demo_db 1)"
    using demo_db_taken(2) by simp
  ultimately show ?thesis
    using delivered_courier_blocked_in_sql [OF demo_db_runs(1) _ disjI2 demo_db_runs(2)] demo_db_claim by metis
qed

lemma place_order_keyed:
  "place_order repo d k t (Some (sc, fp)) s =
     andThen (place_order repo d k t None) (\<lambda>x.
     andThen (repo_remember_idempotency repo (d_now d) sc fp x) (\<lambda>_. ret x)) s"
  by (simp add: place_order_def andThen_def lift_result_def ret_def split: sum.splits prod.splits)

lemma sql_remember_too_long:
  "200 < length sc \<Longrightarrow> sql_remember_idempotency now sc fp x db = (Inl (DBAPIError (Some ''22001'')), db)"
  by (simp add: sql_remember_idempotency_def insert_idempotency_row_def)

text \<open>
  The width of the idempotency key column: a scope is 87 characters longer than the
  client's key, so with the SQL adapter a first request under a key longer than 113
  characters always fails and leaves the tables unchanged, while under a key of at most 113
  characters a valid, storable order is created. The in-memory adapter accepts every key.
\<close>

theorem idempotency_key_width:
  assumes "sql_run empty_tables db" "key \<noteq> ''''"
    "sql_get (d_order_id d) db = (Inr None, db)" "d_event_id d \<notin> sql_taken db"
    "dict_get (t_idempotency db) (idempotency_scope t (cc_customer_id k) key) = None"
    "order_create (d_order_id d) (d_now d) (cc_customer_id k) t (cc_pickup_address k)
       (cc_destination_address k) (cc_weight_grams k) (Some (d_clock d)) = Inr x" "sql_storable x"
  shows "length (idempotency_scope t (cc_customer_id k) key) = 87 + length key
    \<and> (113 < length key \<longrightarrow>
         transactional (service_create (sql_repository (\<lambda>_. False)) d k (Some key) t) db
           = (Inl (DBAPIError (Some ''22001'')), db))
    \<and> (length key \<le> 113 \<longrightarrow> fst (service_create (sql_repository (\<lambda>_. False)) d k (Some key) t db) = Inr x)
    \<and> fst (service_create in_memory_repository d k (Some key) t empty_store) = Inr x"
proof -
  note ok = sql_run_book [OF assms(1)]
  let ?sc = "idempotency_scope t (cc_customer_id k) key"
  have len: "length ?sc = 87 + length key" by (simp add: idempotency_scope_def)
  have v: "view (sql_book db) (d_order_id d) = None"
    using assms(3) sql.get_law [OF ok(1), of "d_order_id d"] by simp
  have r: "replies (sql_book db) ?sc = None" using assms(5) by simp
  let ?fp = "request_fingerprint k"
  note keyed = sql.service_create_keyed [OF ok(1) assms(2), of d k t, unfolded r option.case]
  have first: "fst (place_order (sql_repository (\<lambda>_. False)) d k t None db) = Inr x"
    by (rule sql.place_order_accepted [OF ok v assms(4) _ assms(6,7)]) simp
  have long: "transactional (service_create (sql_repository (\<lambda>_. False)) d k (Some key) t) db
      = (Inl (DBAPIError (Some ''22001'')), db)" if "113 < length key"
    using first that len sql_remember_too_long [of ?sc]
    by (cases "place_order (sql_repository (\<lambda>_. False)) d k t None db")
      (simp add: transactional_def keyed place_order_keyed andThen_def)
  have short: "fst (service_create (sql_repository (\<lambda>_. False)) d k (Some key) t db) = Inr x" if "length key \<le> 113"
    unfolding keyed
    by (rule sql.place_order_accepted [OF ok v assms(4) _ assms(6,7)]) (use r that len in \<open>simp add: sql_fits_def\<close>)
  have "mem_ok empty_store" "book_ok (mem_book empty_store)" "view (mem_book empty_store) i = None"
    "replies (mem_book empty_store) sc = None" for i sc
    by (rule empty_adapters) (rule empty_adapters, simp_all add: empty_store_def)
  then have "fst (service_create in_memory_repository d k (Some key) t empty_store) = Inr x"
    using mem.service_create_keyed [OF _ assms(2)]
      mem.place_order_accepted [OF _ _ _ _ _ assms(6), of empty_store "Some (?sc, ?fp)"]
    by simp
  with len long short show ?thesis by blast
qed

theorem idempotency_key_width_witness:
  "transactional (service_create (sql_repository (\<lambda>_. False)) demo_draws demo_command
     (Some (replicate 114 CHR ''k'')) DEFAULT_TENANT_ID) empty_tables
   = (Inl (DBAPIError (Some ''22001'')), empty_tables)"
proof -
  have "sql_get (d_order_id demo_draws) empty_tables = (Inr None, empty_tables)"
    "dict_get (t_idempotency empty_tables) sc = None" "replicate 114 CHR ''k'' \<noteq> ''''" "sql_storable demo_order" for sc
    by (simp_all add: sql_get_def empty_tables_def sql_storable_def demo_order_def)
  with idempotency_key_width [OF rtranclp.rtrancl_refl _ _ empty_adapters(4) _ demo_create,
      where key = "replicate 114 CHR ''k''"]
  show ?thesis by simp
qed

end
