(* ===== verification/Refresh_Sessions.thy ===== *)
theory Refresh_Sessions
  imports Py_Text
begin

text \<open>
  \<open>refresh_sessions.py\<close>: rotation of refresh tokens with reuse detection, in the
  in-memory and in the SQL adapter. \<open>rotate_spec\<close> is the contract on an abstract view,
  a map from token ids to sessions; the locale \<open>refresh_port\<close> carries the protocol's
  guarantees, and both adapters interpret it. A table is an association list by primary
  key; \<open>flush\<close> enforces the key and the column widths of \<open>RefreshSessionRow\<close>.
\<close>

section \<open>Sessions\<close>

datatype RotationResult = ROTATED | REUSED | INVALID

record RefreshSession =
  rs_jti :: uuid
  rs_family_id :: uuid
  rs_subject :: string
  rs_expires_at :: datetime
  rs_used_at :: "datetime option"
  rs_revoked_at :: "datetime option"
  rs_replacement_jti :: "uuid option"

type_synonym session_table = "(uuid \<times> RefreshSession) list"

definition revoke_family :: "uuid \<Rightarrow> datetime \<Rightarrow> RefreshSession \<Rightarrow> RefreshSession" where
  "revoke_family family_id now item =
     (if rs_family_id item = family_id \<and> rs_revoked_at item = None
      then item \<lparr> rs_revoked_at := Some now \<rparr> else item)"

section \<open>In-memory adapter\<close>

definition mem_refresh_register :: "RefreshSession \<Rightarrow> (session_table, unit) action" where
  "mem_refresh_register session s =
     (if dict_get s (rs_jti session) \<noteq> None then (Inl (ValueError ''refresh jti already exists''), s)
      else (Inr (), dict_set (rs_jti session) session s))"

definition mem_refresh_rotate ::
  "uuid \<Rightarrow> uuid \<Rightarrow> string \<Rightarrow> RefreshSession \<Rightarrow> datetime \<Rightarrow> (session_table, RotationResult) action" where
  "mem_refresh_rotate presented_jti family_id subject replacement now s =
     (case dict_get s presented_jti of
        None \<Rightarrow> (Inr INVALID, s)
      | Some current \<Rightarrow>
          if rs_family_id current \<noteq> family_id \<or> rs_subject current \<noteq> subject then (Inr INVALID, s)
          else if rs_used_at current \<noteq> None \<or> rs_revoked_at current \<noteq> None
          then (Inr REUSED, map (\<lambda>(j, item). (j, revoke_family family_id now item)) s)
          else if rs_expires_at current \<le> now
          then (Inr INVALID, dict_set presented_jti (current \<lparr> rs_revoked_at := Some now \<rparr>) s)
          else if rs_family_id replacement \<noteq> family_id \<or> rs_subject replacement \<noteq> subject
                  \<or> dict_get s (rs_jti replacement) \<noteq> None
          then (Inr INVALID, s)
          else (Inr ROTATED,
                dict_set (rs_jti replacement) replacement
                  (dict_set presented_jti
                     (current \<lparr> rs_used_at := Some now, rs_replacement_jti := Some (rs_jti replacement) \<rparr>) s)))"

section \<open>SQL adapter\<close>

text \<open>\<open>session.add(RefreshSessionRow(...)); flush()\<close>: the primary key and \<open>String(100)\<close>.\<close>

definition insert_session_row :: "RefreshSession \<Rightarrow> (session_table, unit) action" where
  "insert_session_row session s =
     (if 100 < length (rs_subject session) then (Inl (DBAPIError (Some ''22001'')), s)
      else if dict_get s (rs_jti session) \<noteq> None then (Inl (IntegrityError ''refresh_session_pkey''), s)
      else (Inr (), dict_set (rs_jti session)
              \<lparr> rs_jti = rs_jti session, rs_family_id = rs_family_id session,
                rs_subject = rs_subject session, rs_expires_at = rs_expires_at session,
                rs_used_at = None, rs_revoked_at = None, rs_replacement_jti = None \<rparr> s))"

definition sql_refresh_register :: "RefreshSession \<Rightarrow> (session_table, unit) action" where
  "sql_refresh_register session = insert_session_row session"

definition sql_refresh_rotate ::
  "uuid \<Rightarrow> uuid \<Rightarrow> string \<Rightarrow> RefreshSession \<Rightarrow> datetime \<Rightarrow> (session_table, RotationResult) action" where
  "sql_refresh_rotate presented_jti family_id subject replacement now s =
     (case dict_get s presented_jti of
        None \<Rightarrow> (Inr INVALID, s)
      | Some current \<Rightarrow>
          if rs_family_id current \<noteq> family_id \<or> rs_subject current \<noteq> subject then (Inr INVALID, s)
          else if rs_used_at current \<noteq> None \<or> rs_revoked_at current \<noteq> None
          then (Inr REUSED, map (\<lambda>(j, item). (j, revoke_family family_id now item)) s)
          else if rs_expires_at current \<le> now
          then (Inr INVALID, dict_set presented_jti (current \<lparr> rs_revoked_at := Some now \<rparr>) s)
          else if rs_family_id replacement \<noteq> family_id \<or> rs_subject replacement \<noteq> subject
          then (Inr INVALID, s)
          else andThen (insert_session_row replacement) (\<lambda>_. ret ROTATED)
                 (dict_set presented_jti
                    (current \<lparr> rs_used_at := Some now, rs_replacement_jti := Some (rs_jti replacement) \<rparr>) s))"

section \<open>The contract\<close>

type_synonym session_view = "uuid \<Rightarrow> RefreshSession option"

definition fresh_session :: "RefreshSession \<Rightarrow> bool" where
  "fresh_session x \<longleftrightarrow> rs_used_at x = None \<and> rs_revoked_at x = None \<and> rs_replacement_jti x = None"

definition rotate_spec ::
  "uuid \<Rightarrow> uuid \<Rightarrow> string \<Rightarrow> RefreshSession \<Rightarrow> datetime \<Rightarrow> session_view \<Rightarrow> RotationResult \<times> session_view" where
  "rotate_spec j f sub rep now v =
     (case v j of
        None \<Rightarrow> (INVALID, v)
      | Some c \<Rightarrow>
          if rs_family_id c \<noteq> f \<or> rs_subject c \<noteq> sub then (INVALID, v)
          else if rs_used_at c \<noteq> None \<or> rs_revoked_at c \<noteq> None
          then (REUSED, \<lambda>i. map_option (revoke_family f now) (v i))
          else if rs_expires_at c \<le> now then (INVALID, v(j \<mapsto> c \<lparr> rs_revoked_at := Some now \<rparr>))
          else if rs_family_id rep \<noteq> f \<or> rs_subject rep \<noteq> sub \<or> v (rs_jti rep) \<noteq> None then (INVALID, v)
          else (ROTATED, v(j \<mapsto> c \<lparr> rs_used_at := Some now, rs_replacement_jti := Some (rs_jti rep) \<rparr>,
                          rs_jti rep \<mapsto> rep)))"

locale refresh_port =
  fixes register :: "RefreshSession \<Rightarrow> ('s, unit) action"
    and rotate :: "uuid \<Rightarrow> uuid \<Rightarrow> string \<Rightarrow> RefreshSession \<Rightarrow> datetime \<Rightarrow> ('s, RotationResult) action"
    and sessions :: "'s \<Rightarrow> session_view"
    and storable :: "RefreshSession \<Rightarrow> bool"
  assumes register_law: "fresh_session x \<Longrightarrow> register x s = (Inr (), s') \<Longrightarrow>
      sessions s (rs_jti x) = None \<and> sessions s' = (sessions s)(rs_jti x \<mapsto> x)"
    and register_progress: "storable x \<Longrightarrow> sessions s (rs_jti x) = None \<Longrightarrow>
      fst (register x s) = Inr ()"
    and rotate_law: "fresh_session rep \<Longrightarrow> rotate j f sub rep now s = (Inr r, s') \<Longrightarrow>
      rotate_spec j f sub rep now (sessions s) = (r, sessions s')"
    and rotate_progress: "storable rep \<Longrightarrow> sessions s (rs_jti rep) = None \<Longrightarrow>
      \<exists>r. fst (rotate j f sub rep now s) = Inr r"

text \<open>Completed calls; a session is registered or rotated in unused and unrevoked.\<close>

inductive refresh_step ::
  "(RefreshSession \<Rightarrow> ('s, unit) action)
   \<Rightarrow> (uuid \<Rightarrow> uuid \<Rightarrow> string \<Rightarrow> RefreshSession \<Rightarrow> datetime \<Rightarrow> ('s, RotationResult) action)
   \<Rightarrow> uuid set \<Rightarrow> 's \<Rightarrow> 's \<Rightarrow> bool"
  for register rotate and barred :: "uuid set" where
  register_step: "register x s = (Inr (), s') \<Longrightarrow> fresh_session x \<Longrightarrow> rs_family_id x \<notin> barred \<Longrightarrow>
    refresh_step register rotate barred s s'"
| rotate_step: "rotate j f sub rep now s = (Inr r, s') \<Longrightarrow> fresh_session rep \<Longrightarrow>
    refresh_step register rotate barred s s'"

definition spent :: "RefreshSession \<Rightarrow> bool" where
  "spent x \<longleftrightarrow> rs_used_at x \<noteq> None \<or> rs_revoked_at x \<noteq> None"

text \<open>The family and the subject of a session never change, and a spent session stays spent.\<close>

definition kept_spent :: "session_view \<Rightarrow> session_view \<Rightarrow> bool" where
  "kept_spent v v' \<longleftrightarrow> (\<forall>j x. v j = Some x \<longrightarrow> (\<exists>y. v' j = Some y \<and> rs_family_id y = rs_family_id x
     \<and> rs_subject y = rs_subject x \<and> (spent x \<longrightarrow> spent y)))"

definition family_closed :: "uuid \<Rightarrow> session_view \<Rightarrow> bool" where
  "family_closed f v \<longleftrightarrow> (\<forall>j x. v j = Some x \<and> rs_family_id x = f \<longrightarrow> spent x)"

lemma rotate_spec_kept: "kept_spent v (snd (rotate_spec j f sub rep now v))"
  by (auto simp: kept_spent_def rotate_spec_def spent_def revoke_family_def split: option.splits)

lemma rotate_spec_spent:
  assumes "v j = Some x" "spent x"
  shows "fst (rotate_spec j f sub rep now v) = (if rs_family_id x = f \<and> rs_subject x = sub then REUSED else INVALID)"
  using assms by (auto simp: rotate_spec_def spent_def)

lemma rotate_spec_reused: "rotate_spec j f sub rep now v = (REUSED, v') \<Longrightarrow> family_closed f v'"
  by (auto simp: rotate_spec_def family_closed_def spent_def revoke_family_def
      split: option.splits if_splits)

lemma rotate_spec_cases:
  obtains (same) "rotate_spec j f sub rep now v = (INVALID, v)"
  | (reuse) "rotate_spec j f sub rep now v = (REUSED, \<lambda>i. map_option (revoke_family f now) (v i))"
  | (expired) c where "v j = Some c" "\<not> spent c"
      "rotate_spec j f sub rep now v = (INVALID, v(j \<mapsto> c \<lparr> rs_revoked_at := Some now \<rparr>))"
  | (rotated) c where "v j = Some c" "\<not> spent c" "rs_family_id c = f" "rs_subject c = sub"
      "rs_family_id rep = f" "rs_subject rep = sub" "v (rs_jti rep) = None"
      "rotate_spec j f sub rep now v = (ROTATED,
        v(j \<mapsto> c \<lparr> rs_used_at := Some now, rs_replacement_jti := Some (rs_jti rep) \<rparr>, rs_jti rep \<mapsto> rep))"
proof (cases "v j")
  case None
  then show thesis by (intro same) (simp add: rotate_spec_def)
next
  case (Some c)
  show thesis
  proof (cases "rs_family_id c = f \<and> rs_subject c = sub")
    case False
    with Some show thesis by (intro same) (simp add: rotate_spec_def)
  next
    case m: True
    show thesis
    proof (cases "spent c")
      case True
      with Some m show thesis by (intro reuse) (simp add: rotate_spec_def spent_def)
    next
      case False
      consider "rs_expires_at c \<le> now"
        | "\<not> rs_expires_at c \<le> now" "rs_family_id rep \<noteq> f \<or> rs_subject rep \<noteq> sub \<or> v (rs_jti rep) \<noteq> None"
        | "\<not> rs_expires_at c \<le> now" "rs_family_id rep = f" "rs_subject rep = sub" "v (rs_jti rep) = None"
        by blast
      then show thesis
      proof cases
        case 1
        with Some m False show thesis by (intro expired [of c]) (simp_all add: rotate_spec_def spent_def)
      next
        case 2
        with Some m False show thesis by (intro same) (auto simp: rotate_spec_def spent_def)
      next
        case 3
        with Some m False show thesis by (intro rotated [of c]) (simp_all add: rotate_spec_def spent_def)
      qed
    qed
  qed
qed

lemma rotate_spec_closed:
  assumes "family_closed f v"
  shows "family_closed f (snd (rotate_spec j g sub rep now v))"
    and "fst (rotate_spec j f sub rep now v) \<noteq> ROTATED"
proof -
  show "fst (rotate_spec j f sub rep now v) \<noteq> ROTATED"
    using assms by (auto simp: rotate_spec_def family_closed_def spent_def split: option.splits)
  show "family_closed f (snd (rotate_spec j g sub rep now v))"
  proof (cases rule: rotate_spec_cases [of j g sub rep now v])
    case same
    with assms show ?thesis by simp
  next
    case reuse
    have "spent (revoke_family g now x)" if "spent x" for x
      using that by (simp add: spent_def revoke_family_def)
    moreover have "rs_family_id (revoke_family g now x) = rs_family_id x" for x
      by (simp add: revoke_family_def)
    ultimately show ?thesis using assms reuse by (auto simp: family_closed_def)
  next
    case (expired c)
    then show ?thesis using assms by (auto simp: family_closed_def spent_def)
  next
    case (rotated c)
    then have "g \<noteq> f" using assms by (auto simp: family_closed_def)
    with rotated assms show ?thesis by (auto simp: family_closed_def)
  qed
qed

lemma kept_spent_refl [simp]: "kept_spent v v"
  by (simp add: kept_spent_def)

lemma kept_spent_trans:
  assumes "kept_spent u v" "kept_spent v w"
  shows "kept_spent u w"
  unfolding kept_spent_def
proof (intro allI impI)
  fix j x
  assume "u j = Some x"
  with assms(1) obtain y where y: "v j = Some y" "rs_family_id y = rs_family_id x"
    "rs_subject y = rs_subject x" "spent x \<longrightarrow> spent y" unfolding kept_spent_def by metis
  with assms(2) obtain z where "w j = Some z" "rs_family_id z = rs_family_id y"
    "rs_subject z = rs_subject y" "spent y \<longrightarrow> spent z" unfolding kept_spent_def by metis
  with y show "\<exists>z. w j = Some z \<and> rs_family_id z = rs_family_id x \<and> rs_subject z = rs_subject x
      \<and> (spent x \<longrightarrow> spent z)" by auto
qed

section \<open>What the contract gives\<close>

context refresh_port
begin

lemma step_kept:
  assumes "refresh_step register rotate barred s s'"
  shows "kept_spent (sessions s) (sessions s')"
    and "f \<in> barred \<Longrightarrow> family_closed f (sessions s) \<Longrightarrow> family_closed f (sessions s')"
proof -
  have "kept_spent (sessions s) (sessions s')
    \<and> (f \<in> barred \<longrightarrow> family_closed f (sessions s) \<longrightarrow> family_closed f (sessions s'))"
    using assms
  proof (induction rule: refresh_step.induct)
    case (register_step x s s')
    with register_law [OF register_step(2,1)] show ?case
      by (auto simp: kept_spent_def family_closed_def)
  next
    case (rotate_step j g sub rep now s r s')
    from rotate_law [OF rotate_step(2,1)]
    have "sessions s' = snd (rotate_spec j g sub rep now (sessions s))" by simp
    then show ?case using rotate_spec_kept rotate_spec_closed(1) by simp
  qed
  then show "kept_spent (sessions s) (sessions s')"
    and "f \<in> barred \<Longrightarrow> family_closed f (sessions s) \<Longrightarrow> family_closed f (sessions s')" by auto
qed

lemma run_kept:
  assumes "(refresh_step register rotate barred)\<^sup>*\<^sup>* s s'"
  shows "kept_spent (sessions s) (sessions s')"
    and "f \<in> barred \<Longrightarrow> family_closed f (sessions s) \<Longrightarrow> family_closed f (sessions s')"
  using assms
  by (induction rule: rtranclp_induct) (auto dest: step_kept intro: kept_spent_trans)

text \<open>A token that has been exchanged is never exchanged again.\<close>

lemma rotated_once:
  assumes "rotate j f sub rep now s = (Inr ROTATED, s1)" "fresh_session rep"
    "(refresh_step register rotate barred)\<^sup>*\<^sup>* s1 s2" "fresh_session rep2"
    "rotate j g sub2 rep2 now2 s2 = (Inr r, s3)"
  shows "r = (if g = f \<and> sub2 = sub then REUSED else INVALID)"
proof -
  from rotate_law [OF assms(2,1)]
  obtain c where c: "sessions s j = Some c" "rs_family_id c = f" "rs_subject c = sub"
    and s1: "sessions s1 = (sessions s)(j \<mapsto> c \<lparr> rs_used_at := Some now, rs_replacement_jti := Some (rs_jti rep) \<rparr>,
        rs_jti rep \<mapsto> rep)" and new: "sessions s (rs_jti rep) = None"
    by (cases rule: rotate_spec_cases [of j f sub rep now "sessions s"]) auto
  then have "sessions s1 j = Some (c \<lparr> rs_used_at := Some now, rs_replacement_jti := Some (rs_jti rep) \<rparr>)"
    by auto
  with run_kept(1) [OF assms(3)] c obtain y where y: "sessions s2 j = Some y" "rs_family_id y = f"
    "rs_subject y = sub" "spent y" unfolding kept_spent_def by (fastforce simp: spent_def)
  from rotate_law [OF assms(4,5)] rotate_spec_spent [of "sessions s2" j y g sub2 rep2 now2] y
  show ?thesis by (auto split: if_splits)
qed

text \<open>Detected reuse closes the family for good.\<close>

lemma reuse_closes_family:
  assumes "rotate j f sub rep now s = (Inr REUSED, s1)" "fresh_session rep" "f \<in> barred"
    "(refresh_step register rotate barred)\<^sup>*\<^sup>* s1 s2" "fresh_session rep2"
    "rotate i f sub2 rep2 now2 s2 = (Inr r, s3)"
  shows "r \<noteq> ROTATED"
proof -
  have "family_closed f (sessions s1)"
    using rotate_law [OF assms(2,1)] by (rule rotate_spec_reused)
  from run_kept(2) [OF assms(4,3) this] have "family_closed f (sessions s2)" .
  from rotate_spec_closed(2) [OF this, of i sub2 rep2 now2] rotate_law [OF assms(5,6)]
  show ?thesis by auto
qed

end

section \<open>Both adapters meet it\<close>

lemma map_of_revoke:
  "map_of (map (\<lambda>(j, item). (j, revoke_family f now item)) s) = (\<lambda>i. map_option (revoke_family f now) (map_of s i))"
  by (rule ext, induction s) auto

interpretation mem_refresh: refresh_port mem_refresh_register mem_refresh_rotate map_of "\<lambda>_. True"
proof (unfold_locales, goal_cases)
  case (3 rep j f sub now s r s')
  then show ?case
    by (cases "map_of s j") (auto simp: mem_refresh_rotate_def rotate_spec_def map_of_revoke split: if_splits)
next
  case (4 rep s j f sub now)
  then show ?case by (cases "map_of s j") (simp_all add: mem_refresh_rotate_def)
qed (auto simp: mem_refresh_register_def split: if_splits)

lemma insert_session_row_fresh:
  "fresh_session x \<Longrightarrow> insert_session_row x s =
     (if 100 < length (rs_subject x) then (Inl (DBAPIError (Some ''22001'')), s)
      else if dict_get s (rs_jti x) \<noteq> None then (Inl (IntegrityError ''refresh_session_pkey''), s)
      else (Inr (), dict_set (rs_jti x) x s))"
  by (cases x) (simp add: fresh_session_def insert_session_row_def)

interpretation sql_refresh: refresh_port sql_refresh_register sql_refresh_rotate map_of
  "\<lambda>x. length (rs_subject x) \<le> 100"
proof (unfold_locales, goal_cases)
  case (3 rep j f sub now s r s')
  show ?case
  proof (cases "map_of s j")
    case (Some c)
    with 3 show ?thesis
      by (auto simp: sql_refresh_rotate_def rotate_spec_def map_of_revoke insert_session_row_fresh
          split: if_splits)
  qed (use 3 in \<open>simp add: sql_refresh_rotate_def rotate_spec_def\<close>)
next
  case (4 rep s j f sub now)
  show ?case
  proof (cases "map_of s j")
    case (Some c)
    then have "rs_jti rep \<noteq> j" using 4(2) by auto
    with Some 4 show ?thesis
      by (auto simp: sql_refresh_rotate_def insert_session_row_def andThen_def ret_def)
  qed (simp add: sql_refresh_rotate_def)
next
  case (1 x s s')
  then show ?case by (auto simp: sql_refresh_register_def insert_session_row_fresh split: if_splits)
next
  case (2 x s)
  then show ?case by (simp add: sql_refresh_register_def insert_session_row_def)
qed

section \<open>Rotation is single use\<close>

text \<open>
  C11. In both adapters a refresh token is exchanged at most once: after a rotation of a
  token, and after any further registrations and rotations, presenting it again is
  answered \<open>REUSED\<close> (or \<open>INVALID\<close> when family or subject do not match), never
  \<open>ROTATED\<close>; and once reuse has been answered, no token of that family is exchanged again
  unless a login registers a new session into it.
\<close>

theorem refresh_token_single_use:
  assumes "fresh_session rep" "fresh_session rep2" "fresh_session rep3"
    "(reg, rot) \<in> {(mem_refresh_register, mem_refresh_rotate), (sql_refresh_register, sql_refresh_rotate)}"
    "rot j f sub rep now s = (Inr ROTATED, s1)" "(refresh_step reg rot {})\<^sup>*\<^sup>* s1 s2"
    "rot j g sub2 rep2 now2 s2 = (Inr r, s3)" "(refresh_step reg rot {g})\<^sup>*\<^sup>* s3 s4"
    "rot i g sub3 rep3 now3 s4 = (Inr r3, s5)"
  shows "r = (if g = f \<and> sub2 = sub then REUSED else INVALID) \<and> (r = REUSED \<longrightarrow> r3 \<noteq> ROTATED)"
proof -
  from assms(4) consider
    (mem) "reg = mem_refresh_register" "rot = mem_refresh_rotate"
    | (sql) "reg = sql_refresh_register" "rot = sql_refresh_rotate" by auto
  then show ?thesis
  proof cases
    case mem
    with mem_refresh.rotated_once [of j f sub rep now s s1 "{}" s2 rep2 g sub2 now2 r s3]
      mem_refresh.reuse_closes_family [of j g sub2 rep2 now2 s2 s3 "{g}" s4 rep3 i sub3 now3 r3 s5] assms
    show ?thesis by simp
  next
    case sql
    with sql_refresh.rotated_once [of j f sub rep now s s1 "{}" s2 rep2 g sub2 now2 r s3]
      sql_refresh.reuse_closes_family [of j g sub2 rep2 now2 s2 s3 "{g}" s4 rep3 i sub3 now3 r3 s5] assms
    show ?thesis by simp
  qed
qed

definition sample_session :: "uuid \<Rightarrow> RefreshSession" where
  "sample_session j = \<lparr> rs_jti = j, rs_family_id = 9, rs_subject = ''customer:1'', rs_expires_at = 100,
     rs_used_at = None, rs_revoked_at = None, rs_replacement_jti = None \<rparr>"

lemma sample_session_fresh: "fresh_session (sample_session j)"
  by (simp add: fresh_session_def sample_session_def)

lemma mem_refresh_rotate_returns: "\<exists>r s'. mem_refresh_rotate j f sub rep now s = (Inr r, s')"
  by (cases "map_of s j") (auto simp: mem_refresh_rotate_def)

theorem refresh_token_single_use_witness:
  "\<exists>s1 s3 s5 r3. mem_refresh_rotate 1 9 ''customer:1'' (sample_session 2) 10 [(1, sample_session 1)] = (Inr ROTATED, s1)
     \<and> mem_refresh_rotate 1 9 ''customer:1'' (sample_session 3) 20 s1 = (Inr REUSED, s3)
     \<and> mem_refresh_rotate 2 9 ''customer:1'' (sample_session 4) 30 s3 = (Inr r3, s5) \<and> r3 \<noteq> ROTATED"
proof -
  obtain s1 where a: "mem_refresh_rotate 1 9 ''customer:1'' (sample_session 2) 10 [(1, sample_session 1)]
      = (Inr ROTATED, s1)"
    by (simp add: mem_refresh_rotate_def sample_session_def)
  obtain r s3 where b: "mem_refresh_rotate 1 9 ''customer:1'' (sample_session 3) 20 s1 = (Inr r, s3)"
    using mem_refresh_rotate_returns by blast
  obtain r3 s5 where c: "mem_refresh_rotate 2 9 ''customer:1'' (sample_session 4) 30 s3 = (Inr r3, s5)"
    using mem_refresh_rotate_returns by blast
  from refresh_token_single_use [of "sample_session 2" "sample_session 3" "sample_session 4"
      mem_refresh_register mem_refresh_rotate 1 9 "''customer:1''" 10 _ s1 s1 9 "''customer:1''" 20 r s3 s3 2
      "''customer:1''" 30 r3 s5] sample_session_fresh a b c
  show ?thesis by auto
qed

end
