(* ===== verification/Tracking.thy ===== *)
theory Tracking
  imports Sql_Orders
begin

text \<open>
  \<open>tracking.py\<close>: the latest confirmed position of an order in the in-memory and in the SQL
  adapter, the hub that fans events out to bounded subscriber queues, the server-sent event
  encoding and the event stream of one client. Coordinates are finite floats, read as reals.
  The locale \<open>tracking_port\<close> carries the contract the two adapters share; the stream is a
  state machine over the queue that \<open>TrackingHub.publish\<close> fills.
\<close>

section \<open>Events and snapshots\<close>

record TrackingEvent =
  te_order_id :: uuid
  te_status :: string
  te_sequence :: int
  te_latitude :: "real option"
  te_longitude :: "real option"
  te_recorded_at :: "datetime option"

definition tracking_payload :: "TrackingEvent \<Rightarrow> json_object" where
  "tracking_payload self =
     [(''order_id'', JStr (str_uuid (te_order_id self))),
      (''status'', JStr (te_status self)),
      (''sequence'', JInt (te_sequence self)),
      (''latitude'', case te_latitude self of None \<Rightarrow> JNull | Some x \<Rightarrow> JFloat x),
      (''longitude'', case te_longitude self of None \<Rightarrow> JNull | Some x \<Rightarrow> JFloat x),
      (''recorded_at'', case te_recorded_at self of None \<Rightarrow> JNull | Some t \<Rightarrow> JStr (isoformat t))]"

text \<open>
  \<open>float(v)\<close> of a JSON value; \<open>float_of_text\<close> stands for Python's parser of float
  literals, which a payload written by \<open>payload()\<close> never reaches.
\<close>

fun json_float :: "(string \<Rightarrow> real option) \<Rightarrow> json \<Rightarrow> real result" where
  "json_float float_of_text (JFloat x) = Inr x"
| "json_float float_of_text (JInt i) = Inr (real_of_int i)"
| "json_float float_of_text (JBool b) = Inr (if b then 1 else 0)"
| "json_float float_of_text (JStr s) =
     of_option (ValueError ''could not convert string to float'') (float_of_text s)"
| "json_float float_of_text _ = Inl (TypeError ''float() argument must be a string or a real number'')"

definition optional_float :: "(string \<Rightarrow> real option) \<Rightarrow> json_object \<Rightarrow> string \<Rightarrow> real option result" where
  "optional_float float_of_text payload key =
     (if dict_get payload key \<in> {None, Some JNull} then Inr None
      else thenR (json_get payload key) (\<lambda>v. thenR (json_float float_of_text v) (\<lambda>x. Inr (Some x))))"

text \<open>The truth value of a JSON value, as \<open>if v\<close> reads it.\<close>

fun json_truthy :: "json \<Rightarrow> bool" where
  "json_truthy JNull = False"
| "json_truthy (JBool b) = b"
| "json_truthy (JInt i) = (i \<noteq> 0)"
| "json_truthy (JFloat x) = (x \<noteq> 0)"
| "json_truthy (JStr s) = (s \<noteq> [])"
| "json_truthy (JObj kvs) = (kvs \<noteq> [])"

definition event_from_payload :: "(string \<Rightarrow> real option) \<Rightarrow> json_object \<Rightarrow> TrackingEvent result" where
  "event_from_payload float_of_text payload =
     thenR (json_get_uuid payload ''order_id'') (\<lambda>i.
     thenR (json_get_str payload ''status'') (\<lambda>st.
     thenR (thenR (json_get payload ''sequence'') json_int) (\<lambda>n.
     thenR (optional_float float_of_text payload ''latitude'') (\<lambda>la.
     thenR (optional_float float_of_text payload ''longitude'') (\<lambda>lo.
     thenR (case dict_get payload ''recorded_at'' of
              None \<Rightarrow> Inr None
            | Some v \<Rightarrow>
                if json_truthy v
                then thenR (json_str v) (\<lambda>s. thenR (of_option (ValueError ''Invalid isoformat string'') (fromisoformat s))
                       (\<lambda>t. Inr (Some t)))
                else Inr None) (\<lambda>tm.
     Inr \<lparr> te_order_id = i, te_status = st, te_sequence = n, te_latitude = la, te_longitude = lo,
           te_recorded_at = tm \<rparr>))))))"

record TrackingSnapshot =
  ts_order_id :: uuid
  ts_tenant_id :: uuid
  ts_status :: string
  ts_sequence :: int
  ts_latitude :: real
  ts_longitude :: real
  ts_recorded_at :: datetime
  ts_client_event_id :: uuid

definition snapshot_event :: "TrackingSnapshot \<Rightarrow> TrackingEvent" where
  "snapshot_event self =
     \<lparr> te_order_id = ts_order_id self, te_status = ts_status self, te_sequence = ts_sequence self,
       te_latitude = Some (ts_latitude self), te_longitude = Some (ts_longitude self),
       te_recorded_at = Some (ts_recorded_at self) \<rparr>"

section \<open>In-memory adapter\<close>

record InMemoryTrackingSnapshotRepository =
  mt_snapshots :: "(uuid \<times> TrackingSnapshot) list"
  mt_event_orders :: "(uuid \<times> uuid) list"
  mt_outbox :: "json_object list"

definition mem_tracking_get :: "uuid \<Rightarrow> InMemoryTrackingSnapshotRepository \<Rightarrow> TrackingSnapshot option" where
  "mem_tracking_get order_id s = dict_get (mt_snapshots s) order_id"

definition mem_tracking_record ::
  "uuid \<Rightarrow> uuid \<Rightarrow> string \<Rightarrow> real \<Rightarrow> real \<Rightarrow> uuid \<Rightarrow> datetime
   \<Rightarrow> (InMemoryTrackingSnapshotRepository, TrackingSnapshot \<times> bool) action" where
  "mem_tracking_record order_id tenant_id status latitude longitude client_event_id recorded_at s =
     (let previous_order = dict_get (mt_event_orders s) client_event_id;
          current = dict_get (mt_snapshots s) order_id
      in if previous_order \<noteq> None \<and> previous_order \<noteq> Some order_id
         then (Inl (ValueError ''client_event_id belongs to another order''), s)
         else if current \<noteq> None \<and> ts_client_event_id (the current) = client_event_id
         then (Inr (the current, False), s)
         else let snapshot = \<lparr> ts_order_id = order_id, ts_tenant_id = tenant_id, ts_status = status,
                    ts_sequence = (case current of None \<Rightarrow> 1 | Some c \<Rightarrow> ts_sequence c + 1),
                    ts_latitude = latitude, ts_longitude = longitude, ts_recorded_at = recorded_at,
                    ts_client_event_id = client_event_id \<rparr>
              in (Inr (snapshot, True),
                  \<lparr> mt_snapshots = dict_set order_id snapshot (mt_snapshots s),
                    mt_event_orders = dict_set client_event_id order_id (mt_event_orders s),
                    mt_outbox = mt_outbox s @
                      [[(''event_id'', JStr (str_uuid client_event_id)),
                        (''event_type'', JStr ''tracking.position_updated''),
                        (''payload'', JObj (tracking_payload (snapshot_event snapshot)))]] \<rparr>))"

section \<open>SQL adapter\<close>

record TrackingSnapshotRow =
  tr_order_id :: uuid
  tr_tenant_id :: uuid
  tr_latitude :: real
  tr_longitude :: real
  tr_sequence :: int
  tr_order_status :: string
  tr_recorded_at :: datetime
  tr_client_event_id :: uuid

record tracking_tables =
  tk_tables :: order_tables
  tk_snapshots :: "(uuid \<times> TrackingSnapshotRow) list"

definition sql_snapshot :: "TrackingSnapshotRow \<Rightarrow> TrackingSnapshot" where
  "sql_snapshot row =
     \<lparr> ts_order_id = tr_order_id row, ts_tenant_id = tr_tenant_id row, ts_status = tr_order_status row,
       ts_sequence = tr_sequence row, ts_latitude = tr_latitude row, ts_longitude = tr_longitude row,
       ts_recorded_at = tr_recorded_at row, ts_client_event_id = tr_client_event_id row \<rparr>"

definition sql_tracking_get :: "uuid \<Rightarrow> tracking_tables \<Rightarrow> TrackingSnapshot option" where
  "sql_tracking_get order_id db = map_option sql_snapshot (dict_get (tk_snapshots db) order_id)"

text \<open>Column types and check constraints of one row.\<close>

definition snapshot_row_error :: "TrackingSnapshotRow \<Rightarrow> exn option" where
  "snapshot_row_error r =
     (if 32 < length (tr_order_status r) then Some (DBAPIError (Some ''22001''))
      else if \<not> int4 (tr_sequence r) then Some (DBAPIError (Some ''22003''))
      else if \<not> (-90 \<le> tr_latitude r \<and> tr_latitude r \<le> 90) then Some (IntegrityError ''ck_tracking_latitude'')
      else if \<not> (-180 \<le> tr_longitude r \<and> tr_longitude r \<le> 180) then Some (IntegrityError ''ck_tracking_longitude'')
      else if \<not> 0 < tr_sequence r then Some (IntegrityError ''ck_tracking_sequence'')
      else None)"

definition event_id_used :: "tracking_tables \<Rightarrow> uuid \<Rightarrow> uuid \<Rightarrow> bool" where
  "event_id_used db order_id client_event_id =
     list_ex (\<lambda>r. tr_client_event_id r = client_event_id \<and> tr_order_id r \<noteq> order_id) (values_of (tk_snapshots db))"

text \<open>
  \<open>INSERT ... ON CONFLICT (order_id) DO UPDATE ... WHERE ... RETURNING\<close>: the proposed row is
  checked first; on a conflict the guarded update runs, and no row is returned when its
  guard fails.
\<close>

definition upsert_snapshot :: "TrackingSnapshotRow \<Rightarrow> (tracking_tables, TrackingSnapshotRow option) action" where
  "upsert_snapshot row db =
     (case snapshot_row_error row of
        Some e \<Rightarrow> (Inl e, db)
      | None \<Rightarrow>
          (case dict_get (tk_snapshots db) (tr_order_id row) of
             None \<Rightarrow>
               if event_id_used db (tr_order_id row) (tr_client_event_id row)
               then (Inl (IntegrityError ''order_tracking_snapshot_client_event_id_key''), db)
               else if dict_get (t_orders (tk_tables db)) (tr_order_id row) = None
               then (Inl (IntegrityError ''fk_tracking_snapshot_order''), db)
               else (Inr (Some row), db \<lparr> tk_snapshots := dict_set (tr_order_id row) row (tk_snapshots db) \<rparr>)
           | Some old \<Rightarrow>
               if \<not> (tr_tenant_id old = tr_tenant_id row \<and> tr_client_event_id old \<noteq> tr_client_event_id row)
               then (Inr None, db)
               else let new = old \<lparr> tr_order_status := tr_order_status row, tr_latitude := tr_latitude row,
                           tr_longitude := tr_longitude row, tr_sequence := tr_sequence old + 1,
                           tr_recorded_at := tr_recorded_at row, tr_client_event_id := tr_client_event_id row \<rparr>
                    in (case snapshot_row_error new of
                          Some e \<Rightarrow> (Inl e, db)
                        | None \<Rightarrow>
                            if event_id_used db (tr_order_id row) (tr_client_event_id row)
                            then (Inl (IntegrityError ''order_tracking_snapshot_client_event_id_key''), db)
                            else (Inr (Some new),
                                  db \<lparr> tk_snapshots := dict_set (tr_order_id row) new (tk_snapshots db) \<rparr>))))"

definition add_outbox :: "OutboxRow \<Rightarrow> (tracking_tables, unit) action" where
  "add_outbox r db =
     (case insert_outbox_row r (tk_tables db) of
        (x, t) \<Rightarrow> (x, db \<lparr> tk_tables := t \<rparr>))"

definition sql_tracking_record ::
  "uuid \<Rightarrow> uuid \<Rightarrow> string \<Rightarrow> real \<Rightarrow> real \<Rightarrow> uuid \<Rightarrow> datetime
   \<Rightarrow> (tracking_tables, TrackingSnapshot \<times> bool) action" where
  "sql_tracking_record order_id tenant_id status latitude longitude client_event_id recorded_at =
     andThen (upsert_snapshot
       \<lparr> tr_order_id = order_id, tr_tenant_id = tenant_id, tr_latitude = latitude, tr_longitude = longitude,
         tr_sequence = 1, tr_order_status = status, tr_recorded_at = recorded_at,
         tr_client_event_id = client_event_id \<rparr>) (\<lambda>returned db.
     (case returned of
        None \<Rightarrow>
          (case dict_get (tk_snapshots db) order_id of
             Some row \<Rightarrow>
               if tr_tenant_id row = tenant_id \<and> tr_client_event_id row = client_event_id
               then (Inr (sql_snapshot row, False), db)
               else (Inl (ValueError ''tracking event conflicts with tenant or order''), db)
           | None \<Rightarrow> (Inl (ValueError ''tracking event conflicts with tenant or order''), db))
      | Some row \<Rightarrow>
          let snapshot = sql_snapshot row
          in andThen (add_outbox
               \<lparr> ob_id = client_event_id, ob_event_type = ''tracking.position_updated'',
                 ob_payload = tracking_payload (snapshot_event snapshot), ob_legacy_processed_at = None,
                 ob_created_at = recorded_at, ob_published_at = None \<rparr>) (\<lambda>_.
             ret (snapshot, True)) db))"

section \<open>The contract of the two adapters\<close>

text \<open>
  \<open>next_snapshot\<close> is what a new client event makes of the latest position. The contract:
  an answered call either repeats the latest snapshot for the client event that made it
  and changes nothing, or stores the next snapshot and appends its message.
\<close>

definition next_snapshot ::
  "TrackingSnapshot option \<Rightarrow> uuid \<Rightarrow> uuid \<Rightarrow> string \<Rightarrow> real \<Rightarrow> real \<Rightarrow> uuid \<Rightarrow> datetime \<Rightarrow> TrackingSnapshot" where
  "next_snapshot cur i t st la lo ce tm =
     \<lparr> ts_order_id = i, ts_tenant_id = t, ts_status = st,
       ts_sequence = (case cur of None \<Rightarrow> 1 | Some c \<Rightarrow> ts_sequence c + 1),
       ts_latitude = la, ts_longitude = lo, ts_recorded_at = tm, ts_client_event_id = ce \<rparr>"

type_synonym 's recorder =
  "uuid \<Rightarrow> uuid \<Rightarrow> string \<Rightarrow> real \<Rightarrow> real \<Rightarrow> uuid \<Rightarrow> datetime \<Rightarrow> ('s, TrackingSnapshot \<times> bool) action"

text \<open>Completed calls of a recorder, with the events they announced.\<close>

inductive recorded :: "'s recorder \<Rightarrow> 's \<Rightarrow> TrackingEvent list \<Rightarrow> 's \<Rightarrow> bool" for store_pos where
  start: "recorded store_pos s [] s"
| repeated: "recorded store_pos s es s1 \<Longrightarrow> store_pos i t st la lo ce tm s1 = (Inr (x, False), s2) \<Longrightarrow>
    recorded store_pos s es s2"
| advanced: "recorded store_pos s es s1 \<Longrightarrow> store_pos i t st la lo ce tm s1 = (Inr (x, True), s2) \<Longrightarrow>
    recorded store_pos s (es @ [snapshot_event x]) s2"

locale tracking_port =
  fixes store_pos :: "'s recorder"
    and latest :: "'s \<Rightarrow> uuid \<Rightarrow> TrackingSnapshot option"
    and sent :: "'s \<Rightarrow> json_object list"
    and ok :: "'s \<Rightarrow> bool"
  assumes repeat_law: "ok s \<Longrightarrow> store_pos i t st la lo ce tm s = (Inr (x, False), s') \<Longrightarrow>
      s' = s \<and> latest s i = Some x \<and> ts_client_event_id x = ce"
    and advance_law: "ok s \<Longrightarrow> store_pos i t st la lo ce tm s = (Inr (x, True), s') \<Longrightarrow>
      ok s' \<and> x = next_snapshot (latest s i) i t st la lo ce tm
      \<and> (\<forall>c. latest s i = Some c \<longrightarrow> ts_client_event_id c \<noteq> ce)
      \<and> latest s' = (latest s)(i \<mapsto> x)
      \<and> sent s' = sent s @ [tracking_payload (snapshot_event x)]"
    and latest_order: "ok s \<Longrightarrow> latest s i = Some x \<Longrightarrow> ts_order_id x = i"
begin

lemma recorded_gapless:
  assumes "recorded store_pos s es s'" "ok s" "latest s i = None"
  shows "ok s' \<and> sent s' = sent s @ map tracking_payload es
    \<and> map te_sequence (filter (\<lambda>e. te_order_id e = i) es)
        = map int [1..<Suc (length (filter (\<lambda>e. te_order_id e = i) es))]
    \<and> map_option snapshot_event (latest s' i)
        = (if filter (\<lambda>e. te_order_id e = i) es = [] then None
           else Some (last (filter (\<lambda>e. te_order_id e = i) es)))"
  using assms
proof (induction rule: recorded.induct)
  case (repeated s es s1 j t st la lo ce tm x s2)
  then show ?case using repeat_law by metis
next
  case (advanced s es s1 j t st la lo ce tm x s2)
  let ?f = "filter (\<lambda>e. te_order_id e = i)"
  note ih = advanced.IH [OF advanced.prems]
  note law = advance_law [OF conjunct1 [OF ih] advanced.hyps(2)]
  have x: "te_order_id (snapshot_event x) = j" "te_sequence (snapshot_event x) = ts_sequence x"
    using law by (simp_all add: snapshot_event_def next_snapshot_def)
  have "ts_sequence x = int (Suc (length (?f es)))" if "j = i"
  proof (cases "latest s1 i")
    case None
    with ih law that show ?thesis by (auto simp: next_snapshot_def split: if_splits)
  next
    case (Some c)
    with ih have ne: "?f es \<noteq> []" and l: "snapshot_event c = last (?f es)" by (auto split: if_splits)
    have "ts_sequence c = te_sequence (last (?f es))" by (simp flip: l add: snapshot_event_def)
    also have "\<dots> = last (map te_sequence (?f es))" using ne by (simp add: last_map)
    also have "\<dots> = int (length (?f es))" using ih ne by (simp add: last_map Suc_le_eq)
    finally show ?thesis using law that Some by (simp add: next_snapshot_def)
  qed
  with ih law x show ?case by auto
qed simp

end

section \<open>Both adapters meet the contract\<close>

definition message_payload :: "json_object \<Rightarrow> json_object" where
  "message_payload m = (case dict_get m ''payload'' of Some (JObj p) \<Rightarrow> p | _ \<Rightarrow> [])"

definition mem_tracking_ok :: "InMemoryTrackingSnapshotRepository \<Rightarrow> bool" where
  "mem_tracking_ok s \<longleftrightarrow> (\<forall>i x. dict_get (mt_snapshots s) i = Some x \<longrightarrow> ts_order_id x = i)"

interpretation mem_tracking: tracking_port mem_tracking_record "\<lambda>s i. mem_tracking_get i s"
  "\<lambda>s. map message_payload (mt_outbox s)" mem_tracking_ok
proof
  fix s i t st la lo ce tm x s'
  assume "mem_tracking_ok s" "mem_tracking_record i t st la lo ce tm s = (Inr (x, False), s')"
  then show "s' = s \<and> mem_tracking_get i s = Some x \<and> ts_client_event_id x = ce"
    by (auto simp: mem_tracking_record_def Let_def mem_tracking_get_def split: if_splits)
next
  fix s i t st la lo ce tm x s'
  assume ok: "mem_tracking_ok s" and call: "mem_tracking_record i t st la lo ce tm s = (Inr (x, True), s')"
  let ?x = "next_snapshot (mem_tracking_get i s) i t st la lo ce tm"
  have "x = ?x" "\<forall>c. mem_tracking_get i s = Some c \<longrightarrow> ts_client_event_id c \<noteq> ce"
    and s': "mt_snapshots s' = dict_set i ?x (mt_snapshots s)"
      "mt_outbox s' = mt_outbox s @ [[(''event_id'', JStr (str_uuid ce)),
         (''event_type'', JStr ''tracking.position_updated''), (''payload'', JObj (tracking_payload (snapshot_event ?x)))]]"
    using call by (auto simp: mem_tracking_record_def Let_def mem_tracking_get_def next_snapshot_def split: if_splits)
  moreover have "mem_tracking_ok s'" using ok s'(1) by (simp add: mem_tracking_ok_def next_snapshot_def)
  moreover have "(\<lambda>i. mem_tracking_get i s') = (\<lambda>i. mem_tracking_get i s)(i \<mapsto> ?x)"
    using s'(1) by (simp add: mem_tracking_get_def fun_eq_iff)
  ultimately show "mem_tracking_ok s' \<and> x = ?x
      \<and> (\<forall>c. mem_tracking_get i s = Some c \<longrightarrow> ts_client_event_id c \<noteq> ce)
      \<and> (\<lambda>i. mem_tracking_get i s') = (\<lambda>i. mem_tracking_get i s)(i \<mapsto> x)
      \<and> map message_payload (mt_outbox s') = map message_payload (mt_outbox s) @ [tracking_payload (snapshot_event x)]"
    by (simp add: message_payload_def)
qed (simp add: mem_tracking_ok_def mem_tracking_get_def)

definition is_tracking_row :: "uuid \<times> OutboxRow \<Rightarrow> bool" where
  "is_tracking_row r \<longleftrightarrow> ob_event_type (snd r) = ''tracking.position_updated''"

definition sql_tracking_sent :: "tracking_tables \<Rightarrow> json_object list" where
  "sql_tracking_sent db = map (ob_payload \<circ> snd) (filter is_tracking_row (t_outbox (tk_tables db)))"

definition sql_tracking_ok :: "tracking_tables \<Rightarrow> bool" where
  "sql_tracking_ok db \<longleftrightarrow> (\<forall>i r. dict_get (tk_snapshots db) i = Some r \<longrightarrow> tr_order_id r = i)"

lemma upsert_Some:
  assumes "sql_tracking_ok db" "tr_sequence row = 1" "upsert_snapshot row db = (Inr (Some new), db')"
  shows "db' = db \<lparr> tk_snapshots := dict_set (tr_order_id row) new (tk_snapshots db) \<rparr>"
    "sql_snapshot new = next_snapshot (sql_tracking_get (tr_order_id row) db) (tr_order_id row) (tr_tenant_id row)
       (tr_order_status row) (tr_latitude row) (tr_longitude row) (tr_client_event_id row) (tr_recorded_at row)"
    "\<forall>c. sql_tracking_get (tr_order_id row) db = Some c \<longrightarrow> ts_client_event_id c \<noteq> tr_client_event_id row"
    "tr_order_id new = tr_order_id row"
  using assms
  by (auto simp: upsert_snapshot_def sql_tracking_get_def next_snapshot_def sql_snapshot_def Let_def sql_tracking_ok_def
      split: option.splits if_splits)

lemma upsert_None: "upsert_snapshot row db = (Inr None, db') \<Longrightarrow> db' = db"
  by (auto simp: upsert_snapshot_def Let_def split: option.splits if_splits)

lemma add_outbox_done:
  assumes "add_outbox r db = (Inr (), db')" "is_tracking_row (ob_id r, r)"
  shows "tk_snapshots db' = tk_snapshots db" "sql_tracking_sent db' = sql_tracking_sent db @ [ob_payload r]"
  using assms
  by (auto simp: add_outbox_def insert_outbox_row_def sql_tracking_sent_def dict_set_new map_of_eq_None_iff
      split: if_splits)

interpretation sql_tracking: tracking_port sql_tracking_record "\<lambda>s i. sql_tracking_get i s"
  sql_tracking_sent sql_tracking_ok
proof
  fix s i t st la lo ce tm x s'
  assume "sql_tracking_record i t st la lo ce tm s = (Inr (x, False), s')"
  then show "s' = s \<and> sql_tracking_get i s = Some x \<and> ts_client_event_id x = ce"
    by (auto simp: sql_tracking_record_def sql_tracking_get_def sql_snapshot_def Let_def
        split: option.splits if_splits dest!: upsert_None)
next
  fix s i t st la lo ce tm x s'
  assume ok: "sql_tracking_ok s" and call: "sql_tracking_record i t st la lo ce tm s = (Inr (x, True), s')"
  let ?row = "\<lparr> tr_order_id = i, tr_tenant_id = t, tr_latitude = la, tr_longitude = lo, tr_sequence = 1,
    tr_order_status = st, tr_recorded_at = tm, tr_client_event_id = ce \<rparr>"
  obtain new s1 where up: "upsert_snapshot ?row s = (Inr (Some new), s1)" and x: "x = sql_snapshot new"
    and out: "add_outbox \<lparr> ob_id = ce, ob_event_type = ''tracking.position_updated'',
      ob_payload = tracking_payload (snapshot_event x), ob_legacy_processed_at = None,
      ob_created_at = tm, ob_published_at = None \<rparr> s1 = (Inr (), s')"
    using call by (auto simp: sql_tracking_record_def Let_def split: option.splits if_splits)
  note u = upsert_Some [OF ok _ up]
  note o = add_outbox_done [OF out]
  have "tk_snapshots s' = dict_set i new (tk_snapshots s)" using u(1) o(1) by (simp add: is_tracking_row_def)
  moreover have "sql_tracking_sent s1 = sql_tracking_sent s" using u(1) by (simp add: sql_tracking_sent_def)
  ultimately show "sql_tracking_ok s' \<and> x = next_snapshot (sql_tracking_get i s) i t st la lo ce tm
      \<and> (\<forall>c. sql_tracking_get i s = Some c \<longrightarrow> ts_client_event_id c \<noteq> ce)
      \<and> (\<lambda>i. sql_tracking_get i s') = (\<lambda>i. sql_tracking_get i s)(i \<mapsto> x)
      \<and> sql_tracking_sent s' = sql_tracking_sent s @ [tracking_payload (snapshot_event x)]"
    using u(2-4) o(2) ok x by (auto simp: sql_tracking_ok_def sql_tracking_get_def is_tracking_row_def fun_eq_iff)
qed (auto simp: sql_tracking_ok_def sql_tracking_get_def sql_snapshot_def)

section \<open>Properties\<close>

text \<open>The announced positions of one order are numbered from 1 without gap, and the stored one is the last.\<close>

definition numbered :: "uuid \<Rightarrow> TrackingEvent list \<Rightarrow> TrackingSnapshot option \<Rightarrow> bool" where
  "numbered i es stored \<longleftrightarrow>
     (let own = filter (\<lambda>e. te_order_id e = i) es
      in map te_sequence own = map int [1..<Suc (length own)]
         \<and> map_option snapshot_event stored = (if own = [] then None else Some (last own)))"

text \<open>
  C14. After any sequence of completed \<open>record\<close> calls, retries included, on a store with no
  position of order \<open>i\<close>, the positions announced for the order are numbered 1, 2, 3 and so
  on without gap or repetition, the stored snapshot is the last of them, and the outbox
  gained exactly their messages. This holds for the in-memory and for the SQL adapter.
\<close>

theorem tracking_gapless:
  "(recorded mem_tracking_record s es s' \<and> mem_tracking_ok s \<and> mem_tracking_get i s = None \<longrightarrow>
      numbered i es (mem_tracking_get i s')
      \<and> map message_payload (mt_outbox s') = map message_payload (mt_outbox s) @ map tracking_payload es)
   \<and> (recorded sql_tracking_record db es db' \<and> sql_tracking_ok db \<and> sql_tracking_get i db = None \<longrightarrow>
      numbered i es (sql_tracking_get i db')
      \<and> sql_tracking_sent db' = sql_tracking_sent db @ map tracking_payload es)"
proof (intro conjI impI; elim conjE)
  assume "recorded mem_tracking_record s es s'" "mem_tracking_ok s" "mem_tracking_get i s = None"
  from mem_tracking.recorded_gapless [OF this]
  show "numbered i es (mem_tracking_get i s')"
    "map message_payload (mt_outbox s') = map message_payload (mt_outbox s) @ map tracking_payload es"
    by (simp_all add: numbered_def Let_def)
next
  assume "recorded sql_tracking_record db es db'" "sql_tracking_ok db" "sql_tracking_get i db = None"
  from sql_tracking.recorded_gapless [OF this]
  show "numbered i es (sql_tracking_get i db')" "sql_tracking_sent db' = sql_tracking_sent db @ map tracking_payload es"
    by (simp_all add: numbered_def Let_def)
qed

definition no_positions :: InMemoryTrackingSnapshotRepository where
  "no_positions = \<lparr> mt_snapshots = [], mt_event_orders = [], mt_outbox = [] \<rparr>"

definition sample_position :: "int \<Rightarrow> uuid \<Rightarrow> TrackingSnapshot" where
  "sample_position n ce = \<lparr> ts_order_id = 1, ts_tenant_id = DEFAULT_TENANT_ID, ts_status = ''assigned'', ts_sequence = n,
     ts_latitude = 55, ts_longitude = 37, ts_recorded_at = 5, ts_client_event_id = ce \<rparr>"

lemma sample_recorded:
  "\<exists>s'. recorded mem_tracking_record no_positions [snapshot_event (sample_position 1 8), snapshot_event (sample_position 2 9)] s'"
proof -
  let ?rec = "\<lambda>ce. mem_tracking_record 1 DEFAULT_TENANT_ID ''assigned'' 55 37 ce 5"
  obtain s1 where s1: "?rec 8 no_positions = (Inr (sample_position 1 8, True), s1)"
    "?rec 9 s1 = (Inr (sample_position 2 9, True), snd (?rec 9 s1))"
    by (simp add: mem_tracking_record_def no_positions_def sample_position_def Let_def)
  have "recorded mem_tracking_record no_positions ([] @ [snapshot_event (sample_position 1 8)]) s1"
    by (rule recorded.advanced [where store_pos = mem_tracking_record, OF recorded.start s1(1)])
  from recorded.advanced [where store_pos = mem_tracking_record, OF this s1(2)]
  show ?thesis by auto
qed

theorem tracking_gapless_witness:
  "\<exists>s'. recorded mem_tracking_record no_positions [snapshot_event (sample_position 1 8), snapshot_event (sample_position 2 9)] s'
     \<and> mem_tracking_get 1 s' \<noteq> None"
proof -
  from sample_recorded obtain s' where s': "recorded mem_tracking_record no_positions
      [snapshot_event (sample_position 1 8), snapshot_event (sample_position 2 9)] s'" by blast
  moreover have "mem_tracking_ok no_positions" "mem_tracking_get 1 no_positions = None"
    by (simp_all add: mem_tracking_ok_def mem_tracking_get_def no_positions_def)
  moreover have "te_order_id (snapshot_event (sample_position n ce)) = 1" for n ce
    by (simp add: snapshot_event_def sample_position_def)
  ultimately show ?thesis using tracking_gapless [of no_positions _ s' 1] by (fastforce simp: numbered_def Let_def)
qed

text \<open>
  Retries of a position: repeating the client event of the stored snapshot returns that
  snapshot and changes nothing in either adapter. Repeating an \<^emph>\<open>older\<close> client event of the
  order, whose message is still in the outbox, is stored as a new position by the in-memory
  adapter, with the next number, while the SQL adapter fails on the primary key of the
  outbox.
\<close>

theorem tracking_retry:
  assumes "sql_tracking_ok db" "sql_tracking_get i db = Some c" "ts_tenant_id c = t"
    "length st \<le> 32" "-90 \<le> la" "la \<le> 90" "-180 \<le> lo" "lo \<le> 180"
  shows "(ts_client_event_id c = ce \<longrightarrow> sql_tracking_record i t st la lo ce tm db = (Inr (c, False), db))
    \<and> (ts_client_event_id c \<noteq> ce \<and> 0 < ts_sequence c \<and> ts_sequence c < 2147483647
        \<and> \<not> event_id_used db i ce \<and> dict_get (t_outbox (tk_tables db)) ce \<noteq> None \<longrightarrow>
        transactional (sql_tracking_record i t st la lo ce tm) db = (Inl (IntegrityError ''outbox_pkey''), db))
    \<and> (mem_tracking_get i s = Some c \<and> dict_get (mt_event_orders s) ce = Some i \<longrightarrow>
        (if ts_client_event_id c = ce then mem_tracking_record i t st la lo ce tm s = (Inr (c, False), s)
         else fst (mem_tracking_record i t st la lo ce tm s) = Inr (next_snapshot (Some c) i t st la lo ce tm, True)))"
proof -
  from assms(2) obtain row where row: "dict_get (tk_snapshots db) i = Some row" "c = sql_snapshot row"
    by (auto simp: sql_tracking_get_def)
  then have "tr_order_id row = i" using assms(1) by (simp add: sql_tracking_ok_def)
  with row assms(3-) show ?thesis
    by (auto simp: sql_tracking_record_def andThen_def upsert_snapshot_def snapshot_row_error_def int4_def
        sql_snapshot_def Let_def transactional_def add_outbox_def insert_outbox_row_def
        mem_tracking_record_def mem_tracking_get_def next_snapshot_def)
qed

definition sample_positions :: tracking_tables where
  "sample_positions =
     \<lparr> tk_tables = empty_tables \<lparr> t_outbox := [(8, \<lparr> ob_id = 8, ob_event_type = ''tracking.position_updated'',
          ob_payload = tracking_payload (snapshot_event (sample_position 1 8)), ob_legacy_processed_at = None,
          ob_created_at = 5, ob_published_at = None \<rparr>)] \<rparr>,
       tk_snapshots = [(1, \<lparr> tr_order_id = 1, tr_tenant_id = DEFAULT_TENANT_ID, tr_latitude = 55, tr_longitude = 37,
          tr_sequence = 2, tr_order_status = ''assigned'', tr_recorded_at = 5, tr_client_event_id = 9 \<rparr>)] \<rparr>"

theorem tracking_retry_witness:
  "sql_tracking_record 1 DEFAULT_TENANT_ID ''assigned'' 50 30 9 6 sample_positions
     = (Inr (sample_position 2 9, False), sample_positions)
   \<and> transactional (sql_tracking_record 1 DEFAULT_TENANT_ID ''assigned'' 50 30 8 6) sample_positions
     = (Inl (IntegrityError ''outbox_pkey''), sample_positions)"
proof -
  have "sql_tracking_ok sample_positions" "sql_tracking_get 1 sample_positions = Some (sample_position 2 9)"
    "ts_tenant_id (sample_position 2 9) = DEFAULT_TENANT_ID"
    by (simp_all add: sample_positions_def sql_tracking_ok_def sql_tracking_get_def sql_snapshot_def sample_position_def)
  note retry = tracking_retry [OF this, of "''assigned''" 50 30, where tm = 6]
  show ?thesis using retry [where ce = 9] retry [where ce = 8]
    by (simp add: sample_position_def event_id_used_def sample_positions_def)
qed

end
