(* ===== verification/Tracking_Live.thy ===== *)
theory Tracking_Live
  imports Tracking "HOL-Library.Sublist"
begin

text \<open>
  The live half of \<open>tracking.py\<close>: \<open>TrackingHub\<close> with its bounded queues, \<open>encode_sse\<close> and
  \<open>order_event_stream\<close>. A queue object is a number and the hub's state holds the contents of
  every queue, so that a publisher and a reader share it; \<open>follows\<close> interleaves the
  publications with the reads of one stream.
\<close>

section \<open>Queues\<close>

text \<open>\<open>asyncio.Queue(maxsize)\<close>: a size of zero or less means no bound.\<close>

definition queue_full :: "int \<Rightarrow> 'a list \<Rightarrow> bool" where
  "queue_full maxsize xs \<longleftrightarrow> 0 < maxsize \<and> maxsize \<le> int (length xs)"

definition get_nowait :: "'a list \<Rightarrow> 'a list result" where
  "get_nowait xs = (case xs of [] \<Rightarrow> Inl (OtherException ''QueueEmpty'') | _ # rest \<Rightarrow> Inr rest)"

definition put_nowait :: "int \<Rightarrow> 'a \<Rightarrow> 'a list \<Rightarrow> 'a list result" where
  "put_nowait maxsize x xs =
     (if queue_full maxsize xs then Inl (OtherException ''QueueFull'') else Inr (xs @ [x]))"

section \<open>The hub\<close>

record TrackingHub =
  hub_queue_size :: int
  hub_subscribers :: "(uuid \<times> nat list) list"
  hub_queues :: "(nat \<times> TrackingEvent list) list"
  hub_dropped_updates :: nat
  hub_next_queue :: nat

definition tracking_hub :: "int \<Rightarrow> TrackingHub" where
  "tracking_hub queue_size =
     \<lparr> hub_queue_size = queue_size, hub_subscribers = [], hub_queues = [], hub_dropped_updates = 0,
       hub_next_queue = 0 \<rparr>"

definition subscribers_of :: "TrackingHub \<Rightarrow> uuid \<Rightarrow> nat list" where
  "subscribers_of h order_id = (case dict_get (hub_subscribers h) order_id of None \<Rightarrow> [] | Some qs \<Rightarrow> qs)"

definition queue_of :: "TrackingHub \<Rightarrow> nat \<Rightarrow> TrackingEvent list" where
  "queue_of h q = (case dict_get (hub_queues h) q of None \<Rightarrow> [] | Some xs \<Rightarrow> xs)"

definition hub_subscribe :: "uuid \<Rightarrow> TrackingHub \<Rightarrow> nat \<times> TrackingHub" where
  "hub_subscribe order_id h =
     (let q = hub_next_queue h
      in (q, h \<lparr> hub_subscribers := dict_set order_id (subscribers_of h order_id @ [q]) (hub_subscribers h),
                 hub_queues := dict_set q [] (hub_queues h), hub_next_queue := q + 1 \<rparr>))"

definition hub_unsubscribe :: "uuid \<Rightarrow> nat \<Rightarrow> TrackingHub \<Rightarrow> TrackingHub" where
  "hub_unsubscribe order_id queue h =
     (case dict_get (hub_subscribers h) order_id of
        None \<Rightarrow> h
      | Some qs \<Rightarrow>
          let rest = filter (\<lambda>q. q \<noteq> queue) qs
          in if rest = [] then h \<lparr> hub_subscribers := dict_pop order_id (hub_subscribers h) \<rparr>
             else h \<lparr> hub_subscribers := dict_set order_id rest (hub_subscribers h) \<rparr>)"

definition subscriber_count :: "uuid \<Rightarrow> TrackingHub \<Rightarrow> nat" where
  "subscriber_count order_id h = length (subscribers_of h order_id)"

fun publish_to :: "TrackingEvent \<Rightarrow> nat list \<Rightarrow> (TrackingHub, unit) action" where
  "publish_to event [] h = (Inr (), h)"
| "publish_to event (q # qs) h =
     (if queue_full (hub_queue_size h) (queue_of h q)
      then (case get_nowait (queue_of h q) of
              Inl e \<Rightarrow> (Inl e, h)
            | Inr rest \<Rightarrow>
                let h1 = h \<lparr> hub_queues := dict_set q rest (hub_queues h),
                             hub_dropped_updates := hub_dropped_updates h + 1 \<rparr>
                in (case put_nowait (hub_queue_size h) event rest of
                      Inl e \<Rightarrow> (Inl e, h1)
                    | Inr xs \<Rightarrow> publish_to event qs (h1 \<lparr> hub_queues := dict_set q xs (hub_queues h1) \<rparr>)))
      else (case put_nowait (hub_queue_size h) event (queue_of h q) of
              Inl e \<Rightarrow> (Inl e, h)
            | Inr xs \<Rightarrow> publish_to event qs (h \<lparr> hub_queues := dict_set q xs (hub_queues h) \<rparr>)))"

definition hub_publish :: "TrackingEvent \<Rightarrow> (TrackingHub, unit) action" where
  "hub_publish event h = publish_to event (subscribers_of h (te_order_id event)) h"

section \<open>Server-sent events\<close>

text \<open>\<open>str.encode("utf-8")\<close> of the code points 0 to 255; a byte is a character of the result.\<close>

definition utf8_char :: "char \<Rightarrow> string" where
  "utf8_char c =
     (if code c < 128 then [c] else [char_of (192 + code c div 64), char_of (128 + code c mod 64)])"

definition utf8_encode :: "string \<Rightarrow> string" where
  "utf8_encode s = concat (map utf8_char s)"

definition newline :: char where
  "newline = CHR 0x0A"

definition encode_sse :: "(real \<Rightarrow> string) \<Rightarrow> string \<Rightarrow> int \<Rightarrow> json_object \<Rightarrow> string" where
  "encode_sse float_repr event event_id data =
     (let payload = json_dumps float_repr (JObj data)
      in utf8_encode (''id: '' @ dec_int event_id @ [newline] @ ''event: '' @ event @ [newline]
           @ ''data: '' @ payload @ [newline, newline]))"

section \<open>The event stream of one client\<close>

record event_stream =
  es_order_id :: uuid
  es_queue :: nat
  es_floor :: int

text \<open>Up to the first \<open>yield\<close>: the subscription, the floor and the snapshot frame.\<close>

definition stream_start ::
  "(real \<Rightarrow> string) \<Rightarrow> TrackingEvent \<Rightarrow> int \<Rightarrow> TrackingHub \<Rightarrow> string \<times> event_stream \<times> TrackingHub" where
  "stream_start float_repr snapshot last_sequence hub =
     (let (queue, hub1) = hub_subscribe (te_order_id snapshot) hub
      in (encode_sse float_repr ''snapshot'' (te_sequence snapshot) (tracking_payload snapshot),
          \<lparr> es_order_id = te_order_id snapshot, es_queue = queue,
            es_floor = max last_sequence (te_sequence snapshot) \<rparr>, hub1))"

text \<open>
  One turn of the \<open>while True\<close> loop up to its next \<open>yield\<close>, or to the \<open>queue.get()\<close> that has
  to wait: updates at or below the floor are skipped.
\<close>

fun stream_poll :: "int \<Rightarrow> TrackingEvent list \<Rightarrow> TrackingEvent option \<times> int \<times> TrackingEvent list" where
  "stream_poll floor_seq [] = (None, floor_seq, [])"
| "stream_poll floor_seq (update # rest) =
     (if te_sequence update \<le> floor_seq then stream_poll floor_seq rest
      else (Some update, te_sequence update, rest))"

definition stream_next :: "event_stream \<Rightarrow> TrackingHub \<Rightarrow> TrackingEvent option \<times> event_stream \<times> TrackingHub" where
  "stream_next st hub =
     (case stream_poll (es_floor st) (queue_of hub (es_queue st)) of
        (u, floor_seq, rest) \<Rightarrow>
          (u, st \<lparr> es_floor := floor_seq \<rparr>, hub \<lparr> hub_queues := dict_set (es_queue st) rest (hub_queues hub) \<rparr>))"

definition update_frame :: "(real \<Rightarrow> string) \<Rightarrow> TrackingEvent \<Rightarrow> string" where
  "update_frame float_repr update =
     encode_sse float_repr ''tracking-position'' (te_sequence update) (tracking_payload update)"

definition stream_close :: "event_stream \<Rightarrow> TrackingHub \<Rightarrow> TrackingHub" where
  "stream_close st hub = hub_unsubscribe (es_order_id st) (es_queue st) hub"

text \<open>With \<open>follow=False\<close> the generator yields the snapshot and returns.\<close>

definition stream_once :: "(real \<Rightarrow> string) \<Rightarrow> TrackingEvent \<Rightarrow> int \<Rightarrow> TrackingHub \<Rightarrow> string list \<times> TrackingHub" where
  "stream_once float_repr snapshot last_sequence hub =
     (case stream_start float_repr snapshot last_sequence hub of
        (frame, st, hub1) \<Rightarrow> ([frame], stream_close st hub1))"

section \<open>The hub's invariant\<close>

definition subs_ok :: "nat \<Rightarrow> (uuid \<Rightarrow> nat list) \<Rightarrow> bool" where
  "subs_ok n subs \<longleftrightarrow>
     (\<forall>i. distinct (subs i)) \<and> (\<forall>i q. q \<in> set (subs i) \<longrightarrow> q < n)
     \<and> (\<forall>i j q. q \<in> set (subs i) \<longrightarrow> q \<in> set (subs j) \<longrightarrow> i = j)"

lemma subs_ok_D:
  assumes "subs_ok n subs"
  shows "distinct (subs i)" "q \<in> set (subs i) \<Longrightarrow> q < n"
    "q \<in> set (subs i) \<Longrightarrow> q \<in> set (subs j) \<Longrightarrow> i = j"
  using assms by (simp_all add: subs_ok_def)

lemma subs_ok_add:
  assumes "subs_ok n subs"
  shows "subs_ok (Suc n) (subs(i := subs i @ [n]))"
  unfolding subs_ok_def
proof (intro conjI allI impI)
  fix j k q
  assume jk: "q \<in> set ((subs(i := subs i @ [n])) j)" "q \<in> set ((subs(i := subs i @ [n])) k)"
  show "j = k"
  proof (cases "q = n")
    case True
    with jk show ?thesis using subs_ok_D(2) [OF assms, of n] by (auto split: if_splits)
  next
    case False
    with jk have "q \<in> set (subs j)" "q \<in> set (subs k)" by (auto split: if_splits)
    then show ?thesis by (rule subs_ok_D(3) [OF assms])
  qed
qed (use subs_ok_D [OF assms] in \<open>auto split: if_splits intro: less_SucI\<close>)

lemma subs_ok_remove:
  assumes "subs_ok n subs"
  shows "subs_ok n (subs(i := filter P (subs i)))"
  unfolding subs_ok_def
proof (intro conjI allI impI)
  fix j k q
  assume "q \<in> set ((subs(i := filter P (subs i))) j)" "q \<in> set ((subs(i := filter P (subs i))) k)"
  then have "q \<in> set (subs j)" "q \<in> set (subs k)" by (auto split: if_splits)
  then show "j = k" by (rule subs_ok_D(3) [OF assms])
qed (use subs_ok_D [OF assms] in \<open>auto split: if_splits\<close>)

definition hub_ok :: "TrackingHub \<Rightarrow> bool" where
  "hub_ok h \<longleftrightarrow>
     (\<forall>q \<in> fst ` set (hub_queues h). q < hub_next_queue h)
     \<and> (0 < hub_queue_size h \<longrightarrow> (\<forall>q. int (length (queue_of h q)) \<le> hub_queue_size h))
     \<and> subs_ok (hub_next_queue h) (subscribers_of h)"

text \<open>The newest events a queue keeps.\<close>

definition keep_newest :: "int \<Rightarrow> 'a list \<Rightarrow> 'a list" where
  "keep_newest n xs = (if 0 < n then drop (length xs - nat n) xs else xs)"

lemma dict_keys_set: "fst ` set (dict_set k v d) = insert k (fst ` set d)"
  by (induction d) auto

lemma hub_simps [simp]:
  "subscribers_of (h \<lparr> hub_queues := qs \<rparr>) = subscribers_of h"
  "subscribers_of (h \<lparr> hub_dropped_updates := n \<rparr>) = subscribers_of h"
  "queue_of (h \<lparr> hub_dropped_updates := n \<rparr>) = queue_of h"
  "queue_of (h \<lparr> hub_subscribers := ss \<rparr>) = queue_of h"
  "queue_of (h \<lparr> hub_next_queue := n \<rparr>) = queue_of h"
  "queue_of (h \<lparr> hub_queues := dict_set q xs (hub_queues h) \<rparr>) = (queue_of h)(q := xs)"
  by (simp_all add: subscribers_of_def queue_of_def fun_eq_iff)

text \<open>One subscriber: the oldest event gives way when the queue is full, and nothing raises.\<close>

lemma publish_to_Cons:
  assumes "0 < hub_queue_size h \<longrightarrow> int (length (queue_of h q)) \<le> hub_queue_size h"
  shows "\<exists>h1. publish_to e (q # qs) h = publish_to e qs h1
    \<and> queue_of h1 = (queue_of h)(q := keep_newest (hub_queue_size h) (queue_of h q @ [e]))
    \<and> hub_dropped_updates h1 = hub_dropped_updates h + (if queue_full (hub_queue_size h) (queue_of h q) then 1 else 0)
    \<and> hub_subscribers h1 = hub_subscribers h \<and> hub_queue_size h1 = hub_queue_size h
    \<and> hub_next_queue h1 = hub_next_queue h \<and> fst ` set (hub_queues h1) = insert q (fst ` set (hub_queues h))"
proof (cases "queue_full (hub_queue_size h) (queue_of h q)")
  case True
  then obtain x rest where q: "queue_of h q = x # rest" by (cases "queue_of h q") (auto simp: queue_full_def)
  let ?h1 = "h \<lparr> hub_queues := dict_set q rest (hub_queues h), hub_dropped_updates := hub_dropped_updates h + 1 \<rparr>"
  let ?h2 = "?h1 \<lparr> hub_queues := dict_set q (rest @ [e]) (hub_queues ?h1) \<rparr>"
  have n: "hub_queue_size h = 1 + int (length rest)"
    using True assms by (auto simp: queue_full_def q)
  have "publish_to e (q # qs) h = publish_to e qs ?h2"
    using True n by (simp add: q get_nowait_def put_nowait_def queue_full_def Let_def del: hub_simps(6))
  moreover have "keep_newest (hub_queue_size h) (queue_of h q @ [e]) = rest @ [e]"
    using n by (simp add: keep_newest_def q nat_add_distrib)
  moreover have "queue_of ?h2 = (queue_of h)(q := rest @ [e])"
    by (simp add: queue_of_def fun_eq_iff)
  moreover have "fst ` set (hub_queues ?h2) = insert q (fst ` set (hub_queues h))"
    by (simp add: dict_keys_set)
  ultimately show ?thesis using True by (intro exI [of _ ?h2]) simp
next
  case False
  let ?h1 = "h \<lparr> hub_queues := dict_set q (queue_of h q @ [e]) (hub_queues h) \<rparr>"
  have "publish_to e (q # qs) h = publish_to e qs ?h1" using False by (simp add: put_nowait_def)
  moreover have "keep_newest (hub_queue_size h) (queue_of h q @ [e]) = queue_of h q @ [e]"
    using False by (auto simp: keep_newest_def queue_full_def)
  ultimately show ?thesis using False by (intro exI [of _ ?h1]) (simp add: dict_keys_set)
qed

lemma length_keep_newest: "0 < n \<Longrightarrow> int (length (keep_newest n xs)) \<le> n"
  by (simp add: keep_newest_def)

lemma publish_to_done:
  assumes "distinct qs" "0 < hub_queue_size h \<longrightarrow> (\<forall>q. int (length (queue_of h q)) \<le> hub_queue_size h)"
  shows "\<exists>h'. publish_to e qs h = (Inr (), h')
    \<and> queue_of h' = (\<lambda>q. if q \<in> set qs then keep_newest (hub_queue_size h) (queue_of h q @ [e]) else queue_of h q)
    \<and> hub_dropped_updates h' = hub_dropped_updates h
        + length (filter (\<lambda>q. queue_full (hub_queue_size h) (queue_of h q)) qs)
    \<and> hub_subscribers h' = hub_subscribers h \<and> hub_queue_size h' = hub_queue_size h
    \<and> hub_next_queue h' = hub_next_queue h
    \<and> fst ` set (hub_queues h') = fst ` set (hub_queues h) \<union> set qs"
  using assms
proof (induction qs arbitrary: h)
  case (Cons q qs)
  obtain h1 where step: "publish_to e (q # qs) h = publish_to e qs h1"
    and h1: "queue_of h1 = (queue_of h)(q := keep_newest (hub_queue_size h) (queue_of h q @ [e]))"
      "hub_dropped_updates h1 = hub_dropped_updates h + (if queue_full (hub_queue_size h) (queue_of h q) then 1 else 0)"
      "hub_subscribers h1 = hub_subscribers h" "hub_queue_size h1 = hub_queue_size h"
      "hub_next_queue h1 = hub_next_queue h" "fst ` set (hub_queues h1) = insert q (fst ` set (hub_queues h))"
    using publish_to_Cons [of h q e qs] Cons.prems(2) by auto
  have "0 < hub_queue_size h1 \<longrightarrow> (\<forall>q. int (length (queue_of h1 q)) \<le> hub_queue_size h1)"
    using Cons.prems(2) h1(1,4) length_keep_newest by auto
  from Cons.IH [OF _ this] Cons.prems(1) obtain h' where "publish_to e qs h1 = (Inr (), h')"
    and h': "queue_of h' = (\<lambda>q. if q \<in> set qs then keep_newest (hub_queue_size h1) (queue_of h1 q @ [e]) else queue_of h1 q)"
      "hub_dropped_updates h' = hub_dropped_updates h1
        + length (filter (\<lambda>q. queue_full (hub_queue_size h1) (queue_of h1 q)) qs)"
      "hub_subscribers h' = hub_subscribers h1" "hub_queue_size h' = hub_queue_size h1"
      "hub_next_queue h' = hub_next_queue h1" "fst ` set (hub_queues h') = fst ` set (hub_queues h1) \<union> set qs"
    by auto
  moreover have "filter (\<lambda>p. queue_full (hub_queue_size h1) (queue_of h1 p)) qs
      = filter (\<lambda>p. queue_full (hub_queue_size h) (queue_of h p)) qs"
    using Cons.prems(1) h1(1,4) by (intro filter_cong) auto
  ultimately show ?case
    using Cons.prems(1) h1 step by (intro exI [of _ h']) (auto simp: fun_eq_iff)
qed simp

lemma hub_publish_done:
  assumes "hub_ok h"
  shows "\<exists>h'. hub_publish e h = (Inr (), h') \<and> hub_ok h'
    \<and> queue_of h' = (\<lambda>q. if q \<in> set (subscribers_of h (te_order_id e))
          then keep_newest (hub_queue_size h) (queue_of h q @ [e]) else queue_of h q)
    \<and> hub_dropped_updates h' = hub_dropped_updates h
        + length (filter (\<lambda>q. queue_full (hub_queue_size h) (queue_of h q)) (subscribers_of h (te_order_id e)))
    \<and> subscribers_of h' = subscribers_of h \<and> hub_queue_size h' = hub_queue_size h"
proof -
  have pre: "distinct (subscribers_of h (te_order_id e))"
    "0 < hub_queue_size h \<longrightarrow> (\<forall>q. int (length (queue_of h q)) \<le> hub_queue_size h)"
    using assms by (simp_all add: hub_ok_def subs_ok_def)
  from publish_to_done [OF pre, of e] obtain h' where h': "publish_to e (subscribers_of h (te_order_id e)) h = (Inr (), h')"
    "queue_of h' = (\<lambda>q. if q \<in> set (subscribers_of h (te_order_id e))
          then keep_newest (hub_queue_size h) (queue_of h q @ [e]) else queue_of h q)"
    "hub_dropped_updates h' = hub_dropped_updates h
        + length (filter (\<lambda>q. queue_full (hub_queue_size h) (queue_of h q)) (subscribers_of h (te_order_id e)))"
    "hub_subscribers h' = hub_subscribers h" "hub_queue_size h' = hub_queue_size h"
    "hub_next_queue h' = hub_next_queue h"
    "fst ` set (hub_queues h') = fst ` set (hub_queues h) \<union> set (subscribers_of h (te_order_id e))" by blast
  have subs: "subscribers_of h' = subscribers_of h" using h'(4) by (simp add: subscribers_of_def fun_eq_iff)
  have "hub_ok h'"
    using assms length_keep_newest subs_ok_D(2) [of "hub_next_queue h" "subscribers_of h" _ "te_order_id e"]
    unfolding hub_ok_def subs h'(2,5-7) by auto
  with h' subs show ?thesis by (simp add: hub_publish_def)
qed

lemma subscribe_new:
  assumes "hub_ok h" "hub_subscribe i h = (q, h')"
  shows "hub_ok h'" "queue_of h' q = []" "q \<in> set (subscribers_of h' i)"
    "\<And>p. p \<noteq> q \<Longrightarrow> queue_of h' p = queue_of h p" "hub_dropped_updates h' = hub_dropped_updates h"
    "subscribers_of h' = (subscribers_of h)(i := subscribers_of h i @ [q])" "hub_queue_size h' = hub_queue_size h"
    "q = hub_next_queue h"
proof -
  have h': "q = hub_next_queue h"
    "h' = h \<lparr> hub_subscribers := dict_set i (subscribers_of h i @ [q]) (hub_subscribers h),
              hub_queues := dict_set q [] (hub_queues h), hub_next_queue := q + 1 \<rparr>"
    using assms(2) by (auto simp: hub_subscribe_def Let_def)
  have qs: "queue_of h' = (queue_of h)(q := [])" by (simp add: h' queue_of_def fun_eq_iff)
  have ss: "subscribers_of h' = (subscribers_of h)(i := subscribers_of h i @ [q])"
    by (simp add: h' subscribers_of_def fun_eq_iff)
  have keys: "fst ` set (hub_queues h') = insert q (fst ` set (hub_queues h))"
    by (simp add: h' dict_keys_set)
  have "subs_ok (hub_next_queue h') (subscribers_of h')"
    using assms(1) subs_ok_add [of "hub_next_queue h" "subscribers_of h" i] unfolding ss by (simp add: h' hub_ok_def)
  then show "hub_ok h'"
    using assms(1) unfolding hub_ok_def qs keys by (auto simp: h' less_Suc_eq)
  show "queue_of h' q = []" "q \<in> set (subscribers_of h' i)" "\<And>p. p \<noteq> q \<Longrightarrow> queue_of h' p = queue_of h p"
    "hub_dropped_updates h' = hub_dropped_updates h" "hub_queue_size h' = hub_queue_size h"
    by (simp_all add: qs ss) (simp_all add: h')
  show "subscribers_of h' = (subscribers_of h)(i := subscribers_of h i @ [q])" by (rule ss)
  show "q = hub_next_queue h" by (rule h'(1))
qed

lemma unsubscribe_subscribers:
  "subscribers_of (hub_unsubscribe i q h) = (subscribers_of h)(i := filter (\<lambda>p. p \<noteq> q) (subscribers_of h i))"
  "queue_of (hub_unsubscribe i q h) = queue_of h"
  "hub_dropped_updates (hub_unsubscribe i q h) = hub_dropped_updates h"
  "hub_queue_size (hub_unsubscribe i q h) = hub_queue_size h"
  "hub_next_queue (hub_unsubscribe i q h) = hub_next_queue h"
  "hub_queues (hub_unsubscribe i q h) = hub_queues h"
  by (auto simp: hub_unsubscribe_def subscribers_of_def fun_eq_iff Let_def delete_conv' split: option.splits)

lemma unsubscribe_ok: "hub_ok h \<Longrightarrow> hub_ok (hub_unsubscribe i q h)"
  unfolding hub_ok_def unsubscribe_subscribers by (auto intro: subs_ok_remove)

section \<open>Interleaving of publications and reads\<close>

text \<open>
  The steps the process takes around one stream: somebody publishes, subscribes or
  unsubscribes another queue, or the stream is asked for its next frame. The two lists are
  what was published and what the stream yielded, in order.
\<close>

inductive follows ::
  "event_stream \<Rightarrow> TrackingHub \<Rightarrow> TrackingEvent list \<Rightarrow> TrackingEvent list \<Rightarrow> event_stream \<Rightarrow> TrackingHub \<Rightarrow> bool"
  for st0 :: event_stream and h0 :: TrackingHub where
  opened: "follows st0 h0 [] [] st0 h0"
| publish: "follows st0 h0 ps ys st h \<Longrightarrow> hub_publish e h = (Inr (), h') \<Longrightarrow> follows st0 h0 (ps @ [e]) ys st h'"
| yields: "follows st0 h0 ps ys st h \<Longrightarrow> stream_next st h = (Some u, st', h') \<Longrightarrow> follows st0 h0 ps (ys @ [u]) st' h'"
| waits: "follows st0 h0 ps ys st h \<Longrightarrow> stream_next st h = (None, st', h') \<Longrightarrow> follows st0 h0 ps ys st' h'"
| joined: "follows st0 h0 ps ys st h \<Longrightarrow> hub_subscribe i h = (q, h') \<Longrightarrow> follows st0 h0 ps ys st h'"
| left: "follows st0 h0 ps ys st h \<Longrightarrow> q \<noteq> es_queue st \<Longrightarrow> follows st0 h0 ps ys st (hub_unsubscribe i q h)"

text \<open>What a reader above \<open>floor\<close> lets through: the events that raise it.\<close>

fun climb :: "int \<Rightarrow> TrackingEvent list \<Rightarrow> TrackingEvent list" where
  "climb fl [] = []"
| "climb fl (e # es) = (if te_sequence e \<le> fl then climb fl es else e # climb (te_sequence e) es)"

definition floor_after :: "int \<Rightarrow> TrackingEvent list \<Rightarrow> int" where
  "floor_after fl ys = last (fl # map te_sequence ys)"

lemma climb_increasing:
  "sorted_wrt (<) (map te_sequence (climb fl es)) \<and> (\<forall>e \<in> set (climb fl es). fl < te_sequence e)"
proof (induction es arbitrary: fl)
  case (Cons e es)
  from Cons [of fl] Cons [of "te_sequence e"] show ?case by (auto intro: less_trans)
qed simp

lemma climb_all:
  "sorted_wrt (<) (map te_sequence es) \<Longrightarrow> \<forall>e \<in> set es. fl < te_sequence e \<Longrightarrow> climb fl es = es"
  by (induction es arbitrary: fl) auto

lemma climb_subset: "set (climb fl es) \<subseteq> set es"
  by (induction es arbitrary: fl) auto

lemma floor_after_Cons [simp]: "floor_after fl (e # ys) = floor_after (te_sequence e) ys"
  by (simp add: floor_after_def)

lemma climb_append: "climb fl (xs @ ys) = climb fl xs @ climb (floor_after fl (climb fl xs)) ys"
  by (induction xs arbitrary: fl) (auto simp: floor_after_def)

lemma stream_poll_split:
  assumes "stream_poll fl xs = (u, fl', rest)"
  shows "\<exists>taken. xs = taken @ rest \<and> climb fl taken = (case u of None \<Rightarrow> [] | Some x \<Rightarrow> [x])
    \<and> fl' = floor_after fl (case u of None \<Rightarrow> [] | Some x \<Rightarrow> [x])"
  using assms
proof (induction fl xs rule: stream_poll.induct)
  case (2 fl x xs)
  show ?case
  proof (cases "te_sequence x \<le> fl")
    case True
    with 2 obtain taken where "xs = taken @ rest" "climb fl taken = (case u of None \<Rightarrow> [] | Some x \<Rightarrow> [x])"
      "fl' = floor_after fl (case u of None \<Rightarrow> [] | Some x \<Rightarrow> [x])" by auto
    with True show ?thesis by (intro exI [of _ "x # taken"]) simp
  next
    case False
    with 2(2) show ?thesis by (intro exI [of _ "[x]"]) (auto simp: floor_after_def)
  qed
qed (simp add: floor_after_def)

text \<open>
  The invariant of a running stream: what it took from its queue and what still waits there
  is, up to dropped events, what was published for its order.
\<close>

definition in_step ::
  "event_stream \<Rightarrow> TrackingHub \<Rightarrow> TrackingEvent list \<Rightarrow> TrackingEvent list \<Rightarrow> event_stream \<Rightarrow> TrackingHub
   \<Rightarrow> TrackingEvent list \<Rightarrow> bool" where
  "in_step st0 h0 ps ys st h taken \<longleftrightarrow>
     (let q = es_queue st0; own = filter (\<lambda>e. te_order_id e = es_order_id st0) ps
      in hub_ok h \<and> es_order_id st = es_order_id st0 \<and> es_queue st = q
         \<and> q \<in> set (subscribers_of h (es_order_id st0))
         \<and> ys = climb (es_floor st0) taken \<and> es_floor st = floor_after (es_floor st0) ys
         \<and> subseq (taken @ queue_of h q) own \<and> hub_dropped_updates h0 \<le> hub_dropped_updates h
         \<and> (hub_dropped_updates h = hub_dropped_updates h0 \<longrightarrow> taken @ queue_of h q = own))"

lemma subseq_drop_mid: "subseq (xs @ ys) zs \<Longrightarrow> subseq (xs @ drop n ys @ [e]) (zs @ [e])"
  by (metis append.assoc list_emb_append_mono subseq_order.order_refl subseq_order.trans suffix_drop suffix_imp_subseq)

lemma in_step_publish:
  assumes "in_step st0 h0 ps ys st h taken" "hub_publish e h = (Inr (), h')"
  shows "in_step st0 h0 (ps @ [e]) ys st h' taken"
proof -
  let ?q = "es_queue st0" and ?own = "filter (\<lambda>e. te_order_id e = es_order_id st0)"
  note inv = assms(1) [unfolded in_step_def Let_def]
  from hub_publish_done [of h e] inv assms(2) have h': "hub_ok h'" "subscribers_of h' = subscribers_of h"
    "queue_of h' = (\<lambda>q. if q \<in> set (subscribers_of h (te_order_id e))
       then keep_newest (hub_queue_size h) (queue_of h q @ [e]) else queue_of h q)"
    "hub_dropped_updates h' = hub_dropped_updates h
       + length (filter (\<lambda>q. queue_full (hub_queue_size h) (queue_of h q)) (subscribers_of h (te_order_id e)))"
    by auto
  show ?thesis
  proof (cases "te_order_id e = es_order_id st0")
    case True
    then have q: "queue_of h' ?q = keep_newest (hub_queue_size h) (queue_of h ?q @ [e])" using inv h'(3) by simp
    have bound: "0 < hub_queue_size h \<longrightarrow> int (length (queue_of h ?q)) \<le> hub_queue_size h"
      using inv by (simp add: hub_ok_def)
    obtain n where n: "queue_of h' ?q = drop n (queue_of h ?q) @ [e]"
    proof (cases "0 < hub_queue_size h")
      case True
      with bound q show ?thesis
        by (intro that [of "length (queue_of h ?q @ [e]) - nat (hub_queue_size h)"]) (auto simp: keep_newest_def)
    next
      case False
      with q show ?thesis by (intro that [of 0]) (simp add: keep_newest_def)
    qed
    have "taken @ queue_of h' ?q = ?own (ps @ [e])" if "hub_dropped_updates h' = hub_dropped_updates h0"
    proof -
      have same: "hub_dropped_updates h' = hub_dropped_updates h" using that h'(4) inv by linarith
      then have "\<not> queue_full (hub_queue_size h) (queue_of h ?q)"
        using h'(4) inv True by (auto simp: filter_empty_conv)
      then have "queue_of h' ?q = queue_of h ?q @ [e]" using q by (auto simp: keep_newest_def queue_full_def)
      moreover have "taken @ queue_of h ?q = ?own ps" using inv same that by metis
      ultimately show ?thesis using True by simp
    qed
    with inv h' True n subseq_drop_mid [of taken "queue_of h ?q" "?own ps" n e]
    show ?thesis by (simp add: in_step_def Let_def)
  next
    case False
    then have "?q \<notin> set (subscribers_of h (te_order_id e))" using inv unfolding hub_ok_def by (metis subs_ok_D(3))
    with inv h' False show ?thesis by (auto simp: in_step_def Let_def)
  qed
qed

lemma hub_ok_take:
  assumes "hub_ok h" "q < hub_next_queue h" "length rest \<le> length (queue_of h q)"
  shows "hub_ok (h \<lparr> hub_queues := dict_set q rest (hub_queues h) \<rparr>)"
proof -
  have "int (length rest) \<le> hub_queue_size h" if "0 < hub_queue_size h"
    using that assms unfolding hub_ok_def by (meson of_nat_mono order_trans)
  with assms show ?thesis by (simp add: hub_ok_def dict_keys_set)
qed

lemma in_step_next:
  assumes "in_step st0 h0 ps ys st h taken" "stream_next st h = (u, st', h')"
  shows "\<exists>more. in_step st0 h0 ps (ys @ (case u of None \<Rightarrow> [] | Some x \<Rightarrow> [x])) st' h' (taken @ more)"
proof -
  let ?q = "es_queue st0"
  note inv = assms(1) [unfolded in_step_def Let_def]
  obtain rest where poll: "stream_poll (es_floor st) (queue_of h ?q) = (u, es_floor st', rest)"
    and st': "es_order_id st' = es_order_id st" "es_queue st' = es_queue st"
    and h': "h' = h \<lparr> hub_queues := dict_set ?q rest (hub_queues h) \<rparr>"
    using assms(2) inv by (auto simp: stream_next_def split: prod.splits)
  from stream_poll_split [OF poll] obtain more where more: "queue_of h ?q = more @ rest"
    "climb (es_floor st) more = (case u of None \<Rightarrow> [] | Some x \<Rightarrow> [x])"
    "es_floor st' = floor_after (es_floor st) (case u of None \<Rightarrow> [] | Some x \<Rightarrow> [x])" by blast
  have "?q < hub_next_queue h" using inv unfolding hub_ok_def by (metis subs_ok_D(2))
  moreover have "length rest \<le> length (queue_of h ?q)" using more(1) by simp
  ultimately have "hub_ok h'" unfolding h' using inv by (intro hub_ok_take) auto
  then show ?thesis
    using inv more st' by (intro exI [of _ more])
      (auto simp: in_step_def Let_def h' climb_append floor_after_def split: option.splits)
qed

lemma in_step_joined:
  assumes "in_step st0 h0 ps ys st h taken" "hub_subscribe i h = (q, h')"
  shows "in_step st0 h0 ps ys st h' taken"
proof -
  have ok: "hub_ok h" "es_queue st0 < hub_next_queue h"
    using assms(1) subs_ok_D(2) by (auto simp: in_step_def Let_def hub_ok_def)
  note new = subscribe_new [OF ok(1) assms(2)]
  with ok(2) have "es_queue st0 \<noteq> q" by auto
  with assms(1) ok new show ?thesis by (auto simp: in_step_def Let_def)
qed

lemma in_step_left:
  assumes "in_step st0 h0 ps ys st h taken" "q \<noteq> es_queue st0"
  shows "in_step st0 h0 ps ys st (hub_unsubscribe i q h) taken"
  using assms by (auto simp: in_step_def Let_def unsubscribe_subscribers unsubscribe_ok)

lemma follows_in_step:
  assumes "follows st0 h0 ps ys st h" "hub_ok h0" "queue_of h0 (es_queue st0) = []"
    "es_queue st0 \<in> set (subscribers_of h0 (es_order_id st0))"
  shows "\<exists>taken. in_step st0 h0 ps ys st h taken"
  using assms
proof (induction rule: follows.induct)
  case opened
  then show ?case by (intro exI [of _ "[]"]) (simp add: in_step_def floor_after_def)
next
  case (publish ps ys st h e h')
  then show ?case using in_step_publish by blast
next
  case (yields ps ys st h u st' h')
  then show ?case using in_step_next [of st0 h0 ps ys st h _ "Some u" st' h'] by fastforce
next
  case (waits ps ys st h st' h')
  then show ?case using in_step_next [of st0 h0 ps ys st h _ None st' h'] by fastforce
next
  case (joined ps ys st h i q h')
  then show ?case using in_step_joined by blast
next
  case (left ps ys st h q i)
  then obtain taken where inv: "in_step st0 h0 ps ys st h taken" by blast
  then have "q \<noteq> es_queue st0" using left.hyps(2) by (simp add: in_step_def Let_def)
  with inv show ?case using in_step_left by blast
qed

section \<open>Properties\<close>

text \<open>
  Backpressure: publishing never raises and never blocks; every subscriber of the
  event's order has the event at the end of its queue and keeps the newest
  \<open>queue_size\<close> events (all of them when the size is not positive), no other queue changes,
  and \<open>dropped_updates\<close> grows by the number of full queues. The bound on the queues is
  an invariant of publishing, subscribing and unsubscribing.
\<close>

theorem hub_backpressure:
  assumes "hub_ok h" "hub_publish e h = (r, h')" "hub_subscribe i h = (q, h1)"
  shows "r = Inr () \<and> hub_ok h' \<and> hub_ok h1 \<and> hub_ok (hub_unsubscribe j p h)
    \<and> (\<forall>q. queue_of h' q = (if q \<in> set (subscribers_of h (te_order_id e))
          then keep_newest (hub_queue_size h) (queue_of h q @ [e]) else queue_of h q))
    \<and> hub_dropped_updates h' = hub_dropped_updates h
        + length (filter (\<lambda>q. queue_full (hub_queue_size h) (queue_of h q)) (subscribers_of h (te_order_id e)))
    \<and> (0 < hub_queue_size h' \<longrightarrow> (\<forall>q. int (length (queue_of h' q)) \<le> hub_queue_size h'))
    \<and> subscriber_count i h1 = subscriber_count i h + 1"
proof -
  from hub_publish_done [OF assms(1), of e] assms(2) have h': "r = Inr ()" "hub_ok h'"
    "queue_of h' = (\<lambda>q. if q \<in> set (subscribers_of h (te_order_id e))
        then keep_newest (hub_queue_size h) (queue_of h q @ [e]) else queue_of h q)"
    "hub_dropped_updates h' = hub_dropped_updates h
        + length (filter (\<lambda>q. queue_full (hub_queue_size h) (queue_of h q)) (subscribers_of h (te_order_id e)))"
    by auto
  moreover have "0 < hub_queue_size h' \<longrightarrow> (\<forall>q. int (length (queue_of h' q)) \<le> hub_queue_size h')"
    using h'(2) by (simp add: hub_ok_def)
  moreover have "hub_ok h1" "subscriber_count i h1 = subscriber_count i h + 1"
    using subscribe_new [OF assms(1,3)] by (simp_all add: subscriber_count_def)
  ultimately show ?thesis using unsubscribe_ok [OF assms(1)] by simp
qed

lemma hub_ok_init: "hub_ok (tracking_hub n)"
  by (simp add: hub_ok_def subs_ok_def tracking_hub_def subscribers_of_def queue_of_def)

definition sample_event :: "int \<Rightarrow> TrackingEvent" where
  "sample_event n = \<lparr> te_order_id = 1, te_status = ''assigned'', te_sequence = n, te_latitude = None,
     te_longitude = None, te_recorded_at = None \<rparr>"

definition sample_hub :: TrackingHub where
  "sample_hub = snd (hub_publish (sample_event 2) (snd (hub_publish (sample_event 1)
     (snd (hub_subscribe 1 (tracking_hub 2))))))"

lemma sample_hub_ok: "hub_ok sample_hub"
proof -
  have ok: "hub_ok (snd (hub_publish e h))" if "hub_ok h" for e h
    using hub_publish_done [OF that, of e] by auto
  show ?thesis unfolding sample_hub_def
    by (intro ok subscribe_new(1) [OF hub_ok_init [of 2] prod.collapse [symmetric]])
qed

lemmas hub_eval = hub_publish_def hub_subscribe_def tracking_hub_def subscribers_of_def queue_of_def Let_def
  queue_full_def get_nowait_def put_nowait_def sample_event_def sample_hub_def

theorem hub_backpressure_witness:
  "queue_of (snd (hub_publish (sample_event 3) sample_hub)) 0 = [sample_event 2, sample_event 3]
   \<and> hub_dropped_updates (snd (hub_publish (sample_event 3) sample_hub)) = 1"
proof -
  have "hub_queue_size sample_hub = 2" "queue_of sample_hub 0 = [sample_event 1, sample_event 2]"
    "subscribers_of sample_hub (te_order_id (sample_event 3)) = [0]" "hub_dropped_updates sample_hub = 0"
    by (simp_all add: hub_eval)
  with hub_backpressure [OF sample_hub_ok prod.collapse [symmetric] prod.collapse [symmetric],
      where e = "sample_event 3" and i = 1]
  show ?thesis by (simp add: keep_newest_def queue_full_def)
qed

text \<open>
  C15. Delivery of a stream: whatever is published, and whoever joins or leaves in between, the
  updates an event stream yields after its snapshot have strictly increasing sequence numbers
  above both the client's last sequence and the snapshot's, and were published for its order
  after the subscription. If no update was dropped meanwhile and the order's updates were
  published in increasing order above the floor, then what was yielded and what waits in
  the queue are exactly the published updates: nothing is lost, duplicated or reordered.
\<close>

theorem stream_delivery:
  assumes "hub_ok hub" "stream_start fr snapshot last_sequence hub = (frame, st0, h0)"
    "follows st0 h0 ps ys st h" "own = filter (\<lambda>e. te_order_id e = te_order_id snapshot) ps"
  shows "sorted_wrt (<) (map te_sequence ys)
    \<and> (\<forall>e \<in> set ys. last_sequence < te_sequence e \<and> te_sequence snapshot < te_sequence e \<and> e \<in> set own)
    \<and> (hub_dropped_updates h = hub_dropped_updates hub \<and> sorted_wrt (<) (map te_sequence own)
        \<and> (\<forall>e \<in> set own. max last_sequence (te_sequence snapshot) < te_sequence e)
       \<longrightarrow> ys @ queue_of h (es_queue st) = own)"
proof -
  obtain q where q: "hub_subscribe (te_order_id snapshot) hub = (q, h0)"
    and st0: "es_order_id st0 = te_order_id snapshot" "es_queue st0 = q"
      "es_floor st0 = max last_sequence (te_sequence snapshot)"
    using assms(2) by (auto simp: stream_start_def Let_def split: prod.splits)
  note new = subscribe_new [OF assms(1) q]
  from follows_in_step [OF assms(3) new(1)] new st0 obtain taken where "in_step st0 h0 ps ys st h taken" by auto
  then have inv: "ys = climb (es_floor st0) taken" "subseq (taken @ queue_of h q) own" "es_queue st = q"
    "hub_dropped_updates h = hub_dropped_updates hub \<longrightarrow> taken @ queue_of h q = own"
    using st0 new(5) assms(4) by (auto simp: in_step_def Let_def)
  have "set taken \<subseteq> set own"
    using list_emb_set [OF inv(2)] by (metis UnCI set_append subsetI)
  then have seen: "e \<in> set own" if "e \<in> set ys" for e
    using that climb_subset [of "es_floor st0" taken] inv(1) by blast
  have "ys @ queue_of h (es_queue st) = own"
    if h: "hub_dropped_updates h = hub_dropped_updates hub" "sorted_wrt (<) (map te_sequence own)"
      "\<forall>e \<in> set own. max last_sequence (te_sequence snapshot) < te_sequence e"
  proof -
    have own: "taken @ queue_of h q = own" using inv(4) h(1) by blast
    have "climb (es_floor st0) taken = taken"
      using h(2,3) unfolding own [symmetric] st0(3) by (intro climb_all) (simp_all add: sorted_wrt_append)
    with own inv(1,3) show ?thesis by simp
  qed
  with climb_increasing [of "es_floor st0" taken, folded inv(1)] seen show ?thesis
    by (simp add: st0(3))
qed

theorem stream_delivery_witness:
  "\<exists>st h. follows st (snd (hub_subscribe 1 (tracking_hub 2))) [sample_event 3, sample_event 4] [sample_event 3]
     (st \<lparr> es_floor := 3 \<rparr>) h \<and> [sample_event 3] @ queue_of h 0 = [sample_event 3, sample_event 4]"
proof -
  define h0 where "h0 = snd (hub_subscribe 1 (tracking_hub 2))"
  define st0 where "st0 = \<lparr> es_order_id = 1, es_queue = 0, es_floor = 2 \<rparr>"
  define h1 where "h1 = snd (hub_publish (sample_event 3) h0)"
  define h2 where "h2 = snd (hub_publish (sample_event 4) h1)"
  define h3 where "h3 = snd (snd (stream_next st0 h2))"
  note defs = h3_def h2_def h1_def h0_def st0_def hub_eval stream_next_def
  have start: "stream_start (\<lambda>_. []) (sample_event 2) 0 (tracking_hub 2)
      = (encode_sse (\<lambda>_. []) ''snapshot'' 2 (tracking_payload (sample_event 2)), st0, h0)"
    by (simp add: defs stream_start_def)
  have "hub_publish (sample_event 3) h0 = (Inr (), h1)" "hub_publish (sample_event 4) h1 = (Inr (), h2)"
    "stream_next st0 h2 = (Some (sample_event 3), st0 \<lparr> es_floor := 3 \<rparr>, h3)"
    by (simp_all add: defs)
  with follows.opened follows.publish follows.yields
  have run: "follows st0 h0 ([] @ [sample_event 3] @ [sample_event 4]) ([] @ [sample_event 3]) (st0 \<lparr> es_floor := 3 \<rparr>) h3"
    by (metis append.assoc)
  have "hub_dropped_updates h3 = hub_dropped_updates (tracking_hub 2)" by (simp add: defs)
  with stream_delivery [OF hub_ok_init start run refl]
  have "[sample_event 3] @ queue_of h3 0 = [sample_event 3, sample_event 4]"
    by (simp add: sample_event_def st0_def)
  with run show ?thesis unfolding h0_def by auto
qed

text \<open>
  A frame cannot be broken open by its data: when the event name and Python's float
  representation contain no control character, the encoded frame splits at its newlines
  into exactly the \<open>id\<close>, \<open>event\<close> and \<open>data\<close> lines and the blank line that ends it, whatever
  text the payload carries.
\<close>

fun split_lines :: "string \<Rightarrow> string list" where
  "split_lines [] = [[]]"
| "split_lines (c # s) = (if c = newline then [] # split_lines s
     else (case split_lines s of [] \<Rightarrow> [[c]] | l # ls \<Rightarrow> (c # l) # ls))"

definition printable :: "string \<Rightarrow> bool" where
  "printable s \<longleftrightarrow> (\<forall>c \<in> set s. 32 \<le> code c)"

lemma split_lines_append:
  "newline \<notin> set s \<Longrightarrow> split_lines (s @ newline # r) = s # split_lines r"
  by (induction s) auto

lemma printable_simps [simp]:
  "printable []" "printable (c # s) \<longleftrightarrow> 32 \<le> code c \<and> printable s"
  "printable (s @ t) \<longleftrightarrow> printable s \<and> printable t"
  by (auto simp: printable_def)

lemma code_digit: "d < 16 \<Longrightarrow> 32 \<le> code (digit_char d)"
  by (simp add: code_digit_char)

lemma printable_escape: "printable (json_escape_char c)"
proof -
  have "printable (hex_fixed 4 (code c))"
    unfolding printable_def using set_hex_fixed code_digit by blast
  then show ?thesis by (auto simp: json_escape_char_def printable_def code_def)
qed

lemma printable_string: "printable (json_string s)"
  using printable_escape by (auto simp: json_string_def printable_def code_def)

lemma printable_dec_nat: "printable (dec_nat n)"
  by (induction n rule: dec_nat.induct) (subst dec_nat.simps, auto simp: code_digit)

lemma printable_dec_int: "printable (dec_int i)"
  using printable_dec_nat by (auto simp: dec_int_def code_def)

lemma printable_join: "\<forall>x \<in> set xs. printable x \<Longrightarrow> printable sep \<Longrightarrow> printable (join sep xs)"
  by (induction sep xs rule: join.induct) auto

lemma printable_dumps:
  assumes "\<And>x. printable (fr x)"
  shows "printable (json_dumps fr j)"
proof (induction j)
  case (JObj kvs)
  have "printable (json_dumps fr (snd kv))" if "kv \<in> set kvs" for kv
    using JObj that by (cases kv) auto
  then show ?case
    using printable_string by (auto simp: code_def intro!: printable_join)
qed (use assms printable_string printable_dec_int in \<open>auto simp: code_def\<close>)

lemma printable_utf8:
  assumes "printable s"
  shows "printable (utf8_encode s)"
proof -
  have "32 \<le> code (char_of (192 + code c div 64))" for c
  proof -
    have "code c div 64 < 4" by (simp add: code_def div_less_iff_less_mult)
    then show ?thesis by (simp add: code_def)
  qed
  with assms show ?thesis by (auto simp: printable_def utf8_encode_def utf8_char_def) (simp add: code_def)
qed

lemma utf8_simps [simp]:
  "utf8_encode (s @ t) = utf8_encode s @ utf8_encode t" "utf8_encode [] = []"
  "utf8_encode (c # s) = utf8_char c @ utf8_encode s"
  by (simp_all add: utf8_encode_def)

lemma printable_no_newline: "printable s \<Longrightarrow> newline \<notin> set s"
  by (auto simp: printable_def newline_def code_def)

theorem sse_frame:
  assumes "\<And>x. printable (float_repr x)" "printable event"
  shows "split_lines (encode_sse float_repr event event_id data)
    = [utf8_encode (''id: '' @ dec_int event_id), utf8_encode (''event: '' @ event),
       utf8_encode (''data: '' @ json_dumps float_repr (JObj data)), [], []]"
proof -
  have nl: "utf8_char newline = [newline]" by (simp add: utf8_char_def newline_def code_def)
  have "newline \<notin> set (utf8_encode (''id: '' @ dec_int event_id))"
    "newline \<notin> set (utf8_encode (''event: '' @ event))"
    "newline \<notin> set (utf8_encode (''data: '' @ json_dumps float_repr (JObj data)))"
    using assms printable_dec_int printable_dumps [of float_repr "JObj data"]
    by (auto intro!: printable_no_newline printable_utf8 simp: code_def simp del: utf8_simps json_dumps.simps)
  note lines = this [THEN split_lines_append]
  have "encode_sse float_repr event event_id data
      = utf8_encode (''id: '' @ dec_int event_id) @ newline # utf8_encode (''event: '' @ event) @ newline #
        utf8_encode (''data: '' @ json_dumps float_repr (JObj data)) @ newline # [newline]"
    by (simp add: encode_sse_def Let_def nl)
  then show ?thesis by (simp only: lines) simp
qed

theorem sse_frame_witness:
  "split_lines (encode_sse (\<lambda>_. ''0.5'') ''snapshot'' 7 [(''status'', JStr [newline])])
   = [''id: 7'', ''event: snapshot'', utf8_encode (''data: '' @ json_dumps (\<lambda>_. ''0.5'') (JObj [(''status'', JStr [newline])])), [], []]"
proof -
  have "printable ''0.5''" "printable ''snapshot''" by (simp_all add: code_def)
  moreover have "dec_nat 7 = ''7''" by code_simp
  ultimately show ?thesis using sse_frame [of "\<lambda>_. ''0.5''" "''snapshot''" 7]
    by (simp add: dec_int_def utf8_char_def code_def)
qed

end
