(* ===== verification/Messaging.thy ===== *)
theory Messaging
  imports Sql_Orders
begin

text \<open>
  \<open>outbox.py\<close>, \<open>notifications.py\<close> and \<open>worker.py\<close>: the relay that publishes pending outbox rows,
  the consumers that claim an event in \<open>consumer_inbox\<close>, the notification dispatch with its
  provider, and the Celery job around it. A transaction covers the tables only: the state
  of the broker or of the provider, the second component of the state, is kept when the
  tables are rolled back (\<open>external_transaction\<close>). The broker is a parameter, as is the
  provider of \<open>dispatch_order_created_notification_once\<close>; the worker's own provider is
  \<open>InMemoryIdempotentNotificationProvider\<close>.
\<close>

section \<open>Tables\<close>

record OutboxEvent =
  oe_id :: uuid
  oe_event_type :: string
  oe_payload :: json_object

record ConsumerInboxRow =
  ib_event_id :: uuid
  ib_event_type :: string
  ib_processed_at :: datetime

record NotificationRow =
  nr_event_id :: uuid
  nr_order_id :: uuid
  nr_message :: string
  nr_channel :: string
  nr_status :: string
  nr_provider_message_id :: "string option"
  nr_sent_at :: "datetime option"

record NotificationPreferenceRow =
  np_tenant_id :: uuid
  np_user_id :: uuid
  np_channel :: string
  np_enabled :: bool

text \<open>The surrogate key of a notification is never read; its unique \<open>event_id\<close> is the key here.\<close>

record message_tables =
  mb_tables :: order_tables
  mb_inbox :: "(uuid \<times> ConsumerInboxRow) list"
  mb_notifications :: "(uuid \<times> NotificationRow) list"
  mb_preferences :: "NotificationPreferenceRow list"

definition external_transaction :: "('s \<times> 'w, 'a) action \<Rightarrow> ('s \<times> 'w, 'a) action" where
  "external_transaction m s =
     (case m s of (Inl e, (_, w)) \<Rightarrow> (Inl e, (fst s, w)) | (Inr x, s') \<Rightarrow> (Inr x, s'))"

definition on_tables :: "('s, 'a) action \<Rightarrow> ('s \<times> 'w, 'a) action" where
  "on_tables m s = (case m (fst s) of (r, t) \<Rightarrow> (r, (t, snd s)))"

definition on_world :: "('w, 'a) action \<Rightarrow> ('s \<times> 'w, 'a) action" where
  "on_world m s = (case m (snd s) of (r, w) \<Rightarrow> (r, (fst s, w)))"

section \<open>The relay\<close>

definition transitional_outbox_pending :: "OutboxRow \<Rightarrow> bool" where
  "transitional_outbox_pending row \<longleftrightarrow> ob_published_at row = None \<and> ob_legacy_processed_at row = None"

definition mark_outbox_published :: "datetime \<Rightarrow> OutboxRow \<Rightarrow> OutboxRow" where
  "mark_outbox_published moment row =
     row \<lparr> ob_published_at := Some moment, ob_legacy_processed_at := Some moment \<rparr>"

definition event_of_row :: "OutboxRow \<Rightarrow> OutboxEvent" where
  "event_of_row row = \<lparr> oe_id = ob_id row, oe_event_type = ob_event_type row, oe_payload = ob_payload row \<rparr>"

fun publish_rows ::
  "(OutboxEvent \<Rightarrow> ('w, unit) action) \<Rightarrow> datetime \<Rightarrow> OutboxRow list \<Rightarrow> (order_tables \<times> 'w, uuid list) action" where
  "publish_rows publish published_at [] s = (Inr [], s)"
| "publish_rows publish published_at (row # rows) s =
     (case publish (event_of_row row) (snd s) of
        (Inl e, w) \<Rightarrow> (Inl e, (fst s, w))
      | (Inr _, w) \<Rightarrow>
          (case publish_rows publish published_at rows
                  ((fst s) \<lparr> t_outbox := dict_set (ob_id row) (mark_outbox_published published_at row) (t_outbox (fst s)) \<rparr>, w) of
             (Inl e, s') \<Rightarrow> (Inl e, s')
           | (Inr ids, s') \<Rightarrow> (Inr (ob_id row # ids), s')))"

text \<open>The locked batch: pending rows no other relay holds, oldest first.\<close>

definition pending_batch :: "(uuid \<Rightarrow> bool) \<Rightarrow> int \<Rightarrow> order_tables \<Rightarrow> OutboxRow list" where
  "pending_batch locked batch_size db =
     take (nat batch_size) (sort_key (\<lambda>r. (ob_created_at r, ob_id r))
       (filter (\<lambda>r. transitional_outbox_pending r \<and> \<not> locked (ob_id r)) (values_of (t_outbox db))))"

definition publish_pending_outbox ::
  "(OutboxEvent \<Rightarrow> ('w, unit) action) \<Rightarrow> (uuid \<Rightarrow> bool) \<Rightarrow> bool \<Rightarrow> datetime \<Rightarrow> int
   \<Rightarrow> (order_tables \<times> 'w, uuid list) action" where
  "publish_pending_outbox publish locked in_transaction published_at batch_size s =
     (if \<not> in_transaction
      then (Inl (RuntimeError ''publish_pending_outbox requires an active transaction''), s)
      else if \<not> (1 \<le> batch_size \<and> batch_size \<le> 200)
      then (Inl (ValueError ''batch_size must be between 1 and 200''), s)
      else publish_rows publish published_at (pending_batch locked batch_size (fst s)) s)"

section \<open>Consumers\<close>

definition fake_consumer_handle :: "OutboxEvent \<Rightarrow> (uuid set, bool) action" where
  "fake_consumer_handle event processed =
     (if oe_id event \<in> processed then (Inr False, processed)
      else if oe_event_type event = '''' then (Inl (ValueError ''event_type is required''), processed)
      else (Inr True, insert (oe_id event) processed))"

text \<open>\<open>INSERT INTO consumer_inbox ... ON CONFLICT DO NOTHING RETURNING event_id\<close>.\<close>

definition claim_inbox :: "uuid \<Rightarrow> string \<Rightarrow> datetime \<Rightarrow> (message_tables, bool) action" where
  "claim_inbox event_id event_type now db =
     (if 100 < length event_type then (Inl (DBAPIError (Some ''22001'')), db)
      else if dict_get (mb_inbox db) event_id \<noteq> None then (Inr False, db)
      else (Inr True, db \<lparr> mb_inbox := dict_set event_id
              \<lparr> ib_event_id = event_id, ib_event_type = event_type, ib_processed_at = now \<rparr> (mb_inbox db) \<rparr>))"

definition notification_row_error :: "NotificationRow \<Rightarrow> exn option" where
  "notification_row_error r =
     (if 300 < length (nr_message r) \<or> 20 < length (nr_channel r) \<or> 20 < length (nr_status r)
         \<or> (case nr_provider_message_id r of None \<Rightarrow> False | Some m \<Rightarrow> 200 < length m)
      then Some (DBAPIError (Some ''22001'')) else None)"

definition insert_notification_row :: "NotificationRow \<Rightarrow> (message_tables, unit) action" where
  "insert_notification_row r db =
     (case notification_row_error r of
        Some e \<Rightarrow> (Inl e, db)
      | None \<Rightarrow>
          if dict_get (mb_inbox db) (nr_event_id r) = None
          then (Inl (IntegrityError ''delivery_notification_event_id_fkey''), db)
          else if dict_get (mb_notifications db) (nr_event_id r) \<noteq> None
          then (Inl (IntegrityError ''delivery_notification_event_id_key''), db)
          else (Inr (), db \<lparr> mb_notifications := dict_set (nr_event_id r) r (mb_notifications db) \<rparr>))"

definition update_notification_row :: "NotificationRow \<Rightarrow> (message_tables, unit) action" where
  "update_notification_row r db =
     (case notification_row_error r of
        Some e \<Rightarrow> (Inl e, db)
      | None \<Rightarrow> (Inr (), db \<lparr> mb_notifications := dict_set (nr_event_id r) r (mb_notifications db) \<rparr>))"

definition created_message :: "uuid \<Rightarrow> string" where
  "created_message order_id = ''Order '' @ str_uuid order_id @ '' was created''"

definition consume_order_created_once :: "datetime \<Rightarrow> OutboxEvent \<Rightarrow> (message_tables, bool) action" where
  "consume_order_created_once now event =
     andThen (claim_inbox (oe_id event) (oe_event_type event) now) (\<lambda>claimed.
     if \<not> claimed then ret False
     else andThen (check (oe_event_type event = ''order.created'') (ValueError ''unsupported outbox event'')) (\<lambda>_.
          andThen (lift_result (json_get_uuid (oe_payload event) ''order_id'')) (\<lambda>order_id.
          andThen (insert_notification_row
            \<lparr> nr_event_id = oe_id event, nr_order_id = order_id, nr_message = created_message order_id,
              nr_channel = ''email'', nr_status = ''pending'', nr_provider_message_id = None, nr_sent_at = None \<rparr>) (\<lambda>_.
          ret True))))"

text \<open>Equality of two flat JSON objects, in any key order.\<close>

definition same_object :: "json_object \<Rightarrow> json_object \<Rightarrow> bool" where
  "same_object a b \<longleftrightarrow>
     list_all (\<lambda>k. dict_get a k = dict_get b k) (map fst a @ map fst b)"

definition accept_payment_webhook_once :: "datetime \<Rightarrow> uuid \<Rightarrow> json_object \<Rightarrow> (message_tables, bool) action" where
  "accept_payment_webhook_once now event_id event_payload =
     andThen (claim_inbox event_id ''payment.webhook'' now) (\<lambda>claimed db.
     if \<not> claimed
     then (case dict_get (t_outbox (mb_tables db)) event_id of
             Some existing \<Rightarrow>
               if ob_event_type existing \<noteq> ''payment.webhook.accepted'' \<or> \<not> same_object (ob_payload existing) event_payload
               then (Inl (WebhookEventConflict ''event ID was reused with another payload''), db)
               else (Inr False, db)
           | None \<Rightarrow> (Inl (WebhookEventConflict ''event ID was reused with another payload''), db))
     else (case insert_outbox_row \<lparr> ob_id = event_id, ob_event_type = ''payment.webhook.accepted'',
                   ob_payload = event_payload, ob_legacy_processed_at = None, ob_created_at = now,
                   ob_published_at = None \<rparr> (mb_tables db) of
             (Inl e, t) \<Rightarrow> (Inl e, db \<lparr> mb_tables := t \<rparr>)
           | (Inr _, t) \<Rightarrow> (Inr True, db \<lparr> mb_tables := t \<rparr>)))"

section \<open>Notification dispatch\<close>

record InMemoryIdempotentNotificationProvider =
  pv_receipts :: "(string \<times> string) list"
  pv_attempts :: "string list"

definition provider_send ::
  "string \<Rightarrow> string \<Rightarrow> string \<Rightarrow> (InMemoryIdempotentNotificationProvider, string) action" where
  "provider_send recipient message idempotency_key p =
     (let p1 = p \<lparr> pv_attempts := pv_attempts p @ [idempotency_key] \<rparr>
      in case dict_get (pv_receipts p1) idempotency_key of
           Some receipt \<Rightarrow> (Inr receipt, p1)
         | None \<Rightarrow>
             (Inr (''local-'' @ idempotency_key),
              p1 \<lparr> pv_receipts := dict_set idempotency_key (''local-'' @ idempotency_key) (pv_receipts p1) \<rparr>))"

text \<open>
  \<open>payload.get("aggregate_id") or payload["order_id"]\<close>: the first one unless it is missing,
  null, empty or another false value.
\<close>

definition created_order_id :: "json_object \<Rightarrow> uuid result" where
  "created_order_id payload =
     (if dict_get payload ''aggregate_id'' \<in> {None, Some JNull, Some (JStr ''''), Some (JInt 0), Some (JBool False),
           Some (JFloat 0), Some (JObj [])}
      then json_get_uuid payload ''order_id''
      else json_get_uuid payload ''aggregate_id'')"

definition preference_enabled :: "message_tables \<Rightarrow> uuid \<Rightarrow> uuid \<Rightarrow> string \<Rightarrow> bool" where
  "preference_enabled db tenant_id customer_id channel =
     (case find (\<lambda>p. np_tenant_id p = tenant_id \<and> np_user_id p = customer_id \<and> np_channel p = channel)
             (mb_preferences db) of
        None \<Rightarrow> True | Some p \<Rightarrow> np_enabled p)"

definition dispatch_order_created_notification_once ::
  "(string \<Rightarrow> string \<Rightarrow> string \<Rightarrow> ('w, string) action) \<Rightarrow> uuid \<Rightarrow> string \<Rightarrow> json_object \<Rightarrow> datetime \<Rightarrow> string
   \<Rightarrow> (message_tables \<times> 'w, bool) action" where
  "dispatch_order_created_notification_once send event_id event_type payload now channel =
     andThen (check (event_type = ''order.created'') (ValueError ''unsupported notification event'')) (\<lambda>_.
     andThen (lift_result (created_order_id payload)) (\<lambda>order_id.
     andThen (lift_result (json_get_uuid payload ''tenant_id'')) (\<lambda>tenant_id.
     andThen (lift_result (json_get_uuid payload ''customer_id'')) (\<lambda>customer_id.
     andThen (on_tables (claim_inbox event_id event_type now)) (\<lambda>claimed s.
     if \<not> claimed then (Inr False, s)
     else
       let enabled = preference_enabled (fst s) tenant_id customer_id channel;
           notification = \<lparr> nr_event_id = event_id, nr_order_id = order_id, nr_message = created_message order_id,
             nr_channel = channel, nr_status = (if enabled then ''pending'' else ''skipped''),
             nr_provider_message_id = None, nr_sent_at = None \<rparr>
       in andThen (on_tables (insert_notification_row notification)) (\<lambda>_.
          if \<not> enabled then ret True
          else andThen (on_world (send (str_uuid customer_id) (nr_message notification) (str_uuid event_id))) (\<lambda>receipt.
               andThen (on_tables (update_notification_row (notification \<lparr> nr_status := ''sent'',
                          nr_provider_message_id := Some receipt, nr_sent_at := Some now \<rparr>))) (\<lambda>_.
               ret True))) s)))))"

section \<open>The worker's job\<close>

definition notification_event ::
  "datetime \<Rightarrow> uuid \<Rightarrow> (message_tables \<times> InMemoryIdempotentNotificationProvider, bool) action" where
  "notification_event now event_id s =
     (case dict_get (t_outbox (mb_tables (fst s))) event_id of
        None \<Rightarrow> (Inl (PermanentNotificationError ''outbox event does not exist''), s)
      | Some row \<Rightarrow>
          dispatch_order_created_notification_once provider_send (ob_id row) (ob_event_type row) (ob_payload row)
            now ''email'' s)"

definition process_notification_event ::
  "datetime \<Rightarrow> uuid \<Rightarrow> (message_tables \<times> InMemoryIdempotentNotificationProvider, bool) action" where
  "process_notification_event now event_id = external_transaction (notification_event now event_id)"

definition run_notification_job ::
  "datetime \<Rightarrow> string \<Rightarrow> (message_tables \<times> InMemoryIdempotentNotificationProvider, bool) action" where
  "run_notification_job now event_id =
     (case uuid_of_text event_id of
        None \<Rightarrow> raise (PermanentNotificationError ''event_id must be a UUID'')
      | Some parsed \<Rightarrow> process_notification_event now parsed)"

end
