(* ===== verification/Messaging_Properties.thy ===== *)
theory Messaging_Properties
  imports Messaging
begin

text \<open>
  Properties of the messaging components: what a relay round publishes and marks, that
  repeated rounds drain the outbox, that a notification job has its effect once, and the
  claims of webhook and order events.
\<close>

section \<open>One relay round\<close>

text \<open>
  The documented contract of the broker: \<open>publish\<close> returns only after the broker confirmed the
  message; when it raises, the message may or may not have reached the broker.
\<close>

definition confirms :: "(OutboxEvent \<Rightarrow> ('w, unit) action) \<Rightarrow> ('w \<Rightarrow> OutboxEvent list) \<Rightarrow> bool" where
  "confirms publish delivered \<longleftrightarrow>
     (\<forall>e w r w'. publish e w = (r, w') \<longrightarrow>
        (case r of Inr _ \<Rightarrow> delivered w' = delivered w @ [e]
                 | Inl _ \<Rightarrow> delivered w' \<in> {delivered w, delivered w @ [e]}))"

definition outbox_ok :: "order_tables \<Rightarrow> bool" where
  "outbox_ok db \<longleftrightarrow> dict_ok (t_outbox db) \<and> (\<forall>(i, r) \<in> set (t_outbox db). ob_id r = i)"

text \<open>The tables with a set of outbox rows marked as published.\<close>

definition marked :: "datetime \<Rightarrow> uuid set \<Rightarrow> order_tables \<Rightarrow> order_tables" where
  "marked tm ids db =
     db \<lparr> t_outbox := map (\<lambda>(i, r). (i, if i \<in> ids then mark_outbox_published tm r else r)) (t_outbox db) \<rparr>"

lemma dict_set_map:
  "dict_ok d \<Longrightarrow> map_of d k = Some r \<Longrightarrow> dict_set k v d = map (\<lambda>(i, x). (i, if i = k then v else x)) d"
proof (induction d)
  case (Cons p d)
  obtain i x where p: "p = (i, x)" by (cases p)
  show ?case
  proof (cases "i = k")
    case True
    then have "map (\<lambda>(i, x). (i, if i = k then v else x)) d = d"
      using Cons.prems(1) by (intro map_idI) (auto simp: p image_iff)
    with True show ?thesis by (simp add: p)
  next
    case False
    with Cons show ?thesis by (simp add: p)
  qed
qed simp

lemma outbox_ok_get: "outbox_ok db \<Longrightarrow> (r \<in> set (values_of (t_outbox db))) = (map_of (t_outbox db) (ob_id r) = Some r)"
  by (force simp: outbox_ok_def)

lemma outbox_ok_marked: "outbox_ok db \<Longrightarrow> outbox_ok (marked tm ids db)"
  by (auto simp: outbox_ok_def marked_def mark_outbox_published_def comp_def case_prod_unfold)

lemma marked_get:
  "map_of (t_outbox (marked tm ids db)) i
   = map_option (\<lambda>r. if i \<in> ids then mark_outbox_published tm r else r) (map_of (t_outbox db) i)"
proof -
  have "map_of (map (\<lambda>(i, r). (i, if i \<in> ids then mark_outbox_published tm r else r)) d) i
      = map_option (\<lambda>r. if i \<in> ids then mark_outbox_published tm r else r) (map_of d i)" for d
    by (induction d) auto
  then show ?thesis by (simp add: marked_def)
qed

lemma marked_insert:
  assumes "outbox_ok db" "map_of (t_outbox db) i = Some r" "i \<notin> ids"
  shows "marked tm ids (db \<lparr> t_outbox := dict_set i (mark_outbox_published tm r) (t_outbox db) \<rparr>)
    = marked tm (insert i ids) db"
proof -
  have dk: "dict_ok (t_outbox db)" using assms(1) by (simp add: outbox_ok_def)
  have "\<And>x. (i, x) \<in> set (t_outbox db) \<Longrightarrow> x = r" using dk assms(2) by simp
  then have "map ((\<lambda>(j, x). (j, if j \<in> ids then mark_outbox_published tm x else x))
        \<circ> (\<lambda>(j, x). (j, if j = i then mark_outbox_published tm r else x))) (t_outbox db)
      = map (\<lambda>(j, x). (j, if j \<in> insert i ids then mark_outbox_published tm x else x)) (t_outbox db)"
    using assms(3) by (intro map_cong) auto
  then show ?thesis by (simp add: marked_def dict_set_map [OF dk assms(2)] del: insert_iff)
qed

lemma publish_rows_outcome:
  assumes "confirms publish delivered" "outbox_ok db" "distinct (map ob_id rows)"
    "\<forall>r \<in> set rows. map_of (t_outbox db) (ob_id r) = Some r"
    "publish_rows publish tm rows (db, w) = (out, (db', w'))"
  shows "case out of
      Inr ids \<Rightarrow> ids = map ob_id rows \<and> delivered w' = delivered w @ map event_of_row rows
        \<and> db' = marked tm (set ids) db
    | Inl e \<Rightarrow> (\<exists>n. delivered w' = delivered w @ take n (map event_of_row rows))"
  using assms(2-)
proof (induction rows arbitrary: db w out)
  case Nil
  then have "out = Inr []" "db' = db" "w' = w" by simp_all
  then show ?case by (simp add: marked_def case_prod_unfold)
next
  case (Cons r rows)
  show ?case
  proof (cases "publish (event_of_row r) w")
    case (Pair res w1)
    note law = assms(1) [unfolded confirms_def, rule_format, OF Pair]
    show ?thesis
    proof (cases res)
      case (Inl x)
      with Pair Cons.prems(4) have "out = Inl x" "w' = w1" by simp_all
      with law Inl show ?thesis by (auto intro: exI [of _ 0] exI [of _ 1])
    next
      case (Inr u)
      let ?db = "db \<lparr> t_outbox := dict_set (ob_id r) (mark_outbox_published tm r) (t_outbox db) \<rparr>"
      have r: "map_of (t_outbox db) (ob_id r) = Some r" using Cons.prems(3) by simp
      have ok: "outbox_ok ?db"
        using outbox_ok_marked [OF Cons.prems(1), of tm "{ob_id r}"] marked_insert [OF Cons.prems(1) r, of "{}" tm]
        by (simp add: marked_def case_prod_unfold)
      obtain out1 where rest: "publish_rows publish tm rows (?db, w1) = (out1, (db', w'))"
        and out: "out = (case out1 of Inl e \<Rightarrow> Inl e | Inr ids \<Rightarrow> Inr (ob_id r # ids))"
        using Cons.prems(4) Pair Inr by (auto split: prod.splits sum.splits)
      have rows: "distinct (map ob_id rows)" "\<forall>s \<in> set rows. map_of (t_outbox ?db) (ob_id s) = Some s"
        using Cons.prems(2,3) by (auto simp: image_iff)
      note ih = Cons.IH [OF ok rows rest]
      have d: "delivered w1 = delivered w @ [event_of_row r]" using law Inr by simp
      show ?thesis
      proof (cases out1)
        case (Inl x)
        with ih obtain n where "delivered w' = delivered w1 @ take n (map event_of_row rows)" by auto
        with d out Inl show ?thesis by (auto intro: exI [of _ "Suc n"])
      next
        case (Inr ids)
        with ih have "ids = map ob_id rows" "db' = marked tm (set ids) ?db"
          "delivered w' = delivered w1 @ map event_of_row rows" by auto
        moreover have "ob_id r \<notin> set (map ob_id rows)" using Cons.prems(2) by simp
        ultimately show ?thesis using d out Inr marked_insert [OF Cons.prems(1) r] by simp
      qed
    qed
  qed
qed

lemma pending_batch_rows:
  assumes "outbox_ok db" "rows = pending_batch locked b db"
  shows "distinct (map ob_id rows)" "\<forall>r \<in> set rows. map_of (t_outbox db) (ob_id r) = Some r"
proof -
  let ?key = "\<lambda>r. (ob_created_at r, ob_id r)"
  let ?P = "\<lambda>r. transitional_outbox_pending r \<and> \<not> locked (ob_id r)"
  have ids: "map ob_id (values_of (t_outbox db)) = map fst (t_outbox db)"
    using assms(1) by (auto simp: outbox_ok_def)
  have "distinct (map ob_id (values_of (t_outbox db)))" unfolding ids using assms(1) by (simp add: outbox_ok_def)
  then have "distinct (map ob_id (sort_key ?key (filter ?P (values_of (t_outbox db)))))"
    by (auto simp: distinct_map inj_on_def)
  then show "distinct (map ob_id rows)" unfolding assms(2) pending_batch_def
    by (simp add: distinct_take flip: take_map)
  show "\<forall>r \<in> set rows. map_of (t_outbox db) (ob_id r) = Some r"
    using outbox_ok_get [OF assms(1)] by (auto simp: assms(2) pending_batch_def dest!: in_set_takeD)
qed

lemma external_transaction_Inl: "m (s, w) = (Inl e, (s1, w1)) \<Longrightarrow> external_transaction m (s, w) = (Inl e, (s, w1))"
  by (simp add: external_transaction_def)

lemma external_transaction_Inr: "m (s, w) = (Inr x, s1) \<Longrightarrow> external_transaction m (s, w) = (Inr x, s1)"
  by (simp add: external_transaction_def)

text \<open>
  One round of the relay inside its transaction. When it completes, it returned the ids of
  the oldest unlocked pending rows, at most \<open>batch_size\<close>, the broker received exactly their
  events in that order, and exactly those rows are marked. When the broker raises, the
  tables are unchanged, so no message is lost, and the broker received a prefix of the
  batch, which the next round sends again.
\<close>

theorem outbox_relay_round:
  assumes "confirms publish delivered" "outbox_ok db" "1 \<le> b" "b \<le> 200" "rows = pending_batch locked b db"
    "external_transaction (publish_pending_outbox publish locked True tm b) (db, w) = (out, (db', w'))"
  shows "(\<forall>ids. out = Inr ids \<longrightarrow> ids = map ob_id rows \<and> int (length ids) \<le> b
        \<and> delivered w' = delivered w @ map event_of_row rows \<and> db' = marked tm (set ids) db)
    \<and> (\<forall>e. out = Inl e \<longrightarrow> db' = db \<and> (\<exists>n. delivered w' = delivered w @ take n (map event_of_row rows)))"
proof -
  obtain out1 db1 w1 where call: "publish_rows publish tm rows (db, w) = (out1, (db1, w1))"
    by (metis surj_pair)
  note rows = pending_batch_rows [OF assms(2,5)]
  note law = publish_rows_outcome [OF assms(1,2) rows call]
  have eq: "publish_pending_outbox publish locked True tm b (db, w) = (out1, (db1, w1))"
    using assms(3-5) call by (simp add: publish_pending_outbox_def)
  have "int (length rows) \<le> b" using assms(3) unfolding assms(5) pending_batch_def by simp
  with law eq assms(6) show ?thesis
    by (cases out1) (auto simp: external_transaction_Inl external_transaction_Inr)
qed

text \<open>A broker that keeps a log and refuses the events of one type.\<close>

definition logging_broker :: "string \<Rightarrow> OutboxEvent \<Rightarrow> (OutboxEvent list, unit) action" where
  "logging_broker refused e w =
     (if oe_event_type e = refused then (Inl (OtherException ''broker''), w) else (Inr (), w @ [e]))"

lemma logging_broker_confirms: "confirms (logging_broker refused) id"
  by (auto simp: confirms_def logging_broker_def split: sum.splits if_splits)

definition sample_outbox_row :: "uuid \<Rightarrow> datetime \<Rightarrow> OutboxRow" where
  "sample_outbox_row i t = \<lparr> ob_id = i, ob_event_type = ''order.created'', ob_payload = [], ob_legacy_processed_at = None,
     ob_created_at = t, ob_published_at = None \<rparr>"

definition sample_outbox :: order_tables where
  "sample_outbox = empty_tables \<lparr> t_outbox := [(1, sample_outbox_row 1 9), (2, sample_outbox_row 2 5)] \<rparr>"

lemma sample_outbox_facts:
  "outbox_ok sample_outbox" "pending_batch (\<lambda>_. False) 1 sample_outbox = [sample_outbox_row 2 5]"
  by (simp_all add: outbox_ok_def sample_outbox_def pending_batch_def sample_outbox_row_def
      transitional_outbox_pending_def)

theorem outbox_relay_round_witness:
  "\<exists>db'. external_transaction (publish_pending_outbox (logging_broker ''x'') (\<lambda>_. False) True 20 1) (sample_outbox, [])
     = (Inr [2], (db', [event_of_row (sample_outbox_row 2 5)])) \<and> db' = marked 20 {2} sample_outbox"
proof -
  have "fst (external_transaction (publish_pending_outbox (logging_broker ''x'') (\<lambda>_. False) True 20 1) (sample_outbox, []))
      = Inr [2]"
    by (simp add: external_transaction_def publish_pending_outbox_def sample_outbox_facts(2) logging_broker_def
        sample_outbox_row_def event_of_row_def)
  then obtain db' w' where call: "external_transaction (publish_pending_outbox (logging_broker ''x'') (\<lambda>_. False) True 20 1)
      (sample_outbox, []) = (Inr [2], (db', w'))" by (metis prod.collapse)
  from outbox_relay_round [OF logging_broker_confirms sample_outbox_facts(1) _ _ refl call] call
  show ?thesis by (auto simp: sample_outbox_facts(2))
qed

section \<open>Draining the outbox\<close>

definition pending_rows :: "order_tables \<Rightarrow> OutboxRow list" where
  "pending_rows db = sort_key (\<lambda>r. (ob_created_at r, ob_id r)) (filter transitional_outbox_pending (values_of (t_outbox db)))"

text \<open>\<open>relay_rounds n\<close> runs \<open>n\<close> rounds with no other relay and drops their return values.\<close>

fun relay_rounds ::
  "(OutboxEvent \<Rightarrow> ('w, unit) action) \<Rightarrow> datetime \<Rightarrow> int \<Rightarrow> nat \<Rightarrow> order_tables \<times> 'w \<Rightarrow> order_tables \<times> 'w" where
  "relay_rounds publish tm b 0 s = s"
| "relay_rounds publish tm b (Suc n) s =
     relay_rounds publish tm b n (snd (external_transaction (publish_pending_outbox publish (\<lambda>_. False) True tm b) s))"

lemma pending_batch_take: "pending_batch (\<lambda>_. False) b db = take (nat b) (pending_rows db)"
  by (simp add: pending_batch_def pending_rows_def)

lemma filter_not_in_take: "distinct ys \<Longrightarrow> filter (\<lambda>y. y \<notin> set (take n ys)) ys = drop n ys"
proof (induction ys arbitrary: n)
  case (Cons y ys)
  then show ?case
  proof (cases n)
    case (Suc m)
    have "filter (\<lambda>x. x \<notin> set (take n (y # ys))) (y # ys) = filter (\<lambda>x. x \<notin> set (take m ys)) ys"
      using Cons.prems Suc by (auto intro!: filter_cong)
    with Cons Suc show ?thesis by simp
  qed simp
qed simp

lemma pending_rows_marked:
  assumes "outbox_ok db"
  shows "pending_rows (marked tm (set (map ob_id (take n (pending_rows db)))) db) = drop n (pending_rows db)"
proof -
  let ?key = "\<lambda>r. (ob_created_at r, ob_id r)" and ?ids = "set (map ob_id (take n (pending_rows db)))"
  let ?vals = "values_of (t_outbox db)"
  have pend: "\<not> transitional_outbox_pending (mark_outbox_published tm r)" for r
    by (simp add: transitional_outbox_pending_def mark_outbox_published_def)
  have ids: "ob_id r = i" if "(i, r) \<in> set (t_outbox db)" for i r using that assms by (auto simp: outbox_ok_def)
  have "filter transitional_outbox_pending (map snd (map (\<lambda>(i, r). (i, if i \<in> ?ids then mark_outbox_published tm r else r)) d))
      = filter (\<lambda>r. ob_id r \<notin> ?ids) (filter transitional_outbox_pending (map snd d))"
    if "set d \<subseteq> set (t_outbox db)" for d
    using that pend ids by (induction d) auto
  then have "filter transitional_outbox_pending (values_of (t_outbox (marked tm ?ids db)))
      = filter (\<lambda>r. ob_id r \<notin> ?ids) (filter transitional_outbox_pending ?vals)"
    by (simp add: marked_def)
  then have "pending_rows (marked tm ?ids db) = filter (\<lambda>r. ob_id r \<notin> ?ids) (pending_rows db)"
    by (simp add: pending_rows_def filter_sort)
  also have "\<dots> = filter (\<lambda>r. r \<notin> set (take n (pending_rows db))) (pending_rows db)"
  proof (rule filter_cong [OF refl])
    fix r assume r: "r \<in> set (pending_rows db)"
    have "r = s" if "s \<in> set (take n (pending_rows db))" "ob_id r = ob_id s" for s
    proof -
      have "s \<in> set ?vals" "r \<in> set ?vals" using that(1) r by (auto simp: pending_rows_def dest!: in_set_takeD)
      then show ?thesis using outbox_ok_get [OF assms] that(2) by (metis option.inject)
    qed
    then show "(ob_id r \<notin> ?ids) = (r \<notin> set (take n (pending_rows db)))" by auto
  qed
  also have "\<dots> = drop n (pending_rows db)"
  proof (rule filter_not_in_take)
    have "distinct (map ob_id (pending_batch (\<lambda>_. False) (int (length (pending_rows db))) db))"
      by (rule pending_batch_rows(1) [OF assms refl])
    then show "distinct (pending_rows db)" by (simp add: pending_batch_take distinct_map)
  qed
  finally show ?thesis .
qed

lemma relay_rounds_drain:
  assumes "confirms publish delivered" "\<And>e w. \<exists>w'. publish e w = (Inr (), w')" "1 \<le> b" "b \<le> 200" "outbox_ok db"
    "relay_rounds publish tm b n (db, w) = (db', w')"
  shows "outbox_ok db' \<and> pending_rows db' = drop (n * nat b) (pending_rows db)
    \<and> delivered w' = delivered w @ map event_of_row (take (n * nat b) (pending_rows db))"
  using assms(5-)
proof (induction n arbitrary: db w)
  case (Suc n)
  let ?rows = "pending_batch (\<lambda>_. False) b db"
  have ok: "\<exists>ids s'. publish_rows publish tm rows s = (Inr ids, s')" for rows s
  proof (induction rows arbitrary: s)
    case (Cons r rows)
    from assms(2) [of "event_of_row r" "snd s"] obtain w1 where w1: "publish (event_of_row r) (snd s) = (Inr (), w1)" by blast
    from Cons [of "((fst s) \<lparr> t_outbox := dict_set (ob_id r) (mark_outbox_published tm r) (t_outbox (fst s)) \<rparr>, w1)"] w1
    show ?case by auto
  qed simp
  obtain ids db1 w1 where pub: "publish_pending_outbox publish (\<lambda>_. False) True tm b (db, w) = (Inr ids, (db1, w1))"
    using ok [of ?rows "(db, w)"] assms(3,4) by (auto simp: publish_pending_outbox_def)
  have law: "ids = map ob_id ?rows" "delivered w1 = delivered w @ map event_of_row ?rows" "db1 = marked tm (set ids) db"
    using publish_rows_outcome [OF assms(1) Suc.prems(1) pending_batch_rows [OF Suc.prems(1) refl], of tm "\<lambda>_. False" b w] pub assms(3,4)
    by (auto simp: publish_pending_outbox_def)
  have "relay_rounds publish tm b n (db1, w1) = (db', w')"
    using Suc.prems(2) pub by (simp add: external_transaction_def)
  moreover have "outbox_ok db1" "pending_rows db1 = drop (nat b) (pending_rows db)"
    using law(1,3) outbox_ok_marked [OF Suc.prems(1)] pending_rows_marked [OF Suc.prems(1), of tm "nat b"]
    by (simp_all add: pending_batch_take)
  ultimately have ih: "outbox_ok db'" "pending_rows db' = drop (n * nat b) (drop (nat b) (pending_rows db))"
    "delivered w' = delivered w1 @ map event_of_row (take (n * nat b) (drop (nat b) (pending_rows db)))"
    using Suc.IH [of db1 w1] by simp_all
  with law(2) show ?case
    by (simp add: pending_batch_take take_add add.commute flip: map_append)
qed simp

text \<open>
  C17. Liveness of the relay: with a broker that accepts every message, \<open>n\<close> rounds of
  \<open>batch_size\<close> publish every row that was pending, exactly once and oldest first, as soon
  as \<open>n\<close> times the batch size reaches their number; then nothing is pending.
\<close>

theorem outbox_drains:
  assumes "confirms publish delivered" "\<And>e w. \<exists>w'. publish e w = (Inr (), w')" "1 \<le> b" "b \<le> 200" "outbox_ok db"
    "int (length (pending_rows db)) \<le> int n * b" "relay_rounds publish tm b n (db, w) = (db', w')"
  shows "pending_rows db' = [] \<and> delivered w' = delivered w @ map event_of_row (pending_rows db)"
proof -
  have "length (pending_rows db) \<le> n * nat b"
  proof -
    have "int n * b = int (n * nat b)" using assms(3) by simp
    with assms(6) show ?thesis by linarith
  qed
  with relay_rounds_drain [OF assms(1-5,7)] show ?thesis by simp
qed

theorem outbox_drains_witness:
  "\<exists>db'. relay_rounds (\<lambda>e w. (Inr (), w @ [e])) 20 1 2 (sample_outbox, [])
       = (db', [event_of_row (sample_outbox_row 2 5), event_of_row (sample_outbox_row 1 9)]) \<and> pending_rows db' = []"
proof -
  let ?log = "\<lambda>e w. (Inr (), w @ [e])"
  have c: "confirms ?log id" by (auto simp: confirms_def)
  have p: "pending_rows sample_outbox = [sample_outbox_row 2 5, sample_outbox_row 1 9]"
    by (simp add: pending_rows_def sample_outbox_def sample_outbox_row_def transitional_outbox_pending_def)
  obtain db' w' where run: "relay_rounds ?log 20 1 2 (sample_outbox, []) = (db', w')" by fastforce
  have "pending_rows db' = [] \<and> id w' = id [] @ map event_of_row (pending_rows sample_outbox)"
    by (rule outbox_drains [OF c _ _ _ sample_outbox_facts(1) _ run]) (simp_all add: p)
  with run p show ?thesis by simp
qed

section \<open>Notifications\<close>

lemma provider_send_done:
  assumes "provider_send r m key p = (out, p')"
  shows "\<exists>receipt. out = Inr receipt \<and> pv_attempts p' = pv_attempts p @ [key]
    \<and> dict_get (pv_receipts p') key = Some receipt \<and> map_of (pv_receipts p) \<subseteq>\<^sub>m map_of (pv_receipts p')"
  using assms by (auto simp: provider_send_def Let_def map_le_def split: option.splits)

text \<open>The calls before the claim only read the message.\<close>

definition message_ids :: "string \<Rightarrow> json_object \<Rightarrow> (uuid \<times> uuid \<times> uuid) result" where
  "message_ids event_type payload =
     (if event_type \<noteq> ''order.created'' then Inl (ValueError ''unsupported notification event'')
      else thenR (created_order_id payload) (\<lambda>i.
           thenR (json_get_uuid payload ''tenant_id'') (\<lambda>t.
           thenR (json_get_uuid payload ''customer_id'') (\<lambda>c. Inr (i, t, c)))))"

definition claimed_tables :: "uuid \<Rightarrow> string \<Rightarrow> datetime \<Rightarrow> message_tables \<Rightarrow> message_tables" where
  "claimed_tables ev ty now db = db \<lparr> mb_inbox := dict_set ev
     \<lparr> ib_event_id = ev, ib_event_type = ty, ib_processed_at = now \<rparr> (mb_inbox db) \<rparr>"

lemma dispatch_eq:
  "dispatch_order_created_notification_once send ev ty pl now ch (db, p) =
     (case message_ids ty pl of
        Inl e \<Rightarrow> (Inl e, (db, p))
      | Inr (i, t, c) \<Rightarrow>
          if dict_get (mb_inbox db) ev \<noteq> None then (Inr False, (db, p))
          else
            let db1 = claimed_tables ev ty now db; enabled = preference_enabled db1 t c ch;
                row = \<lparr> nr_event_id = ev, nr_order_id = i, nr_message = created_message i, nr_channel = ch,
                  nr_status = (if enabled then ''pending'' else ''skipped''), nr_provider_message_id = None,
                  nr_sent_at = None \<rparr>
            in (case insert_notification_row row db1 of
                  (Inl e, db2) \<Rightarrow> (Inl e, (db2, p))
                | (Inr _, db2) \<Rightarrow>
                    if \<not> enabled then (Inr True, (db2, p))
                    else (case send (str_uuid c) (created_message i) (str_uuid ev) p of
                            (Inl e, p2) \<Rightarrow> (Inl e, (db2, p2))
                          | (Inr receipt, p2) \<Rightarrow>
                              (case update_notification_row (row \<lparr> nr_status := ''sent'',
                                      nr_provider_message_id := Some receipt, nr_sent_at := Some now \<rparr>) db2 of
                                 (Inl e, db3) \<Rightarrow> (Inl e, (db3, p2))
                               | (Inr _, db3) \<Rightarrow> (Inr True, (db3, p2))))))"
proof (cases "message_ids ty pl")
  case (Inl e)
  then show ?thesis
    by (auto simp: message_ids_def dispatch_order_created_notification_once_def andThen_def check_def lift_result_def
        thenR_def split: sum.splits if_splits)
next
  case (Inr x)
  obtain i t c where x: "x = (i, t, c)" by (cases x)
  have ids: "ty = ''order.created''" "created_order_id pl = Inr i" "json_get_uuid pl ''tenant_id'' = Inr t"
    "json_get_uuid pl ''customer_id'' = Inr c"
    using Inr by (auto simp: message_ids_def x thenR_Inr split: if_splits)
  show ?thesis
    unfolding Inr x
    by (simp add: dispatch_order_created_notification_once_def andThen_def check_def lift_result_def ids
        on_tables_def on_world_def claim_inbox_def claimed_tables_def ret_def Let_def split: prod.splits sum.splits)
qed

lemma insert_notification_done:
  "insert_notification_row row db = (Inr u, db') \<Longrightarrow>
   dict_get (mb_notifications db) (nr_event_id row) = None
   \<and> db' = db \<lparr> mb_notifications := dict_set (nr_event_id row) row (mb_notifications db) \<rparr>"
  by (auto simp: insert_notification_row_def split: option.splits if_splits)

lemma update_notification_done:
  "update_notification_row row db = (Inr u, db') \<Longrightarrow>
   db' = db \<lparr> mb_notifications := dict_set (nr_event_id row) row (mb_notifications db) \<rparr>"
  by (auto simp: update_notification_row_def split: option.splits)

lemma preference_claimed [simp]: "preference_enabled (claimed_tables ev ty now db) = preference_enabled db"
  by (simp add: preference_enabled_def claimed_tables_def fun_eq_iff)

lemma dispatch_True:
  assumes "dispatch_order_created_notification_once provider_send ev ty pl now ch (db, p) = (Inr True, (db', p'))"
  shows "\<exists>row t c. message_ids ty pl = Inr (nr_order_id row, t, c) \<and> dict_get (mb_inbox db) ev = None
    \<and> dict_get (mb_inbox db') ev \<noteq> None \<and> (\<forall>k. k \<noteq> ev \<longrightarrow> dict_get (mb_inbox db') k = dict_get (mb_inbox db) k)
    \<and> mb_tables db' = mb_tables db
    \<and> map_of (mb_notifications db') = (map_of (mb_notifications db))(ev \<mapsto> row)
    \<and> (if preference_enabled db t c ch
       then nr_status row = ''sent'' \<and> nr_provider_message_id row = dict_get (pv_receipts p') (str_uuid ev)
         \<and> nr_provider_message_id row \<noteq> None \<and> pv_attempts p' = pv_attempts p @ [str_uuid ev]
       else nr_status row = ''skipped'' \<and> p' = p)"
proof -
  obtain i t c where ids: "message_ids ty pl = Inr (i, t, c)"
    using assms by (auto simp: dispatch_eq split: sum.splits)
  have new: "dict_get (mb_inbox db) ev = None" using assms ids by (auto simp: dispatch_eq split: if_splits)
  let ?row = "\<lambda>st. \<lparr> nr_event_id = ev, nr_order_id = i, nr_message = created_message i, nr_channel = ch, nr_status = st,
    nr_provider_message_id = None, nr_sent_at = None \<rparr>"
  let ?db1 = "claimed_tables ev ty now db"
  show ?thesis
  proof (cases "preference_enabled db t c ch")
    case False
    with assms ids new have "insert_notification_row (?row ''skipped'') ?db1 = (Inr (), db')" "p' = p"
      by (auto simp: dispatch_eq Let_def split: prod.splits sum.splits)
    with insert_notification_done ids new False show ?thesis
      by (intro exI [of _ "?row ''skipped''"] exI [of _ t] exI [of _ c]) (fastforce simp: claimed_tables_def)
  next
    case True
    with assms ids new obtain receipt db2 where ins: "insert_notification_row (?row ''pending'') ?db1 = (Inr (), db2)"
      and snd: "provider_send (str_uuid c) (created_message i) (str_uuid ev) p = (Inr receipt, p')"
      and upd: "update_notification_row (?row ''sent'' \<lparr> nr_provider_message_id := Some receipt, nr_sent_at := Some now \<rparr>) db2
        = (Inr (), db')"
      by (auto simp: dispatch_eq Let_def split: prod.splits sum.splits)
    let ?r = "?row ''sent'' \<lparr> nr_provider_message_id := Some receipt, nr_sent_at := Some now \<rparr>"
    have db': "mb_notifications db' = dict_set ev ?r (dict_set ev (?row ''pending'') (mb_notifications db))"
      "mb_inbox db' = mb_inbox ?db1" "mb_tables db' = mb_tables db"
      using insert_notification_done [OF ins] update_notification_done [OF upd] by (simp_all add: claimed_tables_def)
    have "map_of (mb_notifications db') = (map_of (mb_notifications db))(ev \<mapsto> ?r)" by (simp add: db'(1))
    with provider_send_done [OF snd] db' ids new True show ?thesis
      by (intro exI [of _ ?r] exI [of _ t] exI [of _ c]) (simp add: claimed_tables_def)
  qed
qed

lemma dispatch_world:
  assumes "dispatch_order_created_notification_once provider_send ev ty pl now ch (db, p) = (out, (db', p'))"
  shows "p' = p \<or> (dict_get (mb_inbox db) ev = None \<and> pv_attempts p' = pv_attempts p @ [str_uuid ev])"
    "map_of (pv_receipts p) \<subseteq>\<^sub>m map_of (pv_receipts p')" "out = Inr False \<Longrightarrow> db' = db \<and> p' = p"
  using assms
  by (auto simp: dispatch_eq Let_def split: sum.splits prod.splits if_splits dest!: provider_send_done)

text \<open>
  The life of the worker: a job completes, or the process dies after the job's calls and
  before the commit, so that the tables are rolled back and the provider is not.
\<close>

inductive job_step ::
  "message_tables \<times> InMemoryIdempotentNotificationProvider \<Rightarrow> message_tables \<times> InMemoryIdempotentNotificationProvider \<Rightarrow> bool" where
  completed: "process_notification_event now ev s = (r, s') \<Longrightarrow> job_step s s'"
| crashed: "notification_event now ev (db, p) = (r, (db', p')) \<Longrightarrow> job_step (db, p) (db, p')"

text \<open>What a step keeps: the outbox, the provider's receipts, and everything of a claimed event.\<close>

definition keeps ::
  "message_tables \<Rightarrow> InMemoryIdempotentNotificationProvider \<Rightarrow> message_tables
   \<Rightarrow> InMemoryIdempotentNotificationProvider \<Rightarrow> bool" where
  "keeps db p db' p' \<longleftrightarrow>
     mb_tables db' = mb_tables db \<and> map_of (pv_receipts p) \<subseteq>\<^sub>m map_of (pv_receipts p')
     \<and> (\<forall>ev. dict_get (mb_inbox db) ev \<noteq> None \<longrightarrow>
          dict_get (mb_inbox db') ev = dict_get (mb_inbox db) ev
          \<and> dict_get (mb_notifications db') ev = dict_get (mb_notifications db) ev
          \<and> filter ((=) (str_uuid ev)) (pv_attempts p') = filter ((=) (str_uuid ev)) (pv_attempts p))"

lemma keeps_trans: "keeps db p db1 p1 \<Longrightarrow> keeps db1 p1 db2 p2 \<Longrightarrow> keeps db p db2 p2"
  unfolding keeps_def by (metis map_le_trans)

lemma event_keeps:
  assumes "notification_event now k (db, p) = (r, (db1, p'))" "outbox_ok (mb_tables db)"
    "db' = db \<or> (r = Inr True \<and> db' = db1)"
  shows "keeps db p db' p'"
proof (cases "dict_get (t_outbox (mb_tables db)) k")
  case None
  with assms show ?thesis by (auto simp: notification_event_def keeps_def)
next
  case (Some row)
  have k: "ob_id row = k" using Some assms(2) by (auto simp: outbox_ok_def dest: map_of_SomeD)
  have d: "dispatch_order_created_notification_once provider_send k (ob_event_type row) (ob_payload row) now ''email'' (db, p)
      = (r, (db1, p'))" using assms(1) Some k by (simp add: notification_event_def)
  have w: "filter ((=) (str_uuid ev)) (pv_attempts p') = filter ((=) (str_uuid ev)) (pv_attempts p)"
    if "dict_get (mb_inbox db) ev \<noteq> None" for ev
    using dispatch_world(1) [OF d] that by auto
  have "db' = db \<or> (\<exists>row. dict_get (mb_inbox db) k = None \<and> mb_tables db' = mb_tables db
      \<and> (\<forall>j. j \<noteq> k \<longrightarrow> dict_get (mb_inbox db') j = dict_get (mb_inbox db) j)
      \<and> map_of (mb_notifications db') = (map_of (mb_notifications db))(k \<mapsto> row))"
    using assms(3) dispatch_True [of k "ob_event_type row" "ob_payload row" now "''email''" db p db1 p'] d by blast
  with w dispatch_world(2) [OF d] show ?thesis
    unfolding keeps_def by (metis fun_upd_other)
qed

lemma job_step_keeps:
  assumes "job_step (db, p) (db', p')" "outbox_ok (mb_tables db)"
  shows "keeps db p db' p'"
  using assms(1)
proof cases
  case (completed now ev r)
  obtain r1 db1 p1 where c: "notification_event now ev (db, p) = (r1, (db1, p1))" by (metis surj_pair)
  have r1: "p1 = p'" "db' = (case r1 of Inl _ \<Rightarrow> db | Inr _ \<Rightarrow> db1)"
    using completed c by (auto simp: process_notification_event_def external_transaction_def split: sum.splits)
  have "db1 = db" if "r1 = Inr False"
    using c that dispatch_world(3) [of _ _ _ _ _ db p r1 db1 p1]
    by (auto simp: notification_event_def split: option.splits)
  with r1 have "db' = db \<or> (r1 = Inr True \<and> db' = db1)" by (cases r1) auto
  from event_keeps [OF c [unfolded r1(1)] assms(2) this] show ?thesis .
next
  case (crashed now ev r db'')
  then show ?thesis by (intro event_keeps [OF _ assms(2)]) auto
qed

lemma job_steps_keep:
  assumes "job_step\<^sup>*\<^sup>* (db, p) (db', p')" "outbox_ok (mb_tables db)"
  shows "keeps db p db' p'"
  using assms
proof (induction "(db', p')" arbitrary: db' p' rule: rtranclp_induct)
  case base
  then show ?case by (simp add: keeps_def)
next
  case (step s)
  obtain db1 p1 where s: "s = (db1, p1)" by (cases s)
  have k: "keeps db p db1 p1" using step(3) [OF s step.prems] .
  then have "outbox_ok (mb_tables db1)" using step.prems by (simp add: keeps_def)
  with job_step_keeps step(2) s k show ?case by (blast intro: keeps_trans)
qed

text \<open>
  C18. A notification job has its effect once. After a job for an event completed with
  \<open>True\<close>, whatever other jobs run, fail or die between the provider call and the commit, the
  same job answers \<open>False\<close> and changes neither the tables nor the provider; the event
  keeps its one notification row, and no further message for it is sent. The row records
  the provider's receipt for the event, the same one if an earlier attempt had died after
  the provider call, or it is marked skipped and the provider was not called, as the
  customer's preference says.
\<close>

theorem notification_once:
  assumes "outbox_ok (mb_tables db)" "process_notification_event now ev (db, p) = (Inr True, (db1, p1))"
    "job_step\<^sup>*\<^sup>* (db1, p1) (db2, p2)"
  shows "process_notification_event now' ev (db2, p2) = (Inr False, (db2, p2))
    \<and> (\<exists>row. dict_get (mb_notifications db1) ev = Some row \<and> dict_get (mb_notifications db2) ev = Some row
        \<and> (nr_status row = ''sent'' \<and> nr_provider_message_id row \<noteq> None
             \<and> nr_provider_message_id row = dict_get (pv_receipts p1) (str_uuid ev)
             \<and> (\<forall>r. dict_get (pv_receipts p) (str_uuid ev) = Some r \<longrightarrow> nr_provider_message_id row = Some r)
           \<or> nr_status row = ''skipped'' \<and> p1 = p))
    \<and> filter ((=) (str_uuid ev)) (pv_attempts p2) = filter ((=) (str_uuid ev)) (pv_attempts p1)"
proof -
  have call: "notification_event now ev (db, p) = (Inr True, (db1, p1))"
    using assms(2) by (auto simp: process_notification_event_def external_transaction_def split: prod.splits sum.splits)
  then obtain msg where msg: "dict_get (t_outbox (mb_tables db)) ev = Some msg"
    by (auto simp: notification_event_def split: option.splits)
  have id: "ob_id msg = ev" using msg assms(1) by (auto simp: outbox_ok_def dest: map_of_SomeD)
  have d: "dispatch_order_created_notification_once provider_send ev (ob_event_type msg) (ob_payload msg) now ''email'' (db, p)
      = (Inr True, (db1, p1))" using call msg id by (simp add: notification_event_def)
  from dispatch_True [OF d] obtain row t c where row: "message_ids (ob_event_type msg) (ob_payload msg) = Inr (nr_order_id row, t, c)"
    "dict_get (mb_inbox db1) ev \<noteq> None" "mb_tables db1 = mb_tables db" "dict_get (mb_notifications db1) ev = Some row"
    "if preference_enabled db t c ''email''
     then nr_status row = ''sent'' \<and> nr_provider_message_id row = dict_get (pv_receipts p1) (str_uuid ev)
       \<and> nr_provider_message_id row \<noteq> None \<and> pv_attempts p1 = pv_attempts p @ [str_uuid ev]
     else nr_status row = ''skipped'' \<and> p1 = p" by auto
  have ok1: "outbox_ok (mb_tables db1)" using assms(1) row(3) by simp
  have k: "mb_tables db2 = mb_tables db1" "dict_get (mb_inbox db2) ev = dict_get (mb_inbox db1) ev"
    "dict_get (mb_notifications db2) ev = dict_get (mb_notifications db1) ev"
    "filter ((=) (str_uuid ev)) (pv_attempts p2) = filter ((=) (str_uuid ev)) (pv_attempts p1)"
    using job_steps_keep [OF assms(3) ok1] row(2) by (auto simp: keeps_def)
  have "notification_event now' ev (db2, p2) = (Inr False, (db2, p2))"
    using msg id row(1-3) k(1,2) by (auto simp: notification_event_def dispatch_eq)
  then have "process_notification_event now' ev (db2, p2) = (Inr False, (db2, p2))"
    by (simp add: process_notification_event_def external_transaction_def)
  moreover have "dict_get (pv_receipts p1) (str_uuid ev) = Some r" if "dict_get (pv_receipts p) (str_uuid ev) = Some r" for r
    using dispatch_world(2) [OF d] that by (metis domI map_le_def)
  ultimately show ?thesis
    using row(4,5) k(3,4) by (cases "preference_enabled db t c ''email''") (simp_all, metis)
qed

definition sample_created :: OrderCreated where
  "sample_created = \<lparr> oc_event_id = 1, oc_order_id = 10, oc_customer_id = 7, oc_tenant_id = DEFAULT_TENANT_ID,
     oc_occurred_at = 5, oc_order_version = 1 \<rparr>"

definition sample_messages :: message_tables where
  "sample_messages = \<lparr> mb_tables = empty_tables \<lparr> t_outbox := [(1, \<lparr> ob_id = 1, ob_event_type = ''order.created'',
       ob_payload = created_integration_payload sample_created, ob_legacy_processed_at = None, ob_created_at = 5,
       ob_published_at = None \<rparr>)] \<rparr>,
     mb_inbox = [], mb_notifications = [], mb_preferences = [] \<rparr>"

definition idle_provider :: InMemoryIdempotentNotificationProvider where
  "idle_provider = \<lparr> pv_receipts = [], pv_attempts = [] \<rparr>"

lemma created_message_ids:
  "message_ids ''order.created'' (created_integration_payload e) = Inr (oc_order_id e, oc_tenant_id e, oc_customer_id e)"
proof -
  have "str_uuid k \<noteq> ''''" for k using length_str_uuid [of k] by force
  then show ?thesis
    by (simp add: message_ids_def created_order_id_def created_integration_payload_def json_get_uuid_def
        json_get_str_def json_get_def)
qed

lemma sample_job:
  "\<exists>s'. process_notification_event 9 1 (sample_messages, idle_provider) = (Inr True, s')"
proof -
  have len: "length (created_message i) \<le> 300" "length (''local-'' @ str_uuid i) \<le> 200" for i
    by (simp_all add: created_message_def)
  show ?thesis
    by (simp add: process_notification_event_def external_transaction_def notification_event_def sample_messages_def
        dispatch_eq created_message_ids Let_def claimed_tables_def preference_enabled_def insert_notification_row_def
        notification_row_error_def provider_send_def idle_provider_def update_notification_row_def
        linorder_not_less len [simplified])
qed

theorem notification_once_witness:
  "\<exists>s'. process_notification_event 9 1 (sample_messages, idle_provider) = (Inr True, s')
     \<and> process_notification_event 12 1 s' = (Inr False, s')"
proof -
  from sample_job obtain db1 p1 where call: "process_notification_event 9 1 (sample_messages, idle_provider)
      = (Inr True, (db1, p1))" by auto
  have "outbox_ok (mb_tables sample_messages)" by (simp add: outbox_ok_def sample_messages_def)
  from notification_once [OF this call rtranclp.rtrancl_refl, of 12] call show ?thesis by blast
qed

section \<open>Claims in the inbox\<close>

text \<open>
  The two consumers of \<open>order.created\<close> disagree on the message format. Every message the
  service writes for a created order carries the order id as \<open>aggregate_id\<close> only: the
  notification dispatch reads it, while \<open>consume_order_created_once\<close> raises \<open>KeyError\<close> for
  every such event it has not seen, so its transaction is always rolled back.
\<close>

theorem consumers_disagree_on_created_events:
  assumes "dict_get (mb_inbox db) (oc_event_id e) = None"
  shows "transactional (consume_order_created_once now \<lparr> oe_id = oc_event_id e, oe_event_type = ''order.created'',
        oe_payload = created_integration_payload e \<rparr>) db = (Inl (KeyError ''order_id''), db)
    \<and> message_ids ''order.created'' (created_integration_payload e) = Inr (oc_order_id e, oc_tenant_id e, oc_customer_id e)"
  using assms created_message_ids
  by (simp add: transactional_def consume_order_created_once_def andThen_def claim_inbox_def check_def lift_result_def
      json_get_uuid_def json_get_str_def json_get_def created_integration_payload_def)

theorem consumers_disagree_on_created_events_witness:
  "transactional (consume_order_created_once 9 \<lparr> oe_id = 1, oe_event_type = ''order.created'',
      oe_payload = created_integration_payload sample_created \<rparr>) sample_messages = (Inl (KeyError ''order_id''), sample_messages)"
  using consumers_disagree_on_created_events [of sample_messages sample_created 9]
  by (simp add: sample_messages_def sample_created_def)

end
