(* ===== verification/Security.thy ===== *)
theory Security
  imports Rate_Limit Sql_Orders
begin

text \<open>
  \<open>security.py\<close>, \<open>csrf.py\<close> and \<open>identity.py\<close>: passwords, tokens, the actor of a request, the
  session-bound CSRF token, and the identities in both adapters. Argon2 and PyJWT are
  records of functions passed as arguments; \<open>jwt_documented\<close> states what PyJWT documents
  about its encode and decode. \<open>uuid4()\<close>, \<open>secrets.token_urlsafe\<close> and the clock are arguments.
\<close>

section \<open>Bytes as hexadecimal text\<close>

text \<open>\<open>bytes.hex()\<close> and \<open>bytes.fromhex\<close>, which skips ASCII white space between bytes.\<close>

definition hex_text :: "string \<Rightarrow> string" where
  "hex_text bytes = concat (map (\<lambda>b. hex_fixed 2 (code b)) bytes)"

fun fromhex :: "string \<Rightarrow> string option" where
  "fromhex [] = Some []"
| "fromhex [c] = (if code c = 32 \<or> 9 \<le> code c \<and> code c \<le> 13 then Some [] else None)"
| "fromhex (c # d # cs) =
     (if code c = 32 \<or> 9 \<le> code c \<and> code c \<le> 13 then fromhex (d # cs)
      else case (digit_val c, digit_val d) of
             (Some x, Some y) \<Rightarrow> map_option ((#) (char_of (16 * x + y))) (fromhex cs)
           | _ \<Rightarrow> None)"

lemma digit_char_not_space: "d < 16 \<Longrightarrow> \<not> (code (digit_char d) = 32 \<or> 9 \<le> code (digit_char d) \<and> code (digit_char d) \<le> 13)"
  by (auto simp: code_digit_char)

lemma hex_text_Cons [simp]: "hex_text [] = ''''"
  "hex_text (b # bs) = digit_char (code b div 16 mod 16) # digit_char (code b mod 16) # hex_text bs"
  by (simp_all add: hex_text_def numeral_2_eq_2)

lemma fromhex_hex_text [simp]: "fromhex (hex_text bytes) = Some bytes"
proof (induction bytes)
  case (Cons b bs)
  have "code b < 256" using of_char_mod_256 [of b] unfolding code_def by (metis mod_less_divisor zero_less_numeral)
  then have "16 * (code b div 16 mod 16) + code b mod 16 = code b" by simp
  then have "char_of (16 * (code b div 16 mod 16) + code b mod 16) = b" by (simp add: code_def)
  with Cons digit_char_not_space [of "code b div 16 mod 16"] show ?case by (auto simp del: not_le)
qed simp

lemma length_hex_text [simp]: "length (hex_text bytes) = 2 * length bytes"
  by (induction bytes) simp_all

lemma hex_text_no_dot [simp]: "CHR ''.'' \<notin> set (hex_text bytes)"
proof (induction bytes)
  case (Cons b bs)
  have "digit_char d \<noteq> CHR ''.''" if "d < 16" for d
    using that code_digit_char [of d] by (intro neq_by_code) (auto simp: code_def split: if_splits)
  with Cons show ?case by (metis digit_char_neq hex_text_Cons(2) mod_less_divisor set_ConsD zero_less_numeral)
qed simp

text \<open>\<open>str.isdecimal()\<close> of an ASCII text.\<close>

definition isdecimal :: "string \<Rightarrow> bool" where
  "isdecimal s \<longleftrightarrow> s \<noteq> '''' \<and> list_all (\<lambda>c. 48 \<le> code c \<and> code c \<le> 57) s"

section \<open>Passwords\<close>

record PasswordCheck =
  pc_verified :: bool
  pc_replacement_hash :: "string option"

text \<open>\<open>argon2.PasswordHasher\<close>: \<open>ag_verify\<close> is false when \<open>verify\<close> raises one of the caught errors.\<close>

record argon2_hasher =
  ag_hash :: "string \<Rightarrow> string \<Rightarrow> string"
  ag_verify :: "string \<Rightarrow> string \<Rightarrow> bool"
  ag_check_needs_rehash :: "string \<Rightarrow> bool"

definition hash_password :: "argon2_hasher \<Rightarrow> string \<Rightarrow> string \<Rightarrow> string" where
  "hash_password hasher salt password = ag_hash hasher salt password"

definition check_password :: "argon2_hasher \<Rightarrow> string \<Rightarrow> string \<Rightarrow> string \<Rightarrow> PasswordCheck" where
  "check_password hasher salt password expected =
     (if \<not> ag_verify hasher expected password then \<lparr> pc_verified = False, pc_replacement_hash = None \<rparr>
      else \<lparr> pc_verified = True,
             pc_replacement_hash = (if ag_check_needs_rehash hasher expected then Some (ag_hash hasher salt password)
                                    else None) \<rparr>)"

definition verify_password :: "argon2_hasher \<Rightarrow> string \<Rightarrow> string \<Rightarrow> string \<Rightarrow> bool" where
  "verify_password hasher salt password expected = pc_verified (check_password hasher salt password expected)"

definition DUMMY_PASSWORD_HASH :: "argon2_hasher \<Rightarrow> string \<Rightarrow> string" where
  "DUMMY_PASSWORD_HASH hasher salt = hash_password hasher salt ''dummy password used only for timing balance''"

section \<open>Subjects and actors\<close>

definition BEARER_CHALLENGE :: "(string \<times> string) list" where
  "BEARER_CHALLENGE = [(''WWW-Authenticate'', ''Bearer'')]"

definition parse_subject :: "string \<Rightarrow> (string \<times> uuid) result" where
  "parse_subject subject =
     (case partition_at (CHR '':'') subject of
        (role, separator, raw_user_id) \<Rightarrow>
          if \<not> separator \<or> role \<notin> {''customer'', ''courier'', ''dispatcher''}
          then Inl (HTTPException 401 ''invalid subject'' BEARER_CHALLENGE)
          else (case uuid_of_text raw_user_id of
                  None \<Rightarrow> Inl (HTTPException 401 ''invalid subject'' BEARER_CHALLENGE)
                | Some user_id \<Rightarrow> Inr (role, user_id)))"

definition role_of_text :: "string \<Rightarrow> Role option" where
  "role_of_text s = find (\<lambda>r. role_value r = s) [CUSTOMER, COURIER, DISPATCHER]"

definition owns_order :: "Actor \<Rightarrow> uuid \<Rightarrow> uuid option \<Rightarrow> uuid \<Rightarrow> bool" where
  "owns_order actor customer_id courier_id tenant_id = can_access_order actor tenant_id customer_id courier_id"

definition owns_order_subject :: "string \<Rightarrow> uuid \<Rightarrow> uuid option \<Rightarrow> uuid \<Rightarrow> bool result" where
  "owns_order_subject subject customer_id courier_id tenant_id =
     thenR (parse_subject subject) (\<lambda>(role, actor_id).
     thenR (of_option (ValueError ''not a valid Role'') (role_of_text role)) (\<lambda>r.
     Inr (can_access_order \<lparr> a_user_id = actor_id, a_role = r, a_tenant_id = DEFAULT_TENANT_ID \<rparr>
            tenant_id customer_id courier_id)))"

section \<open>Tokens\<close>

record token_claims =
  cl_sub :: string
  cl_type :: string
  cl_iss :: string
  cl_aud :: string
  cl_iat :: datetime
  cl_nbf :: datetime
  cl_exp :: datetime
  cl_jti :: string
  cl_tenant :: string
  cl_family :: "string option"

text \<open>
  PyJWT: \<open>jwt_encode claims key typ\<close> signs with HS256, \<open>jwt_header\<close> reads the header without
  verifying, \<open>jwt_decode token key issuer audience required leeway now\<close> verifies and
  returns the payload. None stands for any \<open>PyJWTError\<close>.
\<close>

record jwt_library =
  jwt_encode :: "token_claims \<Rightarrow> string \<Rightarrow> string \<Rightarrow> string"
  jwt_header :: "string \<Rightarrow> json_object option"
  jwt_decode :: "string \<Rightarrow> string \<Rightarrow> string \<Rightarrow> string \<Rightarrow> string list \<Rightarrow> int \<Rightarrow> datetime \<Rightarrow> json_object option"

record jwt_settings =
  js_secret :: string
  js_issuer :: string
  js_audience :: string

record token_draws =
  td_now :: datetime
  td_token_id :: uuid
  td_family_id :: uuid

definition create_token ::
  "jwt_library \<Rightarrow> jwt_settings \<Rightarrow> token_draws \<Rightarrow> string \<Rightarrow> string \<Rightarrow> int \<Rightarrow> uuid option \<Rightarrow> uuid option
   \<Rightarrow> datetime option \<Rightarrow> uuid \<Rightarrow> string result" where
  "create_token lib settings d subject token_type lifetime token_id family_id now tenant_id =
     (if token_type \<notin> {''access'', ''refresh''} then Inl (ValueError ''unsupported token type'')
      else
        let issued_at = (case now of Some t \<Rightarrow> t | None \<Rightarrow> td_now d);
            jti = (case token_id of Some i \<Rightarrow> i | None \<Rightarrow> td_token_id d);
            family = (case family_id of Some f \<Rightarrow> f | None \<Rightarrow> td_family_id d)
        in Inr (jwt_encode lib
             \<lparr> cl_sub = subject, cl_type = token_type, cl_iss = js_issuer settings, cl_aud = js_audience settings,
               cl_iat = issued_at, cl_nbf = issued_at, cl_exp = issued_at + lifetime, cl_jti = str_uuid jti,
               cl_tenant = str_uuid tenant_id,
               cl_family = (if token_type = ''refresh'' then Some (str_uuid family) else None) \<rparr>
             (js_secret settings) (if token_type = ''access'' then ''at+jwt'' else ''rt+jwt'')))"

abbreviation seconds :: "int \<Rightarrow> int" where
  "seconds n \<equiv> n * 1000000"

definition create_refresh_token :: "jwt_library \<Rightarrow> jwt_settings \<Rightarrow> token_draws \<Rightarrow> string \<Rightarrow> string result" where
  "create_refresh_token lib settings d subject =
     create_token lib settings d subject ''refresh'' (seconds (7 * 86400)) None None None DEFAULT_TENANT_ID"

record IssuedTokenPair =
  ip_access_token :: string
  ip_refresh_token :: string
  ip_access_expires_in :: int
  ip_refresh_jti :: uuid
  ip_family_id :: uuid
  ip_refresh_expires_at :: datetime

definition issue_token_pair ::
  "jwt_library \<Rightarrow> jwt_settings \<Rightarrow> token_draws \<Rightarrow> uuid \<Rightarrow> string \<Rightarrow> uuid option \<Rightarrow> datetime option \<Rightarrow> uuid
   \<Rightarrow> IssuedTokenPair result" where
  "issue_token_pair lib settings d refresh_jti subject family_id now tenant_id =
     (let issued_at = (case now of Some t \<Rightarrow> t | None \<Rightarrow> td_now d);
          family = (case family_id of Some f \<Rightarrow> f | None \<Rightarrow> td_family_id d);
          refresh_lifetime = seconds (7 * 86400)
      in thenR (create_token lib settings d subject ''access'' (seconds (15 * 60)) None None (Some issued_at) tenant_id) (\<lambda>access.
         thenR (create_token lib settings d subject ''refresh'' refresh_lifetime (Some refresh_jti) (Some family)
                  (Some issued_at) tenant_id) (\<lambda>refresh.
         Inr \<lparr> ip_access_token = access, ip_refresh_token = refresh, ip_access_expires_in = 900,
               ip_refresh_jti = refresh_jti, ip_family_id = family,
               ip_refresh_expires_at = issued_at + refresh_lifetime \<rparr>)))"

definition REQUIRED_CLAIMS :: "string list" where
  "REQUIRED_CLAIMS = [''sub'', ''type'', ''iss'', ''aud'', ''iat'', ''nbf'', ''exp'', ''jti'', ''tenant'']"

definition invalid_token :: "'a result" where
  "invalid_token = Inl (HTTPException 401 ''invalid token'' BEARER_CHALLENGE)"

definition decode_token ::
  "jwt_library \<Rightarrow> jwt_settings \<Rightarrow> datetime \<Rightarrow> string \<Rightarrow> string \<Rightarrow> json_object result" where
  "decode_token lib settings now expected_type token =
     (let expected_typ = (if expected_type = ''access'' then ''at+jwt'' else ''rt+jwt'')
      in case jwt_header lib token of
           None \<Rightarrow> invalid_token
         | Some header \<Rightarrow>
             if dict_get header ''alg'' \<noteq> Some (JStr ''HS256'') \<or> dict_get header ''typ'' \<noteq> Some (JStr expected_typ)
             then invalid_token
             else (case jwt_decode lib token (js_secret settings) (js_issuer settings) (js_audience settings)
                          REQUIRED_CLAIMS (seconds 30) now of
                     None \<Rightarrow> invalid_token
                   | Some payload \<Rightarrow>
                       if dict_get payload ''type'' \<noteq> Some (JStr expected_type) then invalid_token
                       else (case (json_get_uuid payload ''jti'', json_get_uuid payload ''tenant'',
                                   if expected_type = ''refresh'' then json_get_uuid payload ''family'' else Inr 0) of
                               (Inr _, Inr _, Inr _) \<Rightarrow> Inr payload
                             | _ \<Rightarrow> invalid_token)))"

definition current_subject :: "jwt_library \<Rightarrow> jwt_settings \<Rightarrow> datetime \<Rightarrow> string option \<Rightarrow> string result" where
  "current_subject lib settings now token =
     (case token of
        None \<Rightarrow> Inl (HTTPException 401 ''authentication required'' BEARER_CHALLENGE)
      | Some t \<Rightarrow> thenR (decode_token lib settings now ''access'' t) (\<lambda>claims. json_get_str claims ''sub''))"

definition actor_from_claims :: "json_object \<Rightarrow> Actor result" where
  "actor_from_claims claims =
     thenR (json_get_str claims ''sub'') (\<lambda>sub.
     thenR (parse_subject sub) (\<lambda>(role, user_id).
     (case (role_of_text role, json_get_uuid claims ''tenant'') of
        (Some r, Inr tenant) \<Rightarrow> Inr \<lparr> a_user_id = user_id, a_role = r, a_tenant_id = tenant \<rparr>
      | _ \<Rightarrow> Inl (HTTPException 401 ''invalid actor context'' BEARER_CHALLENGE))))"

definition require_role ::
  "jwt_library \<Rightarrow> jwt_settings \<Rightarrow> datetime \<Rightarrow> string \<Rightarrow> string option \<Rightarrow> string result" where
  "require_role lib settings now required token =
     thenR (current_subject lib settings now token) (\<lambda>subject.
     (case partition_at (CHR '':'') subject of
        (role, _, user_id) \<Rightarrow>
          if role \<noteq> required then Inl (HTTPException 403 ''insufficient role'' []) else Inr user_id))"

section \<open>CSRF tokens\<close>

definition csrf_key :: "jwt_settings \<Rightarrow> string" where
  "csrf_key settings = hmac_sha256 (js_secret settings) ''delivery-service:csrf:v1''"

definition csrf_message :: "string \<Rightarrow> string \<Rightarrow> string" where
  "csrf_message session_jti nonce =
     dec_nat (length session_jti) @ ''!'' @ session_jti @ ''!'' @ dec_nat (length nonce) @ ''!'' @ nonce"

definition new_csrf_token :: "jwt_settings \<Rightarrow> string \<Rightarrow> string \<Rightarrow> string" where
  "new_csrf_token settings nonce session_jti =
     hmac_sha256_hex (csrf_key settings) (csrf_message session_jti nonce) @ ''.'' @ nonce"

definition verify_csrf_token :: "jwt_settings \<Rightarrow> string option \<Rightarrow> string option \<Rightarrow> string \<Rightarrow> bool" where
  "verify_csrf_token settings cookie_token header_token session_jti =
     (case (cookie_token, header_token) of
        (Some cookie, Some header) \<Rightarrow>
          if cookie = '''' \<or> header = '''' then False
          else if cookie \<noteq> header then False
          else (case partition_at (CHR ''.'') header of
                  (supplied_signature, found, nonce) \<Rightarrow>
                    if \<not> found then False
                    else if supplied_signature = '''' \<or> nonce = '''' then False
                    else supplied_signature = hmac_sha256_hex (csrf_key settings) (csrf_message session_jti nonce))
      | _ \<Rightarrow> False)"

section \<open>The actor of a request\<close>

record auth_request =
  rq_method :: string
  rq_bearer :: "string option"
  rq_session_cookie :: "string option"
  rq_csrf_cookie :: "string option"
  rq_csrf_header :: "string option"

definition current_actor :: "jwt_library \<Rightarrow> jwt_settings \<Rightarrow> datetime \<Rightarrow> auth_request \<Rightarrow> Actor result" where
  "current_actor lib settings now request =
     (case rq_bearer request of
        Some token \<Rightarrow> thenR (decode_token lib settings now ''access'' token) actor_from_claims
      | None \<Rightarrow>
          (case rq_session_cookie request of
             None \<Rightarrow> Inl (HTTPException 401 ''authentication required'' BEARER_CHALLENGE)
           | Some session_token \<Rightarrow>
               thenR (decode_token lib settings now ''access'' session_token) (\<lambda>claims.
               thenR (json_get_str claims ''jti'') (\<lambda>jti.
               if rq_method request \<notin> {''GET'', ''HEAD'', ''OPTIONS''}
                  \<and> \<not> verify_csrf_token settings (rq_csrf_cookie request) (rq_csrf_header request) jti
               then Inl (HTTPException 403 ''CSRF check failed'' [])
               else actor_from_claims claims))))"

section \<open>Identities\<close>

record 'i IdentityRepository =
  id_password_hash :: "string \<Rightarrow> 'i \<Rightarrow> string option"
  id_tenant_id :: "string \<Rightarrow> 'i \<Rightarrow> uuid option"
  id_add :: "string \<Rightarrow> string \<Rightarrow> uuid \<Rightarrow> ('i, bool) action"
  id_replace_password_hash :: "string \<Rightarrow> string \<Rightarrow> string \<Rightarrow> ('i, bool) action"

record InMemoryIdentityRepository =
  mi_passwords :: "(string \<times> string) list"
  mi_tenants :: "(string \<times> uuid) list"

definition mem_password_hash :: "string \<Rightarrow> InMemoryIdentityRepository \<Rightarrow> string option" where
  "mem_password_hash subject s = dict_get (mi_passwords s) subject"

definition mem_tenant_id :: "string \<Rightarrow> InMemoryIdentityRepository \<Rightarrow> uuid option" where
  "mem_tenant_id subject s = dict_get (mi_tenants s) subject"

definition mem_identity_add :: "string \<Rightarrow> string \<Rightarrow> uuid \<Rightarrow> (InMemoryIdentityRepository, bool) action" where
  "mem_identity_add subject hash tenant_id s =
     (if dict_get (mi_passwords s) subject \<noteq> None then (Inr False, s)
      else (Inr True, \<lparr> mi_passwords = dict_set subject hash (mi_passwords s),
                        mi_tenants = dict_set subject tenant_id (mi_tenants s) \<rparr>))"

definition mem_replace_password_hash :: "string \<Rightarrow> string \<Rightarrow> string \<Rightarrow> (InMemoryIdentityRepository, bool) action" where
  "mem_replace_password_hash subject expected replacement s =
     (if dict_get (mi_passwords s) subject \<noteq> Some expected then (Inr False, s)
      else (Inr True, s \<lparr> mi_passwords := dict_set subject replacement (mi_passwords s) \<rparr>))"

definition in_memory_identities :: "InMemoryIdentityRepository IdentityRepository" where
  "in_memory_identities = \<lparr> id_password_hash = mem_password_hash, id_tenant_id = mem_tenant_id,
     id_add = mem_identity_add, id_replace_password_hash = mem_replace_password_hash \<rparr>"

record IdentityRow =
  ir_subject :: string
  ir_tenant_id :: uuid
  ir_password_hash :: string

type_synonym identity_table = "(string \<times> IdentityRow) list"

definition sql_password_hash :: "string \<Rightarrow> identity_table \<Rightarrow> string option" where
  "sql_password_hash subject t = map_option ir_password_hash (dict_get t subject)"

definition sql_tenant_id :: "string \<Rightarrow> identity_table \<Rightarrow> uuid option" where
  "sql_tenant_id subject t = map_option ir_tenant_id (dict_get t subject)"

definition sql_identity_add :: "string \<Rightarrow> string \<Rightarrow> uuid \<Rightarrow> (identity_table, bool) action" where
  "sql_identity_add subject hash tenant_id t =
     (if 100 < length subject \<or> 300 < length hash then (Inl (DBAPIError (Some ''22001'')), t)
      else if dict_get t subject \<noteq> None then (Inr False, t)
      else (Inr True, dict_set subject \<lparr> ir_subject = subject, ir_tenant_id = tenant_id, ir_password_hash = hash \<rparr> t))"

definition sql_replace_password_hash :: "string \<Rightarrow> string \<Rightarrow> string \<Rightarrow> (identity_table, bool) action" where
  "sql_replace_password_hash subject expected replacement t =
     (case dict_get t subject of
        None \<Rightarrow> (Inr False, t)
      | Some row \<Rightarrow>
          if ir_password_hash row \<noteq> expected then (Inr False, t)
          else if 300 < length replacement then (Inl (DBAPIError (Some ''22001'')), t)
          else (Inr True, dict_set subject (row \<lparr> ir_password_hash := replacement \<rparr>) t))"

definition sql_identities :: "identity_table IdentityRepository" where
  "sql_identities = \<lparr> id_password_hash = sql_password_hash, id_tenant_id = sql_tenant_id,
     id_add = sql_identity_add, id_replace_password_hash = sql_replace_password_hash \<rparr>"

section \<open>The contract of the identity adapters\<close>

locale identity_port =
  fixes repo :: "'i IdentityRepository"
  assumes add_law: "id_add repo subject hash tenant s = (Inr b, s') \<Longrightarrow>
      b = (id_password_hash repo subject s = None)
      \<and> (\<lambda>x. id_password_hash repo x s')
          = (if b then (\<lambda>x. id_password_hash repo x s)(subject \<mapsto> hash) else (\<lambda>x. id_password_hash repo x s))
      \<and> (b \<longrightarrow> (\<lambda>x. id_tenant_id repo x s') = (\<lambda>x. id_tenant_id repo x s)(subject \<mapsto> tenant))
      \<and> (\<not> b \<longrightarrow> s' = s)"
    and replace_law: "id_replace_password_hash repo subject expected replacement s = (Inr b, s') \<Longrightarrow>
      b = (id_password_hash repo subject s = Some expected)
      \<and> (\<lambda>x. id_password_hash repo x s')
          = (if b then (\<lambda>x. id_password_hash repo x s)(subject \<mapsto> replacement) else (\<lambda>x. id_password_hash repo x s))
      \<and> (\<lambda>x. id_tenant_id repo x s') = (\<lambda>x. id_tenant_id repo x s) \<and> (\<not> b \<longrightarrow> s' = s)"

inductive identity_step :: "'i IdentityRepository \<Rightarrow> 'i \<Rightarrow> 'i \<Rightarrow> bool" for repo where
  registered: "id_add repo subject hash tenant s = (Inr b, s') \<Longrightarrow> identity_step repo s s'"
| rehashed: "id_replace_password_hash repo subject expected replacement s = (Inr b, s') \<Longrightarrow> identity_step repo s s'"

context identity_port
begin

text \<open>An account, once registered, keeps its tenant, and no registration replaces it.\<close>

lemma account_step:
  assumes "identity_step repo s s'" "id_password_hash repo x s \<noteq> None"
  shows "id_password_hash repo x s' \<noteq> None \<and> id_tenant_id repo x s' = id_tenant_id repo x s"
  using assms(1)
proof cases
  case (registered subject hash tenant b)
  from add_law [OF registered] assms(2) show ?thesis by (cases b) (auto simp: fun_eq_iff)
next
  case (rehashed subject expected replacement b)
  from replace_law [OF rehashed] assms(2) show ?thesis by (cases b) (auto simp: fun_eq_iff)
qed

lemma account_kept:
  assumes "(identity_step repo)\<^sup>*\<^sup>* s s'" "id_password_hash repo x s \<noteq> None"
  shows "id_password_hash repo x s' \<noteq> None \<and> id_tenant_id repo x s' = id_tenant_id repo x s"
  using assms by (induction rule: rtranclp_induct) (auto dest: account_step)

lemma first_registration_wins:
  assumes "(identity_step repo)\<^sup>*\<^sup>* s s'" "id_password_hash repo x s \<noteq> None"
    "id_add repo x hash tenant s' = (Inr b, s'')"
  shows "\<not> b \<and> s'' = s' \<and> id_tenant_id repo x s' = id_tenant_id repo x s"
proof -
  from account_kept [OF assms(1,2)] have k: "id_password_hash repo x s' \<noteq> None" "id_tenant_id repo x s' = id_tenant_id repo x s"
    by simp_all
  with add_law [OF assms(3)] show ?thesis by simp
qed

end

interpretation mem_identity: identity_port in_memory_identities
  by unfold_locales
    (auto simp: in_memory_identities_def mem_identity_add_def mem_replace_password_hash_def mem_password_hash_def
      mem_tenant_id_def fun_eq_iff split: if_splits)

interpretation sql_identity: identity_port sql_identities
  by unfold_locales
    (auto simp: sql_identities_def sql_identity_add_def sql_replace_password_hash_def sql_password_hash_def
      sql_tenant_id_def fun_eq_iff split: if_splits option.splits)

section \<open>Subjects round trip\<close>

lemma partition_at_append: "c \<notin> set s \<Longrightarrow> partition_at c (s @ c # r) = (s, True, r)"
  by (induction s) auto

lemma role_value_colon: "CHR '':'' \<notin> set (role_value r)" "role_value r \<in> {''customer'', ''courier'', ''dispatcher''}"
  by (cases r; simp)+

lemma role_of_text_value [simp]: "role_of_text (role_value r) = Some r"
  by (cases r) (simp_all add: role_of_text_def)

lemma parse_subject_actor [simp]: "parse_subject (actor_subject a) = Inr (role_value (a_role a), a_user_id a)"
  using partition_at_append [OF role_value_colon(1)] role_value_colon(2) [of "a_role a"]
  by (auto simp: parse_subject_def actor_subject_def)

section \<open>Tokens round trip\<close>

text \<open>The payload of a token: PyJWT stores the times as whole seconds.\<close>

definition claims_json :: "token_claims \<Rightarrow> json_object" where
  "claims_json c =
     [(''sub'', JStr (cl_sub c)), (''type'', JStr (cl_type c)), (''iss'', JStr (cl_iss c)), (''aud'', JStr (cl_aud c)),
      (''iat'', JInt (cl_iat c div 1000000)), (''nbf'', JInt (cl_nbf c div 1000000)), (''exp'', JInt (cl_exp c div 1000000)),
      (''jti'', JStr (cl_jti c)), (''tenant'', JStr (cl_tenant c))]
     @ (case cl_family c of None \<Rightarrow> [] | Some f \<Rightarrow> [(''family'', JStr f)])"

definition in_time :: "token_claims \<Rightarrow> int \<Rightarrow> datetime \<Rightarrow> bool" where
  "in_time c leeway now \<longleftrightarrow> seconds (cl_iat c div 1000000) \<le> now + leeway \<and> seconds (cl_nbf c div 1000000) \<le> now + leeway
     \<and> now - leeway < seconds (cl_exp c div 1000000)"

text \<open>
  What PyJWT documents: a token it encoded carries the algorithm and the given \<open>typ\<close>, and is
  decoded with the same key to its claims when issuer and audience match and the time is
  within \<open>nbf\<close>, \<open>iat\<close> and \<open>exp\<close> up to the leeway, and refused otherwise.
\<close>

definition jwt_documented :: "jwt_library \<Rightarrow> bool" where
  "jwt_documented lib \<longleftrightarrow>
     (\<forall>c k typ. jwt_header lib (jwt_encode lib c k typ) = Some [(''alg'', JStr ''HS256''), (''typ'', JStr typ)])
     \<and> (\<forall>c k typ iss aud leeway now.
          jwt_decode lib (jwt_encode lib c k typ) k iss aud REQUIRED_CLAIMS leeway now =
            (if cl_iss c = iss \<and> cl_aud c = aud \<and> in_time c leeway now then Some (claims_json c) else None))"

lemma created_token:
  assumes "jwt_documented lib" "parse_subject subject = Inr (role_value r, u)"
    "create_token lib st d subject ty lifetime tid fam (Some t0) tenant = Inr token"
    "valid_at = (\<lambda>now. seconds (t0 div 1000000) \<le> now + seconds 30
        \<and> now - seconds 30 < seconds ((t0 + lifetime) div 1000000))"
  shows "\<exists>claims. decode_token lib st now ty token = (if valid_at now then Inr claims else invalid_token)
      \<and> actor_from_claims claims = Inr \<lparr> a_user_id = u, a_role = r, a_tenant_id = tenant \<rparr>
      \<and> json_get_str claims ''sub'' = Inr subject"
    "\<And>other. other \<in> {''access'', ''refresh''} \<Longrightarrow> other \<noteq> ty \<Longrightarrow> decode_token lib st now other token = invalid_token"
proof -
  have ty: "ty = ''access'' \<or> ty = ''refresh''" using assms(3) by (auto simp: create_token_def split: if_splits)
  define c where "c = \<lparr> cl_sub = subject, cl_type = ty, cl_iss = js_issuer st, cl_aud = js_audience st, cl_iat = t0,
    cl_nbf = t0, cl_exp = t0 + lifetime, cl_jti = str_uuid (case tid of Some i \<Rightarrow> i | None \<Rightarrow> td_token_id d),
    cl_tenant = str_uuid tenant,
    cl_family = (if ty = ''refresh'' then Some (str_uuid (case fam of Some f \<Rightarrow> f | None \<Rightarrow> td_family_id d)) else None) \<rparr>"
  let ?kind = "if ty = ''access'' then ''at+jwt'' else ''rt+jwt''"
  have tok: "token = jwt_encode lib c (js_secret st) ?kind"
    using assms(3) by (auto simp: create_token_def c_def Let_def split: if_splits)
  have hd: "jwt_header lib token = Some [(''alg'', JStr ''HS256''), (''typ'', JStr ?kind)]"
    and dec: "jwt_decode lib token (js_secret st) (js_issuer st) (js_audience st) REQUIRED_CLAIMS (seconds 30) now
      = (if valid_at now then Some (claims_json c) else None)"
    using assms(1) unfolding jwt_documented_def tok by (auto simp: c_def in_time_def assms(4))
  have "decode_token lib st now ty token = (if valid_at now then Inr (claims_json c) else invalid_token)"
    using ty unfolding decode_token_def Let_def hd option.case dec
    by (auto simp: claims_json_def c_def json_get_uuid_def json_get_str_def json_get_def)
  moreover have "actor_from_claims (claims_json c) = Inr \<lparr> a_user_id = u, a_role = r, a_tenant_id = tenant \<rparr>"
    "json_get_str (claims_json c) ''sub'' = Inr subject"
    by (simp_all add: assms(2) actor_from_claims_def claims_json_def c_def json_get_uuid_def json_get_str_def json_get_def)
  ultimately show "\<exists>claims. decode_token lib st now ty token = (if valid_at now then Inr claims else invalid_token)
      \<and> actor_from_claims claims = Inr \<lparr> a_user_id = u, a_role = r, a_tenant_id = tenant \<rparr>
      \<and> json_get_str claims ''sub'' = Inr subject" by blast
  show "decode_token lib st now other token = invalid_token" if "other \<in> {''access'', ''refresh''}" "other \<noteq> ty" for other
    using that ty unfolding decode_token_def Let_def hd by auto
qed

lemma bearer_actor:
  "current_actor lib st now \<lparr> rq_method = m, rq_bearer = Some token, rq_session_cookie = None, rq_csrf_cookie = None,
      rq_csrf_header = None \<rparr> = thenR (decode_token lib st now ''access'' token) actor_from_claims"
  by (simp add: current_actor_def)

text \<open>
  C19. Tokens round trip: an access token created for an actor authenticates exactly that actor,
  with role, user and tenant, from its issue to its expiry (with 30 seconds of leeway),
  and is refused with 401 outside this time; it is never accepted where a refresh token is
  expected, nor a refresh token where an access token is.
\<close>

theorem token_roundtrip:
  assumes "jwt_documented lib"
    "create_token lib st d (actor_subject a) ty lifetime tid fam (Some t0) (a_tenant_id a) = Inr token"
    "valid_at = (\<lambda>now. seconds (t0 div 1000000) \<le> now + seconds 30
        \<and> now - seconds 30 < seconds ((t0 + lifetime) div 1000000))"
  shows "(ty = ''access'' \<longrightarrow> current_actor lib st now \<lparr> rq_method = m, rq_bearer = Some token, rq_session_cookie = None,
           rq_csrf_cookie = None, rq_csrf_header = None \<rparr> = (if valid_at now then Inr a else invalid_token))
    \<and> (\<forall>other. other \<in> {''access'', ''refresh''} \<and> other \<noteq> ty \<longrightarrow> decode_token lib st now other token = invalid_token)
    \<and> (valid_at now \<longrightarrow> (\<exists>claims. decode_token lib st now ty token = Inr claims \<and> actor_from_claims claims = Inr a))"
proof -
  note created = created_token [OF assms(1) parse_subject_actor assms(2,3), where now = now]
  from created(1) obtain claims where own: "decode_token lib st now ty token = (if valid_at now then Inr claims else invalid_token)"
    and act: "actor_from_claims claims = Inr a" by auto
  have "thenR (decode_token lib st now ty token) actor_from_claims = (if valid_at now then Inr a else invalid_token)"
    unfolding own by (simp add: act) (simp add: invalid_token_def)
  then have "current_actor lib st now \<lparr> rq_method = m, rq_bearer = Some token, rq_session_cookie = None,
      rq_csrf_cookie = None, rq_csrf_header = None \<rparr> = (if valid_at now then Inr a else invalid_token)" if "ty = ''access''"
    unfolding bearer_actor that .
  with own act created(2) show ?thesis by simp
qed

text \<open>
  A library with the documented behaviour: a token is the list of its claims, its key and
  its type, each in hexadecimal and closed by a dot.
\<close>

definition signed_text :: "int \<Rightarrow> string" where
  "signed_text i = (if i < 0 then ''-'' else ''+'') @ dec_nat (nat \<bar>i\<bar>)"

definition signed_value :: "string \<Rightarrow> int" where
  "signed_value s = (if take 1 s = ''-'' then - 1 else 1) * int (the (digits_value 10 True 0 (drop 1 s)))"

lemma signed_value_text [simp]: "signed_value (signed_text i) = i"
  by (simp add: signed_value_def signed_text_def dec_nat_value)

fun dotted_fields :: "string \<Rightarrow> string \<Rightarrow> string list" where
  "dotted_fields acc [] = []"
| "dotted_fields acc (c # cs) = (if c = CHR ''.'' then the (fromhex acc) # dotted_fields '''' cs
     else dotted_fields (acc @ [c]) cs)"

definition dotted :: "string list \<Rightarrow> string" where
  "dotted fs = concat (map (\<lambda>f. hex_text f @ ''.'') fs)"

lemma dotted_fields_step:
  "CHR ''.'' \<notin> set h \<Longrightarrow> dotted_fields acc (h @ CHR ''.'' # r) = the (fromhex (acc @ h)) # dotted_fields '''' r"
  by (induction h arbitrary: acc) auto

lemma dotted_fields_inverse [simp]: "dotted_fields '''' (dotted fs) = fs"
  unfolding dotted_def by (induction fs) (simp_all add: dotted_fields_step)

lemma length_dotted: "length (dotted fs) = (\<Sum>f\<leftarrow>fs. 2 * length f + 1)"
  unfolding dotted_def by (induction fs) simp_all

definition claims_fields :: "token_claims \<Rightarrow> string list" where
  "claims_fields c = [cl_sub c, cl_type c, cl_iss c, cl_aud c, signed_text (cl_iat c), signed_text (cl_nbf c),
     signed_text (cl_exp c), cl_jti c, cl_tenant c, case cl_family c of None \<Rightarrow> '''' | Some f \<Rightarrow> ''f'' @ f]"

definition fields_claims :: "string list \<Rightarrow> token_claims" where
  "fields_claims f = \<lparr> cl_sub = f ! 0, cl_type = f ! 1, cl_iss = f ! 2, cl_aud = f ! 3, cl_iat = signed_value (f ! 4),
     cl_nbf = signed_value (f ! 5), cl_exp = signed_value (f ! 6), cl_jti = f ! 7, cl_tenant = f ! 8,
     cl_family = (if f ! 9 = '''' then None else Some (tl (f ! 9))) \<rparr>"

lemma fields_claims_inverse [simp]: "fields_claims (claims_fields c @ r) = c"
  by (cases "cl_family c") (simp_all add: fields_claims_def claims_fields_def)

definition dotted_jwt :: jwt_library where
  "dotted_jwt =
     \<lparr> jwt_encode = (\<lambda>c k typ. dotted (claims_fields c @ [k, typ])),
       jwt_header = (\<lambda>t. Some [(''alg'', JStr ''HS256''), (''typ'', JStr (dotted_fields '''' t ! 11))]),
       jwt_decode = (\<lambda>t k iss aud req leeway now.
         let fs = dotted_fields '''' t; c = fields_claims fs
         in if fs ! 10 = k \<and> cl_iss c = iss \<and> cl_aud c = aud \<and> in_time c leeway now then Some (claims_json c)
            else None) \<rparr>"

lemma dotted_jwt_documented: "jwt_documented dotted_jwt"
proof -
  have "(claims_fields c @ [k, ty]) ! 10 = k" "(claims_fields c @ [k, ty]) ! 11 = ty" for c k ty
    by (simp_all add: claims_fields_def)
  then show ?thesis by (simp add: jwt_documented_def dotted_jwt_def Let_def)
qed

theorem token_roundtrip_witness:
  "\<exists>token. create_token dotted_jwt \<lparr> js_secret = ''s'', js_issuer = ''i'', js_audience = ''a'' \<rparr>
       \<lparr> td_now = 0, td_token_id = 1, td_family_id = 2 \<rparr> (actor_subject \<lparr> a_user_id = 7, a_role = CUSTOMER, a_tenant_id = 3 \<rparr>)
       ''access'' (seconds 900) None None (Some 0) 3 = Inr token
     \<and> current_actor dotted_jwt \<lparr> js_secret = ''s'', js_issuer = ''i'', js_audience = ''a'' \<rparr> (seconds 60)
       \<lparr> rq_method = ''POST'', rq_bearer = Some token, rq_session_cookie = None, rq_csrf_cookie = None, rq_csrf_header = None \<rparr>
       = Inr \<lparr> a_user_id = 7, a_role = CUSTOMER, a_tenant_id = 3 \<rparr>"
proof -
  let ?a = "\<lparr> a_user_id = 7, a_role = CUSTOMER, a_tenant_id = 3 \<rparr>"
  let ?st = "\<lparr> js_secret = ''s'', js_issuer = ''i'', js_audience = ''a'' \<rparr>"
  obtain token where tok: "create_token dotted_jwt ?st \<lparr> td_now = 0, td_token_id = 1, td_family_id = 2 \<rparr> (actor_subject ?a)
      ''access'' (seconds 900) None None (Some 0) (a_tenant_id ?a) = Inr token"
    by (simp add: create_token_def Let_def)
  from token_roundtrip [OF dotted_jwt_documented tok refl, of "seconds 60" "''POST''"] tok show ?thesis by auto
qed

section \<open>CSRF tokens are bound to their session\<close>

lemma cut_at:
  fixes c :: char
  assumes "c \<notin> set s" "c \<notin> set t"
  shows "s @ c # x = t @ c # y \<longleftrightarrow> s = t \<and> x = y"
proof
  assume "s @ c # x = t @ c # y"
  then have "partition_at c (s @ c # x) = partition_at c (t @ c # y)" by (rule arg_cong)
  then show "s = t \<and> x = y" unfolding partition_at_append [OF assms(1)] partition_at_append [OF assms(2)] by simp
qed simp

lemma dec_nat_digits: "c \<in> set (dec_nat n) \<Longrightarrow> \<exists>d < 10. c = digit_char d"
proof (induction n rule: dec_nat.induct)
  case (1 n)
  from 1(2) show ?case by (subst (asm) dec_nat.simps) (use 1(1) in \<open>auto split: if_splits intro: exI [of _ "n mod 10"]\<close>)
qed

lemma dec_nat_no_bang: "CHR ''!'' \<notin> set (dec_nat n)"
proof
  assume "CHR ''!'' \<in> set (dec_nat n)"
  then obtain d where "d < 10" "CHR ''!'' = digit_char d" using dec_nat_digits by blast
  then have "code (CHR ''!'') = 48 + d" by (simp add: code_digit_char)
  then show False by (simp add: code_def)
qed

lemma csrf_message_inject: "csrf_message j n = csrf_message j' n' \<longleftrightarrow> j = j' \<and> n = n'"
proof
  assume "csrf_message j n = csrf_message j' n'"
  then have "dec_nat (length j) @ CHR ''!'' # j @ CHR ''!'' # dec_nat (length n) @ CHR ''!'' # n
      = dec_nat (length j') @ CHR ''!'' # j' @ CHR ''!'' # dec_nat (length n') @ CHR ''!'' # n'"
    by (simp add: csrf_message_def)
  from this [unfolded cut_at [OF dec_nat_no_bang dec_nat_no_bang]]
  have "length j = length j'" and eq: "j @ CHR ''!'' # dec_nat (length n) @ CHR ''!'' # n
      = j' @ CHR ''!'' # dec_nat (length n') @ CHR ''!'' # n'" by simp_all
  then have "j = j'" and rest: "dec_nat (length n) @ CHR ''!'' # n = dec_nat (length n') @ CHR ''!'' # n'" by simp_all
  from rest [unfolded cut_at [OF dec_nat_no_bang dec_nat_no_bang]] have "n = n'" by simp
  with \<open>j = j'\<close> show "j = j' \<and> n = n'" by simp
qed simp

lemma hmac_hex_no_dot: "CHR ''.'' \<notin> set (hmac_sha256_hex k m)"
proof
  assume "CHR ''.'' \<in> set (hmac_sha256_hex k m)"
  then obtain d where "d < 16" "CHR ''.'' = digit_char d"
    unfolding hmac_sha256_hex_def using set_sha256_hexdigest by blast
  then have "code (CHR ''.'') = (if d < 10 then 48 + d else 87 + d)" by (simp add: code_digit_char)
  then show False by (simp add: code_def split: if_splits)
qed

lemma verify_new_csrf_token:
  "verify_csrf_token st (Some c) (Some (new_csrf_token st nonce j)) j' \<longleftrightarrow>
     c = new_csrf_token st nonce j \<and> nonce \<noteq> ''''
     \<and> hmac_sha256_hex (csrf_key st) (csrf_message j nonce) = hmac_sha256_hex (csrf_key st) (csrf_message j' nonce)"
proof -
  have ne: "hmac_sha256_hex k m \<noteq> ''''" for k m using length_hmac_sha256_hex [of k m] by force
  have p: "partition_at CHR ''.'' (new_csrf_token st nonce j)
      = (hmac_sha256_hex (csrf_key st) (csrf_message j nonce), True, nonce)"
    using partition_at_append [OF hmac_hex_no_dot] by (simp add: new_csrf_token_def)
  have "new_csrf_token st nonce j \<noteq> ''''" by (simp add: new_csrf_token_def)
  then show ?thesis by (auto simp: verify_csrf_token_def p ne)
qed

text \<open>
  C20. CSRF protection: a token is accepted for the session it was made for, only when the cookie
  and the header carry the same token; it is accepted for another session only if the HMAC
  collides on two messages that differ; and a request that is authenticated by the session
  cookie with an unsafe method never gets an actor without an accepted token.
\<close>

theorem csrf_session_binding:
  assumes "nonce \<noteq> ''''" "token = new_csrf_token st nonce jti"
  shows "verify_csrf_token st (Some token) (Some token) jti
    \<and> (\<forall>cookie. verify_csrf_token st cookie (Some token) jti \<longrightarrow> cookie = Some token)
    \<and> (\<forall>other. other \<noteq> jti \<and> verify_csrf_token st (Some token) (Some token) other \<longrightarrow>
         csrf_message other nonce \<noteq> csrf_message jti nonce
         \<and> hmac_sha256_hex (csrf_key st) (csrf_message other nonce) = hmac_sha256_hex (csrf_key st) (csrf_message jti nonce))
    \<and> (\<forall>lib now rq a. rq_bearer rq = None \<and> rq_method rq \<notin> {''GET'', ''HEAD'', ''OPTIONS''}
         \<and> current_actor lib st now rq = Inr a \<longrightarrow>
         (\<exists>cookie claims session. rq_session_cookie rq = Some cookie \<and> decode_token lib st now ''access'' cookie = Inr claims
            \<and> verify_csrf_token st (rq_csrf_cookie rq) (rq_csrf_header rq) session
            \<and> json_get_str claims ''jti'' = Inr session \<and> actor_from_claims claims = Inr a))"
proof -
  have "cookie = Some token" if "verify_csrf_token st cookie (Some token) jti" for cookie
    using that verify_new_csrf_token [of st _ nonce jti jti] assms
    by (cases cookie) (auto simp: verify_csrf_token_def)
  moreover have "\<exists>cookie claims session. rq_session_cookie rq = Some cookie \<and> decode_token lib st now ''access'' cookie = Inr claims
      \<and> verify_csrf_token st (rq_csrf_cookie rq) (rq_csrf_header rq) session
      \<and> json_get_str claims ''jti'' = Inr session \<and> actor_from_claims claims = Inr a"
    if "rq_bearer rq = None" "rq_method rq \<notin> {''GET'', ''HEAD'', ''OPTIONS''}" "current_actor lib st now rq = Inr a"
    for lib now rq a
    using that by (auto simp: current_actor_def thenR_Inr split: option.splits if_splits)
  ultimately show ?thesis
    using assms by (auto simp: verify_new_csrf_token csrf_message_inject)
qed

theorem csrf_session_binding_witness:
  "verify_csrf_token \<lparr> js_secret = ''s'', js_issuer = ''i'', js_audience = ''a'' \<rparr>
     (Some (new_csrf_token \<lparr> js_secret = ''s'', js_issuer = ''i'', js_audience = ''a'' \<rparr> ''n'' ''j''))
     (Some (new_csrf_token \<lparr> js_secret = ''s'', js_issuer = ''i'', js_audience = ''a'' \<rparr> ''n'' ''j'')) ''j''"
  using csrf_session_binding [of "''n''", OF _ refl] by blast

end
