(* ===== verification/Auth_Api.thy ===== *)
theory Auth_Api
  imports Security Refresh_Sessions
begin

text \<open>
  The authentication endpoints of \<open>main.py\<close> over the identity and refresh-session ports,
  the login limiter and the audit trail. A handler is an action on \<open>auth_state\<close>; it is
  written once for both modes of the service. In SQL mode the two repositories live in
  transactions that a raised exception rolls back (\<open>sql_request\<close>), while the limiter and
  the audit trail are process memory. \<open>ipaddress\<close>, Argon2 and PyJWT are parameters.
\<close>

section \<open>State and request\<close>

record 's RefreshSessionRepository =
  rr_register :: "RefreshSession \<Rightarrow> ('s, unit) action"
  rr_rotate :: "uuid \<Rightarrow> uuid \<Rightarrow> string \<Rightarrow> RefreshSession \<Rightarrow> datetime \<Rightarrow> ('s, RotationResult) action"

definition in_memory_refresh_sessions :: "session_table RefreshSessionRepository" where
  "in_memory_refresh_sessions = \<lparr> rr_register = mem_refresh_register, rr_rotate = mem_refresh_rotate \<rparr>"

definition sql_refresh_sessions :: "session_table RefreshSessionRepository" where
  "sql_refresh_sessions = \<lparr> rr_register = sql_refresh_register, rr_rotate = sql_refresh_rotate \<rparr>"

record ('i, 's) auth_state =
  au_identities :: 'i
  au_sessions :: 's
  au_limiter :: SlidingWindowRateLimiter
  au_audit :: AuditTrail

record auth_config =
  ac_hasher :: argon2_hasher
  ac_dummy_salt :: string
  ac_jwt :: jwt_library
  ac_settings :: jwt_settings
  ac_ip_compressed :: "string \<Rightarrow> string option"

record http_client =
  hc_host :: "string option"
  hc_correlation_id :: string

text \<open>What one request draws: the clock, \<open>uuid4()\<close>, the Argon2 salt and the CSRF nonce.\<close>

record auth_draws =
  ad_now :: datetime
  ad_tokens :: token_draws
  ad_refresh_jti :: uuid
  ad_event_id :: uuid
  ad_salt :: string
  ad_nonce :: string

definition on_identities :: "('i, 'a) action \<Rightarrow> (('i, 's) auth_state, 'a) action" where
  "on_identities m s = (case m (au_identities s) of (r, i) \<Rightarrow> (r, s \<lparr> au_identities := i \<rparr>))"

definition on_sessions :: "('s, 'a) action \<Rightarrow> (('i, 's) auth_state, 'a) action" where
  "on_sessions m s = (case m (au_sessions s) of (r, x) \<Rightarrow> (r, s \<lparr> au_sessions := x \<rparr>))"

definition on_limiter :: "(SlidingWindowRateLimiter, 'a) action \<Rightarrow> (('i, 's) auth_state, 'a) action" where
  "on_limiter m s = (case m (au_limiter s) of (r, l) \<Rightarrow> (r, s \<lparr> au_limiter := l \<rparr>))"

section \<open>Shared helpers\<close>

text \<open>\<open>ip\<close> is \<open>ipaddress.ip_address(host).compressed\<close>, None where it raises \<open>ValueError\<close>.\<close>

definition trusted_client_network_key :: "(string \<Rightarrow> string option) \<Rightarrow> string option \<Rightarrow> string" where
  "trusted_client_network_key ip host =
     (case host of
        None \<Rightarrow> ''unknown''
      | Some h \<Rightarrow> if h = '''' then ''unknown''
                  else (case ip h of Some c \<Rightarrow> c | None \<Rightarrow> ''unknown''))"

definition login_context :: "auth_config \<Rightarrow> http_client \<Rightarrow> string \<Rightarrow> string \<times> string \<times> string list" where
  "login_context cfg client raw_subject =
     (let subject = (case normalize_login_subject raw_subject of Inr x \<Rightarrow> x | Inl _ \<Rightarrow> ''invalid-subject'');
          network_key = trusted_client_network_key (ac_ip_compressed cfg) (hc_host client)
      in (subject, network_key, login_limit_keys network_key subject))"

definition record_auth_event ::
  "auth_config \<Rightarrow> auth_draws \<Rightarrow> http_client \<Rightarrow> string option \<Rightarrow> string \<Rightarrow> string \<Rightarrow> string \<Rightarrow> string
   \<Rightarrow> string option \<Rightarrow> (('i, 's) auth_state, unit) action" where
  "record_auth_event cfg d client actor_id subject action outcome reason_code network_key s =
     (let key = (case network_key of
                   Some k \<Rightarrow> if k = '''' then trusted_client_network_key (ac_ip_compressed cfg) (hc_host client) else k
                 | None \<Rightarrow> trusted_client_network_key (ac_ip_compressed cfg) (hc_host client))
      in (Inr (), s \<lparr> au_audit := audit_record (ad_event_id d) (ad_now d) actor_id (subject_fingerprint subject) action
            None outcome reason_code key (hc_correlation_id client) (au_audit s) \<rparr>))"

definition the_dummy_hash :: "auth_config \<Rightarrow> string" where
  "the_dummy_hash cfg = DUMMY_PASSWORD_HASH (ac_hasher cfg) (ac_dummy_salt cfg)"

definition stored_or_dummy :: "auth_config \<Rightarrow> string option \<Rightarrow> string" where
  "stored_or_dummy cfg password_hash =
     (case password_hash of None \<Rightarrow> the_dummy_hash cfg | Some h \<Rightarrow> if h = '''' then the_dummy_hash cfg else h)"

definition bounded_password :: "string \<Rightarrow> string" where
  "bounded_password password = (if length password \<le> 1024 then password else ''invalid-password'')"

record TokenPair =
  tp_access_token :: string
  tp_refresh_token :: string
  tp_token_type :: string
  tp_expires_in :: int

text \<open>A successful answer with the headers the handler set.\<close>

type_synonym 'a answer = "'a \<times> (string \<times> string) list"

definition no_store :: "(string \<times> string) list" where
  "no_store = [(''Cache-Control'', ''no-store''), (''Pragma'', ''no-cache'')]"

definition token_pair_answer :: "IssuedTokenPair \<Rightarrow> TokenPair answer" where
  "token_pair_answer pair =
     (\<lparr> tp_access_token = ip_access_token pair, tp_refresh_token = ip_refresh_token pair,
        tp_token_type = ''bearer'', tp_expires_in = ip_access_expires_in pair \<rparr>, no_store)"

definition session_of_pair :: "string \<Rightarrow> IssuedTokenPair \<Rightarrow> RefreshSession" where
  "session_of_pair subject pair =
     \<lparr> rs_jti = ip_refresh_jti pair, rs_family_id = ip_family_id pair, rs_subject = subject,
       rs_expires_at = ip_refresh_expires_at pair, rs_used_at = None, rs_revoked_at = None, rs_replacement_jti = None \<rparr>"

section \<open>POST /api/v1/auth/token\<close>

definition issue_token ::
  "auth_config \<Rightarrow> 'i IdentityRepository \<Rightarrow> 's RefreshSessionRepository \<Rightarrow> auth_draws \<Rightarrow> http_client
   \<Rightarrow> string \<Rightarrow> string \<Rightarrow> (('i, 's) auth_state, TokenPair answer) action" where
  "issue_token cfg ids refs d client username password =
     (case login_context cfg client username of
        (subject, network_key, limit_keys) \<Rightarrow>
          andThen (on_limiter (check_many (ad_now d) limit_keys None)) (\<lambda>limit.
          if \<not> rd_allowed limit
          then andThen (record_auth_event cfg d client None subject ''auth.login'' ''rate_limited''
                          ''attempt_budget_exhausted'' (Some network_key)) (\<lambda>_.
               raise (HTTPException 429 ''too many login attempts''
                        [(''Retry-After'', dec_int (rd_retry_after_seconds limit))]))
          else (\<lambda>s.
            let password_hash = id_password_hash ids subject (au_identities s);
                password_check = check_password (ac_hasher cfg) (ad_salt d) (bounded_password password)
                                   (stored_or_dummy cfg password_hash)
            in (if password_hash = None \<or> \<not> pc_verified password_check \<or> 1024 < length password
                then andThen (record_auth_event cfg d client None subject ''auth.login'' ''denied''
                                ''invalid_credentials'' (Some network_key)) (\<lambda>_.
                     raise (HTTPException 401 ''invalid credentials'' []))
                else
                  andThen (case pc_replacement_hash password_check of
                             None \<Rightarrow> ret False
                           | Some h \<Rightarrow> on_identities (id_replace_password_hash ids subject (the password_hash) h)) (\<lambda>_.
                  andThen (lift_result (parse_subject subject)) (\<lambda>_ s2.
                  (case id_tenant_id ids subject (au_identities s2) of
                     None \<Rightarrow> raise (HTTPException 401 ''invalid credentials'' [])
                   | Some tenant_id \<Rightarrow>
                       andThen (lift_result (issue_token_pair (ac_jwt cfg) (ac_settings cfg) (ad_tokens d)
                                  (ad_refresh_jti d) subject None None tenant_id)) (\<lambda>pair.
                       andThen (on_sessions (rr_register refs (session_of_pair subject pair))) (\<lambda>_.
                       andThen (record_auth_event cfg d client (Some subject) subject ''auth.login'' ''allowed''
                                  ''credentials_verified'' (Some network_key)) (\<lambda>_.
                       ret (token_pair_answer pair))))) s2))) s)))"

section \<open>POST /api/v1/auth/refresh\<close>

definition refresh_form_valid :: "string \<Rightarrow> string \<Rightarrow> bool" where
  "refresh_form_valid grant_type refresh_token \<longleftrightarrow>
     grant_type = ''refresh_token'' \<and> 20 \<le> length refresh_token \<and> length refresh_token \<le> 4096"

definition rotate_refresh_token ::
  "auth_config \<Rightarrow> 's RefreshSessionRepository \<Rightarrow> auth_draws \<Rightarrow> http_client
   \<Rightarrow> string \<Rightarrow> string \<Rightarrow> (('i, 's) auth_state, TokenPair answer) action" where
  "rotate_refresh_token cfg refs d client grant_type refresh_token =
     andThen (check (refresh_form_valid grant_type refresh_token) (ValidationError ''request'')) (\<lambda>_.
     andThen (lift_result (decode_token (ac_jwt cfg) (ac_settings cfg) (ad_now d) ''refresh'' refresh_token)) (\<lambda>claims.
     andThen (lift_result (json_get_str claims ''sub'')) (\<lambda>subject.
     andThen (lift_result (json_get_uuid claims ''family'')) (\<lambda>family_id.
     andThen (lift_result (json_get_uuid claims ''jti'')) (\<lambda>presented_jti.
     andThen (lift_result (json_get_uuid claims ''tenant'')) (\<lambda>tenant_id.
     andThen (lift_result (issue_token_pair (ac_jwt cfg) (ac_settings cfg) (ad_tokens d) (ad_refresh_jti d) subject
                (Some family_id) None tenant_id)) (\<lambda>pair.
     andThen (on_sessions (rr_rotate refs presented_jti family_id subject (session_of_pair subject pair) (ad_now d)))
       (\<lambda>result.
     if result \<noteq> ROTATED
     then andThen (record_auth_event cfg d client (Some subject) subject ''auth.refresh''
                     (if result = REUSED then ''reuse_detected'' else ''denied'')
                     (if result = REUSED then ''refresh_reuse_detected'' else ''invalid_refresh_session'') None) (\<lambda>_.
          raise (HTTPException 401 ''invalid refresh token'' BEARER_CHALLENGE))
     else andThen (record_auth_event cfg d client (Some subject) subject ''auth.refresh'' ''rotated''
                     ''refresh_rotated'' None) (\<lambda>_.
          ret (token_pair_answer pair))))))))))"

section \<open>Browser sessions and registration\<close>

record set_cookie =
  ck_name :: string
  ck_value :: string
  ck_max_age :: int
  ck_secure :: bool
  ck_httponly :: bool
  ck_samesite :: string
  ck_path :: string

definition host_cookie :: "string \<Rightarrow> string \<Rightarrow> int \<Rightarrow> bool \<Rightarrow> set_cookie" where
  "host_cookie name value max_age httponly =
     \<lparr> ck_name = name, ck_value = value, ck_max_age = max_age, ck_secure = True, ck_httponly = httponly,
       ck_samesite = ''lax'', ck_path = ''/'' \<rparr>"

definition SESSION_COOKIE :: string where
  "SESSION_COOKIE = ''__Host-delivery-session''"

definition CSRF_COOKIE :: string where
  "CSRF_COOKIE = ''__Host-delivery-csrf''"

text \<open>\<open>text.replace(old, new, 1)\<close>.\<close>

fun replace_first :: "string \<Rightarrow> string \<Rightarrow> string \<Rightarrow> string" where
  "replace_first old new [] = (if old = '''' then new else '''')"
| "replace_first old new (c # cs) =
     (if startswith (c # cs) old then new @ drop (length old) (c # cs) else c # replace_first old new cs)"

definition create_browser_session ::
  "auth_config \<Rightarrow> 'i IdentityRepository \<Rightarrow> auth_draws \<Rightarrow> http_client
   \<Rightarrow> string \<Rightarrow> string \<Rightarrow> (('i, 's) auth_state, set_cookie list answer) action" where
  "create_browser_session cfg ids d client username password =
     (case login_context cfg client username of
        (subject, network_key, raw_keys) \<Rightarrow>
          andThen (on_limiter (check_many (ad_now d) (map (replace_first ''login:'' ''browser-login:'') raw_keys) None)) (\<lambda>limit.
          if \<not> rd_allowed limit
          then andThen (record_auth_event cfg d client None subject ''auth.browser_login'' ''rate_limited''
                          ''attempt_budget_exhausted'' (Some network_key)) (\<lambda>_.
               raise (HTTPException 429 ''too many login attempts''
                        [(''Retry-After'', dec_int (rd_retry_after_seconds limit))]))
          else (\<lambda>s.
            let password_hash = id_password_hash ids subject (au_identities s);
                password_check = check_password (ac_hasher cfg) (ad_salt d) (bounded_password password)
                                   (stored_or_dummy cfg password_hash)
            in (if password_hash = None \<or> \<not> pc_verified password_check \<or> 1024 < length password
                then andThen (record_auth_event cfg d client None subject ''auth.browser_login'' ''denied''
                                ''invalid_credentials'' (Some network_key)) (\<lambda>_.
                     raise (HTTPException 401 ''invalid credentials'' []))
                else
                  andThen (lift_result (parse_subject subject)) (\<lambda>_ s2.
                  (case id_tenant_id ids subject (au_identities s2) of
                     None \<Rightarrow> raise (HTTPException 401 ''invalid credentials'' [])
                   | Some tenant_id \<Rightarrow>
                       andThen (lift_result (create_token (ac_jwt cfg) (ac_settings cfg) (ad_tokens d) subject ''access''
                                  (seconds (15 * 60)) None None None tenant_id)) (\<lambda>access_token.
                       andThen (lift_result (decode_token (ac_jwt cfg) (ac_settings cfg) (ad_now d) ''access''
                                  access_token)) (\<lambda>claims.
                       andThen (lift_result (json_get_str claims ''jti'')) (\<lambda>jti.
                       andThen (record_auth_event cfg d client (Some subject) subject ''auth.browser_login'' ''allowed''
                                  ''credentials_verified'' (Some network_key)) (\<lambda>_.
                       ret ([host_cookie SESSION_COOKIE access_token 900 True,
                             host_cookie CSRF_COOKIE (new_csrf_token (ac_settings cfg) (ad_nonce d) jti) 900 False], no_store)))))) s2)) s)))"

definition delete_browser_session ::
  "auth_config \<Rightarrow> datetime \<Rightarrow> auth_request \<Rightarrow> (('i, 's) auth_state, set_cookie list answer) action" where
  "delete_browser_session cfg now request =
     andThen (lift_result (current_actor (ac_jwt cfg) (ac_settings cfg) now request)) (\<lambda>_.
     ret ([host_cookie SESSION_COOKIE '''' 0 True,
           host_cookie CSRF_COOKIE '''' 0 False],
          [(''Cache-Control'', ''no-store'')]))"

text \<open>\<open>Registration\<close>: the pattern is matched against the whole subject.\<close>

definition hex_or_hyphen :: "char \<Rightarrow> bool" where
  "hex_or_hyphen c \<longleftrightarrow> c = CHR ''-'' \<or> digit_val c \<noteq> None"

definition registration_valid :: "string \<Rightarrow> string \<Rightarrow> bool" where
  "registration_valid subject password \<longleftrightarrow>
     take 9 subject = ''customer:'' \<and> length subject = 45 \<and> list_all hex_or_hyphen (drop 9 subject)
     \<and> 12 \<le> length password \<and> length password \<le> 256"

definition register_identity ::
  "auth_config \<Rightarrow> 'i IdentityRepository \<Rightarrow> auth_draws \<Rightarrow> string \<Rightarrow> string \<Rightarrow> (('i, 's) auth_state, string) action" where
  "register_identity cfg ids d subject password =
     andThen (check (registration_valid subject password) (ValidationError ''request'')) (\<lambda>_.
     andThen (lift_result (normalize_login_subject subject)) (\<lambda>normalized.
     andThen (lift_result (parse_subject normalized)) (\<lambda>_.
     andThen (on_identities (id_add ids normalized (hash_password (ac_hasher cfg) (ad_salt d) password)
                DEFAULT_TENANT_ID)) (\<lambda>added.
     if \<not> added then raise (HTTPException 409 ''identity already exists'' [])
     else ret normalized))))"

section \<open>Transactions of the dependencies\<close>

text \<open>
  \<open>get_identity_repository\<close> and \<open>get_refresh_session_repository\<close> in SQL mode: an exception of
  the handler passes through \<open>transactional_session\<close>, whose \<open>session.begin()\<close> rolls back.
\<close>

definition sql_request :: "(('i, 's) auth_state, 'a) action \<Rightarrow> (('i, 's) auth_state, 'a) action" where
  "sql_request m s =
     (case m s of
        (Inr x, s') \<Rightarrow> (Inr x, s')
      | (Inl e, s') \<Rightarrow> (Inl e, s' \<lparr> au_identities := au_identities s, au_sessions := au_sessions s \<rparr>))"

definition auth_request_mode :: "bool \<Rightarrow> (('i, 's) auth_state, 'a) action \<Rightarrow> (('i, 's) auth_state, 'a) action" where
  "auth_request_mode use_in_memory m = (if use_in_memory then m else sql_request m)"

end
