(* ===== verification/Auth_Properties.thy ===== *)
theory Auth_Properties
  imports Auth_Api
begin

text \<open>
  What the authentication endpoints guarantee: a failed login does not reveal whether the
  account exists, a successful one authenticates the account's actor, reuse of a refresh
  token is detected but not durably answered in SQL mode, and a second spelling of a
  user's id opens a second account for the same user.
\<close>

section \<open>The login limiter within a request\<close>

lemma on_limiter_apply: "on_limiter m s = (fst (m (au_limiter s)), s \<lparr> au_limiter := snd (m (au_limiter s)) \<rparr>)"
  by (simp add: on_limiter_def split: prod.splits)

lemma login_limit_keys_distinct: "distinct (login_limit_keys n s)" "login_limit_keys n s \<noteq> []"
  by (simp_all add: login_limit_keys_def)

lemma browser_keys: "map (replace_first ''login:'' ''browser-login:'') (login_limit_keys n s)
    = [''browser-login:network:'' @ n, ''browser-login:subject:'' @ subject_fingerprint s]"
  by (simp add: login_limit_keys_def startswith_def)

lemma check_many_clock: "check_many c keys None = check_many c keys (Some c)"
  by (simp add: check_many_def fun_eq_iff)

lemma check_many_answers:
  assumes "keys \<noteq> []" "distinct keys" "limiter_ok l"
  obtains limit l' where "check_many c keys None l = (Inr limit, l')"
  using check_many_cases [OF assms, of c c] by (auto simp: check_many_clock)

section \<open>Failed logins\<close>

definition credentials_ok :: "auth_config \<Rightarrow> 'i IdentityRepository \<Rightarrow> string \<Rightarrow> string \<Rightarrow> 'i \<Rightarrow> bool" where
  "credentials_ok cfg ids subject password i \<longleftrightarrow>
     (\<exists>h. id_password_hash ids subject i = Some h \<and> length password \<le> 1024
        \<and> ag_verify (ac_hasher cfg) (stored_or_dummy cfg (Some h)) password)"

lemma credentials_guard:
  "id_password_hash ids subject i = None
   \<or> \<not> pc_verified (check_password (ac_hasher cfg) salt (bounded_password password)
         (stored_or_dummy cfg (id_password_hash ids subject i)))
   \<or> 1024 < length password
   \<longleftrightarrow> \<not> credentials_ok cfg ids subject password i"
  by (cases "id_password_hash ids subject i")
    (auto simp: credentials_ok_def check_password_def bounded_password_def not_less)

text \<open>The failure of a login, as a function of the limiter and the audit trail alone.\<close>

definition login_failure ::
  "auth_config \<Rightarrow> auth_draws \<Rightarrow> http_client \<Rightarrow> string \<Rightarrow> string \<Rightarrow> string list
   \<Rightarrow> SlidingWindowRateLimiter \<Rightarrow> AuditTrail \<Rightarrow> exn \<times> SlidingWindowRateLimiter \<times> AuditTrail" where
  "login_failure cfg d client act subject keys l a =
     (let network_key = trusted_client_network_key (ac_ip_compressed cfg) (hc_host client);
          event = (\<lambda>outcome reason. au_audit (snd (record_auth_event cfg d client None subject act outcome reason
             (Some network_key) \<lparr> au_identities = (), au_sessions = (), au_limiter = l, au_audit = a \<rparr>)))
      in case check_many (ad_now d) keys None l of
           (Inl e, l') \<Rightarrow> (e, l', a)
         | (Inr limit, l') \<Rightarrow>
             if rd_allowed limit
             then (HTTPException 401 ''invalid credentials'' [], l', event ''denied'' ''invalid_credentials'')
             else (HTTPException 429 ''too many login attempts'' [(''Retry-After'', dec_int (rd_retry_after_seconds limit))],
                   l', event ''rate_limited'' ''attempt_budget_exhausted''))"

lemma issue_token_failure:
  assumes "login_context cfg client username = (subject, network_key, keys)"
    "\<not> credentials_ok cfg ids subject password (au_identities s)"
    "login_failure cfg d client ''auth.login'' subject keys (au_limiter s) (au_audit s) = (e, l, a)"
  shows "issue_token cfg ids refs d client username password s = (Inl e, s \<lparr> au_limiter := l, au_audit := a \<rparr>)"
proof -
  have nk: "network_key = trusted_client_network_key (ac_ip_compressed cfg) (hc_host client)"
    using assms(1) by (auto simp: login_context_def Let_def)
  obtain r l' where cm: "check_many (ad_now d) keys None (au_limiter s) = (r, l')" by fastforce
  show ?thesis
    using assms(3) credentials_guard [of ids subject "au_identities s" cfg "ad_salt d" password, THEN iffD2, OF assms(2)]
    unfolding issue_token_def assms(1) prod.case login_failure_def cm nk
    by (cases r) (auto simp: on_limiter_apply cm andThen_def record_auth_event_def raise_def Let_def split: if_splits)
qed

lemma create_browser_session_failure:
  assumes "login_context cfg client username = (subject, network_key, raw_keys)"
    "\<not> credentials_ok cfg ids subject password (au_identities s)"
    "login_failure cfg d client ''auth.browser_login'' subject (map (replace_first ''login:'' ''browser-login:'') raw_keys)
       (au_limiter s) (au_audit s) = (e, l, a)"
  shows "create_browser_session cfg ids d client username password s = (Inl e, s \<lparr> au_limiter := l, au_audit := a \<rparr>)"
proof -
  let ?keys = "map (replace_first ''login:'' ''browser-login:'') raw_keys"
  have nk: "network_key = trusted_client_network_key (ac_ip_compressed cfg) (hc_host client)"
    using assms(1) by (auto simp: login_context_def Let_def)
  obtain r l' where cm: "check_many (ad_now d) ?keys None (au_limiter s) = (r, l')" by fastforce
  show ?thesis
    using assms(3) credentials_guard [of ids subject "au_identities s" cfg "ad_salt d" password, THEN iffD2, OF assms(2)]
    unfolding create_browser_session_def assms(1) prod.case login_failure_def cm nk
    by (cases r) (auto simp: on_limiter_apply cm andThen_def record_auth_event_def raise_def Let_def split: if_splits)
qed

definition login_refusal :: "exn \<Rightarrow> bool" where
  "login_refusal e \<longleftrightarrow> e = HTTPException 401 ''invalid credentials'' []
     \<or> (\<exists>n. e = HTTPException 429 ''too many login attempts'' [(''Retry-After'', dec_int n)])"

text \<open>Two calls are refused with the same answer, and write the same limiter and audit trail and nothing else.\<close>

definition refused_alike ::
  "(('i, 's) auth_state, 'a) action \<Rightarrow> ('i, 's) auth_state \<Rightarrow> (('i, 's) auth_state, 'a) action \<Rightarrow> ('i, 's) auth_state \<Rightarrow> bool" where
  "refused_alike m s m2 s2 \<longleftrightarrow>
     (\<exists>e l a. login_refusal e \<and> m s = (Inl e, s \<lparr> au_limiter := l, au_audit := a \<rparr>)
        \<and> m2 s2 = (Inl e, s2 \<lparr> au_limiter := l, au_audit := a \<rparr>))"

lemma login_failure_status:
  assumes "keys \<noteq> []" "distinct keys" "limiter_ok l" "login_failure cfg d client act subject keys l a = (e, l', a')"
  shows "login_refusal e"
proof -
  obtain limit l1 where "check_many (ad_now d) keys None l = (Inr limit, l1)"
    using check_many_answers [OF assms(1-3)] by blast
  with assms(4) show ?thesis by (auto simp: login_refusal_def login_failure_def Let_def split: if_splits)
qed

text \<open>
  C21. Failed logins are indistinguishable: on two states with the same limiter and audit trail,
  in each of which the credentials are not valid, whether because the account is unknown, the
  password is wrong or it is longer than 1024 characters, both login endpoints give the same
  answer (401, or 429 when the attempt budget is spent), the same audit record and the same
  limiter, and leave identities and sessions as they were.
\<close>

theorem login_failures_indistinguishable:
  assumes "limiter_ok (au_limiter s)" "au_limiter s2 = au_limiter s" "au_audit s2 = au_audit s"
    "subject = fst (login_context cfg client username)"
    "\<not> credentials_ok cfg ids subject password (au_identities s)"
    "\<not> credentials_ok cfg ids subject password2 (au_identities s2)"
  shows "refused_alike (issue_token cfg ids refs d client username password) s
           (issue_token cfg ids refs d client username password2) s2
    \<and> refused_alike (create_browser_session cfg ids d client username password) s
        (create_browser_session cfg ids d client username password2) s2"
proof -
  obtain nk keys where ctx: "login_context cfg client username = (subject, nk, keys)"
    using assms(4) by (metis prod.collapse)
  then have keys: "keys = login_limit_keys nk subject" by (auto simp: login_context_def Let_def)
  let ?keys2 = "map (replace_first ''login:'' ''browser-login:'') keys"
  have k: "keys \<noteq> []" "distinct keys" unfolding keys by (simp_all add: login_limit_keys_distinct)
  have k2: "?keys2 \<noteq> []" "distinct ?keys2" unfolding keys browser_keys by simp_all
  obtain e l a where f: "login_failure cfg d client ''auth.login'' subject keys (au_limiter s) (au_audit s) = (e, l, a)"
    by (metis prod_cases3)
  obtain e2 l2 a2 where f2: "login_failure cfg d client ''auth.browser_login'' subject ?keys2 (au_limiter s) (au_audit s)
      = (e2, l2, a2)"
    by (metis prod_cases3)
  have "refused_alike (issue_token cfg ids refs d client username password) s
      (issue_token cfg ids refs d client username password2) s2"
    unfolding refused_alike_def using login_failure_status [OF k assms(1) f]
      issue_token_failure [OF ctx assms(5) f] issue_token_failure [OF ctx assms(6)] f assms(2,3) by metis
  moreover have "refused_alike (create_browser_session cfg ids d client username password) s
      (create_browser_session cfg ids d client username password2) s2"
    unfolding refused_alike_def using login_failure_status [OF k2 assms(1) f2]
      create_browser_session_failure [OF ctx assms(5) f2] create_browser_session_failure [OF ctx assms(6)] f2 assms(2,3)
    by metis
  ultimately show ?thesis ..
qed

text \<open>
  A hasher for examples: the hash is the salt and the password in hexadecimal, separated by
  a dot, and a hash with no dot is obsolete.
\<close>

definition plain_hasher :: argon2_hasher where
  "plain_hasher = \<lparr> ag_hash = (\<lambda>salt password. hex_text salt @ ''.'' @ hex_text password),
     ag_verify = (\<lambda>h password. drop 1 (dropWhile (\<lambda>c. c \<noteq> CHR ''.'') h) = hex_text password),
     ag_check_needs_rehash = (\<lambda>h. CHR ''.'' \<notin> set h) \<rparr>"

definition sample_config :: auth_config where
  "sample_config = \<lparr> ac_hasher = plain_hasher, ac_dummy_salt = ''d'', ac_jwt = dotted_jwt,
     ac_settings = \<lparr> js_secret = ''s'', js_issuer = ''i'', js_audience = ''a'' \<rparr>, ac_ip_compressed = (\<lambda>h. None) \<rparr>"

definition sample_client :: http_client where
  "sample_client = \<lparr> hc_host = None, hc_correlation_id = ''c'' \<rparr>"

definition sample_draws :: auth_draws where
  "sample_draws = \<lparr> ad_now = 0, ad_tokens = \<lparr> td_now = 0, td_token_id = 1, td_family_id = 2 \<rparr>, ad_refresh_jti = 3,
     ad_event_id = 4, ad_salt = ''t'', ad_nonce = ''n'' \<rparr>"

definition sample_auth :: "InMemoryIdentityRepository \<Rightarrow> session_table \<Rightarrow> (InMemoryIdentityRepository, session_table) auth_state" where
  "sample_auth i x = \<lparr> au_identities = i, au_sessions = x, au_limiter = login_rate_limiter, au_audit = [] \<rparr>"

lemma login_rate_limiter_ok: "limiter_ok login_rate_limiter"
  by (simp add: login_rate_limiter_def limiter_init_ok)

theorem login_failures_indistinguishable_witness:
  "refused_alike
     (issue_token sample_config in_memory_identities in_memory_refresh_sessions sample_draws sample_client ''root'' ''guess'')
     (sample_auth \<lparr> mi_passwords = [], mi_tenants = [] \<rparr> [])
     (issue_token sample_config in_memory_identities in_memory_refresh_sessions sample_draws sample_client ''root'' ''guess'')
     (sample_auth \<lparr> mi_passwords = [(''root'', ''.ff'')], mi_tenants = [(''root'', 1)] \<rparr> [])"
proof -
  have "fst (login_context sample_config sample_client ''root'') = ''root''"
    by (simp add: login_context_def Let_def normalize_login_subject_def casefold_def strip_def lstrip_def is_space_def
        code_def lower_def)
  then show ?thesis
    using login_failures_indistinguishable [where s = "sample_auth \<lparr> mi_passwords = [], mi_tenants = [] \<rparr> []"
        and ?s2.0 = "sample_auth \<lparr> mi_passwords = [(''root'', ''.ff'')], mi_tenants = [(''root'', 1)] \<rparr> []"
        and subject = "''root''" and cfg = sample_config and client = sample_client and username = "''root''"
        and ids = in_memory_identities and password = "''guess''" and ?password2.0 = "''guess''"
        and refs = in_memory_refresh_sessions and d = sample_draws] login_rate_limiter_ok
    by (simp add: credentials_ok_def sample_auth_def in_memory_identities_def mem_password_hash_def stored_or_dummy_def
        sample_config_def plain_hasher_def)
qed

section \<open>Successful logins\<close>

definition bearer_request :: "string \<Rightarrow> string \<Rightarrow> auth_request" where
  "bearer_request m token = \<lparr> rq_method = m, rq_bearer = Some token, rq_session_cookie = None, rq_csrf_cookie = None,
     rq_csrf_header = None \<rparr>"

definition access_valid :: "datetime \<Rightarrow> datetime \<Rightarrow> bool" where
  "access_valid t0 now \<longleftrightarrow> seconds (t0 div 1000000) \<le> now + seconds 30 \<and> now - seconds 30 < seconds ((t0 + seconds 900) div 1000000)"

definition authenticates :: "auth_config \<Rightarrow> datetime \<Rightarrow> string \<Rightarrow> Actor \<Rightarrow> bool" where
  "authenticates cfg t0 token actor \<longleftrightarrow>
     (\<forall>now m. current_actor (ac_jwt cfg) (ac_settings cfg) now (bearer_request m token)
        = (if access_valid t0 now then Inr actor else invalid_token))"

lemma parse_subject_role:
  assumes "parse_subject subject = Inr (role, u)"
  obtains r where "role = role_value r"
proof -
  have "role \<in> {''customer'', ''courier'', ''dispatcher''}"
    using assms by (auto simp: parse_subject_def split: prod.splits if_splits option.splits)
  moreover have "role_value CUSTOMER = ''customer''" "role_value COURIER = ''courier''"
    "role_value DISPATCHER = ''dispatcher''" by simp_all
  ultimately show thesis using that by (metis empty_iff insert_iff)
qed

lemma access_token_authenticates:
  assumes "jwt_documented (ac_jwt cfg)" "parse_subject subject = Inr (role_value r, u)"
    "create_token (ac_jwt cfg) (ac_settings cfg) d subject ''access'' (seconds 900) tid fam (Some t0) tenant = Inr token"
  shows "authenticates cfg t0 token \<lparr> a_user_id = u, a_role = r, a_tenant_id = tenant \<rparr>"
  unfolding authenticates_def
proof (intro allI)
  fix now m
  obtain claims where "decode_token (ac_jwt cfg) (ac_settings cfg) now ''access'' token
        = (if access_valid t0 now then Inr claims else invalid_token)"
      and "actor_from_claims claims = Inr \<lparr> a_user_id = u, a_role = r, a_tenant_id = tenant \<rparr>"
    using created_token(1) [OF assms refl, where now = now] unfolding access_valid_def by blast
  then show "current_actor (ac_jwt cfg) (ac_settings cfg) now (bearer_request m token)
      = (if access_valid t0 now then Inr \<lparr> a_user_id = u, a_role = r, a_tenant_id = tenant \<rparr> else invalid_token)"
    unfolding bearer_request_def bearer_actor by (simp add: invalid_token_def)
qed

lemma issued_pair:
  assumes "issue_token_pair lib st d jti subject fam None tenant = Inr pair"
  shows "create_token lib st d subject ''access'' (seconds 900) None None (Some (td_now d)) tenant = Inr (ip_access_token pair)"
    "create_token lib st d subject ''refresh'' (seconds (7 * 86400)) (Some jti)
       (Some (case fam of Some f \<Rightarrow> f | None \<Rightarrow> td_family_id d)) (Some (td_now d)) tenant = Inr (ip_refresh_token pair)"
    "session_of_pair subject pair =
       \<lparr> rs_jti = jti, rs_family_id = (case fam of Some f \<Rightarrow> f | None \<Rightarrow> td_family_id d), rs_subject = subject,
         rs_expires_at = td_now d + seconds (7 * 86400), rs_used_at = None, rs_revoked_at = None, rs_replacement_jti = None \<rparr>"
  using assms by (auto simp: issue_token_pair_def Let_def thenR_Inr session_of_pair_def)

lemma issue_token_pair_returns: "\<exists>pair. issue_token_pair lib st d jti subject fam None tenant = Inr pair"
  by (simp add: issue_token_pair_def create_token_def Let_def)

text \<open>What a granted login establishes, for a backend that shows its sessions as \<open>sessions\<close>.\<close>

definition login_grant ::
  "auth_config \<Rightarrow> 'i IdentityRepository \<Rightarrow> ('s \<Rightarrow> session_view) \<Rightarrow> auth_draws \<Rightarrow> string \<Rightarrow> string
   \<Rightarrow> ('i, 's) auth_state \<Rightarrow> TokenPair \<Rightarrow> ('i, 's) auth_state \<Rightarrow> bool" where
  "login_grant cfg ids sessions d username password s tp s' \<longleftrightarrow>
     (\<exists>subject r u tenant.
        normalize_login_subject username = Inr subject \<and> credentials_ok cfg ids subject password (au_identities s)
        \<and> parse_subject subject = Inr (role_value r, u) \<and> id_tenant_id ids subject (au_identities s) = Some tenant
        \<and> authenticates cfg (td_now (ad_tokens d)) (tp_access_token tp) \<lparr> a_user_id = u, a_role = r, a_tenant_id = tenant \<rparr>
        \<and> sessions (au_sessions s) (ad_refresh_jti d) = None
        \<and> sessions (au_sessions s') = (sessions (au_sessions s))(ad_refresh_jti d \<mapsto>
             \<lparr> rs_jti = ad_refresh_jti d, rs_family_id = td_family_id (ad_tokens d), rs_subject = subject,
               rs_expires_at = td_now (ad_tokens d) + seconds (7 * 86400), rs_used_at = None, rs_revoked_at = None,
               rs_replacement_jti = None \<rparr>))"

text \<open>The part of \<open>issue_token\<close> behind the limiter and the password check.\<close>

definition rehash_step ::
  "auth_config \<Rightarrow> 'i IdentityRepository \<Rightarrow> auth_draws \<Rightarrow> string \<Rightarrow> string \<Rightarrow> string \<Rightarrow> (('i, 's) auth_state, bool) action" where
  "rehash_step cfg ids d subject password h =
     (case pc_replacement_hash (check_password (ac_hasher cfg) (ad_salt d) (bounded_password password)
             (stored_or_dummy cfg (Some h))) of
        None \<Rightarrow> ret False
      | Some x \<Rightarrow> on_identities (id_replace_password_hash ids subject h x))"

definition session_step ::
  "auth_config \<Rightarrow> 'i IdentityRepository \<Rightarrow> 's RefreshSessionRepository \<Rightarrow> auth_draws \<Rightarrow> http_client
   \<Rightarrow> string \<Rightarrow> string \<Rightarrow> uuid \<Rightarrow> (('i, 's) auth_state, TokenPair answer) action" where
  "session_step cfg ids refs d client subject network_key tenant_id =
     andThen (lift_result (issue_token_pair (ac_jwt cfg) (ac_settings cfg) (ad_tokens d) (ad_refresh_jti d) subject
                None None tenant_id)) (\<lambda>pair.
     andThen (on_sessions (rr_register refs (session_of_pair subject pair))) (\<lambda>_.
     andThen (record_auth_event cfg d client (Some subject) subject ''auth.login'' ''allowed''
                ''credentials_verified'' (Some network_key)) (\<lambda>_.
     ret (token_pair_answer pair))))"

lemma issue_token_passed:
  assumes "login_context cfg client username = (subject, nk, keys)"
    "check_many (ad_now d) keys None (au_limiter s) = (Inr limit, l)" "rd_allowed limit"
    "credentials_ok cfg ids subject password (au_identities s)" "id_password_hash ids subject (au_identities s) = Some h"
  shows "issue_token cfg ids refs d client username password s =
     andThen (rehash_step cfg ids d subject password h) (\<lambda>_.
     andThen (lift_result (parse_subject subject)) (\<lambda>_ s2.
     (case id_tenant_id ids subject (au_identities s2) of
        None \<Rightarrow> raise (HTTPException 401 ''invalid credentials'' [])
      | Some tenant_id \<Rightarrow> session_step cfg ids refs d client subject nk tenant_id) s2)) (s \<lparr> au_limiter := l \<rparr>)"
proof -
  have "\<not> (id_password_hash ids subject (au_identities s) = None
      \<or> \<not> pc_verified (check_password (ac_hasher cfg) (ad_salt d) (bounded_password password)
            (stored_or_dummy cfg (id_password_hash ids subject (au_identities s))))
      \<or> 1024 < length password)"
    unfolding credentials_guard using assms(4) by simp
  with assms(5) show ?thesis
    unfolding issue_token_def assms(1) prod.case andThen_def [of "on_limiter _"] on_limiter_apply assms(2) fst_conv snd_conv
      sum.case rehash_step_def session_step_def
    by (simp add: assms(3) Let_def cong: option.case_cong)
qed

locale auth_backend = identity_port ids + refresh_port "rr_register refs" "rr_rotate refs" sessions storable
  for ids :: "'i IdentityRepository" and refs :: "'s RefreshSessionRepository"
    and sessions :: "'s \<Rightarrow> session_view" and storable :: "RefreshSession \<Rightarrow> bool"
begin

lemma rehash_step_keeps:
  assumes "rehash_step cfg ids d subject password h s = (Inr b, s')"
  shows "au_sessions s' = au_sessions s \<and> id_tenant_id ids x (au_identities s') = id_tenant_id ids x (au_identities s)"
proof (cases "pc_replacement_hash (check_password (ac_hasher cfg) (ad_salt d) (bounded_password password)
    (stored_or_dummy cfg (Some h)))")
  case (Some y)
  obtain r i where m: "id_replace_password_hash ids subject h y (au_identities s) = (r, i)" by fastforce
  with assms Some have "r = Inr b" "s' = s \<lparr> au_identities := i \<rparr>" by (simp_all add: rehash_step_def on_identities_def)
  with replace_law [of subject h y "au_identities s" b i] m show ?thesis by (simp add: fun_eq_iff)
qed (use assms in \<open>simp add: rehash_step_def\<close>)

lemma session_step_grants:
  assumes "session_step cfg ids refs d client subject nk tenant s = (Inr (tp, hs), s')" "jwt_documented (ac_jwt cfg)"
    "parse_subject subject = Inr (role_value r, u)"
  shows "authenticates cfg (td_now (ad_tokens d)) (tp_access_token tp) \<lparr> a_user_id = u, a_role = r, a_tenant_id = tenant \<rparr>
    \<and> sessions (au_sessions s) (ad_refresh_jti d) = None
    \<and> sessions (au_sessions s') = (sessions (au_sessions s))(ad_refresh_jti d \<mapsto>
         \<lparr> rs_jti = ad_refresh_jti d, rs_family_id = td_family_id (ad_tokens d), rs_subject = subject,
           rs_expires_at = td_now (ad_tokens d) + seconds (7 * 86400), rs_used_at = None, rs_revoked_at = None,
           rs_replacement_jti = None \<rparr>)"
proof -
  obtain pair where p: "issue_token_pair (ac_jwt cfg) (ac_settings cfg) (ad_tokens d) (ad_refresh_jti d) subject None None tenant
      = Inr pair" using issue_token_pair_returns by blast
  note ip = issued_pair [OF p]
  obtain q x where m: "rr_register refs (session_of_pair subject pair) (au_sessions s) = (q, x)" by fastforce
  from assms(1) p m have q: "q = Inr ()" and tp: "tp = fst (token_pair_answer pair)" and s': "au_sessions s' = x"
    by (auto simp: session_step_def on_sessions_def record_auth_event_def Let_def andThen_def lift_result_def ret_def
        split: sum.splits)
  have "fresh_session (session_of_pair subject pair)" unfolding ip(3) by (simp add: fresh_session_def)
  from register_law [OF this m [unfolded q]] access_token_authenticates [OF assms(2,3) ip(1)]
  show ?thesis unfolding s' tp by (simp add: token_pair_answer_def ip(3))
qed

lemma login_granted:
  assumes "issue_token cfg ids refs d client username password s = (Inr (tp, hs), s')" "jwt_documented (ac_jwt cfg)"
  shows "login_grant cfg ids sessions d username password s tp s'"
proof -
  obtain subject nk keys where ctx: "login_context cfg client username = (subject, nk, keys)" by (metis prod_cases3)
  obtain e l a where f: "login_failure cfg d client ''auth.login'' subject keys (au_limiter s) (au_audit s) = (e, l, a)"
    by (metis prod_cases3)
  have cred: "credentials_ok cfg ids subject password (au_identities s)"
    using issue_token_failure [OF ctx _ f] assms(1) by fastforce
  then obtain h where h: "id_password_hash ids subject (au_identities s) = Some h" by (auto simp: credentials_ok_def)
  obtain limit l1 where lim: "check_many (ad_now d) keys None (au_limiter s) = (Inr limit, l1)" "rd_allowed limit"
    using assms(1) unfolding issue_token_def ctx
    by (auto simp: on_limiter_apply record_auth_event_def Let_def split: if_splits) (metis prod.collapse)+
  obtain b s1 role u where re: "rehash_step cfg ids d subject password h (s \<lparr> au_limiter := l1 \<rparr>) = (Inr b, s1)"
    and ps: "parse_subject subject = Inr (role, u)"
    and rest: "(case id_tenant_id ids subject (au_identities s1) of
        None \<Rightarrow> raise (HTTPException 401 ''invalid credentials'' [])
      | Some tenant_id \<Rightarrow> session_step cfg ids refs d client subject nk tenant_id) s1 = (Inr (tp, hs), s')"
    using assms(1) unfolding issue_token_passed [OF ctx lim cred h] by (auto simp del: raise_eq)
  obtain r where role: "role = role_value r" using parse_subject_role [OF ps] .
  obtain tenant where t: "id_tenant_id ids subject (au_identities s1) = Some tenant"
    and st: "session_step cfg ids refs d client subject nk tenant s1 = (Inr (tp, hs), s')"
    using rest by (cases "id_tenant_id ids subject (au_identities s1)") auto
  have "normalize_login_subject username = Inr subject"
  proof (cases "normalize_login_subject username")
    case (Inl e)
    with ctx have "subject = ''invalid-subject''" by (auto simp: login_context_def Let_def)
    with ps show ?thesis by (simp add: parse_subject_def)
  next
    case (Inr x)
    with ctx show ?thesis by (auto simp: login_context_def Let_def)
  qed
  moreover have eq: "au_sessions s1 = au_sessions s" and tenant: "id_tenant_id ids subject (au_identities s) = Some tenant"
    using rehash_step_keeps [OF re, of subject] t by simp_all
  ultimately show ?thesis
    using session_step_grants [OF st assms(2) ps [unfolded role], unfolded eq] cred ps [unfolded role] tenant
    unfolding login_grant_def by blast
qed

text \<open>Conversely, valid credentials within the budget are granted.\<close>

lemma login_succeeds:
  assumes "login_context cfg client username = (subject, nk, keys)"
    "check_many (ad_now d) keys None (au_limiter s) = (Inr limit, l)" "rd_allowed limit"
    "credentials_ok cfg ids subject password (au_identities s)"
    "\<not> ag_check_needs_rehash (ac_hasher cfg) (stored_or_dummy cfg (id_password_hash ids subject (au_identities s)))"
    "parse_subject subject = Inr (role, u)" "id_tenant_id ids subject (au_identities s) = Some tenant"
    "sessions (au_sessions s) (ad_refresh_jti d) = None"
    "storable \<lparr> rs_jti = ad_refresh_jti d, rs_family_id = td_family_id (ad_tokens d), rs_subject = subject,
       rs_expires_at = td_now (ad_tokens d) + seconds (7 * 86400), rs_used_at = None, rs_revoked_at = None,
       rs_replacement_jti = None \<rparr>"
  shows "\<exists>tp hs s'. issue_token cfg ids refs d client username password s = (Inr (tp, hs), s')"
proof -
  obtain h where h: "id_password_hash ids subject (au_identities s) = Some h" using assms(4) by (auto simp: credentials_ok_def)
  have re: "rehash_step cfg ids d subject password h = ret False"
    using assms(5) h by (simp add: rehash_step_def check_password_def)
  obtain pair where p: "issue_token_pair (ac_jwt cfg) (ac_settings cfg) (ad_tokens d) (ad_refresh_jti d) subject None None tenant
      = Inr pair" using issue_token_pair_returns by blast
  note ip = issued_pair [OF p]
  have "fst (rr_register refs (session_of_pair subject pair) (au_sessions s)) = Inr ()"
    using register_progress [of "session_of_pair subject pair"] assms(8,9) unfolding ip(3) by simp
  then obtain x where m: "rr_register refs (session_of_pair subject pair) (au_sessions s) = (Inr (), x)"
    by (metis prod.collapse)
  show ?thesis
    unfolding issue_token_passed [OF assms(1-4) h] re
    by (simp add: andThen_def ret_def lift_result_def assms(6,7) session_step_def p on_sessions_def m record_auth_event_def
        Let_def token_pair_answer_def)
qed

end

interpretation mem_auth: auth_backend in_memory_identities in_memory_refresh_sessions map_of "\<lambda>_. True"
  by (intro auth_backend.intro mem_identity.identity_port_axioms)
    (simp add: in_memory_refresh_sessions_def mem_refresh.refresh_port_axioms)

interpretation sql_auth: auth_backend sql_identities sql_refresh_sessions map_of "\<lambda>x. length (rs_subject x) \<le> 100"
  by (intro auth_backend.intro sql_identity.identity_port_axioms)
    (simp add: sql_refresh_sessions_def sql_refresh.refresh_port_axioms)

text \<open>
  A granted login is an authenticated account: in both backends, when the token endpoint
  answers with tokens, the normalised subject has a stored hash that verifies the password of
  at most 1024 characters; the access token authenticates, until it expires after 15 minutes,
  exactly the actor with the role and user of the subject and the tenant of the account; and
  exactly one refresh session is added, unused and valid for seven days.
\<close>

theorem login_grants_account:
  assumes "jwt_documented (ac_jwt cfg)"
  shows "(issue_token cfg in_memory_identities in_memory_refresh_sessions d client username password s = (Inr (tp, hs), s') \<longrightarrow>
            login_grant cfg in_memory_identities map_of d username password s tp s')
    \<and> (issue_token cfg sql_identities sql_refresh_sessions d client username password t = (Inr (tp, hs), t') \<longrightarrow>
            login_grant cfg sql_identities map_of d username password t tp t')"
  using mem_auth.login_granted [OF _ assms] sql_auth.login_granted [OF _ assms] by blast

definition sample_subject :: string where
  "sample_subject = ''customer:'' @ str_uuid 7"

definition sample_identities :: InMemoryIdentityRepository where
  "sample_identities = \<lparr> mi_passwords = [(sample_subject, ag_hash plain_hasher ''t'' ''correct horse'')],
     mi_tenants = [(sample_subject, 1)] \<rparr>"

lemma lower_digit: "c = CHR ''-'' \<or> (\<exists>d < 16. c = digit_char d) \<Longrightarrow> lower c = c \<and> \<not> is_space c \<and> 32 \<le> code c \<and> code c < 127"
proof (elim disjE exE conjE)
  fix d :: nat
  assume "d < 16" "c = digit_char d"
  then show ?thesis using code_digit_char [of d] by (auto simp: lower_def is_space_def)
qed (simp add: lower_def is_space_def code_def)

lemma normalize_customer:
  assumes "\<And>c. c \<in> set u \<Longrightarrow> c = CHR ''-'' \<or> (\<exists>d < 16. c = digit_char d)" "length u = 36"
  shows "normalize_login_subject (''customer:'' @ u) = Inr (''customer:'' @ u)"
proof -
  have plain: "lower c = c \<and> \<not> is_space c \<and> 32 \<le> code c \<and> code c < 127" if "c \<in> set (''customer:'' @ u)" for c
  proof (cases "c \<in> set u")
    case False
    with that have "c \<in> set ''customer:''" by auto
    then show ?thesis by (auto simp: lower_def is_space_def code_def)
  qed (use lower_digit [OF assms(1)] in blast)
  have st: "strip (''customer:'' @ u) = ''customer:'' @ u" using plain by (intro strip_none) blast
  have cf: "casefold (''customer:'' @ u) = ''customer:'' @ u"
    unfolding casefold_def by (rule map_idI) (use plain in blast)
  have "\<not> list_ex (\<lambda>c. code c < 32 \<or> code c = 127) (''customer:'' @ u)"
    using plain unfolding list_ex_iff by force
  then show ?thesis unfolding normalize_login_subject_def Let_def st cf using assms(2) by simp
qed

lemma sample_limiter: "keys = login_limit_keys n x \<Longrightarrow>
    \<exists>limit l. check_many now keys None login_rate_limiter = (Inr limit, l) \<and> rd_allowed limit"
  by (simp add: login_limit_keys_def check_many_def login_rate_limiter_def limiter_init_def bucket_def touch_bucket_def
      prune_bucket_def Let_def)

section \<open>Two spellings of one user\<close>

lemma uuid_of_spelling:
  assumes "filter (\<lambda>x. x \<noteq> CHR ''-'') t = hex_fixed 32 (unat u)"
    "\<And>c. c \<in> set t \<Longrightarrow> c = CHR ''-'' \<or> (\<exists>d < 16. c = digit_char d)"
  shows "uuid_of_text t = Some u"
proof -
  have chars: "c \<noteq> CHR ''u'' \<and> c \<noteq> CHR ''{'' \<and> c \<noteq> CHR ''}''" if "c \<in> set t" for c
    using assms(2) [OF that] by auto
  then have "CHR ''u'' \<notin> set t" by blast
  then have "remove_all ''uuid:'' (remove_all ''urn:'' t) = t" by (simp add: remove_all_absent)
  moreover have "strip_chars ''{}'' t = t" using chars by (intro strip_chars_none) auto
  moreover have "unat u < 16 ^ 32" "uint u < 2 ^ 128"
    using unsigned_less [of u, where 'a = nat] unsigned_less [of u, where 'a = int] by simp_all
  ultimately show ?thesis by (simp add: uuid_of_text_def remove_all_char assms(1) py_int_hex_fixed)
qed

text \<open>The user's id with its hyphens moved to the end.\<close>

definition alias_subject :: "uuid \<Rightarrow> string" where
  "alias_subject u = ''customer:'' @ hex_fixed 32 (unat u) @ ''----''"

lemma alias_chars: "c \<in> set (hex_fixed 32 n @ ''----'') \<Longrightarrow> c = CHR ''-'' \<or> (\<exists>d < 16. c = digit_char d)"
  by (auto dest: set_hex_fixed)

lemma alias_subject_facts:
  "normalize_login_subject (alias_subject u) = Inr (alias_subject u)"
  "parse_subject (alias_subject u) = Inr (''customer'', u)"
  "length (alias_subject u) = 45"
  "12 \<le> length p \<Longrightarrow> length p \<le> 256 \<Longrightarrow> registration_valid (alias_subject u) p"
  "alias_subject u \<noteq> actor_subject \<lparr> a_user_id = u, a_role = CUSTOMER, a_tenant_id = t \<rparr>"
proof -
  show "normalize_login_subject (alias_subject u) = Inr (alias_subject u)"
    unfolding alias_subject_def by (rule normalize_customer [OF alias_chars]) simp_all
  have "filter (\<lambda>x. x \<noteq> CHR ''-'') (hex_fixed 32 (unat u)) = hex_fixed 32 (unat u)"
    by (rule filter_all_id) (rule hex_fixed_plain)
  then have "uuid_of_text (hex_fixed 32 (unat u) @ ''----'') = Some u"
    using alias_chars by (intro uuid_of_spelling) auto
  then show "parse_subject (alias_subject u) = Inr (''customer'', u)"
    by (simp add: parse_subject_def alias_subject_def)
  show "length (alias_subject u) = 45" by (simp add: alias_subject_def)
  moreover have "hex_or_hyphen c" if "c \<in> set (hex_fixed 32 (unat u) @ ''----'')" for c
    using alias_chars [OF that] unfolding hex_or_hyphen_def by (elim disjE exE conjE) simp_all
  then have "list_all hex_or_hyphen (drop 9 (alias_subject u))" unfolding list_all_iff alias_subject_def by simp
  ultimately show "registration_valid (alias_subject u) p" if "12 \<le> length p" "length p \<le> 256"
    using that unfolding registration_valid_def by (simp add: alias_subject_def)
  have "hd (drop 17 (alias_subject u)) = hex_fixed 32 (unat u) ! 8" by (simp add: alias_subject_def hd_drop_conv_nth nth_append)
  moreover have "hd (drop 17 (actor_subject \<lparr> a_user_id = u, a_role = CUSTOMER, a_tenant_id = t \<rparr>)) = CHR ''-''"
    by (simp add: actor_subject_def str_uuid_def Let_def)
  moreover have "hex_fixed 32 (unat u) ! 8 \<noteq> CHR ''-''"
    using hex_fixed_plain(1) [OF nth_mem, of 8 32 "unat u"] by simp
  ultimately show "alias_subject u \<noteq> actor_subject \<lparr> a_user_id = u, a_role = CUSTOMER, a_tenant_id = t \<rparr>" by metis
qed

text \<open>
  Argon2 as documented: a hash verifies its password, is not empty, and needs no rehash by
  the hasher that made it. Hashes with other parameters may be reported as obsolete.
\<close>

definition argon2_documented :: "argon2_hasher \<Rightarrow> bool" where
  "argon2_documented hasher \<longleftrightarrow>
     (\<forall>salt p. ag_verify hasher (ag_hash hasher salt p) p \<and> ag_hash hasher salt p \<noteq> ''''
        \<and> \<not> ag_check_needs_rehash hasher (ag_hash hasher salt p))"

context auth_backend
begin

lemma alias_takes_over:
  assumes "argon2_documented (ac_hasher cfg)" "jwt_documented (ac_jwt cfg)"
    "register_identity cfg ids d (alias_subject u) password s = (Inr x, s1)"
    "login_context cfg client (alias_subject u) = (alias_subject u, nk, keys)"
    "check_many (ad_now d2) keys None (au_limiter s) = (Inr limit, l)" "rd_allowed limit"
    "sessions (au_sessions s) (ad_refresh_jti d2) = None"
    "\<And>y. rs_subject y = alias_subject u \<Longrightarrow> storable y"
  shows "\<exists>tp hs s2. issue_token cfg ids refs d2 client (alias_subject u) password s1 = (Inr (tp, hs), s2)
    \<and> authenticates cfg (td_now (ad_tokens d2)) (tp_access_token tp)
        \<lparr> a_user_id = u, a_role = CUSTOMER, a_tenant_id = DEFAULT_TENANT_ID \<rparr>"
proof -
  let ?h = "ag_hash (ac_hasher cfg) (ad_salt d) password"
  obtain r i where add: "id_add ids (alias_subject u) ?h DEFAULT_TENANT_ID (au_identities s) = (r, i)" by fastforce
  from assms(3) have len: "length password \<le> 256" and r: "r = Inr True" and s1: "s1 = s \<lparr> au_identities := i \<rparr>"
    by (auto simp: register_identity_def registration_valid_def alias_subject_facts hash_password_def on_identities_def add
        split: if_splits)
  from add_law [OF add [unfolded r]]
  have acc: "id_password_hash ids (alias_subject u) i = Some ?h" "id_tenant_id ids (alias_subject u) i = Some DEFAULT_TENANT_ID"
    by (auto simp: fun_eq_iff)
  have cred: "credentials_ok cfg ids (alias_subject u) password (au_identities s1)"
    using assms(1) acc len unfolding credentials_ok_def s1 by (simp add: stored_or_dummy_def argon2_documented_def)
  obtain tp hs s2 where ok: "issue_token cfg ids refs d2 client (alias_subject u) password s1 = (Inr (tp, hs), s2)"
    using login_succeeds [OF assms(4) _ assms(6) cred _ alias_subject_facts(2), where d = d2 and tenant = DEFAULT_TENANT_ID]
      assms(1,5,7,8) acc by (auto simp: s1 argon2_documented_def stored_or_dummy_def)
  from login_granted [OF ok assms(2)] obtain r' u' where
    "parse_subject (alias_subject u) = Inr (role_value r', u')"
    "authenticates cfg (td_now (ad_tokens d2)) (tp_access_token tp)
       \<lparr> a_user_id = u', a_role = r', a_tenant_id = DEFAULT_TENANT_ID \<rparr>"
    unfolding login_grant_def by (auto simp: alias_subject_facts s1 acc)
  moreover from this(1) have "u' = u" "r' = CUSTOMER" by (cases r'; simp add: alias_subject_facts)+
  ultimately show ?thesis using ok by blast
qed

end

lemma alias_registers:
  assumes "12 \<le> length password" "length password \<le> 256" "length (ag_hash (ac_hasher cfg) (ad_salt d) password) \<le> 300"
    "map_of (au_identities s) (alias_subject u) = None"
  obtains s1 where "register_identity cfg sql_identities d (alias_subject u) password s = (Inr (alias_subject u), s1)"
  using assms
  by (simp add: register_identity_def check_def lift_result_def andThen_def alias_subject_facts on_identities_def
      sql_identities_def sql_identity_add_def hash_password_def ret_def)

lemma alias_login_context:
  obtains nk keys where "login_context cfg client (alias_subject u) = (alias_subject u, nk, keys)"
    "keys = login_limit_keys nk (alias_subject u)"
proof -
  have "login_context cfg client (alias_subject u) = (alias_subject u, trusted_client_network_key (ac_ip_compressed cfg)
      (hc_host client), login_limit_keys (trusted_client_network_key (ac_ip_compressed cfg) (hc_host client)) (alias_subject u))"
    by (simp add: login_context_def alias_subject_facts Let_def)
  then show thesis using that by blast
qed

text \<open>
  C23. A second spelling of a user's id opens a second account for the same user: the subject with
  the hyphens of the id moved to the end passes the pattern of \<open>Registration\<close>, is a
  different key of the identity table, and \<open>UUID()\<close> reads the same id from it. Whoever
  registers it with a password of their own is authenticated as that user: in SQL mode, when
  the spelling is not registered yet and the login is within the attempt budget, the
  registration is accepted, the login is granted, and the access token is the user's.
\<close>

theorem subject_alias_takeover:
  assumes "argon2_documented (ac_hasher cfg)" "jwt_documented (ac_jwt cfg)" "12 \<le> length password" "length password \<le> 256"
    "length (ag_hash (ac_hasher cfg) (ad_salt d) password) \<le> 300"
    "sql_password_hash (alias_subject u) (au_identities s) = None"
    "check_many (ad_now d2) (snd (snd (login_context cfg client (alias_subject u)))) None (au_limiter s) = (Inr limit, l)"
    "rd_allowed limit" "map_of (au_sessions s) (ad_refresh_jti d2) = None"
  shows "alias_subject u \<noteq> actor_subject \<lparr> a_user_id = u, a_role = CUSTOMER, a_tenant_id = DEFAULT_TENANT_ID \<rparr>
    \<and> (\<exists>s1 tp hs s2. sql_request (register_identity cfg sql_identities d (alias_subject u) password) s = (Inr (alias_subject u), s1)
         \<and> sql_request (issue_token cfg sql_identities sql_refresh_sessions d2 client (alias_subject u) password) s1
             = (Inr (tp, hs), s2)
         \<and> authenticates cfg (td_now (ad_tokens d2)) (tp_access_token tp)
             \<lparr> a_user_id = u, a_role = CUSTOMER, a_tenant_id = DEFAULT_TENANT_ID \<rparr>)"
proof
  let ?a = "alias_subject u"
  show "?a \<noteq> actor_subject \<lparr> a_user_id = u, a_role = CUSTOMER, a_tenant_id = DEFAULT_TENANT_ID \<rparr>"
    by (rule alias_subject_facts)
  have none: "map_of (au_identities s) ?a = None" using assms(6) by (simp add: sql_password_hash_def)
  obtain s1 where reg: "register_identity cfg sql_identities d ?a password s = (Inr ?a, s1)"
    using alias_registers [OF assms(3-5) none] .
  obtain nk keys where ctx: "login_context cfg client ?a = (?a, nk, keys)" by (rule alias_login_context)
  have "check_many (ad_now d2) keys None (au_limiter s) = (Inr limit, l)" using assms(7) ctx by simp
  from sql_auth.alias_takes_over [OF assms(1,2) reg ctx this assms(8,9)] obtain tp hs s2 where
    "issue_token cfg sql_identities sql_refresh_sessions d2 client ?a password s1 = (Inr (tp, hs), s2)"
    "authenticates cfg (td_now (ad_tokens d2)) (tp_access_token tp)
       \<lparr> a_user_id = u, a_role = CUSTOMER, a_tenant_id = DEFAULT_TENANT_ID \<rparr>"
    by (auto simp: alias_subject_facts)
  with reg show "\<exists>s1 tp hs s2. sql_request (register_identity cfg sql_identities d ?a password) s = (Inr ?a, s1)
      \<and> sql_request (issue_token cfg sql_identities sql_refresh_sessions d2 client ?a password) s1 = (Inr (tp, hs), s2)
      \<and> authenticates cfg (td_now (ad_tokens d2)) (tp_access_token tp)
          \<lparr> a_user_id = u, a_role = CUSTOMER, a_tenant_id = DEFAULT_TENANT_ID \<rparr>"
    by (simp add: sql_request_def)
qed

lemma plain_hasher_documented: "argon2_documented plain_hasher"
proof -
  have "dropWhile (\<lambda>c. c \<noteq> CHR ''.'') (hex_text salt @ CHR ''.'' # p) = CHR ''.'' # p" for salt p
    using hex_text_no_dot [of salt] by (subst dropWhile_append2) auto
  then show ?thesis by (simp add: argon2_documented_def plain_hasher_def)
qed

lemma sample_config_documented: "argon2_documented (ac_hasher sample_config)" "jwt_documented (ac_jwt sample_config)"
  by (simp_all add: sample_config_def plain_hasher_documented dotted_jwt_documented)

definition sample_tables :: "(identity_table, session_table) auth_state" where
  "sample_tables = \<lparr> au_identities = [], au_sessions = [], au_limiter = login_rate_limiter, au_audit = [] \<rparr>"

theorem subject_alias_takeover_witness:
  "\<exists>s1 tp hs s2. sql_request (register_identity sample_config sql_identities sample_draws (alias_subject 7) ''correct horse'')
       sample_tables = (Inr (alias_subject 7), s1)
     \<and> sql_request (issue_token sample_config sql_identities sql_refresh_sessions sample_draws sample_client (alias_subject 7)
         ''correct horse'') s1 = (Inr (tp, hs), s2)
     \<and> authenticates sample_config 0 (tp_access_token tp)
         \<lparr> a_user_id = 7, a_role = CUSTOMER, a_tenant_id = DEFAULT_TENANT_ID \<rparr>"
proof -
  obtain nk keys where ctx: "login_context sample_config sample_client (alias_subject 7) = (alias_subject 7, nk, keys)"
    and keys: "keys = login_limit_keys nk (alias_subject 7)"
    by (rule alias_login_context)
  obtain limit l where "check_many (ad_now sample_draws) keys None (au_limiter sample_tables) = (Inr limit, l)" "rd_allowed limit"
    using sample_limiter [OF keys, where now = "ad_now sample_draws"] by (auto simp: sample_tables_def)
  with ctx subject_alias_takeover [OF sample_config_documented, where password = "''correct horse''" and d = sample_draws
      and ?d2.0 = sample_draws and u = 7 and s = sample_tables and client = sample_client]
  show ?thesis
    by (simp add: sample_config_def sample_tables_def sample_draws_def sql_password_hash_def plain_hasher_def)
qed

theorem login_grants_account_witness:
  "\<exists>s1 tp hs s2. issue_token sample_config sql_identities sql_refresh_sessions sample_draws sample_client (alias_subject 7)
       ''correct horse'' s1 = (Inr (tp, hs), s2)
     \<and> login_grant sample_config sql_identities map_of sample_draws (alias_subject 7) ''correct horse'' s1 tp s2"
proof -
  have h: "length (ag_hash (ac_hasher sample_config) (ad_salt sample_draws) ''correct horse'') \<le> 300"
    "map_of (au_identities sample_tables) (alias_subject 7) = None"
    by (simp_all add: sample_tables_def sample_config_def plain_hasher_def sample_draws_def)
  obtain s1 where reg: "register_identity sample_config sql_identities sample_draws (alias_subject 7) ''correct horse''
      sample_tables = (Inr (alias_subject 7), s1)"
    by (rule alias_registers [OF _ _ h]) simp_all
  obtain nk keys where ctx: "login_context sample_config sample_client (alias_subject 7) = (alias_subject 7, nk, keys)"
    and keys: "keys = login_limit_keys nk (alias_subject 7)"
    by (rule alias_login_context)
  obtain limit l where "check_many (ad_now sample_draws) keys None (au_limiter sample_tables) = (Inr limit, l)" "rd_allowed limit"
    using sample_limiter [OF keys, where now = "ad_now sample_draws"] by (auto simp: sample_tables_def)
  from sql_auth.alias_takes_over [OF sample_config_documented reg ctx this]
  obtain tp hs s2 where "issue_token sample_config sql_identities sql_refresh_sessions sample_draws sample_client (alias_subject 7)
      ''correct horse'' s1 = (Inr (tp, hs), s2)"
    by (auto simp: alias_subject_facts sample_tables_def)
  with login_grants_account [OF sample_config_documented(2)] show ?thesis by blast
qed

section \<open>Reuse of a refresh token\<close>

definition refresh_valid :: "datetime \<Rightarrow> int \<Rightarrow> datetime \<Rightarrow> bool" where
  "refresh_valid t0 lifetime now \<longleftrightarrow>
     seconds (t0 div 1000000) \<le> now + seconds 30 \<and> now - seconds 30 < seconds ((t0 + lifetime) div 1000000)"

lemma refresh_token_claims:
  assumes "jwt_documented lib" "refresh_valid t0 lifetime now"
    "create_token lib st d subject ''refresh'' lifetime (Some j) (Some f) (Some t0) tenant = Inr token"
  obtains claims where "decode_token lib st now ''refresh'' token = Inr claims" "json_get_str claims ''sub'' = Inr subject"
    "json_get_uuid claims ''family'' = Inr f" "json_get_uuid claims ''jti'' = Inr j" "json_get_uuid claims ''tenant'' = Inr tenant"
proof -
  let ?c = "\<lparr> cl_sub = subject, cl_type = ''refresh'', cl_iss = js_issuer st, cl_aud = js_audience st, cl_iat = t0,
    cl_nbf = t0, cl_exp = t0 + lifetime, cl_jti = str_uuid j, cl_tenant = str_uuid tenant, cl_family = Some (str_uuid f) \<rparr>"
  have tok: "token = jwt_encode lib ?c (js_secret st) ''rt+jwt''" using assms(3) by (simp add: create_token_def Let_def)
  have hd: "jwt_header lib token = Some [(''alg'', JStr ''HS256''), (''typ'', JStr ''rt+jwt'')]"
    and dec: "jwt_decode lib token (js_secret st) (js_issuer st) (js_audience st) REQUIRED_CLAIMS (seconds 30) now
      = Some (claims_json ?c)"
    using assms(1,2) unfolding jwt_documented_def tok refresh_valid_def by (auto simp: in_time_def)
  note get = claims_json_def json_get_uuid_def json_get_str_def json_get_def
  have "decode_token lib st now ''refresh'' token = Inr (claims_json ?c)"
    unfolding decode_token_def Let_def hd option.case dec by (simp add: get)
  then show thesis by (rule that) (simp_all add: get)
qed

lemma rotate_refresh_token_step:
  assumes "jwt_documented (ac_jwt cfg)" "refresh_valid t0 lifetime (ad_now d)" "20 \<le> length token" "length token \<le> 4096"
    "create_token (ac_jwt cfg) (ac_settings cfg) dd subject ''refresh'' lifetime (Some j) (Some f) (Some t0) tenant = Inr token"
    "issue_token_pair (ac_jwt cfg) (ac_settings cfg) (ad_tokens d) (ad_refresh_jti d) subject (Some f) None tenant = Inr pair"
    "rr_rotate refs j f subject (session_of_pair subject pair) (ad_now d) (au_sessions s) = (Inr REUSED, x)"
  shows "rotate_refresh_token cfg refs d client ''refresh_token'' token s =
     (Inl (HTTPException 401 ''invalid refresh token'' BEARER_CHALLENGE),
      snd (record_auth_event cfg d client (Some subject) subject ''auth.refresh'' ''reuse_detected'' ''refresh_reuse_detected''
             None (s \<lparr> au_sessions := x \<rparr>)))"
proof -
  obtain claims where "decode_token (ac_jwt cfg) (ac_settings cfg) (ad_now d) ''refresh'' token = Inr claims"
    "json_get_str claims ''sub'' = Inr subject" "json_get_uuid claims ''family'' = Inr f" "json_get_uuid claims ''jti'' = Inr j"
    "json_get_uuid claims ''tenant'' = Inr tenant"
    using refresh_token_claims [OF assms(1,2,5)] .
  with assms(3,4,6,7) show ?thesis
    by (simp add: rotate_refresh_token_def refresh_form_valid_def check_def lift_result_def andThen_def on_sessions_def
        record_auth_event_def raise_def Let_def)
qed

definition family_usable :: "uuid \<Rightarrow> string \<Rightarrow> session_table \<Rightarrow> bool" where
  "family_usable f subject x \<longleftrightarrow>
     (\<forall>k live rep now. map_of x k = Some live \<and> rs_family_id live = f \<and> rs_subject live = subject \<and> \<not> spent live
        \<and> now < rs_expires_at live \<and> rs_family_id rep = f \<and> rs_subject rep = subject \<and> length subject \<le> 100
        \<and> k \<noteq> rs_jti rep \<and> map_of x (rs_jti rep) = None \<longrightarrow>
        fst (sql_refresh_rotate k f subject rep now x) = Inr ROTATED)"

lemma family_usable_sql: "family_usable f subject x"
  unfolding family_usable_def
  by (auto simp: sql_refresh_rotate_def spent_def andThen_def insert_session_row_def ret_def)

text \<open>
  C22. Reuse of a refresh token is answered 401 in both modes, but its consequence is kept only in
  memory mode: there every session of the family is revoked, while in SQL mode the exception
  that reports the reuse rolls the revocation back. The sessions are as before, and every
  unspent session of the family is still exchanged afterwards.
\<close>

theorem reuse_revocation_lost_in_sql:
  assumes "jwt_documented (ac_jwt cfg)" "refresh_valid t0 lifetime (ad_now d)" "20 \<le> length token" "length token \<le> 4096"
    "create_token (ac_jwt cfg) (ac_settings cfg) dd subject ''refresh'' lifetime (Some j) (Some f) (Some t0) tenant = Inr token"
    "map_of (au_sessions s) j = Some c" "rs_family_id c = f" "rs_subject c = subject" "spent c"
    "rotate_refresh_token cfg in_memory_refresh_sessions d client ''refresh_token'' token s = (r, m)"
    "sql_request (rotate_refresh_token cfg sql_refresh_sessions d client ''refresh_token'' token) s = (r', t)"
  shows "r = Inl (HTTPException 401 ''invalid refresh token'' BEARER_CHALLENGE) \<and> r' = r
    \<and> family_closed f (map_of (au_sessions m)) \<and> au_sessions t = au_sessions s
    \<and> family_usable f subject (au_sessions t)"
proof -
  obtain pair where p: "issue_token_pair (ac_jwt cfg) (ac_settings cfg) (ad_tokens d) (ad_refresh_jti d) subject (Some f) None
      tenant = Inr pair" using issue_token_pair_returns by blast
  have fr: "fresh_session (session_of_pair subject pair)" unfolding issued_pair(3) [OF p] by (simp add: fresh_session_def)
  let ?x = "map (\<lambda>(i, item). (i, revoke_family f (ad_now d) item)) (au_sessions s)"
  have mem: "rr_rotate in_memory_refresh_sessions j f subject (session_of_pair subject pair) (ad_now d) (au_sessions s)
      = (Inr REUSED, ?x)"
    and sql: "rr_rotate sql_refresh_sessions j f subject (session_of_pair subject pair) (ad_now d) (au_sessions s)
      = (Inr REUSED, ?x)"
    using assms(6-9) by (auto simp: in_memory_refresh_sessions_def sql_refresh_sessions_def mem_refresh_rotate_def
        sql_refresh_rotate_def spent_def)
  note step = rotate_refresh_token_step [OF assms(1-5) p]
  from step [OF mem, of client] assms(10) have m: "au_sessions m = ?x" "r = Inl (HTTPException 401 ''invalid refresh token'' BEARER_CHALLENGE)"
    by (auto simp: record_auth_event_def Let_def)
  from step [OF sql, of client] assms(11) have t: "au_sessions t = au_sessions s" "r' = r"
    by (auto simp: record_auth_event_def Let_def sql_request_def m)
  have "rotate_spec j f subject (session_of_pair subject pair) (ad_now d) (map_of (au_sessions s)) = (REUSED, map_of ?x)"
    using mem_refresh.rotate_law [OF fr, of j f subject "ad_now d" "au_sessions s" REUSED ?x] mem
    by (simp add: in_memory_refresh_sessions_def)
  then have "family_closed f (map_of ?x)" by (rule rotate_spec_reused)
  then show ?thesis using m t family_usable_sql by simp
qed

definition used_session :: "uuid \<Rightarrow> datetime option \<Rightarrow> RefreshSession" where
  "used_session j used = \<lparr> rs_jti = j, rs_family_id = 9, rs_subject = ''customer:1'', rs_expires_at = seconds 5,
     rs_used_at = used, rs_revoked_at = None, rs_replacement_jti = None \<rparr>"

definition sample_family :: "(identity_table, session_table) auth_state" where
  "sample_family = sample_tables \<lparr> au_sessions := [(1, used_session 1 (Some 0)), (2, used_session 2 None)] \<rparr>"

theorem reuse_revocation_lost_in_sql_witness:
  "\<exists>token t. create_token dotted_jwt (ac_settings sample_config) (ad_tokens sample_draws) ''customer:1'' ''refresh'' (seconds 5)
       (Some 1) (Some 9) (Some 0) 3 = Inr token
     \<and> sql_request (rotate_refresh_token sample_config sql_refresh_sessions sample_draws sample_client ''refresh_token'' token)
         sample_family = (Inl (HTTPException 401 ''invalid refresh token'' BEARER_CHALLENGE), t)
     \<and> fst (sql_refresh_rotate 2 9 ''customer:1'' (used_session 4 None) 0 (au_sessions t)) = Inr ROTATED"
proof -
  obtain token where tok: "create_token (ac_jwt sample_config) (ac_settings sample_config) (ad_tokens sample_draws) ''customer:1''
      ''refresh'' (seconds 5) (Some 1) (Some 9) (Some 0) 3 = Inr token"
    by (simp add: create_token_def Let_def)
  then have "token = dotted (claims_fields \<lparr> cl_sub = ''customer:1'', cl_type = ''refresh'', cl_iss = ''i'', cl_aud = ''a'',
      cl_iat = 0, cl_nbf = 0, cl_exp = 5000000, cl_jti = str_uuid 1, cl_tenant = str_uuid 3, cl_family = Some (str_uuid 9) \<rparr>
      @ [''s'', ''rt+jwt''])"
    by (simp add: create_token_def Let_def sample_config_def dotted_jwt_def)
  then have len: "20 \<le> length token" "length token \<le> 4096"
    by (simp_all add: length_dotted claims_fields_def signed_text_def dec_nat.simps)
  obtain r m where mem: "rotate_refresh_token sample_config in_memory_refresh_sessions sample_draws sample_client ''refresh_token''
      token sample_family = (r, m)" by fastforce
  obtain r' t where sql: "sql_request (rotate_refresh_token sample_config sql_refresh_sessions sample_draws sample_client
      ''refresh_token'' token) sample_family = (r', t)" by fastforce
  have "refresh_valid 0 (seconds 5) (ad_now sample_draws)" by (simp add: refresh_valid_def sample_draws_def)
  moreover have "map_of (au_sessions sample_family) 1 = Some (used_session 1 (Some 0))"
    "rs_family_id (used_session 1 (Some 0)) = 9" "rs_subject (used_session 1 (Some 0)) = ''customer:1''"
    "spent (used_session 1 (Some 0))"
    by (simp_all add: sample_family_def used_session_def spent_def)
  ultimately have res: "r' = Inl (HTTPException 401 ''invalid refresh token'' BEARER_CHALLENGE)"
    "au_sessions t = au_sessions sample_family" "family_usable 9 ''customer:1'' (au_sessions t)"
    using reuse_revocation_lost_in_sql [OF sample_config_documented(2) _ len tok _ _ _ _ mem sql] by auto
  from res(3) [unfolded family_usable_def, rule_format, where k = 2 and live = "used_session 2 None" and rep = "used_session 4 None" and now = 0] res(2)
  have "fst (sql_refresh_rotate 2 9 ''customer:1'' (used_session 4 None) 0 (au_sessions t)) = Inr ROTATED"
    by (simp add: sample_family_def used_session_def spent_def)
  with res(1) tok sql show ?thesis by (simp add: sample_config_def)
qed

end
