(* ===== verification/Webhooks.thy ===== *)
theory Webhooks
  imports Messaging Auth_Api
begin

text \<open>
  The payment webhook: \<open>webhooks.py\<close>, \<open>verify_webhook_signature\<close> of \<open>integrations.py\<close> and the
  handler \<open>payment_webhook\<close> of \<open>main.py\<close>. \<open>PaymentWebhookEnvelope.model_validate_json\<close> is
  a function passed as argument, None where pydantic rejects the body. The handler works on
  the in-memory inbox or, in a transaction of its own, on the tables.
\<close>

section \<open>Envelope\<close>

record PaymentData =
  pd_order_id :: uuid
  pd_payment_id :: string

record PaymentWebhookEnvelope =
  pe_id :: uuid
  pe_type :: string
  pe_data :: PaymentData

definition durable_payload :: "PaymentWebhookEnvelope \<Rightarrow> string \<Rightarrow> json_object" where
  "durable_payload e raw_body =
     [(''event_id'', JStr (str_uuid (pe_id e))), (''event_type'', JStr (pe_type e)),
      (''order_id'', JStr (str_uuid (pd_order_id (pe_data e)))), (''payment_id'', JStr (pd_payment_id (pe_data e))),
      (''payload_sha256'', JStr (sha256_hexdigest raw_body))]"

definition timestamp_is_fresh :: "string \<Rightarrow> int \<Rightarrow> datetime \<Rightarrow> bool" where
  "timestamp_is_fresh value tolerance_seconds now =
     (case py_int 10 value of
        None \<Rightarrow> False
      | Some timestamp \<Rightarrow> \<bar>now - seconds timestamp\<bar> \<le> seconds tolerance_seconds)"

section \<open>In-memory inbox\<close>

type_synonym InMemoryWebhookInbox = "(uuid \<times> json_object) list"

definition inbox_accept :: "uuid \<Rightarrow> json_object \<Rightarrow> (InMemoryWebhookInbox, bool) action" where
  "inbox_accept event_id payload records =
     (case dict_get records event_id of
        None \<Rightarrow> (Inr True, dict_set event_id payload records)
      | Some existing \<Rightarrow>
          if \<not> same_object existing payload
          then (Inl (WebhookEventConflict ''event ID was reused with another payload''), records)
          else (Inr False, records))"

section \<open>Signature\<close>

definition signed_payload :: "string \<Rightarrow> string \<Rightarrow> string" where
  "signed_payload timestamp payload = ''delivery.payment.v1'' @ [CHR 0x0A] @ timestamp @ [CHR 0x0A] @ payload"

definition verify_webhook_signature :: "string \<Rightarrow> string \<Rightarrow> string \<Rightarrow> string \<Rightarrow> bool" where
  "verify_webhook_signature payload signature secret timestamp =
     (if length signature \<noteq> 64 then False
      else (case fromhex signature of
              None \<Rightarrow> False
            | Some supplied \<Rightarrow>
                if list_ex (\<lambda>c. 128 \<le> code c) timestamp then False
                else hmac_sha256 secret (signed_payload timestamp payload) = supplied))"

section \<open>POST /api/v1/webhooks/payment\<close>

record webhook_settings =
  ws_secret :: string
  ws_max_bytes :: int
  ws_tolerance_seconds :: int

record webhook_request =
  wr_event_id :: string
  wr_timestamp :: string
  wr_signature :: string
  wr_content_length :: "string option"
  wr_content_type :: "string option"
  wr_body :: string
  wr_client :: http_client

definition webhook_headers_valid :: "webhook_request \<Rightarrow> bool" where
  "webhook_headers_valid rq \<longleftrightarrow> length (wr_event_id rq) = 36 \<and> 1 \<le> length (wr_timestamp rq)
     \<and> length (wr_timestamp rq) \<le> 20 \<and> length (wr_signature rq) = 64"

definition declared_too_large :: "webhook_settings \<Rightarrow> string option \<Rightarrow> bool" where
  "declared_too_large settings content_length =
     (case content_length of
        None \<Rightarrow> False
      | Some text \<Rightarrow> isdecimal text
          \<and> (case py_int 10 text of Some n \<Rightarrow> ws_max_bytes settings < n | None \<Rightarrow> False))"

definition media_type_of :: "string option \<Rightarrow> string" where
  "media_type_of content_type =
     casefold (strip (fst (partition_at (CHR '';'') (case content_type of None \<Rightarrow> '''' | Some t \<Rightarrow> t))))"

text \<open>The checks before the event is stored, in the order of the handler.\<close>

definition webhook_event ::
  "webhook_settings \<Rightarrow> (string \<Rightarrow> PaymentWebhookEnvelope option) \<Rightarrow> datetime \<Rightarrow> webhook_request
   \<Rightarrow> (uuid \<times> json_object) result" where
  "webhook_event settings validate now rq =
     (if \<not> webhook_headers_valid rq then Inl (ValidationError ''request'')
      else if declared_too_large settings (wr_content_length rq)
      then Inl (HTTPException 413 ''webhook payload is too large'' [])
      else if ws_max_bytes settings < int (length (wr_body rq))
      then Inl (HTTPException 413 ''webhook payload is too large'' [])
      else if \<not> verify_webhook_signature (wr_body rq) (wr_signature rq) (ws_secret settings) (wr_timestamp rq)
      then Inl (HTTPException 401 ''invalid webhook signature'' [])
      else if \<not> timestamp_is_fresh (wr_timestamp rq) (ws_tolerance_seconds settings) now
      then Inl (HTTPException 401 ''invalid webhook signature'' [])
      else if media_type_of (wr_content_type rq) \<noteq> ''application/json''
      then Inl (HTTPException 415 ''webhook requires application/json'' [])
      else (case (validate (wr_body rq), uuid_of_text (wr_event_id rq)) of
              (Some envelope, Some event_id) \<Rightarrow>
                if event_id \<noteq> pe_id envelope then Inl (HTTPException 422 ''webhook event ID mismatch'' [])
                else Inr (event_id, durable_payload envelope (wr_body rq))
            | _ \<Rightarrow> Inl (HTTPException 422 ''invalid webhook payload'' [])))"

definition audit_webhook ::
  "(string \<Rightarrow> string option) \<Rightarrow> datetime \<Rightarrow> uuid \<Rightarrow> http_client \<Rightarrow> uuid \<Rightarrow> bool \<Rightarrow> AuditTrail \<Rightarrow> AuditTrail" where
  "audit_webhook ip now audit_id client event_id applied =
     audit_record audit_id now (Some ''payment-provider'') (subject_fingerprint ''payment-provider'') ''payment_webhook''
       (Some (str_uuid event_id)) (if applied then ''accepted'' else ''duplicate'') ''signature_verified''
       (trusted_client_network_key ip (hc_host client)) (hc_correlation_id client)"

text \<open>\<open>accept\<close> is the store's acceptance: the in-memory inbox, or the tables in one transaction.\<close>

definition payment_webhook ::
  "webhook_settings \<Rightarrow> (string \<Rightarrow> PaymentWebhookEnvelope option) \<Rightarrow> (string \<Rightarrow> string option)
   \<Rightarrow> (uuid \<Rightarrow> json_object \<Rightarrow> ('s, bool) action) \<Rightarrow> datetime \<Rightarrow> uuid \<Rightarrow> webhook_request \<Rightarrow> ('s \<times> AuditTrail, string) action" where
  "payment_webhook settings validate ip accept now audit_id rq s =
     (case webhook_event settings validate now rq of
        Inl e \<Rightarrow> (Inl e, s)
      | Inr (event_id, payload) \<Rightarrow>
          (case accept event_id payload (fst s) of
             (Inl (WebhookEventConflict m), x) \<Rightarrow> (Inl (HTTPException 409 ''webhook event ID conflict'' []), (x, snd s))
           | (Inl e, x) \<Rightarrow> (Inl e, (x, snd s))
           | (Inr applied, x) \<Rightarrow>
               (Inr (if applied then ''accepted'' else ''duplicate''),
                (x, audit_webhook ip now audit_id (wr_client rq) event_id applied (snd s)))))"

definition in_memory_webhook where
  "in_memory_webhook settings validate ip = payment_webhook settings validate ip inbox_accept"

definition sql_webhook where
  "sql_webhook settings validate ip now =
     payment_webhook settings validate ip (\<lambda>event_id payload. transactional (accept_payment_webhook_once now event_id payload)) now"

section \<open>Genuine requests\<close>

text \<open>
  What a request has to be for its event \<open>e\<close> to be taken: well-formed headers, a body within
  the limits, signed with its own timestamp under the webhook secret, sent within the
  tolerance, and a JSON envelope with the id of the header.
\<close>

definition genuine ::
  "webhook_settings \<Rightarrow> (string \<Rightarrow> PaymentWebhookEnvelope option) \<Rightarrow> datetime \<Rightarrow> webhook_request
   \<Rightarrow> PaymentWebhookEnvelope \<Rightarrow> bool" where
  "genuine settings validate now rq e \<longleftrightarrow>
     webhook_headers_valid rq \<and> \<not> declared_too_large settings (wr_content_length rq)
     \<and> int (length (wr_body rq)) \<le> ws_max_bytes settings
     \<and> list_all (\<lambda>c. code c < 128) (wr_timestamp rq)
     \<and> fromhex (wr_signature rq)
         = Some (hmac_sha256 (ws_secret settings) (signed_payload (wr_timestamp rq) (wr_body rq)))
     \<and> (\<exists>sent. py_int 10 (wr_timestamp rq) = Some sent \<and> \<bar>now - seconds sent\<bar> \<le> seconds (ws_tolerance_seconds settings))
     \<and> media_type_of (wr_content_type rq) = ''application/json''
     \<and> validate (wr_body rq) = Some e \<and> uuid_of_text (wr_event_id rq) = Some (pe_id e)"

lemma webhook_event_genuine:
  "webhook_event settings validate now rq = Inr (i, p) \<longleftrightarrow>
     (\<exists>e. genuine settings validate now rq e \<and> i = pe_id e \<and> p = durable_payload e (wr_body rq))"
proof
  assume "webhook_event settings validate now rq = Inr (i, p)"
  then show "\<exists>e. genuine settings validate now rq e \<and> i = pe_id e \<and> p = durable_payload e (wr_body rq)"
    by (auto simp: webhook_event_def genuine_def verify_webhook_signature_def timestamp_is_fresh_def list_all_iff
        list_ex_iff not_le not_less split: if_splits option.splits)
next
  assume "\<exists>e. genuine settings validate now rq e \<and> i = pe_id e \<and> p = durable_payload e (wr_body rq)"
  then obtain e where e: "genuine settings validate now rq e" "i = pe_id e" "p = durable_payload e (wr_body rq)" by blast
  then have "verify_webhook_signature (wr_body rq) (wr_signature rq) (ws_secret settings) (wr_timestamp rq)"
    "timestamp_is_fresh (wr_timestamp rq) (ws_tolerance_seconds settings) now"
    by (auto simp: genuine_def verify_webhook_signature_def timestamp_is_fresh_def webhook_headers_valid_def list_all_iff
        list_ex_iff not_le)
  with e show "webhook_event settings validate now rq = Inr (i, p)"
    by (auto simp: webhook_event_def genuine_def not_less)
qed

lemma genuine_unique:
  "genuine settings validate now rq e \<Longrightarrow> genuine settings validate now' rq e' \<Longrightarrow> e = e'"
  by (simp add: genuine_def)

section \<open>The contract of the stores\<close>

text \<open>Any handled request, whatever its answer.\<close>

inductive webhook_step ::
  "(datetime \<Rightarrow> uuid \<Rightarrow> json_object \<Rightarrow> ('s, bool) action) \<Rightarrow> 's \<times> AuditTrail \<Rightarrow> 's \<times> AuditTrail \<Rightarrow> bool"
  for accept where
  handled: "payment_webhook settings validate ip (accept now) now a rq s = (r, s') \<Longrightarrow> webhook_step accept s s'"

locale webhook_store =
  fixes accept :: "datetime \<Rightarrow> uuid \<Rightarrow> json_object \<Rightarrow> ('s, bool) action"
    and accepted :: "'s \<Rightarrow> uuid \<Rightarrow> json_object option"
    and free :: "'s \<Rightarrow> uuid \<Rightarrow> bool"
  assumes accept_free: "free s i \<Longrightarrow> fst (accept now i p s) = Inr True"
    and accept_new: "accept now i p s = (Inr True, s') \<Longrightarrow> accepted s i = None \<and> accepted s' = (accepted s)(i \<mapsto> p)"
    and accept_known: "accepted s i = Some q \<Longrightarrow>
      accept now i p s = (if same_object q p then Inr False
        else Inl (WebhookEventConflict ''event ID was reused with another payload''), s)"
    and accept_no: "accept now i p s = (r, s') \<Longrightarrow> r \<noteq> Inr True \<Longrightarrow> s' = s"
begin

lemma webhook_cases:
  assumes "payment_webhook settings validate ip (accept now) now a rq s = (r, s')"
  shows "accepted (fst s') = accepted (fst s) \<and> r \<noteq> Inr ''accepted''
    \<or> (\<exists>i p. webhook_event settings validate now rq = Inr (i, p) \<and> r = Inr ''accepted''
         \<and> accepted (fst s) i = None \<and> accepted (fst s') = (accepted (fst s))(i \<mapsto> p))"
proof (cases "webhook_event settings validate now rq")
  case (Inr e)
  obtain i p where e: "e = (i, p)" by fastforce
  obtain q x where q: "accept now i p (fst s) = (q, x)" by fastforce
  show ?thesis
  proof (cases "q = Inr True")
    case True
    with accept_new [of now i p "fst s" x] q assms Inr e show ?thesis by (auto simp: payment_webhook_def)
  next
    case False
    with accept_no [OF q] have "x = fst s" by simp
    with q assms Inr e False show ?thesis
      by (auto simp: payment_webhook_def split: sum.splits exn.splits)
  qed
qed (use assms in \<open>auto simp: payment_webhook_def\<close>)

lemma accepted_kept: "(webhook_step accept)\<^sup>*\<^sup>* s s' \<Longrightarrow> accepted (fst s) i = Some p \<Longrightarrow> accepted (fst s') i = Some p"
proof (induction rule: rtranclp_induct)
  case (step t u)
  then obtain settings validate ip now a rq r where "payment_webhook settings validate ip (accept now) now a rq t = (r, u)"
    by (auto elim: webhook_step.cases)
  from webhook_cases [OF this] step show ?case by auto
qed simp

lemma answered_genuine:
  assumes "payment_webhook settings validate ip (accept now) now a rq s = (Inr ans, s')"
  shows "\<exists>e. genuine settings validate now rq e"
proof (cases "webhook_event settings validate now rq")
  case (Inr x)
  then show ?thesis by (cases x) (auto simp: webhook_event_genuine)
qed (use assms in \<open>simp add: payment_webhook_def\<close>)

lemma genuine_accepted:
  assumes "genuine settings validate now rq e" "free (fst s) (pe_id e)"
  shows "fst (payment_webhook settings validate ip (accept now) now a rq s) = Inr ''accepted''"
proof -
  have "webhook_event settings validate now rq = Inr (pe_id e, durable_payload e (wr_body rq))"
    using assms(1) by (auto simp: webhook_event_genuine)
  with accept_free [OF assms(2), of now "durable_payload e (wr_body rq)"] show ?thesis
    by (cases "accept now (pe_id e) (durable_payload e (wr_body rq)) (fst s)") (simp add: payment_webhook_def)
qed

text \<open>What is answered to a request for an event that was accepted before.\<close>

lemma accepted_once:
  assumes "payment_webhook settings validate ip (accept now) now a rq s = (Inr ''accepted'', s1)"
    "(webhook_step accept)\<^sup>*\<^sup>* s1 s2" "payment_webhook settings validate ip (accept now2) now2 a2 rq2 s2 = (r, s3)"
    "uuid_of_text (wr_event_id rq2) = uuid_of_text (wr_event_id rq)"
  shows "\<exists>e. genuine settings validate now rq e \<and> fst s3 = fst s2
    \<and> (if \<exists>e2. genuine settings validate now2 rq2 e2
           \<and> same_object (durable_payload e (wr_body rq)) (durable_payload e2 (wr_body rq2))
       then r = Inr ''duplicate''
       else if \<exists>e2. genuine settings validate now2 rq2 e2
       then r = Inl (HTTPException 409 ''webhook event ID conflict'' [])
       else \<exists>x. r = Inl x)"
proof -
  obtain i p where ip: "webhook_event settings validate now rq = Inr (i, p)" "accepted (fst s1) i = Some p"
    using webhook_cases [OF assms(1)] by auto
  obtain e where e: "genuine settings validate now rq e" "i = pe_id e" "p = durable_payload e (wr_body rq)"
    using ip(1) by (auto simp: webhook_event_genuine)
  have s2: "accepted (fst s2) i = Some p" using accepted_kept [OF assms(2) ip(2)] .
  show ?thesis
  proof (cases "webhook_event settings validate now2 rq2")
    case (Inl x)
    then have "\<not> genuine settings validate now2 rq2 e2" for e2
      using webhook_event_genuine [of settings validate now2 rq2 "pe_id e2" "durable_payload e2 (wr_body rq2)"] by auto
    with Inl assms(3) e(1) show ?thesis by (auto simp: payment_webhook_def)
  next
    case (Inr x)
    then obtain e2 where e2: "genuine settings validate now2 rq2 e2" "x = (pe_id e2, durable_payload e2 (wr_body rq2))"
      by (cases x) (auto simp: webhook_event_genuine)
    have "pe_id e2 = i" using e e2(1) assms(4) by (auto simp: genuine_def)
    with Inr e2(2) assms(3) accept_known [OF s2, of now2 "durable_payload e2 (wr_body rq2)"] e(3)
    have "r = (if same_object (durable_payload e (wr_body rq)) (durable_payload e2 (wr_body rq2)) then Inr ''duplicate''
        else Inl (HTTPException 409 ''webhook event ID conflict'' [])) \<and> fst s3 = fst s2"
      by (auto simp: payment_webhook_def split: if_splits)
    moreover have "genuine settings validate now2 rq2 f \<longleftrightarrow> f = e2" for f
      using e2(1) genuine_unique [OF _ e2(1)] by blast
    ultimately show ?thesis using e(1) by (intro exI [of _ e]) simp
  qed
qed

end

interpretation mem_webhook: webhook_store "\<lambda>now. inbox_accept" map_of "\<lambda>s i. map_of s i = None"
  by unfold_locales (auto simp: inbox_accept_def split: option.splits if_splits)

definition sql_accepted :: "message_tables \<Rightarrow> uuid \<Rightarrow> json_object option" where
  "sql_accepted db i =
     (case dict_get (mb_inbox db) i of
        None \<Rightarrow> None
      | Some _ \<Rightarrow> (case dict_get (t_outbox (mb_tables db)) i of
                    Some row \<Rightarrow> if ob_event_type row = ''payment.webhook.accepted'' then Some (ob_payload row) else None
                  | None \<Rightarrow> None))"

lemma sql_accept_result:
  "transactional (accept_payment_webhook_once now i p) db =
     (case dict_get (mb_inbox db) i of
        Some _ \<Rightarrow> (case sql_accepted db i of
                    Some q \<Rightarrow> if same_object q p then (Inr False, db)
                              else (Inl (WebhookEventConflict ''event ID was reused with another payload''), db)
                  | None \<Rightarrow> (Inl (WebhookEventConflict ''event ID was reused with another payload''), db))
      | None \<Rightarrow> (case insert_outbox_row \<lparr> ob_id = i, ob_event_type = ''payment.webhook.accepted'', ob_payload = p,
                    ob_legacy_processed_at = None, ob_created_at = now, ob_published_at = None \<rparr> (mb_tables db) of
             (Inl e, t) \<Rightarrow> (Inl e, db)
           | (Inr _, t) \<Rightarrow> (Inr True, db \<lparr> mb_inbox := dict_set i
                \<lparr> ib_event_id = i, ib_event_type = ''payment.webhook'', ib_processed_at = now \<rparr> (mb_inbox db), mb_tables := t \<rparr>)))"
  by (auto simp: transactional_def accept_payment_webhook_once_def claim_inbox_def andThen_def sql_accepted_def
      split: option.splits prod.splits sum.splits)

definition sql_free :: "message_tables \<Rightarrow> uuid \<Rightarrow> bool" where
  "sql_free db i \<longleftrightarrow> dict_get (mb_inbox db) i = None \<and> dict_get (t_outbox (mb_tables db)) i = None"

interpretation sql_webhooks: webhook_store "\<lambda>now i p. transactional (accept_payment_webhook_once now i p)" sql_accepted
  sql_free
proof
  fix db i now p
  assume "sql_free db i"
  then show "fst (transactional (accept_payment_webhook_once now i p) db) = Inr True"
    unfolding sql_accept_result by (simp add: sql_free_def insert_outbox_row_def)
next
  fix now i p db db'
  assume ok: "transactional (accept_payment_webhook_once now i p) db = (Inr True, db')"
  have no: "dict_get (mb_inbox db) i = None"
  proof (rule ccontr)
    assume "dict_get (mb_inbox db) i \<noteq> None"
    with ok show False unfolding sql_accept_result by (cases "sql_accepted db i") (auto split: if_splits)
  qed
  let ?row = "\<lparr> ob_id = i, ob_event_type = ''payment.webhook.accepted'', ob_payload = p, ob_legacy_processed_at = None,
    ob_created_at = now, ob_published_at = None \<rparr>"
  have outbox: "dict_get (t_outbox (mb_tables db)) i = None"
    and db': "db' = db \<lparr> mb_inbox := dict_set i \<lparr> ib_event_id = i, ib_event_type = ''payment.webhook'', ib_processed_at = now \<rparr>
        (mb_inbox db), mb_tables := mb_tables db \<lparr> t_outbox := dict_set i ?row (t_outbox (mb_tables db)) \<rparr> \<rparr>"
    using ok unfolding sql_accept_result no by (simp_all add: insert_outbox_row_def split: if_splits)
  have "sql_accepted db' j = ((sql_accepted db)(i \<mapsto> p)) j" for j
    by (cases "j = i") (simp_all add: sql_accepted_def db' cong: option.case_cong)
  then show "sql_accepted db i = None \<and> sql_accepted db' = (sql_accepted db)(i \<mapsto> p)"
    using no by (simp add: sql_accepted_def fun_eq_iff)
next
  fix db i q now p
  assume "sql_accepted db i = Some q"
  moreover from this obtain row where "dict_get (mb_inbox db) i = Some row"
    by (auto simp: sql_accepted_def split: option.splits)
  ultimately show "transactional (accept_payment_webhook_once now i p) db
      = (if same_object q p then Inr False else Inl (WebhookEventConflict ''event ID was reused with another payload''), db)"
    unfolding sql_accept_result by simp
next
  fix now i p db r db'
  assume "transactional (accept_payment_webhook_once now i p) db = (r, db')" "r \<noteq> Inr True"
  then show "db' = db"
    unfolding sql_accept_result
    by (cases "dict_get (mb_inbox db) i"; cases "sql_accepted db i") (auto simp: insert_outbox_row_def split: if_splits)
qed

section \<open>Accepted once\<close>

text \<open>
  C24. A payment event is accepted once, in the in-memory inbox and in the tables. Any answer but
  an error is given only to a genuine request: one whose signature is the HMAC of its own
  timestamp and body under the webhook secret, whose timestamp is fresh, and whose body is an
  envelope with the event id of the header. A genuine request for an event that is not stored
  is answered "accepted". After that, and after any other webhook requests, every request with
  that event id stores nothing: a genuine one with the same payload is answered "duplicate", a
  genuine one with another payload 409, and any other request an error.
\<close>

theorem webhook_accepted_once:
  "(in_memory_webhook settings validate ip now a rq s = (Inr ans, s') \<longrightarrow> (\<exists>e. genuine settings validate now rq e))
    \<and> (genuine settings validate now rq e \<and> map_of (fst s) (pe_id e) = None \<longrightarrow>
        fst (in_memory_webhook settings validate ip now a rq s) = Inr ''accepted'')
    \<and> (in_memory_webhook settings validate ip now a rq s = (Inr ''accepted'', s1)
        \<and> (webhook_step (\<lambda>now. inbox_accept))\<^sup>*\<^sup>* s1 s2 \<and> in_memory_webhook settings validate ip now2 a2 rq2 s2 = (r, s3)
        \<and> uuid_of_text (wr_event_id rq2) = uuid_of_text (wr_event_id rq) \<longrightarrow>
        (\<exists>e. genuine settings validate now rq e \<and> fst s3 = fst s2
          \<and> (if \<exists>e2. genuine settings validate now2 rq2 e2
                 \<and> same_object (durable_payload e (wr_body rq)) (durable_payload e2 (wr_body rq2))
             then r = Inr ''duplicate''
             else if \<exists>e2. genuine settings validate now2 rq2 e2
             then r = Inl (HTTPException 409 ''webhook event ID conflict'' [])
             else \<exists>x. r = Inl x)))
    \<and> (sql_webhook settings validate ip now a rq t = (Inr ans, t') \<longrightarrow> (\<exists>e. genuine settings validate now rq e))
    \<and> (genuine settings validate now rq e \<and> sql_free (fst t) (pe_id e) \<longrightarrow>
        fst (sql_webhook settings validate ip now a rq t) = Inr ''accepted'')
    \<and> (sql_webhook settings validate ip now a rq t = (Inr ''accepted'', t1)
        \<and> (webhook_step (\<lambda>now i p. transactional (accept_payment_webhook_once now i p)))\<^sup>*\<^sup>* t1 t2
        \<and> sql_webhook settings validate ip now2 a2 rq2 t2 = (q, t3)
        \<and> uuid_of_text (wr_event_id rq2) = uuid_of_text (wr_event_id rq) \<longrightarrow>
        (\<exists>e. genuine settings validate now rq e \<and> fst t3 = fst t2
          \<and> (if \<exists>e2. genuine settings validate now2 rq2 e2
                 \<and> same_object (durable_payload e (wr_body rq)) (durable_payload e2 (wr_body rq2))
             then q = Inr ''duplicate''
             else if \<exists>e2. genuine settings validate now2 rq2 e2
             then q = Inl (HTTPException 409 ''webhook event ID conflict'' [])
             else \<exists>x. q = Inl x)))"
  unfolding in_memory_webhook_def sql_webhook_def
  by (intro conjI impI; (elim conjE)?)
    (rule mem_webhook.answered_genuine mem_webhook.genuine_accepted mem_webhook.accepted_once
      sql_webhooks.answered_genuine sql_webhooks.genuine_accepted sql_webhooks.accepted_once; assumption)+

text \<open>A request signed under the secret "s" over the body "b".\<close>

definition sample_webhook :: webhook_request where
  "sample_webhook = \<lparr> wr_event_id = str_uuid 5, wr_timestamp = ''0'',
     wr_signature = hmac_sha256_hex ''s'' (signed_payload ''0'' ''b''), wr_content_length = Some ''1'',
     wr_content_type = Some ''application/json'', wr_body = ''b'', wr_client = \<lparr> hc_host = None, hc_correlation_id = '''' \<rparr> \<rparr>"

definition sample_webhook_settings :: webhook_settings where
  "sample_webhook_settings = \<lparr> ws_secret = ''s'', ws_max_bytes = 1024, ws_tolerance_seconds = 300 \<rparr>"

definition sample_envelope :: PaymentWebhookEnvelope where
  "sample_envelope = \<lparr> pe_id = 5, pe_type = ''payment.completed'', pe_data = \<lparr> pd_order_id = 6, pd_payment_id = ''x'' \<rparr> \<rparr>"

lemma hex_text_append: "hex_text (xs @ ys) = hex_text xs @ hex_text ys"
  by (simp add: hex_text_def)

lemma hex_fixed_bytes: "hex_fixed (2 * n) k = hex_text (map char_of (bytes_be n k))"
proof (induction n arbitrary: k)
  case (Suc n)
  have c: "code (char_of k) = k mod 256" by (simp add: code_def)
  have d: "k mod 256 div 16 mod 16 = k div 16 mod 16" "k mod 256 mod 16 = k mod 16"
    using mod_mult2_eq [of k 16 16] by simp_all
  show ?case using Suc [of "k div 256"] by (simp add: hex_text_append c d div_mult2_eq [symmetric])
qed simp

lemma hexdigest_digest: "sha256_hexdigest m = hex_text (sha256_digest m)"
proof -
  have "hex_fixed 8 (unat w) = hex_text (map char_of (bytes_be 4 (unat w)))" for w :: u32
    using hex_fixed_bytes [of 4 "unat w"] by simp
  then have "concat (map (\<lambda>w. hex_fixed 8 (unat w)) ws) = hex_text (concat (map (\<lambda>w. map char_of (bytes_be 4 (unat w))) ws))"
    for ws :: "u32 list"
    by (induction ws) (simp_all add: hex_text_append)
  then show ?thesis by (simp add: sha256_hexdigest_def sha256_digest_def)
qed

lemma length_sha256_digest [simp]: "length (sha256_digest m) = 32"
  using length_sha256_hexdigest [of m] by (simp add: hexdigest_digest)

text \<open>A signature written by the provider's side of the protocol is accepted.\<close>

lemma signed_request_verifies:
  "list_all (\<lambda>c. code c < 128) timestamp \<Longrightarrow>
   verify_webhook_signature payload (hmac_sha256_hex secret (signed_payload timestamp payload)) secret timestamp"
  by (auto simp: verify_webhook_signature_def hmac_sha256_hex_def hmac_sha256_def hexdigest_digest list_ex_iff list_all_iff)

lemma sample_webhook_event:
  "webhook_event sample_webhook_settings (\<lambda>b. Some sample_envelope) 0 sample_webhook
     = Inr (5, durable_payload sample_envelope ''b'')"
proof -
  have "verify_webhook_signature ''b'' (hmac_sha256_hex ''s'' (signed_payload ''0'' ''b'')) ''s'' ''0''"
    by (rule signed_request_verifies) (simp add: code_def)
  moreover have "py_int 10 ''0'' = Some 0" "py_int 10 ''1'' = Some 1" "media_type_of (Some ''application/json'') = ''application/json''"
    by code_simp+
  ultimately show ?thesis
    by (simp add: webhook_event_def sample_webhook_def sample_webhook_settings_def webhook_headers_valid_def
        declared_too_large_def timestamp_is_fresh_def sample_envelope_def)
qed

lemma sample_webhook_genuine:
  "genuine sample_webhook_settings (\<lambda>b. Some sample_envelope) 0 sample_webhook sample_envelope"
  using sample_webhook_event by (auto simp: webhook_event_genuine genuine_def)

theorem webhook_accepted_once_witness:
  "\<exists>s1. in_memory_webhook sample_webhook_settings (\<lambda>b. Some sample_envelope) (\<lambda>h. None) 0 1 sample_webhook ([], [])
       = (Inr ''accepted'', s1)
     \<and> (\<exists>s3. in_memory_webhook sample_webhook_settings (\<lambda>b. Some sample_envelope) (\<lambda>h. None) 0 2 sample_webhook s1
       = (Inr ''duplicate'', s3) \<and> fst s3 = fst s1)"
proof -
  let ?w = "in_memory_webhook sample_webhook_settings (\<lambda>b. Some sample_envelope) (\<lambda>h. None) 0"
  note once = webhook_accepted_once [of sample_webhook_settings "\<lambda>b. Some sample_envelope" "\<lambda>h. None" 0]
  have "fst (?w 1 sample_webhook ([], [])) = Inr ''accepted''"
    using once [of 1 sample_webhook "([], [])" _ _ sample_envelope] sample_webhook_genuine by simp
  then obtain s1 where a: "?w 1 sample_webhook ([], []) = (Inr ''accepted'', s1)" by (metis prod.collapse)
  obtain r s3 where b: "?w 2 sample_webhook s1 = (r, s3)" by (cases "?w 2 sample_webhook s1")
  obtain e where e: "genuine sample_webhook_settings (\<lambda>b. Some sample_envelope) 0 sample_webhook e" "fst s3 = fst s1"
    "if \<exists>e2. genuine sample_webhook_settings (\<lambda>b. Some sample_envelope) 0 sample_webhook e2
           \<and> same_object (durable_payload e (wr_body sample_webhook)) (durable_payload e2 (wr_body sample_webhook))
       then r = Inr ''duplicate''
       else if \<exists>e2. genuine sample_webhook_settings (\<lambda>b. Some sample_envelope) 0 sample_webhook e2
       then r = Inl (HTTPException 409 ''webhook event ID conflict'' [])
       else \<exists>x. r = Inl x"
    using once [THEN conjunct2, THEN conjunct2, THEN conjunct1, rule_format,
        of 1 sample_webhook "([], [])" s1 s1 0 2 sample_webhook r s3] a b by blast
  have "same_object (durable_payload e (wr_body sample_webhook)) (durable_payload e (wr_body sample_webhook))"
    by (simp add: same_object_def list_all_iff)
  with e(1,3) have "r = Inr ''duplicate''" by (auto split: if_splits)
  with a b e(2) show ?thesis by blast
qed

end
