(* ===== verification/Http_Contract.thy ===== *)
theory Http_Contract
  imports Order_Service Security
begin

text \<open>
  The edge of the HTTP API: the request and response models of \<open>schemas.py\<close> with their
  validators, the public error contract of \<open>error_contract.py\<close>, and the exception handlers of
  \<open>main.py\<close>. A rejected body or parameter is \<open>ValidationError\<close> (FastAPI's
  \<open>RequestValidationError\<close>); the items its \<open>errors()\<close> reports, which pydantic builds, are
  given by a function passed as argument.
\<close>

section \<open>Request models\<close>

text \<open>\<open>value.split()\<close>, then joined by single spaces.\<close>

fun words_of :: "string \<Rightarrow> string \<Rightarrow> string list" where
  "words_of acc [] = (if acc = '''' then [] else [acc])"
| "words_of acc (c # cs) =
     (if is_space c then (if acc = '''' then words_of '''' cs else acc # words_of '''' cs)
      else words_of (acc @ [c]) cs)"

definition normalize_address :: "string \<Rightarrow> string" where
  "normalize_address value = join '' '' (words_of '''' value)"

definition Address :: "string \<Rightarrow> bool" where
  "Address a \<longleftrightarrow> 5 \<le> length a \<and> length a \<le> 300"

definition WeightGrams :: "int \<Rightarrow> bool" where
  "WeightGrams w \<longleftrightarrow> 0 < w \<and> w \<le> 100000"

record OrderCreate =
  oc_customer_id' :: uuid
  oc_pickup_address' :: string
  oc_destination_address' :: string
  oc_weight_grams' :: int

definition invalid_request :: "'a result" where
  "invalid_request = Inl (ValidationError ''request'')"

definition validate_order_create :: "OrderCreate \<Rightarrow> OrderCreate result" where
  "validate_order_create raw =
     (let pickup = normalize_address (oc_pickup_address' raw);
          destination = normalize_address (oc_destination_address' raw)
      in if \<not> Address pickup \<or> \<not> Address destination \<or> \<not> WeightGrams (oc_weight_grams' raw) then invalid_request
         else if casefold pickup = casefold destination then invalid_request
         else Inr (raw \<lparr> oc_pickup_address' := pickup, oc_destination_address' := destination \<rparr>))"

record OrderUpdate =
  ou_pickup_address :: "string option"
  ou_destination_address :: "string option"
  ou_weight_grams :: "int option"

definition validate_order_update :: "OrderUpdate \<Rightarrow> OrderUpdate result" where
  "validate_order_update raw =
     (let pickup = map_option normalize_address (ou_pickup_address raw);
          destination = map_option normalize_address (ou_destination_address raw)
      in if pred_option Address pickup \<and> pred_option Address destination \<and> pred_option WeightGrams (ou_weight_grams raw)
         then Inr (raw \<lparr> ou_pickup_address := pickup, ou_destination_address := destination \<rparr>)
         else invalid_request)"

definition validate_delivery_window :: "datetime \<Rightarrow> datetime \<Rightarrow> (datetime \<times> datetime) result" where
  "validate_delivery_window starts_at ends_at =
     (let duration = ends_at - starts_at
      in if duration \<le> 0 then Inl (ValueError ''ends_at must be later than starts_at'')
         else if seconds (4 * 3600) < duration then Inl (ValueError ''delivery window must not exceed four hours'')
         else Inr (starts_at, ends_at))"

record TrackingUpdate =
  tu_client_event_id :: uuid
  tu_latitude :: real
  tu_longitude :: real
  tu_accuracy_meters :: "real option"

definition validate_tracking_update :: "TrackingUpdate \<Rightarrow> TrackingUpdate result" where
  "validate_tracking_update u =
     (if - 90 \<le> tu_latitude u \<and> tu_latitude u \<le> 90 \<and> - 180 \<le> tu_longitude u \<and> tu_longitude u \<le> 180
         \<and> pred_option (\<lambda>a. 0 < a \<and> a \<le> 1000) (tu_accuracy_meters u)
      then Inr u else invalid_request)"

text \<open>\<open>OrderRead.model_validate(order)\<close>: the public fields, without the tenant.\<close>

record OrderRead =
  or_id :: uuid
  or_customer_id :: uuid
  or_pickup_address :: string
  or_destination_address :: string
  or_weight_grams :: int
  or_status :: OrderStatus
  or_courier_id :: "uuid option"
  or_version :: int
  or_created_at :: datetime

definition order_read :: "DeliveryOrder \<Rightarrow> OrderRead" where
  "order_read x =
     \<lparr> or_id = o_id x, or_customer_id = o_customer_id x, or_pickup_address = o_pickup_address x,
       or_destination_address = o_destination_address x, or_weight_grams = o_weight_grams x, or_status = o_status x,
       or_courier_id = o_courier_id x, or_version = o_version x, or_created_at = o_created_at x \<rparr>"

section \<open>Public errors\<close>

record ErrorSpec =
  es_status_code :: int
  es_error_code :: string
  es_message :: string

definition error_spec :: "int \<Rightarrow> string \<Rightarrow> string \<Rightarrow> ErrorSpec" where
  "error_spec status error_code message = \<lparr> es_status_code = status, es_error_code = error_code, es_message = message \<rparr>"

definition REQUEST_INVALID :: ErrorSpec where
  "REQUEST_INVALID = error_spec 422 ''request_invalid'' ''Request validation failed''"

definition ORDER_NOT_FOUND :: ErrorSpec where
  "ORDER_NOT_FOUND = error_spec 404 ''order_not_found'' ''Order was not found''"

definition INVALID_PROOF :: ErrorSpec where
  "INVALID_PROOF = error_spec 415 ''invalid_proof'' ''Proof file is not supported''"

definition UPLOAD_TOO_LARGE :: ErrorSpec where
  "UPLOAD_TOO_LARGE = error_spec 413 ''payload_too_large'' ''Proof file exceeds the size limit''"

definition CONCURRENT_UPDATE :: ErrorSpec where
  "CONCURRENT_UPDATE = error_spec 409 ''concurrent_update'' ''Order was changed by another request''"

definition COURIER_ALREADY_BUSY :: ErrorSpec where
  "COURIER_ALREADY_BUSY = error_spec 409 ''courier_already_busy'' ''Courier already has an active assignment''"

definition IDEMPOTENCY_CONFLICT :: ErrorSpec where
  "IDEMPOTENCY_CONFLICT =
     error_spec 409 ''idempotency_conflict'' ''Idempotency-Key was already used for another request''"

definition INVALID_TRANSITION :: ErrorSpec where
  "INVALID_TRANSITION = error_spec 409 ''invalid_transition'' ''Order transition is not allowed''"

definition INTERNAL_ERROR :: ErrorSpec where
  "INTERNAL_ERROR = error_spec 500 ''internal_error'' ''The service could not complete the request''"

definition HTTP_ERROR_SPECS :: "(int \<times> ErrorSpec) list" where
  "HTTP_ERROR_SPECS =
     [(400, error_spec 400 ''request_invalid'' ''Request could not be understood''),
      (401, error_spec 401 ''authentication_required'' ''Authentication is required''),
      (403, error_spec 403 ''access_denied'' ''Access is denied''),
      (404, error_spec 404 ''resource_not_found'' ''Resource was not found''),
      (405, error_spec 405 ''method_not_allowed'' ''Method is not allowed for this resource''),
      (409, error_spec 409 ''request_conflict'' ''Request conflicts with current state''),
      (413, error_spec 413 ''payload_too_large'' ''Request payload is too large''),
      (429, error_spec 429 ''rate_limited'' ''Too many requests''),
      (503, error_spec 503 ''service_unavailable'' ''Service is temporarily unavailable'')]"

text \<open>One entry of \<open>details\<close> in the body.\<close>

record ErrorDetail =
  ed_location :: "json list"
  ed_type :: string
  ed_message :: string

record error_reply =
  er_status :: int
  er_content :: "(string \<times> string) list"
  er_details :: "ErrorDetail list"
  er_headers :: "(string \<times> string) list"

text \<open>
  \<open>current\<close> is the correlation id of the context, \<open>stored\<close> the one of \<open>request.state\<close>; the
  body is the three texts and the details.
\<close>

definition error_response ::
  "string \<Rightarrow> string \<Rightarrow> ErrorSpec \<Rightarrow> ErrorDetail list \<Rightarrow> (string \<times> string) list \<Rightarrow> error_reply" where
  "error_response current stored spec details headers =
     (let request_id = (if current \<noteq> '''' then current else stored)
      in \<lparr> er_status = es_status_code spec,
           er_content = [(''error_code'', es_error_code spec), (''message'', es_message spec), (''correlation_id'', request_id)],
           er_details = details, er_headers = dict_set ''X-Request-ID'' request_id headers \<rparr>)"

section \<open>Exception handlers\<close>

definition http_exception_spec :: "int \<Rightarrow> ErrorSpec" where
  "http_exception_spec status =
     (case dict_get HTTP_ERROR_SPECS status of
        Some spec \<Rightarrow> spec
      | None \<Rightarrow> error_spec status ''http_error'' ''Request could not be completed'')"

text \<open>
  One item of \<open>error.errors()\<close>: where the request was wrong, the kind of error, pydantic's
  message, the rejected input, and the context (the values of the constraint, or the exception
  a validator raised).
\<close>

record validation_item =
  vi_loc :: "json list"
  vi_type :: string
  vi_msg :: string
  vi_input :: json
  vi_ctx :: json_object

definition validation_details :: "validation_item list \<Rightarrow> ErrorDetail list" where
  "validation_details errors =
     map (\<lambda>item. \<lparr> ed_location = vi_loc item, ed_type = vi_type item, ed_message = vi_msg item \<rparr>) errors"

text \<open>
  The handler FastAPI selects for an exception class, as the arguments of \<open>error_response\<close>.
  \<open>errors\<close> is the method of \<open>RequestValidationError\<close> that reports its items.
\<close>

definition handler_of ::
  "(string \<Rightarrow> validation_item list) \<Rightarrow> exn \<Rightarrow> ErrorSpec \<times> ErrorDetail list \<times> (string \<times> string) list" where
  "handler_of errors e =
     (case e of
        ValidationError m \<Rightarrow> (REQUEST_INVALID, validation_details (errors m), [])
      | OrderNotFound _ \<Rightarrow> (ORDER_NOT_FOUND, [], [])
      | InvalidUpload _ \<Rightarrow> (INVALID_PROOF, [], [])
      | UploadTooLarge _ \<Rightarrow> (UPLOAD_TOO_LARGE, [], [])
      | ConcurrentUpdate _ \<Rightarrow> (CONCURRENT_UPDATE, [], [])
      | CourierAlreadyBusy _ \<Rightarrow> (COURIER_ALREADY_BUSY, [], [])
      | IdempotencyConflict _ \<Rightarrow> (IDEMPOTENCY_CONFLICT, [], [])
      | InvalidTransition _ _ \<Rightarrow> (INVALID_TRANSITION, [], [])
      | HTTPException status _ headers \<Rightarrow> (http_exception_spec status, [], headers)
      | _ \<Rightarrow> (INTERNAL_ERROR, [], []))"

definition exception_reply ::
  "string \<Rightarrow> string \<Rightarrow> (string \<Rightarrow> validation_item list) \<Rightarrow> exn \<Rightarrow> error_reply" where
  "exception_reply current stored errors e =
     (case handler_of errors e of (spec, ds, headers) \<Rightarrow> error_response current stored spec ds headers)"

end
