(* ===== verification/Proof_Storage.thy ===== *)
theory Proof_Storage
  imports Security
begin

text \<open>
  \<open>storage.py\<close>: inspection of an uploaded proof, the private object store, the metadata
  repositories in both adapters, and the signed links. Bytes are strings of characters with
  codes below 256. An \<open>UploadFile\<close> is its content with the read position and whether it has
  been closed; \<open>read(n)\<close> returns the next n bytes of the spooled file.
\<close>

section \<open>Proof objects\<close>

record StoredProof =
  sp_key :: string
  sp_tenant_id :: uuid
  sp_order_id :: uuid
  sp_media_type :: string
  sp_size :: int
  sp_sha256 :: string

record ValidatedProof =
  vp_metadata :: StoredProof
  vp_content :: string

record SignedProofLink =
  sl_url :: string
  sl_expires_at :: datetime

definition PNG_SIGNATURE :: string where
  "PNG_SIGNATURE = map char_of [0x89 :: nat, 0x50, 0x4E, 0x47, 0x0D, 0x0A, 0x1A, 0x0A]"

definition JPEG_SIGNATURE :: string where
  "JPEG_SIGNATURE = map char_of [0xFF :: nat, 0xD8, 0xFF]"

definition READ_CHUNK_SIZE :: nat where
  "READ_CHUNK_SIZE = 64 * 1024"

text \<open>\<open>PROOF_KEY.fullmatch\<close>.\<close>

definition lower_hex :: "char \<Rightarrow> bool" where
  "lower_hex c \<longleftrightarrow> 48 \<le> code c \<and> code c \<le> 57 \<or> 97 \<le> code c \<and> code c \<le> 102"

definition proof_key :: "string \<Rightarrow> bool" where
  "proof_key key \<longleftrightarrow>
     (let uuid_part = list_all (\<lambda>c. lower_hex c \<or> c = CHR ''-'')
      in length key = 149 \<and> take 7 key = ''proofs/'' \<and> uuid_part (take 36 (drop 7 key))
         \<and> key ! 43 = CHR ''/'' \<and> uuid_part (take 36 (drop 44 key)) \<and> key ! 80 = CHR ''/''
         \<and> list_all lower_hex (take 64 (drop 81 key)) \<and> drop 145 key \<in> {''.png'', ''.jpg''})"

section \<open>Inspection of an upload\<close>

definition detect_image :: "string \<Rightarrow> (string \<times> string) result" where
  "detect_image body =
     (if startswith body PNG_SIGNATURE then Inr (''image/png'', ''.png'')
      else if startswith body JPEG_SIGNATURE then Inr (''image/jpeg'', ''.jpg'')
      else Inl (InvalidUpload ''proof is not a supported PNG or JPEG image''))"

record UploadFile =
  uf_filename :: "string option"
  uf_unread :: string
  uf_closed :: bool

definition file_read :: "nat \<Rightarrow> UploadFile \<Rightarrow> string \<times> UploadFile" where
  "file_read n f = (take n (uf_unread f), f \<lparr> uf_unread := drop n (uf_unread f) \<rparr>)"

definition file_close :: "UploadFile \<Rightarrow> UploadFile" where
  "file_close f = f \<lparr> uf_closed := True \<rparr>"

function read_chunks :: "int \<Rightarrow> int \<Rightarrow> string list \<Rightarrow> UploadFile \<Rightarrow> (int \<times> string list) result \<times> UploadFile" where
  "read_chunks max_bytes sz chunks f =
     (case file_read READ_CHUNK_SIZE f of
        (chunk, f') \<Rightarrow>
          if chunk = '''' then (Inr (sz, chunks), f')
          else let sz' = sz + int (length chunk)
               in if max_bytes < sz' then (Inl (UploadTooLarge ''proof exceeds configured size limit''), f')
                  else read_chunks max_bytes sz' (chunks @ [chunk]) f')"
  by pat_completeness auto
termination
  by (relation "measure (\<lambda>(_, _, _, f). length (uf_unread f))") (auto simp: file_read_def READ_CHUNK_SIZE_def)

declare read_chunks.simps [simp del]

text \<open>
  \<open>PurePath(filename).suffix\<close>: the last component that is neither empty nor ".", from its last
  dot on, unless the dot is its first or its last character.
\<close>

definition split_on :: "char \<Rightarrow> string \<Rightarrow> string list" where
  "split_on sep s = foldr (\<lambda>c parts. if c = sep then '''' # parts else (c # hd parts) # tl parts) s [''''] "

definition path_name :: "string \<Rightarrow> string" where
  "path_name filename =
     (let parts = filter (\<lambda>p. p \<notin> {'''', ''.''}) (split_on (CHR ''/'') filename)
      in if parts = [] then '''' else last parts)"

definition path_suffix :: "string \<Rightarrow> string" where
  "path_suffix filename =
     (let name = path_name filename;
          tail = takeWhile (\<lambda>c. c \<noteq> CHR ''.'') (rev name)
      in if 0 < length tail \<and> length tail + 1 < length name then CHR ''.'' # rev tail else '''')"

definition inspect_proof ::
  "uuid \<Rightarrow> uuid \<Rightarrow> int \<Rightarrow> (UploadFile, ValidatedProof) action" where
  "inspect_proof tenant_id order_id max_bytes file =
     (case read_chunks max_bytes 0 [] file of
        (Inl e, f) \<Rightarrow> (Inl e, file_close f)
      | (Inr (sz, chunks), f) \<Rightarrow>
          (let body = concat chunks
           in thenR (detect_image body) (\<lambda>(media_type, suffix).
              let original_suffix = casefold (path_suffix (case uf_filename file of None \<Rightarrow> '''' | Some n \<Rightarrow> n));
                  expected_suffixes = (if suffix = ''.png'' then {''.png''} else {''.jpg'', ''.jpeg''})
              in if original_suffix \<noteq> '''' \<and> original_suffix \<notin> expected_suffixes
                 then Inl (InvalidUpload ''filename extension does not match detected image type'')
                 else let digest = sha256_hexdigest body
                      in Inr \<lparr> vp_metadata =
                           \<lparr> sp_key = ''proofs/'' @ str_uuid tenant_id @ ''/'' @ str_uuid order_id @ ''/'' @ digest @ suffix,
                             sp_tenant_id = tenant_id, sp_order_id = order_id, sp_media_type = media_type, sp_size = sz,
                             sp_sha256 = digest \<rparr>,
                           vp_content = body \<rparr>),
           file_close f))"

section \<open>Object store\<close>

type_synonym InMemoryProofStorage = "(string \<times> string \<times> string) list"

definition put_private :: "ValidatedProof \<Rightarrow> (InMemoryProofStorage, StoredProof) action" where
  "put_private proof objects =
     (Inr (vp_metadata proof),
      dict_set (sp_key (vp_metadata proof)) (vp_content proof, sp_media_type (vp_metadata proof)) objects)"

definition get_private :: "string \<Rightarrow> InMemoryProofStorage \<Rightarrow> (string \<times> string) option" where
  "get_private key objects = dict_get objects key"

section \<open>Metadata\<close>

type_synonym InMemoryProofMetadataRepository = "((uuid \<times> uuid \<times> string) \<times> StoredProof) list"

definition mem_proof_add :: "StoredProof \<Rightarrow> string \<Rightarrow> datetime \<Rightarrow> (InMemoryProofMetadataRepository, unit) action" where
  "mem_proof_add proof proof_kind created_at records =
     (Inr (), dict_set (sp_tenant_id proof, sp_order_id proof, sp_sha256 proof) proof records)"

definition mem_proof_find :: "uuid \<Rightarrow> uuid \<Rightarrow> string \<Rightarrow> InMemoryProofMetadataRepository \<Rightarrow> StoredProof option" where
  "mem_proof_find tenant_id order_id sha256 records = dict_get records (tenant_id, order_id, sha256)"

record ProofMetadataRow =
  pm_id :: uuid
  pm_tenant_id :: uuid
  pm_order_id :: uuid
  pm_object_key :: string
  pm_proof_kind :: string
  pm_media_type :: string
  pm_size_bytes :: int
  pm_sha256 :: string
  pm_created_at :: datetime

text \<open>The rows, and the ids of the orders the foreign key refers to.\<close>

record proof_tables =
  pt_orders :: "uuid list"
  pt_rows :: "ProofMetadataRow list"

definition proof_row_error :: "proof_tables \<Rightarrow> ProofMetadataRow \<Rightarrow> exn option" where
  "proof_row_error db r =
     (if 300 < length (pm_object_key r) \<or> 20 < length (pm_proof_kind r) \<or> 100 < length (pm_media_type r)
         \<or> 64 < length (pm_sha256 r) then Some (DBAPIError (Some ''22001''))
      else if pm_size_bytes r \<ge> 2 ^ 31 then Some (DBAPIError (Some ''22003''))
      else if pm_proof_kind r \<notin> {''pickup'', ''delivery''} then Some (IntegrityError ''ck_proof_metadata_kind'')
      else if pm_size_bytes r \<le> 0 then Some (IntegrityError ''ck_proof_metadata_size'')
      else if list_ex (\<lambda>x. pm_id x = pm_id r) (pt_rows db) then Some (IntegrityError ''proof_metadata_pkey'')
      else if list_ex (\<lambda>x. pm_object_key x = pm_object_key r) (pt_rows db)
      then Some (IntegrityError ''uq_proof_metadata_object_key'')
      else if list_ex (\<lambda>x. pm_tenant_id x = pm_tenant_id r \<and> pm_order_id x = pm_order_id r \<and> pm_sha256 x = pm_sha256 r)
                (pt_rows db)
      then Some (IntegrityError ''uq_proof_metadata_digest'')
      else if pm_order_id r \<notin> set (pt_orders db) then Some (IntegrityError ''fk_proof_metadata_order'')
      else None)"

definition sql_proof_add :: "uuid \<Rightarrow> StoredProof \<Rightarrow> string \<Rightarrow> datetime \<Rightarrow> (proof_tables, unit) action" where
  "sql_proof_add new_id proof proof_kind created_at db =
     (let row = \<lparr> pm_id = new_id, pm_tenant_id = sp_tenant_id proof, pm_order_id = sp_order_id proof,
                  pm_object_key = sp_key proof, pm_proof_kind = proof_kind, pm_media_type = sp_media_type proof,
                  pm_size_bytes = sp_size proof, pm_sha256 = sp_sha256 proof, pm_created_at = created_at \<rparr>
      in case proof_row_error db row of
           Some e \<Rightarrow> (Inl e, db)
         | None \<Rightarrow> (Inr (), db \<lparr> pt_rows := pt_rows db @ [row] \<rparr>))"

definition proof_of_row :: "ProofMetadataRow \<Rightarrow> StoredProof" where
  "proof_of_row row =
     \<lparr> sp_key = pm_object_key row, sp_tenant_id = pm_tenant_id row, sp_order_id = pm_order_id row,
       sp_media_type = pm_media_type row, sp_size = pm_size_bytes row, sp_sha256 = pm_sha256 row \<rparr>"

definition sql_proof_find :: "uuid \<Rightarrow> uuid \<Rightarrow> string \<Rightarrow> proof_tables \<Rightarrow> StoredProof option" where
  "sql_proof_find tenant_id order_id sha256 db =
     map_option proof_of_row
       (find (\<lambda>r. pm_tenant_id r = tenant_id \<and> pm_order_id r = order_id \<and> pm_sha256 r = sha256) (pt_rows db))"

section \<open>Signed links\<close>

record ProofLinkSigner =
  ls_secret :: string
  ls_max_ttl_seconds :: int
  ls_base_path :: string

definition link_signer :: "string \<Rightarrow> int \<Rightarrow> string \<Rightarrow> ProofLinkSigner result" where
  "link_signer secret max_ttl_seconds base_path =
     (if length secret < 32 then Inl (ValueError ''proof link secret must contain at least 32 bytes'')
      else if \<not> (1 \<le> max_ttl_seconds \<and> max_ttl_seconds \<le> 3600)
      then Inl (ValueError ''proof link max TTL must be between 1 and 3600 seconds'')
      else Inr \<lparr> ls_secret = secret, ls_max_ttl_seconds = max_ttl_seconds, ls_base_path = base_path \<rparr>)"

definition link_message :: "string \<Rightarrow> string \<Rightarrow> int \<Rightarrow> string" where
  "link_message operation key expires =
     ''delivery.proof.v1'' @ [CHR 0x0A] @ operation @ [CHR 0x0A] @ key @ [CHR 0x0A] @ dec_int expires"

text \<open>\<open>urllib.parse.quote_plus\<close> and \<open>urlencode\<close>.\<close>

definition upper_hex_digit :: "nat \<Rightarrow> char" where
  "upper_hex_digit d = (if d < 10 then char_of (48 + d) else char_of (55 + d))"

definition quote_char :: "char \<Rightarrow> string" where
  "quote_char c =
     (if 48 \<le> code c \<and> code c \<le> 57 \<or> 65 \<le> code c \<and> code c \<le> 90 \<or> 97 \<le> code c \<and> code c \<le> 122
         \<or> c \<in> set ''_.-~'' then [c]
      else if c = CHR '' '' then ''+''
      else [CHR ''%'', upper_hex_digit (code c div 16), upper_hex_digit (code c mod 16)])"

definition quote_plus :: "string \<Rightarrow> string" where
  "quote_plus s = concat (map quote_char s)"

definition urlencode :: "(string \<times> string) list \<Rightarrow> string" where
  "urlencode query = join ''&'' (map (\<lambda>(k, v). quote_plus k @ ''='' @ quote_plus v) query)"

text \<open>
  The way back, as a server reads a query: \<open>unquote_plus\<close> and \<open>parse_qsl\<close> of
  \<open>urllib.parse\<close> with \<open>keep_blank_values\<close>.
\<close>

fun unquote_plus :: "string \<Rightarrow> string" where
  "unquote_plus [] = []"
| "unquote_plus (c # cs) =
     (if c = CHR ''+'' then CHR '' '' # unquote_plus cs
      else if c = CHR ''%'' then
        (case cs of
           a # b # rest \<Rightarrow>
             (case (digit_val a, digit_val b) of
                (Some x, Some y) \<Rightarrow> char_of (16 * x + y) # unquote_plus rest
              | _ \<Rightarrow> c # unquote_plus cs)
         | _ \<Rightarrow> c # unquote_plus cs)
      else c # unquote_plus cs)"

definition parse_qsl :: "string \<Rightarrow> (string \<times> string) list" where
  "parse_qsl query =
     map (\<lambda>item. case partition_at (CHR ''='') item of (k, _, v) \<Rightarrow> (unquote_plus k, unquote_plus v))
       (filter (\<lambda>item. item \<noteq> []) (split_on (CHR ''&'') query))"

definition link_signature :: "ProofLinkSigner \<Rightarrow> string \<Rightarrow> int \<Rightarrow> string" where
  "link_signature signer key expires = hmac_sha256_hex (ls_secret signer) (link_message ''GET'' key expires)"

text \<open>\<open>int(expires_at.timestamp())\<close> of a time after 1970 drops the microseconds.\<close>

definition issue_get :: "ProofLinkSigner \<Rightarrow> string \<Rightarrow> datetime \<Rightarrow> int \<Rightarrow> SignedProofLink result" where
  "issue_get signer key now ttl_seconds =
     (if \<not> proof_key key then Inl (ValueError ''unsafe proof object key'')
      else if \<not> (1 \<le> ttl_seconds \<and> ttl_seconds \<le> ls_max_ttl_seconds signer)
      then Inl (ValueError ''proof link TTL exceeds policy'')
      else let expires_at = now + seconds ttl_seconds;
               expires = expires_at div 1000000
           in Inr \<lparr> sl_url = ls_base_path signer @ ''?'' @ urlencode [(''key'', key), (''expires'', dec_int expires),
                       (''signature'', link_signature signer key expires)],
                    sl_expires_at = expires_at \<rparr>)"

definition verify_get :: "ProofLinkSigner \<Rightarrow> string \<Rightarrow> int \<Rightarrow> string \<Rightarrow> datetime \<Rightarrow> unit result" where
  "verify_get signer key expires signature now =
     (let current = now div 1000000
      in if \<not> proof_key key then Inl (InvalidProofLink ''invalid proof key'')
         else if expires < current \<or> current + ls_max_ttl_seconds signer < expires
         then Inl (InvalidProofLink ''proof link expired or exceeds policy'')
         else if length signature \<noteq> 64 then Inl (InvalidProofLink ''invalid proof signature'')
         else if link_signature signer key expires \<noteq> signature then Inl (InvalidProofLink ''invalid proof signature'')
         else Inr ())"

section \<open>Encoded queries are read back\<close>

lemma set_dec_nat: "c \<in> set (dec_nat n) \<Longrightarrow> \<exists>d < 10. c = digit_char d"
proof (induction n rule: dec_nat.induct)
  case (1 n)
  show ?case
  proof (cases "n < 10")
    case True
    with 1(2) show ?thesis by (subst (asm) dec_nat.simps) auto
  next
    case False
    with 1 show ?thesis by (subst (asm) (2) dec_nat.simps) (auto intro: exI [of _ "n mod 10"])
  qed
qed

lemma py_int_dec: "0 \<le> i \<Longrightarrow> py_int 10 (dec_int i) = Some i"
proof -
  assume i: "0 \<le> i"
  let ?t = "dec_nat (nat i)"
  have v: "digits_value 10 True 0 ?t = Some (nat i)" by (rule dec_nat_value)
  have "?t \<noteq> []" by (subst dec_nat.simps) simp
  then obtain c cs where t: "?t = c # cs" by (cases ?t) auto
  have d: "\<exists>d < 16. x = digit_char d" if "x \<in> set ?t" for x
  proof -
    from set_dec_nat [OF that] obtain d where "d < 10" "x = digit_char d" by blast
    then show ?thesis by (intro exI [of _ d]) simp
  qed
  then have sp: "strip ?t = ?t" using digit_char_neq by (intro strip_none) blast
  have "c \<noteq> CHR ''_'' \<and> c \<noteq> CHR ''+'' \<and> c \<noteq> CHR ''-''" using d [of c] t digit_char_neq by fastforce
  with v t sp i show ?thesis by (simp add: dec_int_def py_int_def unsigned_value_def split: option.splits)
qed

lemma digit_val_upper: "d < 16 \<Longrightarrow> digit_val (upper_hex_digit d) = Some d"
  by (auto simp: digit_val_def upper_hex_digit_def code_def)

lemma unquote_quote_char: "unquote_plus (quote_char c @ r) = c # unquote_plus r"
proof -
  have c: "code c < 256" "char_of (16 * (code c div 16) + code c mod 16) = c"
    using nat_of_char_less_256 [of c] by (simp_all add: code_def)
  then have "digit_val (upper_hex_digit (code c div 16)) = Some (code c div 16)"
    "digit_val (upper_hex_digit (code c mod 16)) = Some (code c mod 16)"
    by (simp_all add: digit_val_upper)
  moreover have "c \<noteq> CHR ''+'' \<and> c \<noteq> CHR ''%''" if "quote_char c = [c]"
    using that by (auto simp: quote_char_def code_def split: if_splits)
  ultimately show ?thesis using c(2) by (auto simp: quote_char_def code_def)
qed

lemma unquote_quote [simp]: "unquote_plus (quote_plus s) = s"
proof -
  have "unquote_plus (concat (map quote_char s) @ r) = s @ unquote_plus r" for r
    by (induction s) (simp_all add: unquote_quote_char)
  from this [of "[]"] show ?thesis by (simp add: quote_plus_def)
qed

lemma quote_char_plain: "x \<in> set (quote_char c) \<Longrightarrow> x \<noteq> CHR ''&'' \<and> x \<noteq> CHR ''=''"
proof -
  have "upper_hex_digit d \<noteq> CHR ''&'' \<and> upper_hex_digit d \<noteq> CHR ''=''" if "d < 16" for d
    using that by (intro conjI neq_by_code) (auto simp: upper_hex_digit_def code_def)
  moreover have "code c div 16 < 16" "code c mod 16 < 16"
    using nat_of_char_less_256 [of c] by (simp_all add: code_def less_mult_imp_div_less)
  ultimately show "x \<in> set (quote_char c) \<Longrightarrow> x \<noteq> CHR ''&'' \<and> x \<noteq> CHR ''=''"
    by (auto simp: quote_char_def code_def split: if_splits)
qed

lemma quote_plus_plain: "CHR ''&'' \<notin> set (quote_plus s)" "CHR ''='' \<notin> set (quote_plus s)"
  using quote_char_plain by (auto simp: quote_plus_def)

lemma split_on_Cons:
  "sep \<notin> set x \<Longrightarrow> split_on sep (x @ sep # r) = x # split_on sep r"
  "sep \<notin> set x \<Longrightarrow> split_on sep x = [x]"
  by (induction x) (auto simp: split_on_def)

lemma parse_urlencode: "parse_qsl (urlencode ps) = ps"
proof -
  let ?item = "\<lambda>(k, v). quote_plus k @ ''='' @ quote_plus v"
  have plain: "CHR ''&'' \<notin> set (?item p)" for p using quote_plus_plain by (cases p) auto
  have "filter (\<lambda>item. item \<noteq> []) (split_on (CHR ''&'') (join ''&'' (map ?item ps))) = map ?item ps"
  proof (induction ps)
    case (Cons p ps)
    show ?case
    proof (cases ps)
      case Nil
      then show ?thesis using plain [of p] by (cases p) (auto simp: split_on_Cons)
    next
      case (Cons q qs)
      then have j: "join ''&'' (map ?item (p # ps)) = ?item p @ CHR ''&'' # join ''&'' (map ?item ps)" by simp
      show ?thesis unfolding j split_on_Cons(1) [OF plain] using Cons.IH by (cases p) simp
    qed
  qed (simp add: split_on_def)
  moreover have "(case partition_at (CHR ''='') (?item p) of (k, _, v) \<Rightarrow> (unquote_plus k, unquote_plus v)) = p" for p
    using partition_at_append [OF quote_plus_plain(2)] by (cases p) simp
  ultimately show ?thesis by (simp add: parse_qsl_def urlencode_def map_idI)
qed

section \<open>Reading an upload\<close>

lemma read_chunks_all:
  assumes "sz + int (length (uf_unread f)) \<le> max_bytes"
  shows "\<exists>chunks'. read_chunks max_bytes sz chunks f
    = (Inr (sz + int (length (uf_unread f)), chunks'), f \<lparr> uf_unread := '''' \<rparr>)
      \<and> concat chunks' = concat chunks @ uf_unread f"
  using assms
proof (induction max_bytes sz chunks f rule: read_chunks.induct)
  case (1 max_bytes sz chunks f)
  let ?n = READ_CHUNK_SIZE
  show ?case
  proof (cases "uf_unread f = ''''")
    case True
    then show ?thesis by (subst read_chunks.simps) (simp add: file_read_def READ_CHUNK_SIZE_def)
  next
    case False
    let ?c = "take ?n (uf_unread f)" and ?f = "f \<lparr> uf_unread := drop ?n (uf_unread f) \<rparr>"
    have ne: "?c \<noteq> ''''" using False by (simp add: READ_CHUNK_SIZE_def)
    have len: "int (length (uf_unread f)) = int (length ?c) + int (length (uf_unread ?f))" by simp
    then have fits: "\<not> max_bytes < sz + int (length ?c)" using 1(2) by linarith
    have step: "read_chunks max_bytes sz chunks f = read_chunks max_bytes (sz + int (length ?c)) (chunks @ [?c]) ?f"
      using ne fits by (subst read_chunks.simps) (simp add: file_read_def Let_def)
    have le: "sz + int (length ?c) + int (length (uf_unread ?f)) \<le> max_bytes" using 1(2) len by linarith
    obtain ch where "read_chunks max_bytes (sz + int (length ?c)) (chunks @ [?c]) ?f
        = (Inr (sz + int (length ?c) + int (length (uf_unread ?f)), ch), ?f \<lparr> uf_unread := '''' \<rparr>)"
      "concat ch = concat (chunks @ [?c]) @ uf_unread ?f"
      using 1(1) [OF _ ne refl fits le] by (auto simp: file_read_def)
    moreover have "sz + int (length ?c) + int (length (uf_unread ?f)) = sz + int (length (uf_unread f))" using len by linarith
    ultimately show ?thesis unfolding step by auto
  qed
qed

lemma read_chunks_too_large:
  assumes "max_bytes < sz + int (length (uf_unread f))" "sz \<le> max_bytes"
  shows "\<exists>f'. read_chunks max_bytes sz chunks f = (Inl (UploadTooLarge ''proof exceeds configured size limit''), f')
      \<and> int (length (uf_unread f)) - int (length (uf_unread f')) \<le> max_bytes - sz + int READ_CHUNK_SIZE
      \<and> uf_filename f' = uf_filename f"
  using assms
proof (induction max_bytes sz chunks f rule: read_chunks.induct)
  case (1 max_bytes sz chunks f)
  let ?n = READ_CHUNK_SIZE
  let ?c = "take ?n (uf_unread f)" and ?f = "f \<lparr> uf_unread := drop ?n (uf_unread f) \<rparr>"
  have "uf_unread f \<noteq> ''''" using 1(2,3) by auto
  then have ne: "?c \<noteq> ''''" by (simp add: READ_CHUNK_SIZE_def)
  have len: "int (length (uf_unread f)) = int (length ?c) + int (length (uf_unread ?f))" "int (length ?c) \<le> int ?n"
    by simp_all
  show ?case
  proof (cases "max_bytes < sz + int (length ?c)")
    case True
    then have "read_chunks max_bytes sz chunks f = (Inl (UploadTooLarge ''proof exceeds configured size limit''), ?f)"
      using ne by (subst read_chunks.simps) (simp add: file_read_def Let_def)
    moreover have "int (length (uf_unread f)) - int (length (uf_unread ?f)) \<le> max_bytes - sz + int ?n"
      using len 1(3) by linarith
    ultimately show ?thesis by auto
  next
    case False
    have step: "read_chunks max_bytes sz chunks f = read_chunks max_bytes (sz + int (length ?c)) (chunks @ [?c]) ?f"
      using ne False by (subst read_chunks.simps) (simp add: file_read_def Let_def)
    have lt: "max_bytes < sz + int (length ?c) + int (length (uf_unread ?f))" using 1(2) len by linarith
    obtain f' where "read_chunks max_bytes (sz + int (length ?c)) (chunks @ [?c]) ?f
        = (Inl (UploadTooLarge ''proof exceeds configured size limit''), f')"
      "int (length (uf_unread ?f)) - int (length (uf_unread f')) \<le> max_bytes - (sz + int (length ?c)) + int ?n"
      "uf_filename f' = uf_filename ?f"
      using 1(1) [OF _ ne refl False lt] False by (auto simp: file_read_def)
    moreover from this(2) have "int (length (uf_unread f)) - int (length (uf_unread f')) \<le> max_bytes - sz + int ?n"
      using len by linarith
    ultimately show ?thesis unfolding step by auto
  qed
qed

section \<open>Proof keys\<close>

lemma lower_hex_digit: "d < 16 \<Longrightarrow> lower_hex (digit_char d)"
  by (auto simp: lower_hex_def code_digit_char)

lemma uuid_part_str_uuid: "list_all (\<lambda>c. lower_hex c \<or> c = CHR ''-'') (str_uuid u)"
  unfolding list_all_iff using set_str_uuid [of _ u] lower_hex_digit by fastforce

lemma hex_part_digest: "list_all lower_hex (sha256_hexdigest m)"
  unfolding list_all_iff using set_sha256_hexdigest [of _ m] lower_hex_digit by fastforce

text \<open>Every key is its prefix, two parts of 36 characters, a digest and a suffix.\<close>

definition object_key :: "string \<Rightarrow> string \<Rightarrow> string \<Rightarrow> string \<Rightarrow> string" where
  "object_key t i digest suffix = ''proofs/'' @ t @ ''/'' @ i @ ''/'' @ digest @ suffix"

lemma object_key_proof_key:
  assumes "length t = 36" "length i = 36" "length digest = 64" "suffix \<in> {''.png'', ''.jpg''}"
    "list_all (\<lambda>c. lower_hex c \<or> c = CHR ''-'') t" "list_all (\<lambda>c. lower_hex c \<or> c = CHR ''-'') i" "list_all lower_hex digest"
  shows "proof_key (object_key t i digest suffix)"
  using assms by (auto simp: proof_key_def object_key_def Let_def nth_append nth_Cons')

lemma inspected_key: "suffix \<in> {''.png'', ''.jpg''} \<Longrightarrow> proof_key (object_key (str_uuid t) (str_uuid i) (sha256_hexdigest m) suffix)"
  by (rule object_key_proof_key) (simp_all add: uuid_part_str_uuid hex_part_digest)

lemma object_key_inject:
  assumes "length t = 36" "length t' = 36" "length i = 36" "length i' = 36" "length d = 64" "length d' = 64"
  shows "object_key t i d s = object_key t' i' d' s' \<longleftrightarrow> t = t' \<and> i = i' \<and> d = d' \<and> s = s'"
  using assms by (auto simp: object_key_def)

section \<open>What an inspected proof is\<close>

definition faithful_proof :: "uuid \<Rightarrow> uuid \<Rightarrow> int \<Rightarrow> string \<Rightarrow> ValidatedProof \<Rightarrow> bool" where
  "faithful_proof tenant_id order_id max_bytes body v \<longleftrightarrow>
     vp_content v = body \<and> sp_size (vp_metadata v) = int (length body) \<and> sp_size (vp_metadata v) \<le> max_bytes
     \<and> sp_sha256 (vp_metadata v) = sha256_hexdigest body
     \<and> sp_tenant_id (vp_metadata v) = tenant_id \<and> sp_order_id (vp_metadata v) = order_id
     \<and> (\<exists>suffix. (sp_media_type (vp_metadata v), suffix) \<in> {(''image/png'', ''.png''), (''image/jpeg'', ''.jpg'')}
          \<and> startswith body (if suffix = ''.png'' then PNG_SIGNATURE else JPEG_SIGNATURE)
          \<and> sp_key (vp_metadata v) = object_key (str_uuid tenant_id) (str_uuid order_id) (sp_sha256 (vp_metadata v)) suffix)
     \<and> proof_key (sp_key (vp_metadata v))"

lemma inspect_proof_faithful:
  assumes "inspect_proof tenant_id order_id max_bytes file = (r, file')" "0 \<le> max_bytes"
  shows "uf_closed file'
    \<and> int (length (uf_unread file)) - int (length (uf_unread file')) \<le> max_bytes + int READ_CHUNK_SIZE
    \<and> (max_bytes < int (length (uf_unread file)) \<longrightarrow> r = Inl (UploadTooLarge ''proof exceeds configured size limit''))
    \<and> (\<forall>v. r = Inr v \<longrightarrow> faithful_proof tenant_id order_id max_bytes (uf_unread file) v)"
proof (cases "max_bytes < int (length (uf_unread file))")
  case True
  obtain f' where "read_chunks max_bytes 0 [] file = (Inl (UploadTooLarge ''proof exceeds configured size limit''), f')"
    "int (length (uf_unread file)) - int (length (uf_unread f')) \<le> max_bytes + int READ_CHUNK_SIZE"
    using read_chunks_too_large [where max_bytes = max_bytes and sz = 0 and f = "file" and chunks = "[]"] True assms(2) by auto
  with True assms(1) show ?thesis by (auto simp: inspect_proof_def file_close_def)
next
  case False
  obtain ch where ch: "read_chunks max_bytes 0 [] file = (Inr (int (length (uf_unread file)), ch), file \<lparr> uf_unread := '''' \<rparr>)"
    "concat ch = uf_unread file"
    using read_chunks_all [where max_bytes = max_bytes and sz = 0 and f = "file" and chunks = "[]"] False by auto
  show ?thesis
  proof (cases "detect_image (uf_unread file)")
    case (Inl e)
    with ch assms(1) False show ?thesis by (auto simp: inspect_proof_def file_close_def)
  next
    case (Inr m)
    obtain media suffix where m: "m = (media, suffix)" by fastforce
    with Inr have k: "(media, suffix) \<in> {(''image/png'', ''.png''), (''image/jpeg'', ''.jpg'')}"
      "startswith (uf_unread file) (if suffix = ''.png'' then PNG_SIGNATURE else JPEG_SIGNATURE)"
      by (auto simp: detect_image_def split: if_splits)
    then have "suffix \<in> {''.png'', ''.jpg''}" by auto
    note key = inspected_key [OF this, of tenant_id order_id "uf_unread file"]
    from ch assms(1) Inr m have file': "file' = file_close (file \<lparr> uf_unread := '''' \<rparr>)"
      and r: "r = Inl (InvalidUpload ''filename extension does not match detected image type'')
        \<or> r = Inr \<lparr> vp_metadata = \<lparr> sp_key = object_key (str_uuid tenant_id) (str_uuid order_id) (sha256_hexdigest (uf_unread file)) suffix,
             sp_tenant_id = tenant_id, sp_order_id = order_id, sp_media_type = media, sp_size = int (length (uf_unread file)),
             sp_sha256 = sha256_hexdigest (uf_unread file) \<rparr>, vp_content = uf_unread file \<rparr>"
      by (auto simp: inspect_proof_def Let_def object_key_def split: if_splits)
    have "faithful_proof tenant_id order_id max_bytes (uf_unread file) v" if "r = Inr v" for v
    proof -
      have v: "v = \<lparr> vp_metadata = \<lparr> sp_key = object_key (str_uuid tenant_id) (str_uuid order_id) (sha256_hexdigest (uf_unread file)) suffix,
             sp_tenant_id = tenant_id, sp_order_id = order_id, sp_media_type = media, sp_size = int (length (uf_unread file)),
             sp_sha256 = sha256_hexdigest (uf_unread file) \<rparr>, vp_content = uf_unread file \<rparr>"
        using r that by simp
      show ?thesis
        unfolding faithful_proof_def v using False
        by (intro conjI exI [of _ suffix]; simp only: ValidatedProof.simps StoredProof.simps k key not_less)
    qed
    then show ?thesis using False assms(2) unfolding file' by (simp add: file_close_def)
  qed
qed

text \<open>
  Inspection of an upload: the file is closed on every path and at most the limit and one
  chunk are read; a body over the limit is refused as too large; an accepted proof carries
  the whole body within the limit, its SHA-256, a media type that agrees with the signature
  of the body, and a well-formed key that determines tenant, order and digest.
\<close>

theorem inspect_proof_contract:
  assumes "inspect_proof tenant_id order_id max_bytes file = (r, file')" "0 \<le> max_bytes"
  shows "uf_closed file'
    \<and> int (length (uf_unread file)) - int (length (uf_unread file')) \<le> max_bytes + int READ_CHUNK_SIZE
    \<and> (max_bytes < int (length (uf_unread file)) \<longrightarrow> r = Inl (UploadTooLarge ''proof exceeds configured size limit''))
    \<and> (\<forall>v. r = Inr v \<longrightarrow> faithful_proof tenant_id order_id max_bytes (uf_unread file) v)"
  using inspect_proof_faithful [OF assms] .

definition sample_upload :: UploadFile where
  "sample_upload = \<lparr> uf_filename = Some ''photo.JPG'', uf_unread = JPEG_SIGNATURE, uf_closed = False \<rparr>"

lemma sample_upload_inspected: "\<exists>v file'. inspect_proof t i 1024 sample_upload = (Inr v, file')"
proof -
  obtain ch where ch: "read_chunks 1024 0 [] sample_upload = (Inr (3, ch), sample_upload \<lparr> uf_unread := '''' \<rparr>)"
    "concat ch = JPEG_SIGNATURE"
    using read_chunks_all [where max_bytes = 1024 and sz = 0 and f = sample_upload and chunks = "[]"]
    by (auto simp: sample_upload_def JPEG_SIGNATURE_def)
  have "detect_image JPEG_SIGNATURE = Inr (''image/jpeg'', ''.jpg'')"
    by (simp add: detect_image_def startswith_def JPEG_SIGNATURE_def PNG_SIGNATURE_def)
  moreover have "casefold (path_suffix ''photo.JPG'') = ''.jpg''"
    by code_simp
  ultimately show ?thesis
    using ch by (auto simp: inspect_proof_def Let_def sample_upload_def)
qed

theorem inspect_proof_contract_witness:
  "\<exists>v file'. inspect_proof 1 2 1024 sample_upload = (Inr v, file') \<and> uf_closed file'
     \<and> faithful_proof 1 2 1024 JPEG_SIGNATURE v"
proof -
  obtain v file' where i: "inspect_proof 1 2 1024 sample_upload = (Inr v, file')" using sample_upload_inspected by blast
  with inspect_proof_contract [OF i] show ?thesis by (auto simp: sample_upload_def)
qed

section \<open>The contract of the metadata repositories\<close>

locale proof_metadata =
  fixes add :: "StoredProof \<Rightarrow> string \<Rightarrow> datetime \<Rightarrow> ('s, unit) action"
    and lookup :: "uuid \<Rightarrow> uuid \<Rightarrow> string \<Rightarrow> 's \<Rightarrow> StoredProof option"
  assumes add_lookup: "add pr kind ts s = (Inr (), s') \<Longrightarrow>
      lookup t i h s' = (if (t, i, h) = (sp_tenant_id pr, sp_order_id pr, sp_sha256 pr) then Some pr
        else lookup t i h s)"
    and add_failed: "add pr kind ts s = (Inl e, s') \<Longrightarrow> s' = s"

interpretation mem_proofs: proof_metadata mem_proof_add mem_proof_find
  by unfold_locales (auto simp: mem_proof_add_def mem_proof_find_def)

lemma find_snoc: "find P (xs @ [x]) = (case find P xs of Some y \<Rightarrow> Some y | None \<Rightarrow> if P x then Some x else None)"
  by (induction xs) simp_all

interpretation sql_proofs: proof_metadata "sql_proof_add new_id" sql_proof_find
proof
  fix pr kind ts db db' t i h
  assume ok: "sql_proof_add new_id pr kind ts db = (Inr (), db')"
  define row where "row = \<lparr> pm_id = new_id, pm_tenant_id = sp_tenant_id pr, pm_order_id = sp_order_id pr,
    pm_object_key = sp_key pr, pm_proof_kind = kind, pm_media_type = sp_media_type pr,
    pm_size_bytes = sp_size pr, pm_sha256 = sp_sha256 pr, pm_created_at = ts \<rparr>"
  from ok have none: "proof_row_error db row = None" and db': "db' = db \<lparr> pt_rows := pt_rows db @ [row] \<rparr>"
    unfolding sql_proof_add_def row_def [symmetric] by (auto split: option.splits)
  from none have new: "\<not> list_ex (\<lambda>x. pm_tenant_id x = sp_tenant_id pr \<and> pm_order_id x = sp_order_id pr
      \<and> pm_sha256 x = sp_sha256 pr) (pt_rows db)"
    unfolding proof_row_error_def row_def by (auto split: if_splits)
  have row: "proof_of_row row = pr" by (simp add: proof_of_row_def row_def)
  have "find (\<lambda>r. pm_tenant_id r = t \<and> pm_order_id r = i \<and> pm_sha256 r = h) (pt_rows db) = None"
    if "(t, i, h) = (sp_tenant_id pr, sp_order_id pr, sp_sha256 pr)"
    using new that by (auto simp: find_None_iff list_ex_iff)
  then show "sql_proof_find t i h db' = (if (t, i, h) = (sp_tenant_id pr, sp_order_id pr, sp_sha256 pr)
      then Some pr else sql_proof_find t i h db)"
    using row unfolding sql_proof_find_def db' by (auto simp: find_snoc row_def split: option.splits)
next
  fix pr kind ts db e db'
  assume "sql_proof_add new_id pr kind ts db = (Inl e, db')"
  then show "db' = db" by (auto simp: sql_proof_add_def Let_def split: option.splits)
qed

section \<open>Signed links\<close>

lemma link_message_inject:
  assumes "proof_key key" "proof_key key2"
  shows "link_message ''GET'' key e = link_message ''GET'' key2 e2 \<longleftrightarrow> key = key2 \<and> e = e2"
proof -
  have "length key = 149" "length key2 = 149" using assms by (simp_all add: proof_key_def Let_def)
  then show ?thesis by (auto simp: link_message_def)
qed

lemma issued_link:
  assumes "issue_get signer key now ttl_seconds = Inr link" "expires = sl_expires_at link div 1000000"
  shows "proof_key key" "sl_expires_at link = now + seconds ttl_seconds"
    "verify_get signer key expires (link_signature signer key expires) t = Inr () \<longleftrightarrow>
       t div 1000000 \<le> expires \<and> expires \<le> t div 1000000 + ls_max_ttl_seconds signer"
    "now \<le> t \<Longrightarrow> t \<le> sl_expires_at link \<Longrightarrow>
       verify_get signer key expires (link_signature signer key expires) t = Inr ()"
proof -
  show key: "proof_key key" and at: "sl_expires_at link = now + seconds ttl_seconds"
    using assms by (auto simp: issue_get_def Let_def split: if_splits)
  have ttl: "1 \<le> ttl_seconds" "ttl_seconds \<le> ls_max_ttl_seconds signer"
    using assms by (auto simp: issue_get_def Let_def split: if_splits)
  have ex: "expires = now div 1000000 + ttl_seconds" unfolding assms(2) at by simp
  have len: "length (link_signature signer k e) = 64" for k e by (simp add: link_signature_def)
  show accept: "verify_get signer key expires (link_signature signer key expires) t = Inr () \<longleftrightarrow>
      t div 1000000 \<le> expires \<and> expires \<le> t div 1000000 + ls_max_ttl_seconds signer"
    using key len by (auto simp: verify_get_def Let_def)
  assume "now \<le> t" "t \<le> sl_expires_at link"
  then have "now div 1000000 \<le> t div 1000000" "t div 1000000 \<le> expires"
    unfolding assms(2) by (auto intro: zdiv_mono1)
  then show "verify_get signer key expires (link_signature signer key expires) t = Inr ()"
    unfolding accept using ex ttl by linarith
qed

text \<open>
  C27. A signed link is a capability for one object and one deadline: the signature issued for a
  key is accepted from its issue until the second of its expiry, never later and never for a
  deadline further away than the policy allows; with another key or another deadline it is
  accepted only if the HMAC collides on two messages that differ.
\<close>

theorem proof_link_capability:
  assumes "issue_get signer key now ttl_seconds = Inr link" "expires = sl_expires_at link div 1000000"
    "signature = link_signature signer key expires"
  shows "sl_url link = ls_base_path signer @ ''?'' @ urlencode [(''key'', key), (''expires'', dec_int expires), (''signature'', signature)]
    \<and> (\<forall>t. now \<le> t \<and> t \<le> sl_expires_at link \<longrightarrow> verify_get signer key expires signature t = Inr ())
    \<and> (\<forall>t. verify_get signer key expires signature t = Inr () \<longleftrightarrow>
         t div 1000000 \<le> expires \<and> expires \<le> t div 1000000 + ls_max_ttl_seconds signer)
    \<and> (\<forall>key2 expires2 t. verify_get signer key2 expires2 signature t = Inr () \<and> (key2, expires2) \<noteq> (key, expires) \<longrightarrow>
         link_message ''GET'' key2 expires2 \<noteq> link_message ''GET'' key expires
         \<and> hmac_sha256_hex (ls_secret signer) (link_message ''GET'' key2 expires2)
             = hmac_sha256_hex (ls_secret signer) (link_message ''GET'' key expires))"
proof -
  have key: "proof_key key" by (rule issued_link [OF assms(1,2)])
  have url: "sl_url link = ls_base_path signer @ ''?'' @ urlencode [(''key'', key), (''expires'', dec_int expires), (''signature'', signature)]"
    using assms by (auto simp: issue_get_def Let_def split: if_splits)
  have other: "link_message ''GET'' key2 expires2 \<noteq> link_message ''GET'' key expires
      \<and> hmac_sha256_hex (ls_secret signer) (link_message ''GET'' key2 expires2)
          = hmac_sha256_hex (ls_secret signer) (link_message ''GET'' key expires)"
    if "verify_get signer key2 expires2 signature t = Inr ()" "(key2, expires2) \<noteq> (key, expires)" for key2 expires2 t
  proof -
    from that(1) have "proof_key key2" "link_signature signer key2 expires2 = signature"
      by (auto simp: verify_get_def Let_def split: if_splits)
    with that(2) key show ?thesis by (auto simp: link_message_inject assms(3) link_signature_def)
  qed
  show ?thesis using url issued_link(3,4) [OF assms(1,2)] other unfolding assms(3) by blast
qed

definition sample_signer :: ProofLinkSigner where
  "sample_signer = \<lparr> ls_secret = ''0123456789abcdef0123456789abcdef'', ls_max_ttl_seconds = 900,
     ls_base_path = ''/api/v1/proof-objects'' \<rparr>"

theorem proof_link_capability_witness:
  "\<exists>link. issue_get sample_signer (object_key (str_uuid 1) (str_uuid 2) (sha256_hexdigest ''b'') ''.png'') 0 300 = Inr link
     \<and> verify_get sample_signer (object_key (str_uuid 1) (str_uuid 2) (sha256_hexdigest ''b'') ''.png'') 300
         (link_signature sample_signer (object_key (str_uuid 1) (str_uuid 2) (sha256_hexdigest ''b'') ''.png'') 300) 1000000 = Inr ()"
proof -
  let ?key = "object_key (str_uuid 1) (str_uuid 2) (sha256_hexdigest ''b'') ''.png''"
  have "proof_key ?key" by (rule inspected_key) simp
  then obtain link where link: "issue_get sample_signer ?key 0 300 = Inr link" "sl_expires_at link = 300000000"
    by (auto simp: issue_get_def Let_def sample_signer_def)
  from proof_link_capability [OF link(1) refl refl] link show ?thesis by simp
qed

end
