(* ===== verification/Http_Api.thy ===== *)
theory Http_Api
  imports Http_Contract Auth_Api Proof_Storage Tracking_Live
begin

text \<open>
  The order, proof, export and tracking endpoints of \<open>main.py\<close>. A handler takes the actor that
  \<open>current_actor\<close> has established (\<open>authenticated\<close>) and acts on the stores it is given:
  the order repository behind its port, the proof objects and metadata, the tracking
  snapshots, and the live hub. Path, query and header constraints are checked first and
  rejected as \<open>ValidationError\<close>. Background tasks are returned and run after the response.
\<close>

definition authenticated :: "auth_config \<Rightarrow> datetime \<Rightarrow> auth_request \<Rightarrow> (Actor \<Rightarrow> ('s, 'a) action) \<Rightarrow> ('s, 'a) action" where
  "authenticated cfg now request handler =
     andThen (lift_result (current_actor (ac_jwt cfg) (ac_settings cfg) now request)) handler"

definition access_denied :: exn where
  "access_denied = HTTPException 403 ''order access denied'' []"

definition owned_order :: "'s OrderRepository \<Rightarrow> Actor \<Rightarrow> uuid \<Rightarrow> ('s, DeliveryOrder) action" where
  "owned_order repo actor order_id =
     andThen (service_get repo order_id) (\<lambda>order.
     if \<not> owns_order actor (o_customer_id order) (o_courier_id order) (o_tenant_id order) then raise access_denied
     else ret order)"

section \<open>Orders\<close>

text \<open>The pattern of \<open>Idempotency-Key\<close>: \<open>^[A-Za-z0-9._:-]+$\<close>, 8 to 128 characters.\<close>

definition idempotency_key_valid :: "string \<Rightarrow> bool" where
  "idempotency_key_valid key \<longleftrightarrow> 8 \<le> length key \<and> length key \<le> 128
     \<and> list_all (\<lambda>c. 48 \<le> code c \<and> code c \<le> 57 \<or> 65 \<le> code c \<and> code c \<le> 90 \<or> 97 \<le> code c \<and> code c \<le> 122
          \<or> c \<in> set ''._:-'') key"

definition create_order ::
  "'s OrderRepository \<Rightarrow> draws \<Rightarrow> OrderCreate \<Rightarrow> string \<Rightarrow> Actor \<Rightarrow> ('s, OrderRead answer) action" where
  "create_order repo d raw idempotency_key actor =
     andThen (lift_result (validate_order_create raw)) (\<lambda>command.
     andThen (check (idempotency_key_valid idempotency_key) (ValidationError ''request'')) (\<lambda>_.
     if a_role actor \<noteq> CUSTOMER \<or> a_user_id actor \<noteq> oc_customer_id' command
     then raise (HTTPException 403 ''cannot create an order for another customer'' [])
     else andThen (service_create repo d
            \<lparr> cc_customer_id = oc_customer_id' command, cc_pickup_address = oc_pickup_address' command,
              cc_destination_address = oc_destination_address' command, cc_weight_grams = oc_weight_grams' command \<rparr>
            (Some idempotency_key) (a_tenant_id actor)) (\<lambda>order.
          ret (order_read order, [(''Location'', ''/api/v1/orders/'' @ str_uuid (o_id order))]))))"

definition get_order :: "'s OrderRepository \<Rightarrow> uuid \<Rightarrow> Actor \<Rightarrow> ('s, OrderRead) action" where
  "get_order repo order_id actor =
     andThen (owned_order repo actor order_id) (\<lambda>order. ret (order_read order))"

definition update_order ::
  "'s OrderRepository \<Rightarrow> uuid \<Rightarrow> OrderUpdate \<Rightarrow> int \<Rightarrow> Actor \<Rightarrow> ('s, OrderRead) action" where
  "update_order repo order_id raw expected_version actor =
     andThen (lift_result (validate_order_update raw)) (\<lambda>command.
     andThen (check (1 \<le> expected_version) (ValidationError ''request'')) (\<lambda>_.
     andThen (owned_order repo actor order_id) (\<lambda>_.
     andThen (service_update repo order_id
       \<lparr> uc_pickup_address = ou_pickup_address command, uc_destination_address = ou_destination_address command,
         uc_weight_grams = ou_weight_grams command \<rparr> expected_version) (\<lambda>order.
     ret (order_read order)))))"

definition transition_order ::
  "'s OrderRepository \<Rightarrow> draws \<Rightarrow> uuid \<Rightarrow> OrderStatus \<Rightarrow> int \<Rightarrow> string \<Rightarrow> Actor \<Rightarrow> ('s, OrderRead) action" where
  "transition_order repo d order_id target expected_version correlation_id actor =
     andThen (check (1 \<le> expected_version) (ValidationError ''request'')) (\<lambda>_.
     andThen (owned_order repo actor order_id) (\<lambda>current.
     if a_role actor = CUSTOMER \<and> (a_user_id actor \<noteq> o_customer_id current \<or> target \<noteq> CANCELLED)
     then raise (HTTPException 403 ''customer may only cancel an own order'' [])
     else andThen (service_transition repo d order_id
            \<lparr> tc_target = target, tc_expected_version = expected_version, tc_actor_id = a_user_id actor,
              tc_actor_role = role_value (a_role actor), tc_correlation_id = correlation_id \<rparr>) (\<lambda>order.
          ret (order_read order))))"

text \<open>None is the 204 answer.\<close>

definition claim_next_order ::
  "'s OrderRepository \<Rightarrow> draws \<Rightarrow> string \<Rightarrow> Actor \<Rightarrow> ('s, OrderRead option) action" where
  "claim_next_order repo d correlation_id actor =
     (if a_role actor \<noteq> COURIER then raise (HTTPException 403 ''only couriers may claim orders'' [])
      else andThen (service_claim_next repo d (a_user_id actor) (a_tenant_id actor) correlation_id) (\<lambda>claimed.
           ret (map_option order_read claimed)))"

definition list_query_valid :: "int \<Rightarrow> int \<Rightarrow> string \<Rightarrow> string option \<Rightarrow> bool" where
  "list_query_valid limit offset sort_by status_filter \<longleftrightarrow>
     1 \<le> limit \<and> limit \<le> 100 \<and> 0 \<le> offset \<and> sort_by \<in> {''created_at'', ''status''}
     \<and> pred_option (\<lambda>s. s \<in> {''created'', ''assigned'', ''picked_up'', ''delivered'', ''cancelled''}) status_filter"

definition list_orders ::
  "'s OrderRepository \<Rightarrow> int \<Rightarrow> int \<Rightarrow> string \<Rightarrow> string option \<Rightarrow> Actor \<Rightarrow> ('s, OrderRead list) action" where
  "list_orders repo limit offset sort_by status_filter actor =
     andThen (check (list_query_valid limit offset sort_by status_filter) (ValidationError ''request'')) (\<lambda>_.
     andThen (service_list_visible repo (role_value (a_role actor)) (a_user_id actor) limit offset sort_by status_filter
                (a_tenant_id actor)) (\<lambda>orders.
     ret (map order_read orders)))"

definition export_order :: "'s OrderRepository \<Rightarrow> uuid \<Rightarrow> Actor \<Rightarrow> ('s, string list answer) action" where
  "export_order repo order_id actor =
     andThen (owned_order repo actor order_id) (\<lambda>order.
     ret ([''order_id,status'' @ [newline], str_uuid order_id @ '','' @ status_value (o_status order) @ [newline]],
          [(''Content-Disposition'', ''attachment; filename='' @ [CHR 0x22] @ ''order-'' @ str_uuid order_id @ ''.csv'' @ [CHR 0x22])]))"

section \<open>Preview projection\<close>

type_synonym PreviewCache = "(uuid \<times> int) list"

definition preview_rebuild :: "uuid \<Rightarrow> int \<Rightarrow> PreviewCache \<Rightarrow> PreviewCache" where
  "preview_rebuild order_id version values = dict_set order_id version values"

definition version_for :: "uuid \<Rightarrow> PreviewCache \<Rightarrow> int option" where
  "version_for order_id values = dict_get values order_id"

definition preview_clear :: "PreviewCache \<Rightarrow> PreviewCache" where
  "preview_clear values = []"

text \<open>The answer with the arguments of the scheduled \<open>preview_cache.rebuild\<close>.\<close>

definition rebuild_order_preview :: "'s OrderRepository \<Rightarrow> uuid \<Rightarrow> Actor \<Rightarrow> ('s, string \<times> (uuid \<times> int)) action" where
  "rebuild_order_preview repo order_id actor =
     andThen (owned_order repo actor order_id) (\<lambda>order. ret (''accepted'', (o_id order, o_version order)))"

section \<open>Proofs\<close>

record ('s, 'm) proof_state =
  pr_orders :: 's
  pr_objects :: InMemoryProofStorage
  pr_metadata :: 'm

record 'm ProofMetadataRepository =
  pmr_add :: "StoredProof \<Rightarrow> string \<Rightarrow> datetime \<Rightarrow> ('m, unit) action"
  pmr_find :: "uuid \<Rightarrow> uuid \<Rightarrow> string \<Rightarrow> 'm \<Rightarrow> StoredProof option"

definition in_memory_proofs :: "InMemoryProofMetadataRepository ProofMetadataRepository" where
  "in_memory_proofs = \<lparr> pmr_add = mem_proof_add, pmr_find = mem_proof_find \<rparr>"

definition sql_proof_metadata :: "uuid \<Rightarrow> proof_tables ProofMetadataRepository" where
  "sql_proof_metadata new_id = \<lparr> pmr_add = sql_proof_add new_id, pmr_find = sql_proof_find \<rparr>"

definition on_orders :: "('s, 'a) action \<Rightarrow> (('s, 'm) proof_state, 'a) action" where
  "on_orders m s = (case m (pr_orders s) of (r, x) \<Rightarrow> (r, s \<lparr> pr_orders := x \<rparr>))"

definition on_objects :: "(InMemoryProofStorage, 'a) action \<Rightarrow> (('s, 'm) proof_state, 'a) action" where
  "on_objects m s = (case m (pr_objects s) of (r, x) \<Rightarrow> (r, s \<lparr> pr_objects := x \<rparr>))"

definition on_metadata :: "('m, 'a) action \<Rightarrow> (('s, 'm) proof_state, 'a) action" where
  "on_metadata m s = (case m (pr_metadata s) of (r, x) \<Rightarrow> (r, s \<lparr> pr_metadata := x \<rparr>))"

record proof_settings =
  ps_max_upload_bytes :: int
  ps_link_ttl_seconds :: int
  ps_signer :: ProofLinkSigner

record proof_answer =
  pa_proof :: StoredProof
  pa_kind :: string
  pa_download_url :: string
  pa_download_expires_at :: string

definition upload_proof ::
  "proof_settings \<Rightarrow> 's OrderRepository \<Rightarrow> 'm ProofMetadataRepository \<Rightarrow> datetime \<Rightarrow> uuid \<Rightarrow> UploadFile \<Rightarrow> string \<Rightarrow> Actor
   \<Rightarrow> (('s, 'm) proof_state, proof_answer answer) action" where
  "upload_proof st repo meta now order_id file proof_kind actor =
     andThen (check (proof_kind \<in> {''pickup'', ''delivery''}) (ValidationError ''request'')) (\<lambda>_.
     andThen (on_orders (owned_order repo actor order_id)) (\<lambda>order.
     andThen (lift_result (fst (inspect_proof (a_tenant_id actor) order_id (ps_max_upload_bytes st) file))) (\<lambda>validated.
     andThen (on_objects (put_private validated)) (\<lambda>pr.
     andThen (on_metadata (pmr_add meta pr proof_kind now)) (\<lambda>_.
     andThen (lift_result (issue_get (ps_signer st) (sp_key pr) now (ps_link_ttl_seconds st))) (\<lambda>signed.
     ret (\<lparr> pa_proof = pr, pa_kind = proof_kind, pa_download_url = sl_url signed,
            pa_download_expires_at = isoformat (sl_expires_at signed) \<rparr>,
          [(''Location'', ''/api/v1/orders/'' @ str_uuid order_id @ ''/proofs/'' @ sp_sha256 pr)])))))))"

text \<open>A file answer: content, media type and headers.\<close>

type_synonym file_answer = "string \<times> string \<times> (string \<times> string) list"

definition attachment :: "string \<Rightarrow> string \<Rightarrow> (string \<times> string) list" where
  "attachment digest media_type =
     [(''Content-Disposition'', ''attachment; filename='' @ [CHR 0x22] @ ''proof-'' @ take 12 digest
         @ (if media_type = ''image/png'' then ''.png'' else ''.jpg'') @ [CHR 0x22]),
      (''X-Content-Type-Options'', ''nosniff''), (''Cache-Control'', ''private, no-store'')]"

definition download_proof ::
  "'s OrderRepository \<Rightarrow> 'm ProofMetadataRepository \<Rightarrow> uuid \<Rightarrow> string \<Rightarrow> Actor \<Rightarrow> (('s, 'm) proof_state, file_answer) action" where
  "download_proof repo meta order_id sha256 actor =
     andThen (on_orders (owned_order repo actor order_id)) (\<lambda>_ s.
     (case pmr_find meta (a_tenant_id actor) order_id sha256 (pr_metadata s) of
        None \<Rightarrow> raise (HTTPException 404 ''proof not found'' [])
      | Some pr \<Rightarrow>
          (case get_private (sp_key pr) (pr_objects s) of
             None \<Rightarrow> raise (HTTPException 404 ''proof object not found'' [])
           | Some (content, media_type) \<Rightarrow>
               if media_type \<noteq> sp_media_type pr then raise (HTTPException 500 ''proof metadata mismatch'' [])
               else ret (content, sp_media_type pr, attachment sha256 (sp_media_type pr)))) s)"

definition key_digest :: "string \<Rightarrow> string" where
  "key_digest key = fst (partition_at (CHR ''.'') (last (split_on (CHR ''/'') key)))"

definition presigned_query_valid :: "string \<Rightarrow> int \<Rightarrow> string \<Rightarrow> bool" where
  "presigned_query_valid key expires signature \<longleftrightarrow>
     1 \<le> length key \<and> length key \<le> 300 \<and> 0 < expires \<and> length signature = 64 \<and> list_all lower_hex signature"

definition download_presigned_proof ::
  "ProofLinkSigner \<Rightarrow> datetime \<Rightarrow> string \<Rightarrow> int \<Rightarrow> string \<Rightarrow> (InMemoryProofStorage, file_answer) action" where
  "download_presigned_proof signer now key expires signature objects =
     (if \<not> presigned_query_valid key expires signature then (Inl (ValidationError ''request''), objects)
      else (case verify_get signer key expires signature now of
              Inl _ \<Rightarrow> (Inl (HTTPException 403 ''invalid or expired proof link'' []), objects)
            | Inr _ \<Rightarrow>
                (case get_private key objects of
                   None \<Rightarrow> (Inl (HTTPException 404 ''proof object not found'' []), objects)
                 | Some (content, media_type) \<Rightarrow>
                     (Inr (content, media_type, attachment (key_digest key) media_type), objects))))"

text \<open>
  A GET of a link: the path selects the endpoint, the last value of each query parameter is
  read, and \<open>expires\<close> as an integer.
\<close>

definition get_proof_link :: "ProofLinkSigner \<Rightarrow> datetime \<Rightarrow> string \<Rightarrow> (InMemoryProofStorage, file_answer) action" where
  "get_proof_link signer now url objects =
     (case partition_at (CHR 0x3F) url of
        (path, _, query) \<Rightarrow>
          if path \<noteq> ''/api/v1/proof-objects'' then (Inl (HTTPException 404 ''Not Found'' []), objects)
          else let params = rev (parse_qsl query)
               in (case (dict_get params ''key'', Option.bind (dict_get params ''expires'') (py_int 10),
                         dict_get params ''signature'') of
                     (Some key, Some expires, Some signature) \<Rightarrow>
                       download_presigned_proof signer now key expires signature objects
                   | _ \<Rightarrow> (Inl (ValidationError ''request''), objects)))"

section \<open>Tracking\<close>

record 't TrackingSnapshotRepository =
  tsr_get :: "uuid \<Rightarrow> 't \<Rightarrow> TrackingSnapshot option"
  tsr_record :: "uuid \<Rightarrow> uuid \<Rightarrow> string \<Rightarrow> real \<Rightarrow> real \<Rightarrow> uuid \<Rightarrow> datetime \<Rightarrow> ('t, TrackingSnapshot \<times> bool) action"

definition in_memory_tracking :: "InMemoryTrackingSnapshotRepository TrackingSnapshotRepository" where
  "in_memory_tracking = \<lparr> tsr_get = mem_tracking_get, tsr_record = mem_tracking_record \<rparr>"

definition sql_tracking_snapshots :: "tracking_tables TrackingSnapshotRepository" where
  "sql_tracking_snapshots = \<lparr> tsr_get = sql_tracking_get, tsr_record = sql_tracking_record \<rparr>"

record TrackingRead =
  tv_order_id :: uuid
  tv_sequence :: int
  tv_latitude :: real
  tv_longitude :: real
  tv_status :: string
  tv_recorded_at :: datetime

text \<open>The answer, with the event the background task publishes when the position is new.\<close>

definition record_tracking_position ::
  "'s OrderRepository \<Rightarrow> 't TrackingSnapshotRepository \<Rightarrow> datetime \<Rightarrow> uuid \<Rightarrow> TrackingUpdate \<Rightarrow> Actor
   \<Rightarrow> ('s \<times> 't, TrackingRead \<times> TrackingEvent option) action" where
  "record_tracking_position repo trk now order_id raw actor s =
     (case validate_tracking_update raw of
        Inl e \<Rightarrow> (Inl e, s)
      | Inr update \<Rightarrow>
          (case service_get repo order_id (fst s) of
             (Inl e, x) \<Rightarrow> (Inl e, (x, snd s))
           | (Inr order, x) \<Rightarrow>
               if a_role actor \<noteq> COURIER \<or> a_tenant_id actor \<noteq> o_tenant_id order
                  \<or> Some (a_user_id actor) \<noteq> o_courier_id order
               then (Inl (HTTPException 403 ''tracking access denied'' []), (x, snd s))
               else if o_status order \<notin> {ASSIGNED, PICKED_UP}
               then (Inl (HTTPException 409 ''tracking is not active for this order'' []), (x, snd s))
               else (case tsr_record trk (o_id order) (o_tenant_id order) (status_value (o_status order))
                            (tu_latitude update) (tu_longitude update) (tu_client_event_id update) now (snd s) of
                       (Inl (ValueError _), t) \<Rightarrow> (Inl (HTTPException 409 ''tracking event conflict'' []), (x, t))
                     | (Inl e, t) \<Rightarrow> (Inl e, (x, t))
                     | (Inr (snapshot, changed), t) \<Rightarrow>
                         (Inr (\<lparr> tv_order_id = ts_order_id snapshot, tv_sequence = ts_sequence snapshot,
                                 tv_latitude = ts_latitude snapshot, tv_longitude = ts_longitude snapshot,
                                 tv_status = ts_status snapshot, tv_recorded_at = ts_recorded_at snapshot \<rparr>,
                               if changed then Some (snapshot_event snapshot) else None), (x, t)))))"

definition initial_event :: "DeliveryOrder \<Rightarrow> uuid \<Rightarrow> TrackingSnapshot option \<Rightarrow> TrackingEvent" where
  "initial_event order order_id current =
     (case current of
        Some snapshot \<Rightarrow> snapshot_event snapshot
      | None \<Rightarrow> \<lparr> te_order_id = order_id, te_status = status_value (o_status order), te_sequence = 0,
                 te_latitude = None, te_longitude = None, te_recorded_at = None \<rparr>)"

text \<open>The snapshot and the last sequence that \<open>order_event_stream\<close> is started with.\<close>

definition sse_tracking ::
  "'s OrderRepository \<Rightarrow> 't TrackingSnapshotRepository \<Rightarrow> uuid \<Rightarrow> string option \<Rightarrow> Actor
   \<Rightarrow> ('s \<times> 't, TrackingEvent \<times> int) action" where
  "sse_tracking repo trk order_id last_event_id actor s =
     (case owned_order repo actor order_id (fst s) of
        (Inl e, x) \<Rightarrow> (Inl e, (x, snd s))
      | (Inr order, x) \<Rightarrow>
          (let raw_position = (case last_event_id of None \<Rightarrow> ''0'' | Some p \<Rightarrow> p);
               last_sequence = (if isdecimal raw_position then (case py_int 10 raw_position of Some n \<Rightarrow> n | None \<Rightarrow> 0) else 0)
           in (Inr (initial_event order (o_id order) (tsr_get trk (o_id order) (snd s)), last_sequence), (x, snd s))))"

section \<open>The WebSocket\<close>

definition websocket_bearer_protocol :: "string option \<Rightarrow> (string \<times> string) option" where
  "websocket_bearer_protocol header =
     (let offered = map strip (split_on (CHR '','') (case header of None \<Rightarrow> '''' | Some h \<Rightarrow> h))
      in case find (\<lambda>item. startswith item ''bearer.'') offered of
           None \<Rightarrow> None
         | Some protocol \<Rightarrow> if length protocol \<le> 7 then None else Some (drop 7 protocol, protocol))"

datatype ws_answer = WsClose int | WsAccept string json_object nat

text \<open>
  The decision of the WebSocket handler: the close code, or the accepted protocol, the initial
  message and the queue that is then forwarded. The orders are those of the module's
  in-memory \<open>repository\<close> in both modes; the snapshot comes from the configured store.
\<close>

definition ws_tracking ::
  "auth_config \<Rightarrow> datetime \<Rightarrow> InMemoryOrderRepository \<Rightarrow> (uuid \<Rightarrow> TrackingSnapshot option) \<Rightarrow> string option \<Rightarrow> uuid
   \<Rightarrow> (TrackingHub, ws_answer) action" where
  "ws_tracking cfg now repository load_tracking_snapshot header order_id hub =
     (case websocket_bearer_protocol header of
        None \<Rightarrow> (Inr (WsClose 4401), hub)
      | Some (token, selected_protocol) \<Rightarrow>
          (case thenR (decode_token (ac_jwt cfg) (ac_settings cfg) now ''access'' token) actor_from_claims of
             Inl (HTTPException _ _ _) \<Rightarrow> (Inr (WsClose 4401), hub)
           | Inl e \<Rightarrow> (Inl e, hub)
           | Inr actor \<Rightarrow>
               (case fst (service_get in_memory_repository order_id repository) of
                  Inl (OrderNotFound _) \<Rightarrow> (Inr (WsClose 4404), hub)
                | Inl e \<Rightarrow> (Inl e, hub)
                | Inr order \<Rightarrow>
                    if \<not> owns_order actor (o_customer_id order) (o_courier_id order) (o_tenant_id order)
                    then (Inr (WsClose 4403), hub)
                    else (case hub_subscribe order_id hub of
                            (queue, hub1) \<Rightarrow>
                              (Inr (WsAccept selected_protocol
                                 (tracking_payload (initial_event order order_id (load_tracking_snapshot order_id))) queue),
                               hub1)))))"

section \<open>The tracking bus\<close>

definition TRACKING_CHANNEL :: string where
  "TRACKING_CHANNEL = ''delivery.tracking.position''"

text \<open>\<open>bus\<close> is what the service has published to Redis, as channel and text.\<close>

definition publish_tracking_event ::
  "(real \<Rightarrow> string) \<Rightarrow> bool \<Rightarrow> TrackingEvent \<Rightarrow> (TrackingHub \<times> (string \<times> string) list, unit) action" where
  "publish_tracking_event float_repr use_in_memory event s =
     (if use_in_memory then (case hub_publish event (fst s) of (r, h) \<Rightarrow> (r, (h, snd s)))
      else (Inr (), (fst s, snd s @ [(TRACKING_CHANNEL, json_dumps float_repr (JObj (tracking_payload event)))])))"

text \<open>One message of \<open>subscriber.listen()\<close>; \<open>loads\<close> is \<open>json.loads\<close>, None where it raises.\<close>

definition consume_bus_message ::
  "(string \<Rightarrow> json_object option) \<Rightarrow> (string \<Rightarrow> real option) \<Rightarrow> string \<Rightarrow> string \<Rightarrow> (TrackingHub, unit) action" where
  "consume_bus_message loads float_of_text message_type raw hub =
     (if message_type \<noteq> ''message'' then (Inr (), hub)
      else (case loads raw of
              None \<Rightarrow> (Inl (ValueError ''JSONDecodeError''), hub)
            | Some payload \<Rightarrow>
                (case event_from_payload float_of_text payload of
                   Inl e \<Rightarrow> (Inl e, hub)
                 | Inr event \<Rightarrow> hub_publish event hub)))"

end
