(* ===== verification/Http_Properties.thy ===== *)
theory Http_Properties
  imports Http_Api
begin

text \<open>
  What the HTTP endpoints guarantee: access to an order is checked before anything is read or
  written, an uploaded proof is downloaded as it was sent, every error has the public form,
  the request models admit only what the domain accepts, and the WebSocket does not open in
  SQL mode.
\<close>

section \<open>Access\<close>

lemma owned_order_denied:
  assumes "service_get repo i s = (Inr c, s)" "\<not> can_access_order actor (o_tenant_id c) (o_customer_id c) (o_courier_id c)"
  shows "owned_order repo actor i s = (Inl access_denied, s)"
  using assms by (simp add: owned_order_def andThen_def owns_order_def raise_def)

lemma owned_order_Inr:
  assumes "owned_order repo actor i s = (Inr c, s')"
  shows "service_get repo i s = (Inr c, s') \<and> can_access_order actor (o_tenant_id c) (o_customer_id c) (o_courier_id c)"
  using assms by (auto simp: owned_order_def owns_order_def split: if_splits)

text \<open>
  C25. Access to an order is guarded: for an actor that may not access the stored order, in
  particular any actor of another tenant, reading, exporting, previewing, updating, moving,
  tracking it and uploading or downloading its proofs is answered 403 and changes nothing.
  A customer moves an order only to cancelled, creates orders only as themselves, and only
  couriers claim; these requests too are answered 403 with nothing changed.
\<close>

theorem order_endpoints_guarded:
  assumes "service_get repo i s = (Inr c, s)" "1 \<le> v" "validate_order_update ou = Inr ou'" "kind \<in> {''pickup'', ''delivery''}"
    "validate_tracking_update tu = Inr tu'" "validate_order_create oc = Inr oc'" "idempotency_key_valid key"
    "p = \<lparr> pr_orders = s, pr_objects = objs, pr_metadata = m \<rparr>"
  shows "(\<not> can_access_order actor (o_tenant_id c) (o_customer_id c) (o_courier_id c) \<longrightarrow>
        get_order repo i actor s = (Inl access_denied, s) \<and> export_order repo i actor s = (Inl access_denied, s)
        \<and> rebuild_order_preview repo i actor s = (Inl access_denied, s)
        \<and> update_order repo i ou v actor s = (Inl access_denied, s)
        \<and> transition_order repo d i target v cid actor s = (Inl access_denied, s)
        \<and> upload_proof st repo meta now i f kind actor p = (Inl access_denied, p)
        \<and> download_proof repo meta i sha actor p = (Inl access_denied, p)
        \<and> sse_tracking repo trk i pos actor (s, t) = (Inl access_denied, (s, t))
        \<and> record_tracking_position repo trk now i tu actor (s, t) = (Inl (HTTPException 403 ''tracking access denied'' []), (s, t)))
    \<and> (a_tenant_id actor \<noteq> o_tenant_id c \<longrightarrow> \<not> can_access_order actor (o_tenant_id c) (o_customer_id c) (o_courier_id c))
    \<and> (a_role actor = CUSTOMER \<and> target \<noteq> CANCELLED \<longrightarrow>
        (\<exists>e. transition_order repo d i target v cid actor s = (Inl e, s) \<and> (\<exists>text. e = HTTPException 403 text [])))
    \<and> (a_role actor \<noteq> CUSTOMER \<or> a_user_id actor \<noteq> oc_customer_id' oc' \<longrightarrow>
        create_order repo d oc key actor s = (Inl (HTTPException 403 ''cannot create an order for another customer'' []), s))
    \<and> (a_role actor \<noteq> COURIER \<longrightarrow>
        claim_next_order repo d cid actor s = (Inl (HTTPException 403 ''only couriers may claim orders'' []), s))"
proof (intro conjI impI)
  assume no: "\<not> can_access_order actor (o_tenant_id c) (o_customer_id c) (o_courier_id c)"
  note denied = owned_order_denied [OF assms(1) no]
  show "get_order repo i actor s = (Inl access_denied, s)" by (simp add: get_order_def andThen_def denied)
  show "export_order repo i actor s = (Inl access_denied, s)" by (simp add: export_order_def andThen_def denied)
  show "rebuild_order_preview repo i actor s = (Inl access_denied, s)"
    by (simp add: rebuild_order_preview_def andThen_def denied)
  show "update_order repo i ou v actor s = (Inl access_denied, s)"
    using assms(2,3) by (simp add: update_order_def andThen_def denied lift_result_def check_def)
  show "transition_order repo d i target v cid actor s = (Inl access_denied, s)"
    using assms(2) by (simp add: transition_order_def andThen_def denied check_def)
  show "upload_proof st repo meta now i f kind actor p = (Inl access_denied, p)"
    using assms(4,8) by (simp add: upload_proof_def andThen_def denied on_orders_def check_def)
  show "download_proof repo meta i sha actor p = (Inl access_denied, p)"
    using assms(8) by (simp add: download_proof_def andThen_def denied on_orders_def)
  show "sse_tracking repo trk i pos actor (s, t) = (Inl access_denied, (s, t))" by (simp add: sse_tracking_def denied)
  show "record_tracking_position repo trk now i tu actor (s, t) = (Inl (HTTPException 403 ''tracking access denied'' []), (s, t))"
    using no assms(1,5) by (cases "a_role actor") (auto simp: record_tracking_position_def can_access_order_def split: if_splits)
next
  assume "a_role actor = CUSTOMER \<and> target \<noteq> CANCELLED"
  then show "\<exists>e. transition_order repo d i target v cid actor s = (Inl e, s) \<and> (\<exists>text. e = HTTPException 403 text [])"
    using assms(1,2)
    by (simp add: transition_order_def andThen_def owned_order_def check_def raise_def ret_def access_denied_def)
next
  assume "a_role actor \<noteq> CUSTOMER \<or> a_user_id actor \<noteq> oc_customer_id' oc'"
  then show "create_order repo d oc key actor s = (Inl (HTTPException 403 ''cannot create an order for another customer'' []), s)"
    using assms(6,7) by (simp add: create_order_def andThen_def lift_result_def check_def raise_def)
qed (simp_all add: can_access_order_def claim_next_order_def raise_def)

definition sample_stored :: DeliveryOrder where
  "sample_stored = \<lparr> o_id = 5, o_tenant_id = 1, o_customer_id = 7, o_pickup_address = ''Main street 1'',
     o_destination_address = ''Side street 2'', o_weight_grams = 750, o_status = CREATED, o_courier_id = None, o_version = 1,
     o_created_at = 0 \<rparr>"

definition sample_orders :: InMemoryOrderRepository where
  "sample_orders = empty_store \<lparr> orders := [(5, sample_stored)] \<rparr>"

definition sample_create :: OrderCreate where
  "sample_create = \<lparr> oc_customer_id' = 7, oc_pickup_address' = ''Main  street 1'', oc_destination_address' = ''Side street 2'',
     oc_weight_grams' = 750 \<rparr>"

lemma sample_get: "service_get in_memory_repository 5 sample_orders = (Inr sample_stored, sample_orders)"
  by (simp add: service_get_def andThen_def mem_get_def sample_orders_def ret_def)

theorem order_endpoints_guarded_witness:
  "get_order in_memory_repository 5 \<lparr> a_user_id = 7, a_role = DISPATCHER, a_tenant_id = 2 \<rparr> sample_orders
     = (Inl access_denied, sample_orders)"
proof -
  let ?actor = "\<lparr> a_user_id = 7, a_role = DISPATCHER, a_tenant_id = 2 \<rparr>"
  let ?ou = "\<lparr> ou_pickup_address = None, ou_destination_address = None, ou_weight_grams = None \<rparr>"
  let ?tu = "\<lparr> tu_client_event_id = 1, tu_latitude = 0, tu_longitude = 0, tu_accuracy_meters = None \<rparr>"
  have oc: "validate_order_create sample_create = Inr (sample_create \<lparr> oc_pickup_address' := ''Main street 1'' \<rparr>)"
    by (simp add: validate_order_create_def sample_create_def normalize_address_def is_space_def code_def Address_def
        WeightGrams_def casefold_def lower_def Let_def)
  have key: "idempotency_key_valid ''key-0001''" by (simp add: idempotency_key_valid_def code_def)
  have ou: "validate_order_update ?ou = Inr ?ou" by (simp add: validate_order_update_def Let_def)
  have tu: "validate_tracking_update ?tu = Inr ?tu" by (simp add: validate_tracking_update_def)
  have no: "\<not> can_access_order ?actor (o_tenant_id sample_stored) (o_customer_id sample_stored) (o_courier_id sample_stored)"
    by (simp add: can_access_order_def sample_stored_def)
  have small: "(1 :: int) \<le> 1" "''pickup'' \<in> {''pickup'', ''delivery''}" by simp_all
  show ?thesis
    by (rule order_endpoints_guarded [OF sample_get small(1) ou small(2) tu oc key refl, THEN conjunct1, THEN mp, OF no,
          THEN conjunct1])
qed

section \<open>Uploaded and downloaded\<close>

definition repo_of :: "(StoredProof \<Rightarrow> string \<Rightarrow> datetime \<Rightarrow> ('m, unit) action) \<Rightarrow> (uuid \<Rightarrow> uuid \<Rightarrow> string \<Rightarrow> 'm \<Rightarrow> StoredProof option)
   \<Rightarrow> 'm ProofMetadataRepository" where
  "repo_of add lookup = \<lparr> pmr_add = add, pmr_find = lookup \<rparr>"

lemma inspect_proof_Inr:
  assumes "fst (inspect_proof t i mx f) = Inr v" "0 \<le> mx"
  shows "faithful_proof t i mx (uf_unread f) v"
  using inspect_proof_faithful [of t i mx f] assms by (metis prod.collapse)

lemma on_part_Inr:
  "on_orders m s = (Inr a, s') \<longleftrightarrow> (\<exists>x. m (pr_orders s) = (Inr a, x) \<and> s' = s \<lparr> pr_orders := x \<rparr>)"
  "on_objects n s = (Inr b, s') \<longleftrightarrow> (\<exists>x. n (pr_objects s) = (Inr b, x) \<and> s' = s \<lparr> pr_objects := x \<rparr>)"
  "on_metadata k s = (Inr c, s') \<longleftrightarrow> (\<exists>x. k (pr_metadata s) = (Inr c, x) \<and> s' = s \<lparr> pr_metadata := x \<rparr>)"
  by (auto simp: on_orders_def on_objects_def on_metadata_def split: prod.splits)

lemma upload_proof_steps:
  assumes "upload_proof st repo meta now i f kind actor s = (Inr (ans, hs), s')"
  obtains c x v m link where
    "owned_order repo actor i (pr_orders s) = (Inr c, x)"
    "fst (inspect_proof (a_tenant_id actor) i (ps_max_upload_bytes st) f) = Inr v"
    "pmr_add meta (vp_metadata v) kind now (pr_metadata s) = (Inr (), m)"
    "issue_get (ps_signer st) (sp_key (vp_metadata v)) now (ps_link_ttl_seconds st) = Inr link"
    "pa_proof ans = vp_metadata v" "pa_download_url ans = sl_url link"
    "s' = \<lparr> pr_orders = x, pr_objects = dict_set (sp_key (vp_metadata v)) (vp_content v, sp_media_type (vp_metadata v)) (pr_objects s),
            pr_metadata = m \<rparr>"
proof -
  obtain c x v m link where
    "owned_order repo actor i (pr_orders s) = (Inr c, x)"
    "fst (inspect_proof (a_tenant_id actor) i (ps_max_upload_bytes st) f) = Inr v"
    "pmr_add meta (vp_metadata v) kind now (pr_metadata s) = (Inr (), m)"
    "issue_get (ps_signer st) (sp_key (vp_metadata v)) now (ps_link_ttl_seconds st) = Inr link"
    "ans = \<lparr> pa_proof = vp_metadata v, pa_kind = kind, pa_download_url = sl_url link,
            pa_download_expires_at = isoformat (sl_expires_at link) \<rparr>"
    "s' = s \<lparr> pr_orders := x, pr_objects := dict_set (sp_key (vp_metadata v)) (vp_content v, sp_media_type (vp_metadata v)) (pr_objects s),
            pr_metadata := m \<rparr>"
    using assms unfolding upload_proof_def andThen_Inr check_Inr on_part_Inr lift_result_eq put_private_def ret_eq by force
  then show thesis by (intro that) auto
qed

text \<open>
  The proof comes back through the authenticated endpoint, and through the link of the answer,
  which anybody may follow.
\<close>

definition retrievable ::
  "proof_settings \<Rightarrow> 's OrderRepository \<Rightarrow> 'm ProofMetadataRepository \<Rightarrow> datetime \<Rightarrow> uuid \<Rightarrow> string \<Rightarrow> Actor
   \<Rightarrow> proof_answer \<Rightarrow> ('s, 'm) proof_state \<Rightarrow> bool" where
  "retrievable st repo meta t i body other ans s \<longleftrightarrow>
     fst (download_proof repo meta i (sp_sha256 (pa_proof ans)) other s)
       = Inr (body, sp_media_type (pa_proof ans), attachment (sp_sha256 (pa_proof ans)) (sp_media_type (pa_proof ans)))
     \<and> get_proof_link (ps_signer st) t (pa_download_url ans) (pr_objects s)
       = (Inr (body, sp_media_type (pa_proof ans),
               attachment (key_digest (sp_key (pa_proof ans))) (sp_media_type (pa_proof ans))), pr_objects s)"

lemma presigned_downloads:
  assumes "issue_get signer key now ttl = Inr link" "expires = (now + seconds ttl) div 1000000" "0 < expires"
    "now \<le> t" "t \<le> now + seconds ttl" "get_private key objects = Some (content, media)"
  shows "download_presigned_proof signer t key expires (link_signature signer key expires) objects
    = (Inr (content, media, attachment (key_digest key) media), objects)"
proof -
  have at: "sl_expires_at link = now + seconds ttl" by (rule issued_link [OF assms(1) refl])
  have key: "proof_key key" by (rule issued_link [OF assms(1) refl])
  then have "length key = 149" by (simp add: proof_key_def Let_def)
  then have "presigned_query_valid key expires (link_signature signer key expires)"
    using assms(3) by (simp add: presigned_query_valid_def link_signature_def hmac_sha256_hex_def hex_part_digest)
  moreover have "verify_get signer key expires (link_signature signer key expires) t = Inr ()"
    using issued_link(4) [OF assms(1), of expires t] assms(2,4,5) at by simp
  ultimately show ?thesis using assms(6) by (simp add: download_presigned_proof_def)
qed

text \<open>Following an issued link presents the key, the deadline and the signature it was made of.\<close>

lemma issued_link_followed:
  assumes "issue_get signer key now ttl = Inr link" "expires = (now + seconds ttl) div 1000000" "0 \<le> expires"
    "ls_base_path signer = ''/api/v1/proof-objects''"
  shows "get_proof_link signer t (sl_url link) objects
    = download_presigned_proof signer t key expires (link_signature signer key expires) objects"
proof -
  let ?q = "[(''key'', key), (''expires'', dec_int expires), (''signature'', link_signature signer key expires)]"
  have "sl_url link = ''/api/v1/proof-objects'' @ CHR 0x3F # urlencode ?q"
    using assms(1,2,4) by (auto simp: issue_get_def Let_def split: if_splits)
  moreover have "CHR 0x3F \<notin> set ''/api/v1/proof-objects''" by simp
  ultimately have "partition_at (CHR 0x3F) (sl_url link) = (''/api/v1/proof-objects'', True, urlencode ?q)"
    using partition_at_append by metis
  then show ?thesis using py_int_dec [OF assms(3)] by (simp add: get_proof_link_def parse_urlencode)
qed

context proof_metadata
begin

lemma uploaded_is_retrievable:
  assumes "upload_proof st repo (repo_of add lookup) now i f kind actor s = (Inr (ans, hs), s')" "0 \<le> ps_max_upload_bytes st"
    "owned_order repo other i (pr_orders s') = (Inr c, x)" "a_tenant_id other = a_tenant_id actor"
    "0 < (now + seconds (ps_link_ttl_seconds st)) div 1000000" "now \<le> t" "t \<le> now + seconds (ps_link_ttl_seconds st)"
    "ls_base_path (ps_signer st) = ''/api/v1/proof-objects''"
  shows "retrievable st repo (repo_of add lookup) t i (uf_unread f) other ans s'"
  using assms(1)
proof (rule upload_proof_steps)
  fix c x' v m link
  assume st: "fst (inspect_proof (a_tenant_id actor) i (ps_max_upload_bytes st) f) = Inr v"
    "pmr_add (repo_of add lookup) (vp_metadata v) kind now (pr_metadata s) = (Inr (), m)" "pa_proof ans = vp_metadata v"
    "s' = \<lparr> pr_orders = x', pr_objects = dict_set (sp_key (vp_metadata v)) (vp_content v, sp_media_type (vp_metadata v)) (pr_objects s),
            pr_metadata = m \<rparr>"
    and link: "issue_get (ps_signer st) (sp_key (vp_metadata v)) now (ps_link_ttl_seconds st) = Inr link"
    and url: "pa_download_url ans = sl_url link"
  have v: "faithful_proof (a_tenant_id actor) i (ps_max_upload_bytes st) (uf_unread f) v"
    by (rule inspect_proof_Inr [OF st(1) assms(2)])
  then have content: "vp_content v = uf_unread f" by (simp add: faithful_proof_def)
  have obj: "get_private (sp_key (pa_proof ans)) (pr_objects s') = Some (uf_unread f, sp_media_type (pa_proof ans))"
    by (simp add: get_private_def st(3,4) content)
  have "lookup (a_tenant_id other) i (sp_sha256 (pa_proof ans)) (pr_metadata s') = Some (pa_proof ans)"
    using add_lookup [of "vp_metadata v" kind now "pr_metadata s" m] st(2-4) v assms(4)
    by (simp add: repo_of_def faithful_proof_def)
  then have "fst (download_proof repo (repo_of add lookup) i (sp_sha256 (pa_proof ans)) other s')
      = Inr (uf_unread f, sp_media_type (pa_proof ans), attachment (sp_sha256 (pa_proof ans)) (sp_media_type (pa_proof ans)))"
    using assms(3) obj by (simp add: download_proof_def andThen_def on_orders_def repo_of_def ret_def)
  moreover have "get_proof_link (ps_signer st) t (pa_download_url ans) (pr_objects s')
      = (Inr (uf_unread f, sp_media_type (pa_proof ans),
           attachment (key_digest (sp_key (pa_proof ans))) (sp_media_type (pa_proof ans))), pr_objects s')"
    unfolding url issued_link_followed [OF link [folded st(3)] refl less_imp_le [OF assms(5)] assms(8)]
    by (rule presigned_downloads [OF link [folded st(3)] refl assms(5-7) obj])
  ultimately show ?thesis by (simp add: retrievable_def)
qed

end

text \<open>
  C26. An uploaded proof comes back as it was sent: after an upload has been answered, every actor
  of the tenant that may access the order downloads exactly the uploaded bytes under the
  detected media type, and whoever follows the \<open>download_url\<close> of the answer does so too, without
  authentication, until it expires; with the in-memory metadata and with the SQL metadata.
\<close>

theorem uploaded_proof_is_downloaded:
  assumes "0 \<le> ps_max_upload_bytes st" "0 < (now + seconds (ps_link_ttl_seconds st)) div 1000000"
    "now \<le> t" "t \<le> now + seconds (ps_link_ttl_seconds st)" "a_tenant_id other = a_tenant_id actor"
    "ls_base_path (ps_signer st) = ''/api/v1/proof-objects''"
  shows "(upload_proof st repo in_memory_proofs now i f kind actor s = (Inr (ans, hs), s')
        \<and> owned_order repo other i (pr_orders s') = (Inr c, x) \<longrightarrow>
        retrievable st repo in_memory_proofs t i (uf_unread f) other ans s')
    \<and> (upload_proof st repo (sql_proof_metadata new_id) now i f kind actor q = (Inr (ans, hs), q')
        \<and> owned_order repo other i (pr_orders q') = (Inr c, x) \<longrightarrow>
        retrievable st repo (sql_proof_metadata new_id) t i (uf_unread f) other ans q')"
  unfolding in_memory_proofs_def sql_proof_metadata_def repo_of_def [symmetric]
  by (intro conjI impI; elim conjE)
    (rule mem_proofs.uploaded_is_retrievable sql_proofs.uploaded_is_retrievable, assumption, rule assms, assumption, rule assms,
      rule assms, rule assms, rule assms, rule assms)+

definition sample_proof_settings :: proof_settings where
  "sample_proof_settings = \<lparr> ps_max_upload_bytes = 1024, ps_link_ttl_seconds = 300, ps_signer = sample_signer \<rparr>"

definition sample_dispatcher :: Actor where
  "sample_dispatcher = \<lparr> a_user_id = 9, a_role = DISPATCHER, a_tenant_id = 1 \<rparr>"

theorem uploaded_proof_is_downloaded_witness:
  "\<exists>ans hs s'. upload_proof sample_proof_settings in_memory_repository in_memory_proofs 0 5 sample_upload ''delivery'' sample_dispatcher
       \<lparr> pr_orders = sample_orders, pr_objects = [], pr_metadata = [] \<rparr> = (Inr (ans, hs), s')
     \<and> retrievable sample_proof_settings in_memory_repository in_memory_proofs 1 5 JPEG_SIGNATURE sample_dispatcher ans s'"
proof -
  let ?s = "\<lparr> pr_orders = sample_orders, pr_objects = [], pr_metadata = [] \<rparr>"
  have own: "owned_order in_memory_repository sample_dispatcher 5 sample_orders = (Inr sample_stored, sample_orders)"
    by (simp add: owned_order_def andThen_def sample_get owns_order_def can_access_order_def sample_dispatcher_def
        sample_stored_def ret_def)
  obtain v file' where v: "inspect_proof 1 5 1024 sample_upload = (Inr v, file')" using sample_upload_inspected by blast
  then have "faithful_proof 1 5 1024 JPEG_SIGNATURE v"
    using inspect_proof_Inr [of 1 5 1024 sample_upload v] by (simp add: sample_upload_def)
  then have "proof_key (sp_key (vp_metadata v))" by (simp add: faithful_proof_def)
  then obtain ans hs s' where up: "upload_proof sample_proof_settings in_memory_repository in_memory_proofs 0 5 sample_upload ''delivery''
      sample_dispatcher ?s = (Inr (ans, hs), s')" "pr_orders s' = sample_orders"
    using v own
    by (auto simp: upload_proof_def andThen_def check_def on_orders_def lift_result_def sample_proof_settings_def
        sample_dispatcher_def on_objects_def put_private_def on_metadata_def in_memory_proofs_def mem_proof_add_def issue_get_def
        sample_signer_def Let_def ret_def)
  moreover from uploaded_proof_is_downloaded [where st = sample_proof_settings and now = 0 and t = 1 and other = sample_dispatcher
      and actor = sample_dispatcher and repo = in_memory_repository and i = 5 and f = sample_upload and kind = "''delivery''"
      and s = ?s and ans = ans and hs = hs and s' = s' and c = sample_stored and x = sample_orders] up own
  have "retrievable sample_proof_settings in_memory_repository in_memory_proofs 1 5 JPEG_SIGNATURE sample_dispatcher ans s'"
    by (simp add: sample_proof_settings_def sample_upload_def sample_signer_def)
  ultimately show ?thesis by blast
qed

section \<open>Public errors\<close>

text \<open>An exception without what its raiser wrote into it.\<close>

fun without_text :: "exn \<Rightarrow> exn" where
  "without_text (HTTPException status detail headers) = HTTPException status [] headers"
| "without_text (ValidationError m) = ValidationError m"
| "without_text (OrderNotFound i) = OrderNotFound 0"
| "without_text (InvalidUpload m) = InvalidUpload []"
| "without_text (UploadTooLarge m) = UploadTooLarge []"
| "without_text (ConcurrentUpdate m) = ConcurrentUpdate []"
| "without_text (CourierAlreadyBusy m) = CourierAlreadyBusy []"
| "without_text (IdempotencyConflict m) = IdempotencyConflict []"
| "without_text (InvalidTransition a b) = InvalidTransition [] []"
| "without_text e = OtherException []"

text \<open>A rejected request without the rejected input and its context.\<close>

definition without_input :: "validation_item \<Rightarrow> validation_item" where
  "without_input item = item \<lparr> vi_input := JNull, vi_ctx := [] \<rparr>"

definition public_specs :: "ErrorSpec list" where
  "public_specs = [REQUEST_INVALID, ORDER_NOT_FOUND, INVALID_PROOF, UPLOAD_TOO_LARGE, CONCURRENT_UPDATE, COURIER_ALREADY_BUSY,
     IDEMPOTENCY_CONFLICT, INVALID_TRANSITION, INTERNAL_ERROR] @ map snd HTTP_ERROR_SPECS"

lemma validation_details_public:
  "validation_details (map without_input items) = validation_details items"
  by (simp add: validation_details_def without_input_def)

lemma handler_without_text: "handler_of (map without_input \<circ> errors) (without_text e) = handler_of errors e"
  by (cases e) (simp_all add: handler_of_def validation_details_public)

lemma http_spec_listed: "http_exception_spec n \<in> set public_specs" if "dict_get HTTP_ERROR_SPECS n \<noteq> None"
proof -
  from that obtain spec where spec: "dict_get HTTP_ERROR_SPECS n = Some spec" by blast
  then have "spec \<in> set (map snd HTTP_ERROR_SPECS)" by (force dest: map_of_SomeD)
  with spec show ?thesis by (simp add: http_exception_spec_def public_specs_def)
qed

text \<open>The class of a reply is a published one, but for HTTP errors with a status that has no class.\<close>

lemma handler_spec_cases:
  "fst (handler_of errors e) \<in> set public_specs
   \<or> (\<exists>n text hs. e = HTTPException n text hs \<and> dict_get HTTP_ERROR_SPECS n = None
        \<and> fst (handler_of errors e) = error_spec n ''http_error'' ''Request could not be completed'')"
proof (cases e)
  case (HTTPException n reason hs)
  then show ?thesis
    using http_spec_listed [of n]
    by (cases "dict_get HTTP_ERROR_SPECS n") (simp_all add: handler_of_def http_exception_spec_def)
qed (simp_all add: handler_of_def public_specs_def)

lemma handler_details:
  "fst (snd (handler_of errors e))
   = (case e of
        ValidationError m \<Rightarrow>
          map (\<lambda>item. \<lparr> ed_location = vi_loc item, ed_type = vi_type item, ed_message = vi_msg item \<rparr>) (errors m)
      | _ \<Rightarrow> [])"
  by (cases e) (simp_all add: handler_of_def validation_details_def)

text \<open>
  C28. Every error has the public form: the reply to any exception carries exactly the status, code
  and message of one error class and the correlation id, in body and header. The class is a
  published one, or \<open>http_error\<close> for an HTTP error whose status has none. The details are empty
  unless the request was rejected by validation; then they are the location, type and message
  of each item pydantic reported. The reply is the same when everything else is erased: the
  text of the exception, and the rejected input and context of the items.
\<close>

theorem error_replies_are_public:
  assumes "reply = exception_reply current stored errors e" "rid = (if current \<noteq> [] then current else stored)"
  shows "\<exists>spec. (spec \<in> set public_specs
          \<or> (\<exists>n text hs. e = HTTPException n text hs \<and> dict_get HTTP_ERROR_SPECS n = None
               \<and> spec = error_spec n ''http_error'' ''Request could not be completed''))
      \<and> er_status reply = es_status_code spec
      \<and> er_content reply = [(''error_code'', es_error_code spec), (''message'', es_message spec), (''correlation_id'', rid)]
      \<and> dict_get (er_headers reply) ''X-Request-ID'' = Some rid
      \<and> er_details reply
          = (case e of
               ValidationError m \<Rightarrow>
                 map (\<lambda>item. \<lparr> ed_location = vi_loc item, ed_type = vi_type item, ed_message = vi_msg item \<rparr>) (errors m)
             | _ \<Rightarrow> [])
      \<and> reply = exception_reply current stored (map without_input \<circ> errors) (without_text e)"
proof -
  obtain spec ds hs where h: "handler_of errors e = (spec, ds, hs)" by (metis prod_cases3)
  have "spec \<in> set public_specs
      \<or> (\<exists>n text hs. e = HTTPException n text hs \<and> dict_get HTTP_ERROR_SPECS n = None
          \<and> spec = error_spec n ''http_error'' ''Request could not be completed'')"
    using handler_spec_cases [of errors e] h by simp
  moreover have "ds = (case e of
      ValidationError m \<Rightarrow>
        map (\<lambda>item. \<lparr> ed_location = vi_loc item, ed_type = vi_type item, ed_message = vi_msg item \<rparr>) (errors m)
    | _ \<Rightarrow> [])"
    using handler_details [of errors e] h by simp
  ultimately show ?thesis
    using assms h by (intro exI [of _ spec]) (simp add: exception_reply_def error_response_def handler_without_text Let_def)
qed

definition sample_item :: validation_item where
  "sample_item = \<lparr> vi_loc = [JStr ''body'', JStr ''password''], vi_type = ''string_too_short'',
     vi_msg = ''String should have at least 12 characters'', vi_input = JStr ''hunter2'', vi_ctx = [(''min_length'', JInt 12)] \<rparr>"

theorem error_replies_are_public_witness:
  "exception_reply ''c'' [] (\<lambda>_. [sample_item]) (RuntimeError ''secret'') = exception_reply ''c'' [] (\<lambda>_. []) (OtherException [])
   \<and> er_details (exception_reply ''c'' [] (\<lambda>_. [sample_item]) (ValidationError ''request''))
     = [\<lparr> ed_location = [JStr ''body'', JStr ''password''], ed_type = ''string_too_short'',
          ed_message = ''String should have at least 12 characters'' \<rparr>]"
proof -
  note public = error_replies_are_public [where current = "''c''" and stored = "[]" and errors = "\<lambda>_. [sample_item]", OF refl refl]
  have "exception_reply ''c'' [] (\<lambda>_. [sample_item]) (RuntimeError ''secret'')
      = exception_reply ''c'' [] (map without_input \<circ> (\<lambda>_. [sample_item])) (OtherException [])"
    using public [of "RuntimeError ''secret''"] by auto
  moreover have "exception_reply ''c'' [] (map without_input \<circ> (\<lambda>_. [sample_item])) (OtherException [])
      = exception_reply ''c'' [] (\<lambda>_. []) (OtherException [])"
    by (simp add: exception_reply_def handler_of_def)
  ultimately show ?thesis using public [of "ValidationError ''request''"] by (auto simp: sample_item_def)
qed

section \<open>Request models and the domain\<close>

lemma equal_addresses_refused:
  assumes "service_get repo i s = (Inr c, s)" "can_access_order actor (o_tenant_id c) (o_customer_id c) (o_courier_id c)"
    "1 \<le> o_version c" "Address (o_destination_address c)" "normalize_address (o_destination_address c) = o_destination_address c"
  shows "update_order repo i \<lparr> ou_pickup_address = Some (o_destination_address c), ou_destination_address = None,
      ou_weight_grams = None \<rparr> (o_version c) actor s
    = (Inl (ValueError ''pickup and destination addresses must differ''), s)"
proof -
  have "owned_order repo actor i s = (Inr c, s)"
    using assms(1,2) by (simp add: owned_order_def andThen_def owns_order_def ret_def)
  with assms show ?thesis
    by (simp add: update_order_def andThen_def lift_result_def validate_order_update_def Let_def check_def service_update_def
        command_changes_def update_details_def changed_text_def)
qed

text \<open>
  Validation at the edge: an order model that passes validation has normalised addresses that
  differ and a weight in range, and the domain creates an order from it. The update model has no such
  rule: a valid update that makes the addresses equal is refused by the domain with a
  \<open>ValueError\<close>, which no handler maps, and is answered 500.
\<close>

theorem validated_orders_are_accepted:
  shows "(validate_order_create raw = Inr command \<longrightarrow>
      (\<exists>order. order_create new_id now (oc_customer_id' command) tenant (oc_pickup_address' command)
         (oc_destination_address' command) (oc_weight_grams' command) created_at = Inr order
         \<and> casefold (o_pickup_address order) \<noteq> casefold (o_destination_address order)
         \<and> Address (o_pickup_address order) \<and> Address (o_destination_address order) \<and> o_status order = CREATED \<and> o_version order = 1))
    \<and> (service_get repo i s = (Inr c, s) \<and> can_access_order actor (o_tenant_id c) (o_customer_id c) (o_courier_id c)
       \<and> 1 \<le> o_version c \<and> Address (o_destination_address c)
       \<and> normalize_address (o_destination_address c) = o_destination_address c \<longrightarrow>
       (\<exists>e. update_order repo i \<lparr> ou_pickup_address = Some (o_destination_address c), ou_destination_address = None,
              ou_weight_grams = None \<rparr> (o_version c) actor s = (Inl e, s)
          \<and> er_status (exception_reply current stored errors e) = 500))"
proof (intro conjI impI)
  assume "validate_order_create raw = Inr command"
  then show "\<exists>order. order_create new_id now (oc_customer_id' command) tenant (oc_pickup_address' command)
       (oc_destination_address' command) (oc_weight_grams' command) created_at = Inr order
       \<and> casefold (o_pickup_address order) \<noteq> casefold (o_destination_address order)
       \<and> Address (o_pickup_address order) \<and> Address (o_destination_address order) \<and> o_status order = CREATED \<and> o_version order = 1"
    by (auto simp: validate_order_create_def Let_def order_create_def WeightGrams_def invalid_request_def split: if_splits)
qed (use equal_addresses_refused [of repo i s c actor] in
    \<open>auto simp: exception_reply_def handler_of_def error_response_def Let_def INTERNAL_ERROR_def error_spec_def\<close>)

theorem validated_orders_are_accepted_witness:
  "\<exists>e. update_order in_memory_repository 5 \<lparr> ou_pickup_address = Some ''Side street 2'', ou_destination_address = None,
       ou_weight_grams = None \<rparr> 1 sample_dispatcher sample_orders = (Inl e, sample_orders)
     \<and> er_status (exception_reply '''' '''' (\<lambda>_. []) e) = 500"
proof -
  have "can_access_order sample_dispatcher (o_tenant_id sample_stored) (o_customer_id sample_stored) (o_courier_id sample_stored)"
    by (simp add: can_access_order_def sample_dispatcher_def sample_stored_def)
  moreover have "Address ''Side street 2''" "normalize_address ''Side street 2'' = ''Side street 2''"
    by (simp_all add: Address_def normalize_address_def is_space_def code_def)
  ultimately show ?thesis
    using validated_orders_are_accepted [THEN conjunct2, THEN mp, of in_memory_repository 5 sample_orders sample_stored
        sample_dispatcher "''''" "''''" "\<lambda>_. []"] sample_get by (simp add: sample_stored_def)
qed

section \<open>The WebSocket in SQL mode\<close>

text \<open>
  In SQL mode nothing writes the in-memory \<open>repository\<close> that the WebSocket handler reads, so it
  stays as it was created and no connection is ever accepted.
\<close>

theorem websocket_never_opens_in_sql_mode:
  "fst (ws_tracking cfg now empty_store load header i hub) \<noteq> Inr (WsAccept p m q)"
proof -
  have "service_get in_memory_repository i empty_store = (Inl (OrderNotFound i), empty_store)"
    by (simp add: service_get_def andThen_def mem_get_def empty_store_def raise_def)
  then show ?thesis
    by (auto simp: ws_tracking_def split: option.splits sum.splits exn.splits prod.splits)
qed

text \<open>With the order in that repository and a token of an actor that may access it, the connection is accepted.\<close>

lemma websocket_opens:
  assumes "websocket_bearer_protocol header = Some (token, protocol)"
    "thenR (decode_token (ac_jwt cfg) (ac_settings cfg) now ''access'' token) actor_from_claims = Inr actor"
    "service_get in_memory_repository i store = (Inr c, store)"
    "can_access_order actor (o_tenant_id c) (o_customer_id c) (o_courier_id c)"
  shows "\<exists>m q. fst (ws_tracking cfg now store load header i hub) = Inr (WsAccept protocol m q)"
  using assms by (simp add: ws_tracking_def owns_order_def split: prod.splits)

end
