(* ===== verification/Schema.thy ===== *)
theory Schema
  imports Prelude
begin

text \<open>
  The database schema: the declarative models of \<open>db.py\<close> and the catalogue they describe.

  A declaration is the list of columns and table arguments as the source writes them. The
  catalogue records what PostgreSQL keeps of it: \<open>index=True\<close> on a column is an index named
  \<open>ix_<table>_<column>\<close>, \<open>unique=True\<close> an unnamed unique constraint, a primary-key column is
  not null. Python-side defaults (\<open>default=\<close>) and relationships are not part of the catalogue.
  Check constraints are kept as their SQL text.
\<close>

section \<open>Declarations and catalogue\<close>

datatype sql_type = Uuid | String nat | Integer | Boolean | JSON | DateTime | Float

datatype ondelete = CASCADE | NO_ACTION

record foreign_key =
  fk_name :: "string option"
  fk_columns :: "string list"
  fk_table :: string
  fk_target :: "string list"
  fk_ondelete :: ondelete

record index =
  ix_table :: string
  ix_columns :: "string list"
  ix_unique :: bool
  ix_where :: "string option"

record column =
  col_type :: sql_type
  col_nullable :: bool
  col_primary_key :: bool
  col_server_default :: "string option"

record table =
  t_columns :: "(string \<times> column) list"
  t_checks :: "(string \<times> string) list"
  t_uniques :: "(string option \<times> string list) list"
  t_foreign_keys :: "foreign_key list"

record schema =
  s_tables :: "(string \<times> table) list"
  s_indexes :: "(string \<times> index) list"

text \<open>The flags of one \<open>Column\<close> or \<open>mapped_column\<close> call, and the entries of \<open>__table_args__\<close>.\<close>

datatype column_flag =
    primary_key
  | not_null
  | server_default string
  | indexed
  | unique_column
  | ForeignKey string string "string option" ondelete

type_synonym column_decl = "string \<times> sql_type \<times> column_flag list"

datatype table_arg =
    CheckConstraint string string
  | UniqueConstraint "string list" string
  | ForeignKeyConstraint "string list" string "string list" string ondelete
  | Index string "string list" bool "string option"

fun flag_default :: "column_flag list \<Rightarrow> string option" where
  "flag_default [] = None"
| "flag_default (server_default d # fs) = Some d"
| "flag_default (_ # fs) = flag_default fs"

definition column_of :: "column_decl \<Rightarrow> string \<times> column" where
  "column_of = (\<lambda>(name, ty, flags).
     (name, \<lparr> col_type = ty, col_nullable = (primary_key \<notin> set flags \<and> not_null \<notin> set flags),
              col_primary_key = (primary_key \<in> set flags), col_server_default = flag_default flags \<rparr>))"

fun flag_foreign_keys :: "string \<Rightarrow> column_flag list \<Rightarrow> foreign_key list" where
  "flag_foreign_keys name [] = []"
| "flag_foreign_keys name (ForeignKey t c n d # fs) =
     \<lparr> fk_name = n, fk_columns = [name], fk_table = t, fk_target = [c], fk_ondelete = d \<rparr>
       # flag_foreign_keys name fs"
| "flag_foreign_keys name (_ # fs) = flag_foreign_keys name fs"

fun arg_checks :: "table_arg list \<Rightarrow> (string \<times> string) list" where
  "arg_checks [] = []"
| "arg_checks (CheckConstraint sql name # as) = (name, sql) # arg_checks as"
| "arg_checks (_ # as) = arg_checks as"

fun arg_uniques :: "table_arg list \<Rightarrow> (string option \<times> string list) list" where
  "arg_uniques [] = []"
| "arg_uniques (UniqueConstraint cols name # as) = (Some name, cols) # arg_uniques as"
| "arg_uniques (_ # as) = arg_uniques as"

fun arg_foreign_keys :: "table_arg list \<Rightarrow> foreign_key list" where
  "arg_foreign_keys [] = []"
| "arg_foreign_keys (ForeignKeyConstraint cols t target name d # as) =
     \<lparr> fk_name = Some name, fk_columns = cols, fk_table = t, fk_target = target, fk_ondelete = d \<rparr>
       # arg_foreign_keys as"
| "arg_foreign_keys (_ # as) = arg_foreign_keys as"

fun arg_indexes :: "string \<Rightarrow> table_arg list \<Rightarrow> (string \<times> index) list" where
  "arg_indexes t [] = []"
| "arg_indexes t (Index name cols u w # as) =
     (name, \<lparr> ix_table = t, ix_columns = cols, ix_unique = u, ix_where = w \<rparr>) # arg_indexes t as"
| "arg_indexes t (_ # as) = arg_indexes t as"

definition table_of :: "column_decl list \<Rightarrow> table_arg list \<Rightarrow> table" where
  "table_of cols as =
     \<lparr> t_columns = map column_of cols,
       t_checks = arg_checks as,
       t_uniques = map (\<lambda>(name, ty, flags). (None, [name])) (filter (\<lambda>(name, ty, flags). unique_column \<in> set flags) cols)
                   @ arg_uniques as,
       t_foreign_keys = concat (map (\<lambda>(name, ty, flags). flag_foreign_keys name flags) cols) @ arg_foreign_keys as \<rparr>"

definition column_indexes :: "string \<Rightarrow> column_decl list \<Rightarrow> (string \<times> index) list" where
  "column_indexes t cols =
     map (\<lambda>(name, ty, flags). (''ix_'' @ t @ ''_'' @ name,
            \<lparr> ix_table = t, ix_columns = [name], ix_unique = False, ix_where = None \<rparr>))
       (filter (\<lambda>(name, ty, flags). indexed \<in> set flags) cols)"

section \<open>The models\<close>

type_synonym model = "string \<times> column_decl list \<times> table_arg list"

text \<open>
  One declaration per class. A \<open>Mapped[...]\<close> column that is not optional is not null, with or
  without \<open>nullable=False\<close>.
\<close>

definition OrderRow_model :: model where
  "OrderRow_model = (''delivery_order'',
    [(''id'', Uuid, [primary_key]),
     (''tenant_id'', Uuid, [not_null, indexed]),
     (''customer_id'', Uuid, [not_null, indexed]),
     (''pickup_address'', String 300, [not_null]),
     (''destination_address'', String 300, [not_null]),
     (''weight_grams'', Integer, [not_null]),
     (''status'', String 32, [not_null]),
     (''version'', Integer, [not_null]),
     (''created_at'', DateTime, [not_null])],
    [CheckConstraint ''weight_grams > 0 AND weight_grams <= 100000'' ''ck_order_weight'',
     CheckConstraint ''status IN ('created','assigned','picked_up','delivered','cancelled')'' ''ck_order_status'',
     CheckConstraint ''version > 0'' ''ck_order_version'',
     Index ''ix_delivery_order_status_created'' [''status'', ''created_at'', ''id''] False None])"

definition AssignmentRow_model :: model where
  "AssignmentRow_model = (''courier_assignment'',
    [(''id'', Uuid, [primary_key]),
     (''order_id'', Uuid, [ForeignKey ''delivery_order'' ''id'' (Some ''fk_assignment_order'') CASCADE, not_null]),
     (''courier_id'', Uuid, [not_null, indexed]),
     (''active'', Boolean, [not_null])],
    [Index ''uq_active_assignment_order'' [''order_id''] True (Some ''active''),
     Index ''uq_active_assignment_courier'' [''courier_id''] True (Some ''active'')])"

definition IdempotencyRow_model :: model where
  "IdempotencyRow_model = (''idempotency_record'',
    [(''key'', String 200, [primary_key]),
     (''operation'', String 100, [not_null]),
     (''resource_id'', Uuid, [not_null, indexed]),
     (''response'', JSON, [not_null]),
     (''created_at'', DateTime, [not_null])], [])"

definition OutboxRow_model :: model where
  "OutboxRow_model = (''outbox'',
    [(''id'', Uuid, [primary_key]),
     (''event_type'', String 100, [not_null]),
     (''payload'', JSON, [not_null]),
     (''processed_at'', DateTime, []),
     (''created_at'', DateTime, [not_null]),
     (''published_at'', DateTime, [])],
    [Index ''ix_outbox_pending_created'' [''published_at'', ''processed_at'', ''created_at'', ''id''] False None])"

definition TransitionHistoryRow_model :: model where
  "TransitionHistoryRow_model = (''order_transition_history'',
    [(''event_id'', Uuid, [primary_key]),
     (''tenant_id'', Uuid, [not_null]),
     (''order_id'', Uuid, [ForeignKey ''delivery_order'' ''id'' (Some ''fk_transition_history_order'') CASCADE, not_null]),
     (''from_status'', String 32, [not_null]),
     (''to_status'', String 32, [not_null]),
     (''order_version'', Integer, [not_null]),
     (''actor_id'', Uuid, [not_null]),
     (''actor_role'', String 32, [not_null]),
     (''occurred_at'', DateTime, [not_null]),
     (''correlation_id'', String 128, [not_null])],
    [CheckConstraint ''from_status IN ('created','assigned','picked_up','delivered','cancelled')''
       ''ck_transition_history_from_status'',
     CheckConstraint ''to_status IN ('created','assigned','picked_up','delivered','cancelled')''
       ''ck_transition_history_to_status'',
     CheckConstraint ''from_status <> to_status'' ''ck_transition_history_changed'',
     CheckConstraint ''order_version > 1'' ''ck_transition_history_version'',
     Index ''ix_transition_history_order_version'' [''tenant_id'', ''order_id'', ''order_version''] True None])"

definition TrackingSnapshotRow_model :: model where
  "TrackingSnapshotRow_model = (''order_tracking_snapshot'',
    [(''order_id'', Uuid, [ForeignKey ''delivery_order'' ''id'' (Some ''fk_tracking_snapshot_order'') CASCADE, primary_key]),
     (''tenant_id'', Uuid, [not_null]),
     (''latitude'', Float, [not_null]),
     (''longitude'', Float, [not_null]),
     (''sequence'', Integer, [not_null]),
     (''order_status'', String 32, [not_null]),
     (''recorded_at'', DateTime, [not_null]),
     (''client_event_id'', Uuid, [not_null, unique_column])],
    [CheckConstraint ''latitude >= -90 AND latitude <= 90'' ''ck_tracking_latitude'',
     CheckConstraint ''longitude >= -180 AND longitude <= 180'' ''ck_tracking_longitude'',
     CheckConstraint ''sequence > 0'' ''ck_tracking_sequence'',
     Index ''ix_tracking_snapshot_tenant_order'' [''tenant_id'', ''order_id''] True None])"

definition ConsumerInboxRow_model :: model where
  "ConsumerInboxRow_model = (''consumer_inbox'',
    [(''event_id'', Uuid, [primary_key]),
     (''event_type'', String 100, [not_null]),
     (''processed_at'', DateTime, [not_null])], [])"

definition NotificationRow_model :: model where
  "NotificationRow_model = (''delivery_notification'',
    [(''id'', Uuid, [primary_key]),
     (''event_id'', Uuid, [ForeignKey ''consumer_inbox'' ''event_id'' None CASCADE, not_null, unique_column]),
     (''order_id'', Uuid, [not_null, indexed]),
     (''message'', String 300, [not_null]),
     (''channel'', String 20, [not_null]),
     (''status'', String 20, [not_null]),
     (''provider_message_id'', String 200, []),
     (''sent_at'', DateTime, [])], [])"

definition NotificationPreferenceRow_model :: model where
  "NotificationPreferenceRow_model = (''notification_preference'',
    [(''id'', Uuid, [primary_key]),
     (''tenant_id'', Uuid, [not_null]),
     (''user_id'', Uuid, [not_null]),
     (''channel'', String 20, [not_null]),
     (''enabled'', Boolean, [not_null])],
    [CheckConstraint ''channel IN ('email','telegram')'' ''ck_notification_channel'',
     UniqueConstraint [''tenant_id'', ''user_id'', ''channel''] ''uq_notification_preference''])"

definition ProofMetadataRow_model :: model where
  "ProofMetadataRow_model = (''proof_metadata'',
    [(''id'', Uuid, [primary_key]),
     (''tenant_id'', Uuid, [not_null]),
     (''order_id'', Uuid, [ForeignKey ''delivery_order'' ''id'' (Some ''fk_proof_metadata_order'') CASCADE, not_null]),
     (''object_key'', String 300, [not_null]),
     (''proof_kind'', String 20, [not_null]),
     (''media_type'', String 100, [not_null]),
     (''size_bytes'', Integer, [not_null]),
     (''sha256'', String 64, [not_null]),
     (''created_at'', DateTime, [not_null])],
    [CheckConstraint ''proof_kind IN ('pickup','delivery')'' ''ck_proof_metadata_kind'',
     CheckConstraint ''size_bytes > 0'' ''ck_proof_metadata_size'',
     UniqueConstraint [''object_key''] ''uq_proof_metadata_object_key'',
     UniqueConstraint [''tenant_id'', ''order_id'', ''sha256''] ''uq_proof_metadata_digest'',
     Index ''ix_proof_metadata_order_created'' [''tenant_id'', ''order_id'', ''created_at''] False None])"

definition IdentityRow_model :: model where
  "IdentityRow_model = (''identity'',
    [(''subject'', String 100, [primary_key]),
     (''tenant_id'', Uuid, [not_null, indexed]),
     (''password_hash'', String 300, [not_null])], [])"

definition RefreshSessionRow_model :: model where
  "RefreshSessionRow_model = (''refresh_session'',
    [(''jti'', Uuid, [primary_key]),
     (''family_id'', Uuid, [not_null, indexed]),
     (''subject'', String 100, [not_null, indexed]),
     (''expires_at'', DateTime, [not_null]),
     (''used_at'', DateTime, []),
     (''revoked_at'', DateTime, []),
     (''replacement_jti'', Uuid, [])], [])"

text \<open>\<open>Base.metadata\<close>: the tables and indexes of all models.\<close>

definition Base_models :: "model list" where
  "Base_models = [OrderRow_model, AssignmentRow_model, IdempotencyRow_model, OutboxRow_model,
     TransitionHistoryRow_model, TrackingSnapshotRow_model, ConsumerInboxRow_model, NotificationRow_model,
     NotificationPreferenceRow_model, ProofMetadataRow_model, IdentityRow_model, RefreshSessionRow_model]"

definition metadata_of :: "model list \<Rightarrow> schema" where
  "metadata_of models =
     \<lparr> s_tables = map (\<lambda>(name, cols, as). (name, table_of cols as)) models,
       s_indexes = concat (map (\<lambda>(name, cols, as). column_indexes name cols @ arg_indexes name as) models) \<rparr>"

section \<open>Comparison\<close>

text \<open>
  What two catalogues have in common when neither the order of tables, columns and indexes nor
  the server-side defaults matter: names, types, nullability, keys, constraints and indexes.
\<close>

type_synonym table_view =
  "(string \<times> sql_type \<times> bool \<times> bool) list \<times> (string \<times> string) list \<times> (string option \<times> string list) list \<times> foreign_key list"

definition table_view :: "table \<Rightarrow> table_view" where
  "table_view t =
     (sort_key fst (map (\<lambda>(n, c). (n, col_type c, col_nullable c, col_primary_key c)) (t_columns t)),
      t_checks t, t_uniques t, t_foreign_keys t)"

definition schema_view :: "schema \<Rightarrow> (string \<times> table_view) list \<times> (string \<times> index) list" where
  "schema_view s = (sort_key fst (map (\<lambda>(n, t). (n, table_view t)) (s_tables s)), sort_key fst (s_indexes s))"

end
