(* ===== verification/Migrations.thy ===== *)
theory Migrations
  imports Schema Messaging
begin

text \<open>
  The migrations of \<open>alembic/versions\<close> and their runner \<open>env.py\<close>: every operation of a revision
  as a fallible change of the catalogue, with the error codes of PostgreSQL. \<open>rows\<close> are the rows
  that the tables hold when a revision runs: adding a required column without a default to a
  table that has any fails, and so does a unique index over rows that agree on its columns.
  Shown: from an empty database the revisions build exactly the models of \<open>db.py\<close>, unless two
  active assignments share an order or a courier; each revision is undone by its downgrade; and
  the outbox rows that are pending stay the same through the data migration.
\<close>

section \<open>Operations of \<open>alembic.op\<close>\<close>

definition sql_error :: "string \<Rightarrow> exn" where
  "sql_error sqlstate = DBAPIError (Some sqlstate)"

type_synonym ddl = "(schema, unit) action"

text \<open>\<open>op.create_table\<close>; a foreign key must name a column of a table that exists.\<close>

definition fk_resolves :: "schema \<Rightarrow> foreign_key \<Rightarrow> bool" where
  "fk_resolves s k =
     (case dict_get (s_tables s) (fk_table k) of
        None \<Rightarrow> False
      | Some t \<Rightarrow> list_all (\<lambda>c. dict_get (t_columns t) c \<noteq> None) (fk_target k))"

definition create_table :: "string \<Rightarrow> column_decl list \<Rightarrow> table_arg list \<Rightarrow> ddl" where
  "create_table name cols as s =
     (if dict_get (s_tables s) name \<noteq> None then (Inl (sql_error ''42P07''), s)
      else if \<not> list_all (fk_resolves s) (t_foreign_keys (table_of cols as)) then (Inl (sql_error ''42P01''), s)
      else (Inr (), s \<lparr> s_tables := s_tables s @ [(name, table_of cols as)] \<rparr>))"

text \<open>\<open>op.drop_table\<close>: refused while another table refers to it; its indexes go with it.\<close>

definition drop_table :: "string \<Rightarrow> ddl" where
  "drop_table name s =
     (if dict_get (s_tables s) name = None then (Inl (sql_error ''42P01''), s)
      else if list_ex (\<lambda>(n, t). n \<noteq> name \<and> list_ex (\<lambda>k. fk_table k = name) (t_foreign_keys t)) (s_tables s)
      then (Inl (sql_error ''2BP01''), s)
      else (Inr (), s \<lparr> s_tables := dict_pop name (s_tables s),
                       s_indexes := filter (\<lambda>(n, i). ix_table i \<noteq> name) (s_indexes s) \<rparr>))"

text \<open>
  The rows of each table, as the text of their columns, \<open>None\<close> for NULL. The rows an index
  covers have no NULL in its columns (NULLs are never equal) and, for a partial index, a true
  flag.
\<close>

type_synonym contents = "string \<Rightarrow> (string \<Rightarrow> string option) list"

definition no_rows :: contents where
  "no_rows = (\<lambda>_. [])"

definition unique_keys :: "contents \<Rightarrow> string \<Rightarrow> string list \<Rightarrow> string option \<Rightarrow> bool" where
  "unique_keys rows table_name cols whr =
     distinct (map (\<lambda>row. map row cols)
       (filter (\<lambda>row. list_all (\<lambda>c. row c \<noteq> None) cols \<and> (case whr of None \<Rightarrow> True | Some flag \<Rightarrow> row flag = Some ''true''))
         (rows table_name)))"

definition create_index :: "contents \<Rightarrow> string \<Rightarrow> string \<Rightarrow> string list \<Rightarrow> bool \<Rightarrow> string option \<Rightarrow> ddl" where
  "create_index rows name table_name cols uniq whr s =
     (case dict_get (s_tables s) table_name of
        None \<Rightarrow> (Inl (sql_error ''42P01''), s)
      | Some t \<Rightarrow>
          if dict_get (s_indexes s) name \<noteq> None then (Inl (sql_error ''42P07''), s)
          else if \<not> list_all (\<lambda>c. dict_get (t_columns t) c \<noteq> None) cols then (Inl (sql_error ''42703''), s)
          else if uniq \<and> \<not> unique_keys rows table_name cols whr then (Inl (sql_error ''23505''), s)
          else (Inr (), s \<lparr> s_indexes := s_indexes s @
                 [(name, \<lparr> ix_table = table_name, ix_columns = cols, ix_unique = uniq, ix_where = whr \<rparr>)] \<rparr>))"

definition drop_index :: "string \<Rightarrow> ddl" where
  "drop_index name s =
     (if dict_get (s_indexes s) name = None then (Inl (sql_error ''42704''), s)
      else (Inr (), s \<lparr> s_indexes := dict_pop name (s_indexes s) \<rparr>))"

definition add_column :: "contents \<Rightarrow> string \<Rightarrow> column_decl \<Rightarrow> ddl" where
  "add_column rows table_name decl s =
     (case dict_get (s_tables s) table_name of
        None \<Rightarrow> (Inl (sql_error ''42P01''), s)
      | Some t \<Rightarrow>
          let (name, c) = column_of decl
          in if dict_get (t_columns t) name \<noteq> None then (Inl (sql_error ''42701''), s)
             else if \<not> col_nullable c \<and> col_server_default c = None \<and> rows table_name \<noteq> []
             then (Inl (sql_error ''23502''), s)
             else (Inr (), s \<lparr> s_tables :=
                    dict_set table_name (t \<lparr> t_columns := t_columns t @ [(name, c)] \<rparr>) (s_tables s) \<rparr>))"

text \<open>
  \<open>op.drop_column\<close>: the indexes and the unique and foreign-key constraints that use the column
  go with it. (None of the columns the revisions drop occurs in a check constraint.)
\<close>

definition drop_column :: "string \<Rightarrow> string \<Rightarrow> ddl" where
  "drop_column table_name name s =
     (case dict_get (s_tables s) table_name of
        None \<Rightarrow> (Inl (sql_error ''42P01''), s)
      | Some t \<Rightarrow>
          if dict_get (t_columns t) name = None then (Inl (sql_error ''42703''), s)
          else if list_ex (\<lambda>(n, u). n \<noteq> table_name
                    \<and> list_ex (\<lambda>k. fk_table k = table_name \<and> name \<in> set (fk_target k)) (t_foreign_keys u)) (s_tables s)
          then (Inl (sql_error ''2BP01''), s)
          else (Inr (), s \<lparr>
                 s_tables := dict_set table_name
                   (t \<lparr> t_columns := dict_pop name (t_columns t),
                       t_uniques := filter (\<lambda>(n, cols). name \<notin> set cols) (t_uniques t),
                       t_foreign_keys := filter (\<lambda>k. name \<notin> set (fk_columns k)) (t_foreign_keys t) \<rparr>) (s_tables s),
                 s_indexes := filter (\<lambda>(n, i). \<not> (ix_table i = table_name \<and> name \<in> set (ix_columns i))) (s_indexes s) \<rparr>))"

text \<open>The statements of a revision, one after the other.\<close>

fun run_ops :: "ddl list \<Rightarrow> ddl" where
  "run_ops [] s = (Inr (), s)"
| "run_ops (op # ops) s = (case op s of (Inl e, s') \<Rightarrow> (Inl e, s') | (Inr _, s') \<Rightarrow> run_ops ops s')"

section \<open>The revisions\<close>

text \<open>An index on a table that the revision itself creates meets no rows.\<close>

definition upgrade_0001 :: ddl where
  "upgrade_0001 = run_ops [
    create_table ''delivery_order''
      [(''id'', Uuid, [primary_key]),
       (''customer_id'', Uuid, [not_null]),
       (''pickup_address'', String 300, [not_null]),
       (''destination_address'', String 300, [not_null]),
       (''weight_grams'', Integer, [not_null]),
       (''status'', String 32, [not_null]),
       (''version'', Integer, [not_null, server_default ''1'']),
       (''created_at'', DateTime, [not_null])]
      [CheckConstraint ''weight_grams > 0 AND weight_grams <= 100000'' ''ck_order_weight'',
       CheckConstraint ''status IN ('created','assigned','picked_up','delivered','cancelled')'' ''ck_order_status'',
       CheckConstraint ''version > 0'' ''ck_order_version''],
    create_index no_rows ''ix_delivery_order_customer_id'' ''delivery_order'' [''customer_id''] False None,
    create_table ''courier_assignment''
      [(''id'', Uuid, [primary_key]),
       (''order_id'', Uuid, [ForeignKey ''delivery_order'' ''id'' (Some ''fk_assignment_order'') CASCADE, not_null]),
       (''courier_id'', Uuid, [not_null]),
       (''active'', Boolean, [not_null, server_default ''true''])] [],
    create_index no_rows ''ix_courier_assignment_courier_id'' ''courier_assignment'' [''courier_id''] False None,
    create_table ''idempotency_record''
      [(''key'', String 200, [primary_key]),
       (''operation'', String 100, [not_null]),
       (''resource_id'', Uuid, [not_null]),
       (''response'', JSON, [not_null]),
       (''created_at'', DateTime, [not_null])] [],
    create_table ''outbox''
      [(''id'', Uuid, [primary_key]),
       (''event_type'', String 100, [not_null]),
       (''payload'', JSON, [not_null]),
       (''processed_at'', DateTime, [])] [],
    create_table ''consumer_inbox''
      [(''event_id'', Uuid, [primary_key]),
       (''event_type'', String 100, [not_null]),
       (''processed_at'', DateTime, [not_null])] [],
    create_table ''delivery_notification''
      [(''id'', Uuid, [primary_key]),
       (''event_id'', Uuid, [ForeignKey ''consumer_inbox'' ''event_id'' None CASCADE, not_null, unique_column]),
       (''order_id'', Uuid, [not_null]),
       (''message'', String 300, [not_null])] [],
    create_index no_rows ''ix_delivery_notification_order_id'' ''delivery_notification'' [''order_id''] False None,
    create_table ''identity''
      [(''subject'', String 100, [primary_key]),
       (''password_hash'', String 300, [not_null])] [],
    create_table ''refresh_session''
      [(''jti'', Uuid, [primary_key]),
       (''family_id'', Uuid, [not_null]),
       (''subject'', String 100, [not_null]),
       (''expires_at'', DateTime, [not_null]),
       (''used_at'', DateTime, []),
       (''revoked_at'', DateTime, []),
       (''replacement_jti'', Uuid, [])] [],
    create_index no_rows ''ix_refresh_session_family_id'' ''refresh_session'' [''family_id''] False None,
    create_index no_rows ''ix_refresh_session_subject'' ''refresh_session'' [''subject''] False None]"

definition downgrade_0001 :: ddl where
  "downgrade_0001 = run_ops [
    drop_index ''ix_refresh_session_subject'',
    drop_index ''ix_refresh_session_family_id'',
    drop_table ''refresh_session'',
    drop_table ''identity'',
    drop_index ''ix_delivery_notification_order_id'',
    drop_table ''delivery_notification'',
    drop_table ''consumer_inbox'',
    drop_table ''outbox'',
    drop_table ''idempotency_record'',
    drop_index ''ix_courier_assignment_courier_id'',
    drop_table ''courier_assignment'',
    drop_index ''ix_delivery_order_customer_id'',
    drop_table ''delivery_order'']"

definition upgrade_0002 :: "contents \<Rightarrow> ddl" where
  "upgrade_0002 rows = run_ops [
    create_index rows ''ix_delivery_order_status_created'' ''delivery_order'' [''status'', ''created_at'', ''id''] False None,
    create_index rows ''uq_active_assignment_order'' ''courier_assignment'' [''order_id''] True (Some ''active''),
    create_index rows ''uq_active_assignment_courier'' ''courier_assignment'' [''courier_id''] True (Some ''active''),
    create_index rows ''ix_idempotency_record_resource_id'' ''idempotency_record'' [''resource_id''] False None]"

definition downgrade_0002 :: ddl where
  "downgrade_0002 = run_ops [
    drop_index ''ix_idempotency_record_resource_id'',
    drop_index ''uq_active_assignment_courier'',
    drop_index ''uq_active_assignment_order'',
    drop_index ''ix_delivery_order_status_created'']"

definition DEFAULT_TENANT :: string where
  "DEFAULT_TENANT = ''00000000-0000-0000-0000-000000000001''"

definition upgrade_0003 :: "contents \<Rightarrow> ddl" where
  "upgrade_0003 rows = run_ops [
    add_column rows ''delivery_order'' (''tenant_id'', Uuid, [not_null, server_default DEFAULT_TENANT]),
    create_index rows ''ix_delivery_order_tenant_id'' ''delivery_order'' [''tenant_id''] False None,
    add_column rows ''identity'' (''tenant_id'', Uuid, [not_null, server_default DEFAULT_TENANT]),
    create_index rows ''ix_identity_tenant_id'' ''identity'' [''tenant_id''] False None]"

definition downgrade_0003 :: ddl where
  "downgrade_0003 = run_ops [
    drop_index ''ix_identity_tenant_id'',
    drop_column ''identity'' ''tenant_id'',
    drop_index ''ix_delivery_order_tenant_id'',
    drop_column ''delivery_order'' ''tenant_id'']"

text \<open>The \<open>UPDATE\<close> between the operations of revision 0004 changes rows only; it is \<open>backfill_published_at\<close>.\<close>

definition upgrade_0004 :: "contents \<Rightarrow> ddl" where
  "upgrade_0004 rows = run_ops [
    add_column rows ''outbox'' (''published_at'', DateTime, []),
    add_column rows ''outbox'' (''created_at'', DateTime, [not_null, server_default ''now()'']),
    create_index rows ''ix_outbox_pending_created'' ''outbox''
      [''published_at'', ''processed_at'', ''created_at'', ''id''] False None]"

definition backfill_published_at :: "OutboxRow \<Rightarrow> OutboxRow" where
  "backfill_published_at row =
     (if ob_published_at row = None \<and> ob_legacy_processed_at row \<noteq> None
      then row \<lparr> ob_published_at := ob_legacy_processed_at row \<rparr> else row)"

definition downgrade_0004 :: ddl where
  "downgrade_0004 = run_ops [
    drop_index ''ix_outbox_pending_created'',
    drop_column ''outbox'' ''created_at'',
    drop_column ''outbox'' ''published_at'']"

definition upgrade_0005 :: "contents \<Rightarrow> ddl" where
  "upgrade_0005 rows = run_ops [
    add_column rows ''delivery_notification'' (''channel'', String 20, [not_null, server_default ''email'']),
    add_column rows ''delivery_notification'' (''status'', String 20, [not_null, server_default ''pending'']),
    add_column rows ''delivery_notification'' (''provider_message_id'', String 200, []),
    add_column rows ''delivery_notification'' (''sent_at'', DateTime, []),
    create_table ''notification_preference''
      [(''id'', Uuid, [primary_key]),
       (''tenant_id'', Uuid, [not_null]),
       (''user_id'', Uuid, [not_null]),
       (''channel'', String 20, [not_null]),
       (''enabled'', Boolean, [not_null, server_default ''true''])]
      [CheckConstraint ''channel IN ('email','telegram')'' ''ck_notification_channel'',
       UniqueConstraint [''tenant_id'', ''user_id'', ''channel''] ''uq_notification_preference''],
    create_table ''proof_metadata''
      [(''id'', Uuid, [primary_key]),
       (''tenant_id'', Uuid, [not_null]),
       (''order_id'', Uuid, [not_null]),
       (''object_key'', String 300, [not_null]),
       (''proof_kind'', String 20, [not_null]),
       (''media_type'', String 100, [not_null]),
       (''size_bytes'', Integer, [not_null]),
       (''sha256'', String 64, [not_null]),
       (''created_at'', DateTime, [not_null])]
      [CheckConstraint ''proof_kind IN ('pickup','delivery')'' ''ck_proof_metadata_kind'',
       CheckConstraint ''size_bytes > 0'' ''ck_proof_metadata_size'',
       ForeignKeyConstraint [''order_id''] ''delivery_order'' [''id''] ''fk_proof_metadata_order'' CASCADE,
       UniqueConstraint [''object_key''] ''uq_proof_metadata_object_key'',
       UniqueConstraint [''tenant_id'', ''order_id'', ''sha256''] ''uq_proof_metadata_digest''],
    create_index no_rows ''ix_proof_metadata_order_created'' ''proof_metadata''
      [''tenant_id'', ''order_id'', ''created_at''] False None]"

definition downgrade_0005 :: ddl where
  "downgrade_0005 = run_ops [
    drop_index ''ix_proof_metadata_order_created'',
    drop_table ''proof_metadata'',
    drop_table ''notification_preference'',
    drop_column ''delivery_notification'' ''sent_at'',
    drop_column ''delivery_notification'' ''provider_message_id'',
    drop_column ''delivery_notification'' ''status'',
    drop_column ''delivery_notification'' ''channel'']"

definition upgrade_0006 :: ddl where
  "upgrade_0006 = run_ops [
    create_table ''order_transition_history''
      [(''event_id'', Uuid, [primary_key]),
       (''tenant_id'', Uuid, [not_null]),
       (''order_id'', Uuid, [not_null]),
       (''from_status'', String 32, [not_null]),
       (''to_status'', String 32, [not_null]),
       (''order_version'', Integer, [not_null]),
       (''actor_id'', Uuid, [not_null]),
       (''actor_role'', String 32, [not_null]),
       (''occurred_at'', DateTime, [not_null]),
       (''correlation_id'', String 128, [not_null])]
      [CheckConstraint ''from_status IN ('created','assigned','picked_up','delivered','cancelled')''
         ''ck_transition_history_from_status'',
       CheckConstraint ''to_status IN ('created','assigned','picked_up','delivered','cancelled')''
         ''ck_transition_history_to_status'',
       CheckConstraint ''from_status <> to_status'' ''ck_transition_history_changed'',
       CheckConstraint ''order_version > 1'' ''ck_transition_history_version'',
       ForeignKeyConstraint [''order_id''] ''delivery_order'' [''id''] ''fk_transition_history_order'' CASCADE],
    create_index no_rows ''ix_transition_history_order_version'' ''order_transition_history''
      [''tenant_id'', ''order_id'', ''order_version''] True None]"

definition downgrade_0006 :: ddl where
  "downgrade_0006 = run_ops [
    drop_index ''ix_transition_history_order_version'',
    drop_table ''order_transition_history'']"

definition upgrade_0007 :: ddl where
  "upgrade_0007 = run_ops [
    create_table ''order_tracking_snapshot''
      [(''order_id'', Uuid, [primary_key]),
       (''tenant_id'', Uuid, [not_null]),
       (''latitude'', Float, [not_null]),
       (''longitude'', Float, [not_null]),
       (''sequence'', Integer, [not_null]),
       (''order_status'', String 32, [not_null]),
       (''recorded_at'', DateTime, [not_null]),
       (''client_event_id'', Uuid, [not_null, unique_column])]
      [CheckConstraint ''latitude >= -90 AND latitude <= 90'' ''ck_tracking_latitude'',
       CheckConstraint ''longitude >= -180 AND longitude <= 180'' ''ck_tracking_longitude'',
       CheckConstraint ''sequence > 0'' ''ck_tracking_sequence'',
       ForeignKeyConstraint [''order_id''] ''delivery_order'' [''id''] ''fk_tracking_snapshot_order'' CASCADE],
    create_index no_rows ''ix_tracking_snapshot_tenant_order'' ''order_tracking_snapshot''
      [''tenant_id'', ''order_id''] True None]"

definition downgrade_0007 :: ddl where
  "downgrade_0007 = run_ops [
    drop_index ''ix_tracking_snapshot_tenant_order'',
    drop_table ''order_tracking_snapshot'']"

section \<open>The runner\<close>

text \<open>
  A revision file: \<open>revision\<close>, \<open>down_revision\<close> and its two functions. \<open>alembic\<close> records the
  revision of the database in its version table; an upgrade runs the next revisions in order, a
  downgrade undoes the latest ones, and \<open>do_run_migrations\<close> of \<open>env.py\<close> puts all of them in one
  transaction under an advisory lock.
\<close>

record revision =
  rev_id :: string
  rev_down :: "string option"
  rev_upgrade :: ddl
  rev_downgrade :: ddl

definition revisions :: "contents \<Rightarrow> revision list" where
  "revisions rows =
    [\<lparr> rev_id = ''0001'', rev_down = None, rev_upgrade = upgrade_0001, rev_downgrade = downgrade_0001 \<rparr>,
     \<lparr> rev_id = ''0002'', rev_down = Some ''0001'', rev_upgrade = upgrade_0002 rows, rev_downgrade = downgrade_0002 \<rparr>,
     \<lparr> rev_id = ''0003'', rev_down = Some ''0002'', rev_upgrade = upgrade_0003 rows, rev_downgrade = downgrade_0003 \<rparr>,
     \<lparr> rev_id = ''0004'', rev_down = Some ''0003'', rev_upgrade = upgrade_0004 rows, rev_downgrade = downgrade_0004 \<rparr>,
     \<lparr> rev_id = ''0005'', rev_down = Some ''0004'', rev_upgrade = upgrade_0005 rows, rev_downgrade = downgrade_0005 \<rparr>,
     \<lparr> rev_id = ''0006'', rev_down = Some ''0005'', rev_upgrade = upgrade_0006, rev_downgrade = downgrade_0006 \<rparr>,
     \<lparr> rev_id = ''0007'', rev_down = Some ''0006'', rev_upgrade = upgrade_0007, rev_downgrade = downgrade_0007 \<rparr>]"

record database =
  db_version :: "string option"
  db_schema :: schema

definition apply_upgrade :: "revision \<Rightarrow> (database, unit) action" where
  "apply_upgrade r db =
     (case rev_upgrade r (db_schema db) of
        (Inl e, s) \<Rightarrow> (Inl e, db \<lparr> db_schema := s \<rparr>)
      | (Inr _, s) \<Rightarrow> (Inr (), \<lparr> db_version = Some (rev_id r), db_schema = s \<rparr>))"

definition apply_downgrade :: "revision \<Rightarrow> (database, unit) action" where
  "apply_downgrade r db =
     (case rev_downgrade r (db_schema db) of
        (Inl e, s) \<Rightarrow> (Inl e, db \<lparr> db_schema := s \<rparr>)
      | (Inr _, s) \<Rightarrow> (Inr (), \<lparr> db_version = rev_down r, db_schema = s \<rparr>))"

fun run_migrations :: "(database, unit) action list \<Rightarrow> (database, unit) action" where
  "run_migrations [] = ret ()"
| "run_migrations (m # ms) = andThen m (\<lambda>_. run_migrations ms)"

definition do_run_migrations :: "(database, unit) action list \<Rightarrow> (database, unit) action" where
  "do_run_migrations steps = transactional (run_migrations steps)"

definition empty_schema :: schema where
  "empty_schema = \<lparr> s_tables = [], s_indexes = [] \<rparr>"

definition empty_database :: database where
  "empty_database = \<lparr> db_version = None, db_schema = empty_schema \<rparr>"


section \<open>Building and undoing the schema\<close>

text \<open>
  What the tables hold matters in one place only: revision 0002 needs the active assignments to
  be unique by order and by courier.
\<close>

definition unique_assignments :: "contents \<Rightarrow> bool" where
  "unique_assignments rows \<longleftrightarrow> unique_keys rows ''courier_assignment'' [''order_id''] (Some ''active'')
     \<and> unique_keys rows ''courier_assignment'' [''courier_id''] (Some ''active'')"

lemma add_column_any_rows:
  assumes "col_nullable (snd (column_of decl)) \<or> col_server_default (snd (column_of decl)) \<noteq> None"
  shows "add_column rows t decl = add_column no_rows t decl"
  using assms by (auto simp: add_column_def fun_eq_iff split: option.splits prod.splits)

lemma unique_no_rows: "unique_keys no_rows t cols whr"
  by (simp add: unique_keys_def no_rows_def)

lemma create_index_rows:
  "create_index rows name t cols uniq whr s =
     (if uniq \<and> \<not> unique_keys rows t cols whr \<and> fst (create_index no_rows name t cols uniq whr s) = Inr ()
      then (Inl (sql_error ''23505''), s) else create_index no_rows name t cols uniq whr s)"
  by (auto simp: create_index_def unique_no_rows split: option.splits)

lemma upgrades_any_rows:
  "upgrade_0003 rows = upgrade_0003 no_rows" "upgrade_0004 rows = upgrade_0004 no_rows" "upgrade_0005 rows = upgrade_0005 no_rows"
proof -
  have optional: "add_column rows t (name, ty, []) = add_column no_rows t (name, ty, [])"
    "add_column rows t (name, ty, [not_null, server_default v]) = add_column no_rows t (name, ty, [not_null, server_default v])"
    for t name ty v
    by (intro add_column_any_rows; simp add: column_of_def)+
  have plain: "create_index rows name t cols False whr = create_index no_rows name t cols False whr" for name t cols whr
    by (simp add: create_index_def fun_eq_iff)
  show "upgrade_0003 rows = upgrade_0003 no_rows" "upgrade_0004 rows = upgrade_0004 no_rows" "upgrade_0005 rows = upgrade_0005 no_rows"
    by (simp_all only: upgrade_0003_def upgrade_0004_def upgrade_0005_def optional plain)
qed

lemma upgrade_0002_rows:
  "unique_assignments rows \<Longrightarrow> upgrade_0002 rows = upgrade_0002 no_rows"
  "\<not> unique_assignments rows \<Longrightarrow> fst (upgrade_0002 no_rows s) = Inr () \<Longrightarrow> fst (upgrade_0002 rows s) = Inl (sql_error ''23505'')"
  by (auto simp: fun_eq_iff upgrade_0002_def unique_assignments_def
      create_index_rows [of rows] split: prod.splits sum.splits)

lemma revisions_rows:
  "unique_assignments rows \<Longrightarrow> revisions rows = revisions no_rows"
  "n \<noteq> 1 \<Longrightarrow> revisions rows ! n = revisions no_rows ! n"
  "rev_upgrade (revisions rows ! Suc 0) = upgrade_0002 rows"
  "rev_downgrade (revisions rows ! n) = rev_downgrade (revisions no_rows ! n)"
  "rev_id (revisions rows ! n) = rev_id (revisions no_rows ! n)"
  "rev_down (revisions rows ! n) = rev_down (revisions no_rows ! n)"
  by (simp_all add: revisions_def upgrades_any_rows [of rows] upgrade_0002_rows(1) nth_Cons split: nat.splits)

text \<open>The database after the first revisions.\<close>

definition database_at :: "nat \<Rightarrow> database" where
  "database_at n = snd (run_migrations (map apply_upgrade (take n (revisions no_rows))) empty_database)"

lemma database_at_0: "database_at 0 = empty_database"
  by (simp add: database_at_def ret_def)

lemma run_migrations_append:
  "run_migrations (ms @ ns) db = andThen (run_migrations ms) (\<lambda>_. run_migrations ns) db"
  by (induction ms arbitrary: db) (auto simp: andThen_def ret_def split: prod.splits sum.splits)

lemma run_migrations_prefix:
  assumes "run_migrations ms db = (Inr (), db')"
  shows "run_migrations (take n ms) db = (Inr (), snd (run_migrations (take n ms) db))"
proof -
  have "run_migrations (take n ms @ drop n ms) db = (Inr (), db')" using assms by simp
  then have "fst (run_migrations (take n ms) db) = Inr ()" unfolding run_migrations_append by auto
  then show ?thesis by (metis prod.collapse)
qed

lemma upgrades_succeed:
  "run_migrations (map apply_upgrade (revisions no_rows)) empty_database = (Inr (), database_at 7)"
  by code_simp

lemma head_models:
  "db_version (database_at 7) = Some ''0007''" "schema_view (db_schema (database_at 7)) = schema_view (metadata_of Base_models)"
  by code_simp+

lemma length_revisions [simp]: "length (revisions rows) = 7"
  by (simp add: revisions_def)

lemma upgrade_step:
  assumes "n < 7" "unique_assignments rows \<or> n \<noteq> 1"
  shows "apply_upgrade (revisions rows ! n) (database_at n) = (Inr (), database_at (Suc n))"
proof -
  note prefix = run_migrations_prefix [OF upgrades_succeed, unfolded take_map, folded database_at_def]
  have "take (Suc n) (revisions no_rows) = take n (revisions no_rows) @ [revisions no_rows ! n]"
    using assms(1) by (simp add: take_Suc_conv_app_nth)
  with prefix [of "Suc n"] have
    "run_migrations (map apply_upgrade (take n (revisions no_rows)) @ [apply_upgrade (revisions no_rows ! n)]) empty_database
     = (Inr (), database_at (Suc n))" by simp
  with prefix [of n] have "apply_upgrade (revisions no_rows ! n) (database_at n) = (Inr (), database_at (Suc n))"
    by (simp add: run_migrations_append)
  with assms(2) revisions_rows(1,2) [where rows = rows] show ?thesis by metis
qed

lemma unique_no_assignments: "unique_assignments no_rows"
  by (simp add: unique_assignments_def unique_no_rows)

lemma upgrade_blocked:
  assumes "\<not> unique_assignments rows"
  shows "\<exists>db. apply_upgrade (revisions rows ! 1) (database_at 1) = (Inl (sql_error ''23505''), db)"
proof -
  have "fst (apply_upgrade (revisions no_rows ! 1) (database_at 1)) = Inr ()"
    using upgrade_step [of 1 no_rows] unique_no_assignments by simp
  then have "fst (upgrade_0002 no_rows (db_schema (database_at 1))) = Inr ()"
    by (auto simp: apply_upgrade_def revisions_rows(3) split: prod.splits sum.splits)
  from upgrade_0002_rows(2) [OF assms this] show ?thesis
    by (auto simp: apply_upgrade_def revisions_rows(3) split: prod.splits)
qed

lemma apply_upgrade_version: "apply_upgrade r db = (Inr (), db') \<Longrightarrow> db_version db' = Some (rev_id r)"
  by (auto simp: apply_upgrade_def split: prod.splits sum.splits)

lemma downgrade_steps:
  "list_all (\<lambda>n. apply_downgrade (revisions no_rows ! n) (database_at (Suc n)) = (Inr (), database_at n)) [0,1,2,3,4,5,6]"
  by code_simp

lemma downgrade_step:
  assumes "n < 7"
  shows "apply_downgrade (revisions rows ! n) (database_at (Suc n)) = (Inr (), database_at n)"
proof -
  from assms have "n \<in> set [0,1,2,3,4,5,6]" by auto
  with downgrade_steps [unfolded list_all_iff]
  have "apply_downgrade (revisions no_rows ! n) (database_at (Suc n)) = (Inr (), database_at n)" by blast
  moreover have "apply_downgrade (revisions rows ! n) = apply_downgrade (revisions no_rows ! n)"
    by (simp add: fun_eq_iff apply_downgrade_def revisions_rows(4,6) [where rows = rows] split: prod.splits sum.splits)
  ultimately show ?thesis by simp
qed

text \<open>Revision 0002 is on the way from one revision to another.\<close>

definition crosses_0002 :: "nat \<Rightarrow> nat \<Rightarrow> bool" where
  "crosses_0002 i j \<longleftrightarrow> i \<le> 1 \<and> 1 < j"

lemma upgrade_path:
  "i + d \<le> 7 \<Longrightarrow> unique_assignments rows \<or> \<not> crosses_0002 i (i + d) \<Longrightarrow>
   run_migrations (map apply_upgrade (take d (drop i (revisions rows)))) (database_at i) = (Inr (), database_at (i + d))"
proof (induction d)
  case (Suc d)
  have "take (Suc d) (drop i (revisions rows)) = take d (drop i (revisions rows)) @ [revisions rows ! (i + d)]"
    using Suc.prems by (simp add: take_Suc_conv_app_nth)
  with Suc upgrade_step [of "i + d" rows] show ?case by (auto simp: run_migrations_append crosses_0002_def)
qed simp

lemma upgrade_path_blocked:
  assumes "i + d \<le> 7" "\<not> unique_assignments rows" "crosses_0002 i (i + d)"
  shows "fst (run_migrations (map apply_upgrade (take d (drop i (revisions rows)))) (database_at i)) = Inl (sql_error ''23505'')"
proof -
  let ?steps = "take d (drop i (revisions rows))"
  have i: "i \<le> 1" "1 - i < length ?steps" "?steps ! (1 - i) = revisions rows ! 1" using assms(1,3) by (auto simp: crosses_0002_def)
  have "?steps = take (1 - i) ?steps @ ?steps ! (1 - i) # drop (Suc (1 - i)) ?steps" using i(2) by (rule id_take_nth_drop)
  moreover have "take (1 - i) ?steps = take (1 - i) (drop i (revisions rows))" using assms(3) by (auto simp: min_def crosses_0002_def)
  ultimately have steps: "?steps = take (1 - i) (drop i (revisions rows)) @ revisions rows ! 1 # drop (Suc (1 - i)) ?steps"
    using i(3) by simp
  have "run_migrations (map apply_upgrade (take (1 - i) (drop i (revisions rows)))) (database_at i) = (Inr (), database_at 1)"
    using upgrade_path [of i "1 - i" rows] i(1) by (simp add: crosses_0002_def)
  with upgrade_blocked [OF assms(2)] show ?thesis by (subst steps) (auto simp: run_migrations_append andThen_def)
qed

lemma downgrade_path:
  "i + d \<le> 7 \<Longrightarrow> run_migrations (map apply_downgrade (rev (take d (drop i (revisions rows))))) (database_at (i + d))
     = (Inr (), database_at i)"
proof (induction d)
  case (Suc d)
  have "take (Suc d) (drop i (revisions rows)) = take d (drop i (revisions rows)) @ [revisions rows ! (i + d)]"
    using Suc.prems by (simp add: take_Suc_conv_app_nth)
  with Suc downgrade_step [of "i + d" rows] show ?case by simp
qed simp

text \<open>
  C30. Migrating an empty database to the head revision leaves exactly the tables, columns,
  types, nullability, keys, constraints and indexes that the models of \<open>db.py\<close> declare, whatever
  the tables hold while the revisions run, unless two active assignments share an order or
  a courier when revision 0002 runs: then the migration fails with PostgreSQL's unique
  violation, and the database is left as it was.
\<close>

theorem migrations_build_the_models:
  assumes "do_run_migrations (map apply_upgrade (revisions rows)) empty_database = (r, db)"
  shows "if unique_assignments rows
     then r = Inr () \<and> db_version db = Some ''0007'' \<and> schema_view (db_schema db) = schema_view (metadata_of Base_models)
     else r = Inl (sql_error ''23505'') \<and> db = empty_database"
proof (cases "unique_assignments rows")
  case True
  with assms upgrades_succeed head_models show ?thesis
    by (simp add: do_run_migrations_def transactional_def revisions_rows(1))
next
  case False
  with assms upgrade_path_blocked [of 0 7 rows] show ?thesis
    by (auto simp: do_run_migrations_def transactional_def database_at_0 crosses_0002_def split: prod.splits sum.splits)
qed

text \<open>Three assignments of one courier; in the second case two of them are active.\<close>

definition sample_assignments :: "string list \<Rightarrow> contents" where
  "sample_assignments flags table_name =
     (if table_name = ''courier_assignment''
      then map (\<lambda>(order, flag). [''order_id'' \<mapsto> order, ''courier_id'' \<mapsto> ''c'', ''active'' \<mapsto> flag]) (zip [''1'', ''2'', ''3''] flags)
      else [])"

theorem migrations_build_the_models_witness:
  "(\<exists>db. do_run_migrations (map apply_upgrade (revisions (sample_assignments [''false'', ''true'', ''false'']))) empty_database
       = (Inr (), db) \<and> db_version db = Some ''0007'')
   \<and> do_run_migrations (map apply_upgrade (revisions (sample_assignments [''true'', ''true'', ''false'']))) empty_database
       = (Inl (sql_error ''23505''), empty_database)"
proof
  let ?run = "\<lambda>flags. do_run_migrations (map apply_upgrade (revisions (sample_assignments flags))) empty_database"
  have good: "unique_assignments (sample_assignments [''false'', ''true'', ''false''])"
    by (simp add: unique_assignments_def unique_keys_def sample_assignments_def)
  have bad: "\<not> unique_assignments (sample_assignments [''true'', ''true'', ''false''])"
    by (simp add: unique_assignments_def unique_keys_def sample_assignments_def)
  obtain r db where run: "?run [''false'', ''true'', ''false''] = (r, db)" by fastforce
  with migrations_build_the_models [OF run] good
  show "\<exists>db. ?run [''false'', ''true'', ''false''] = (Inr (), db) \<and> db_version db = Some ''0007''" by simp
  obtain r' db' where run': "?run [''true'', ''true'', ''false''] = (r', db')" by fastforce
  with migrations_build_the_models [OF run'] bad
  show "?run [''true'', ''true'', ''false''] = (Inl (sql_error ''23505''), empty_database)" by simp
qed

text \<open>
  C32. From the database of any revision, upgrading to a later one and downgrading back restores
  the catalogue and the recorded revision exactly. The downgrade always succeeds; the upgrade
  does unless it has to make active assignments unique that are not, and then it changes
  nothing. The chain of \<open>down_revision\<close>s is linear.
\<close>

theorem migrations_reversible:
  assumes "i \<le> j" "j \<le> 7" "steps = drop i (take j (revisions rows))"
  shows "do_run_migrations (map apply_upgrade steps) (database_at i)
        = (if unique_assignments rows \<or> \<not> crosses_0002 i j then (Inr (), database_at j)
           else (Inl (sql_error ''23505''), database_at i))
    \<and> do_run_migrations (map apply_downgrade (rev steps)) (database_at j) = (Inr (), database_at i)
    \<and> database_at 0 = empty_database
    \<and> (0 < j \<longrightarrow> db_version (database_at j) = Some (rev_id (revisions rows ! (j - 1))))"
proof -
  have steps: "steps = take (j - i) (drop i (revisions rows))"
    using assms(3) by (simp add: drop_take)
  have version: "db_version (database_at j) = Some (rev_id (revisions rows ! (j - 1)))" if "0 < j"
    using apply_upgrade_version [OF upgrade_step [of "j - 1" no_rows]] that assms(2) unique_no_assignments
    by (simp add: revisions_rows(5) [where rows = rows])
  have up: "do_run_migrations (map apply_upgrade steps) (database_at i)
      = (if unique_assignments rows \<or> \<not> crosses_0002 i j then (Inr (), database_at j)
         else (Inl (sql_error ''23505''), database_at i))"
    using upgrade_path [of i "j - i" rows] upgrade_path_blocked [of i "j - i" rows] assms(1,2)
    by (auto simp: do_run_migrations_def transactional_def steps split: prod.splits sum.splits)
  have "do_run_migrations (map apply_downgrade (rev steps)) (database_at j) = (Inr (), database_at i)"
    using downgrade_path [of i "j - i" rows] assms(1,2) by (simp add: do_run_migrations_def transactional_def steps)
  with up version show ?thesis by (simp add: database_at_0)
qed

theorem migrations_reversible_witness:
  "do_run_migrations (map apply_downgrade (rev (drop 2 (take 5 (revisions (sample_assignments [''true'', ''true'', ''true''])))))) (database_at 5)
     = (Inr (), database_at 2)"
  using migrations_reversible [of 2 5 _ "sample_assignments [''true'', ''true'', ''true'']", OF _ _ refl] by simp

section \<open>The outbox across revision 0004\<close>

text \<open>
  The previous image takes a row with an empty \<open>processed_at\<close> for pending; this one looks at
  both columns. They agree on a row when both columns are empty or none is.
\<close>

definition relays_agree :: "order_tables \<Rightarrow> bool" where
  "relays_agree db \<longleftrightarrow> list_all (\<lambda>r. (ob_published_at r = None) = (ob_legacy_processed_at r = None)) (values_of (t_outbox db))"

definition backfilled :: "order_tables \<Rightarrow> order_tables" where
  "backfilled db = db \<lparr> t_outbox := map (\<lambda>(i, r). (i, backfill_published_at r)) (t_outbox db) \<rparr>"

lemma backfill_pending [simp]:
  "transitional_outbox_pending (backfill_published_at r) = transitional_outbox_pending r"
  "transitional_outbox_pending r \<Longrightarrow> backfill_published_at r = r"
  "ob_id (backfill_published_at r) = ob_id r"
  by (auto simp: transitional_outbox_pending_def backfill_published_at_def)

lemma pending_batch_backfilled: "pending_batch locked n (backfilled db) = pending_batch locked n db"
proof -
  have "filter (\<lambda>r. transitional_outbox_pending r \<and> \<not> locked (ob_id r)) (map backfill_published_at rs)
      = filter (\<lambda>r. transitional_outbox_pending r \<and> \<not> locked (ob_id r)) rs" for rs
    by (induction rs) auto
  moreover have "values_of (t_outbox (backfilled db)) = map backfill_published_at (values_of (t_outbox db))"
    by (simp add: backfilled_def comp_def case_prod_unfold)
  ultimately show ?thesis by (simp only: pending_batch_def)
qed

lemma relays_agree_mark:
  assumes "relays_agree db"
  shows "relays_agree (db \<lparr> t_outbox := dict_set i (mark_outbox_published tm r) (t_outbox db) \<rparr>)"
proof -
  have "snd ` set (dict_set i (mark_outbox_published tm r) (t_outbox db))
      \<subseteq> insert (mark_outbox_published tm r) (snd ` set (t_outbox db))"
    using set_dict_set [of i "mark_outbox_published tm r" "t_outbox db"] by fastforce
  with assms show ?thesis
    by (fastforce simp: relays_agree_def list_all_iff mark_outbox_published_def)
qed

lemma publish_rows_agree:
  "publish_rows publish tm rows (db, w) = (r, (db', w')) \<Longrightarrow> relays_agree db \<Longrightarrow> relays_agree db'"
  by (induction rows arbitrary: db w r)
    (auto split: prod.splits sum.splits dest: relays_agree_mark)

text \<open>
  The data migration of revision 0004 leaves the relay's pending batches as they are, and on
  rows whose new column is still empty it makes the old and the new notion of a pending row
  agree; every later relay round, failed ones included, keeps them in agreement, so rolling
  back to the previous image neither repeats nor loses a row.
\<close>

theorem outbox_rollback_window:
  "pending_batch locked n (backfilled db) = pending_batch locked n db
   \<and> (list_all (\<lambda>r. ob_published_at r = None) (values_of (t_outbox db)) \<longrightarrow> relays_agree (backfilled db))
   \<and> (relays_agree db \<and> publish_pending_outbox publish locked tx tm b (db, w) = (r, (db', w')) \<longrightarrow> relays_agree db')"
proof -
  have "relays_agree (backfilled db)" if "list_all (\<lambda>r. ob_published_at r = None) (values_of (t_outbox db))"
    using that by (fastforce simp: relays_agree_def backfilled_def backfill_published_at_def list_all_iff)
  moreover have "relays_agree db'"
    if "relays_agree db" "publish_pending_outbox publish locked tx tm b (db, w) = (r, (db', w'))"
    using that publish_rows_agree by (fastforce simp: publish_pending_outbox_def split: if_splits)
  ultimately show ?thesis using pending_batch_backfilled by blast
qed

theorem outbox_rollback_window_witness:
  "\<exists>db. map (\<lambda>(i, r). (ob_published_at r, ob_legacy_processed_at r)) (t_outbox db) = [(Some 5, Some 5), (None, None)]
     \<and> relays_agree db \<and> length (pending_batch (\<lambda>_. False) 10 db) = 1"
proof -
  let ?row = "\<lambda>i done. (i, \<lparr> ob_id = i, ob_event_type = ''order.created'', ob_payload = [],
      ob_legacy_processed_at = done, ob_created_at = 0, ob_published_at = None \<rparr>)"
  let ?db = "empty_tables \<lparr> t_outbox := [?row 1 (Some 5), ?row 2 None] \<rparr>"
  show ?thesis
    using outbox_rollback_window [of "\<lambda>_. False" 10 ?db, THEN conjunct2, THEN conjunct1]
    by (intro exI [of _ "backfilled ?db"])
      (simp add: backfilled_def backfill_published_at_def pending_batch_def transitional_outbox_pending_def)
qed

end
