(* ===== verification/Transactions.thy ===== *)
theory Transactions
  imports Prelude
begin

text \<open>
  \<open>transactions.py\<close>: the search for a PostgreSQL error code through wrapped exceptions, and the
  retry of a whole use case in a fresh serializable transaction.

  Exception objects are shared and may refer to each other in cycles (\<open>__context__\<close>), so they
  live in a list and refer to each other by index, the \<open>id\<close> of the object. The database that
  the attempts see also changes by other transactions: \<open>interfere n\<close> is what they commit
  before attempt \<open>n\<close>. Delays are exact rationals.
\<close>

section \<open>Finding the error code\<close>

record exc_object =
  eo_sqlstate :: "string option"
  eo_pgcode :: "string option"
  eo_orig :: "nat option"
  eo_cause :: "nat option"
  eo_context :: "nat option"

definition RETRYABLE_SQLSTATES :: "string set" where
  "RETRYABLE_SQLSTATES = {''40001'', ''40P01''}"

text \<open>\<open>getattr(current, "sqlstate", None) or getattr(current, "pgcode", None)\<close>: an empty text is false.\<close>

definition own_code :: "exc_object \<Rightarrow> string option" where
  "own_code x =
     (case eo_sqlstate x of
        Some code \<Rightarrow> if code = '''' then eo_pgcode x else Some code
      | None \<Rightarrow> eo_pgcode x)"

text \<open>
  The objects appended to \<open>pending\<close>, topmost first: \<open>pop\<close> takes the last one appended.
\<close>

definition nested :: "exc_object \<Rightarrow> nat list" where
  "nested x = rev (concat (map (\<lambda>r. case r of None \<Rightarrow> [] | Some i \<Rightarrow> [i]) [eo_orig x, eo_cause x, eo_context x]))"

function sqlstate_loop :: "exc_object list \<Rightarrow> nat list \<Rightarrow> nat set \<Rightarrow> string option" where
  "sqlstate_loop heap [] seen = None"
| "sqlstate_loop heap (current # pending) seen =
     (if current \<in> seen \<or> length heap \<le> current then sqlstate_loop heap pending seen
      else (case own_code (heap ! current) of
              Some code \<Rightarrow> Some code
            | None \<Rightarrow> sqlstate_loop heap (nested (heap ! current) @ pending) (insert current seen)))"
  by pat_completeness auto
termination
proof (relation "measures [\<lambda>(heap, pending, seen). card ({..<length heap} - seen), \<lambda>(heap, pending, seen). length pending]",
    goal_cases)
  case (3 heap current pending seen)
  then have "current \<in> {..<length heap} - seen" by simp
  then have "{..<length heap} - insert current seen \<subset> {..<length heap} - seen" by blast
  then have "card ({..<length heap} - insert current seen) < card ({..<length heap} - seen)"
    by (intro psubset_card_mono) auto
  then show ?case by simp
qed auto

definition postgres_sqlstate :: "exc_object list \<Rightarrow> nat \<Rightarrow> string option" where
  "postgres_sqlstate heap error = sqlstate_loop heap [error] {}"

section \<open>Retrying a transaction\<close>

text \<open>
  What an attempt can raise: a \<open>DBAPIError\<close>, which the retry inspects, or anything else. The
  exception object is given with the objects it refers to.
\<close>

datatype tx_error = DatabaseError "exc_object list" nat | OtherError exn

definition retryable :: "tx_error \<Rightarrow> bool" where
  "retryable e =
     (case e of
        DatabaseError heap error \<Rightarrow>
          (case postgres_sqlstate heap error of None \<Rightarrow> False | Some code \<Rightarrow> code \<in> RETRYABLE_SQLSTATES)
      | OtherError _ \<Rightarrow> False)"

text \<open>
  The database engine during one attempt: what opening the session, setting the isolation level
  and committing raise.
\<close>

record engine_attempt =
  en_open :: "tx_error option"
  en_isolation :: "tx_error option"
  en_commit :: "tx_error option"

type_synonym ('s, 'a) operation = "'s \<Rightarrow> (tx_error + 'a) \<times> 's"

definition run_attempt :: "engine_attempt \<Rightarrow> ('s, 'a) operation \<Rightarrow> ('s, 'a) operation" where
  "run_attempt en operation db =
     (case en_open en of
        Some e \<Rightarrow> (Inl e, db)
      | None \<Rightarrow> (case en_isolation en of
          Some e \<Rightarrow> (Inl e, db)
        | None \<Rightarrow> (case operation db of
            (Inl e, _) \<Rightarrow> (Inl e, db)
          | (Inr x, db') \<Rightarrow> (case en_commit en of Some e \<Rightarrow> (Inl e, db) | None \<Rightarrow> (Inr x, db')))))"

record 's world =
  wd_interfere :: "nat \<Rightarrow> 's \<Rightarrow> 's"
  wd_engine :: "nat \<Rightarrow> engine_attempt"
  wd_jitter :: "nat \<Rightarrow> rat"

text \<open>
  The loop over \<open>range(attempts)\<close>; the third result is the list of delays slept. The jitter of
  attempt \<open>n\<close> is drawn between 0 and half the base delay.
\<close>

function serializable_loop ::
  "'s world \<Rightarrow> ('s, 'a) operation \<Rightarrow> nat \<Rightarrow> rat \<Rightarrow> nat \<Rightarrow> 's \<Rightarrow> (tx_error + 'a) \<times> 's \<times> rat list" where
  "serializable_loop w operation attempts base_delay attempt db =
     (if attempts \<le> attempt then (Inl (OtherError (AssertionError ''unreachable'')), db, [])
      else (case run_attempt (wd_engine w attempt) operation (wd_interfere w attempt db) of
              (Inr x, db') \<Rightarrow> (Inr x, db', [])
            | (Inl e, db') \<Rightarrow>
                if \<not> retryable e then (Inl e, db', [])
                else if attempt + 1 = attempts then (Inl e, db', [])
                else let exponential = base_delay * 2 ^ attempt;
                         (r, db'', sleeps) = serializable_loop w operation attempts base_delay (attempt + 1) db'
                     in (r, db'', (exponential + wd_jitter w attempt) # sleeps)))"
  by pat_completeness auto
termination
  by (relation "measure (\<lambda>(w, operation, attempts, base_delay, attempt, db). attempts - attempt)") auto

declare serializable_loop.simps [simp del]

definition run_serializable ::
  "'s world \<Rightarrow> ('s, 'a) operation \<Rightarrow> int \<Rightarrow> rat \<Rightarrow> 's \<Rightarrow> (tx_error + 'a) \<times> 's \<times> rat list" where
  "run_serializable w operation attempts base_delay db =
     (if attempts < 1 then (Inl (OtherError (ValueError ''attempts must be positive'')), db, [])
      else if base_delay < 0 then (Inl (OtherError (ValueError ''base_delay cannot be negative'')), db, [])
      else serializable_loop w operation (nat attempts) base_delay 0 db)"

section \<open>The search reaches every wrapped exception\<close>

text \<open>The exceptions that an exception refers to, directly or through others.\<close>

definition wraps :: "exc_object list \<Rightarrow> nat \<Rightarrow> nat \<Rightarrow> bool" where
  "wraps heap i j \<longleftrightarrow> i < length heap \<and> j \<in> set (nested (heap ! i))"

definition coded :: "exc_object list \<Rightarrow> nat \<Rightarrow> string \<Rightarrow> bool" where
  "coded heap i code \<longleftrightarrow> i < length heap \<and> own_code (heap ! i) = Some code"

lemma wraps_nested: "i < length heap \<Longrightarrow> wraps heap i j \<longleftrightarrow> j \<in> set (nested (heap ! i))"
  by (simp add: wraps_def)

lemma sqlstate_loop_sound:
  "sqlstate_loop heap pending seen = Some code \<Longrightarrow> \<exists>i \<in> set pending. \<exists>j. (wraps heap)\<^sup>*\<^sup>* i j \<and> coded heap j code"
proof (induction heap pending seen rule: sqlstate_loop.induct)
  case (2 heap current pending seen)
  show ?case
  proof (cases "current \<in> seen \<or> length heap \<le> current")
    case False
    show ?thesis
    proof (cases "own_code (heap ! current)")
      case None
      with False 2 obtain i j where i: "i \<in> set (nested (heap ! current)) \<or> i \<in> set pending"
        and j: "(wraps heap)\<^sup>*\<^sup>* i j" "coded heap j code" by auto
      from i show ?thesis
      proof
        assume "i \<in> set (nested (heap ! current))"
        then have "wraps heap current i" using False by (simp add: wraps_nested)
        with j have "(wraps heap)\<^sup>*\<^sup>* current j" by (meson converse_rtranclp_into_rtranclp)
        with j(2) show ?thesis by auto
      qed (use j in auto)
    next
      case (Some c)
      with False 2(3) show ?thesis by (auto simp: coded_def)
    qed
  qed (use 2 in auto)
qed simp

text \<open>
  When the loop ends without a code, everything reachable from what it has seen or still holds
  is without one: the visited objects carry no code and refer only to visited or held objects.
\<close>

definition explored :: "exc_object list \<Rightarrow> nat list \<Rightarrow> nat set \<Rightarrow> bool" where
  "explored heap pending seen \<longleftrightarrow>
     (\<forall>k \<in> seen. (\<forall>code. \<not> coded heap k code)
        \<and> (\<forall>l. wraps heap k l \<longrightarrow> l \<in> seen \<or> length heap \<le> l \<or> l \<in> set pending))"

lemma explored_skip:
  "explored heap (c # pending) seen \<Longrightarrow> c \<in> seen \<or> length heap \<le> c \<Longrightarrow> explored heap pending seen"
  by (auto simp: explored_def)

lemma explored_visit:
  "explored heap (c # pending) seen \<Longrightarrow> own_code (heap ! c) = None
   \<Longrightarrow> explored heap (nested (heap ! c) @ pending) (insert c seen)"
  by (auto simp: explored_def coded_def wraps_def)

lemma explored_end:
  assumes "explored heap [] seen" "i \<in> seen \<or> length heap \<le> i" "(wraps heap)\<^sup>*\<^sup>* i j"
  shows "\<not> coded heap j code"
proof -
  have "j \<in> seen \<or> length heap \<le> j"
    using assms(3,2)
  proof (induction rule: rtranclp_induct)
    case (step y z)
    then show ?case using assms(1) by (auto simp: explored_def wraps_def)
  qed
  with assms(1) show ?thesis by (auto simp: explored_def coded_def)
qed

lemma sqlstate_loop_complete:
  "sqlstate_loop heap pending seen = None \<Longrightarrow> explored heap pending seen
   \<Longrightarrow> i \<in> set pending \<or> i \<in> seen \<or> length heap \<le> i \<Longrightarrow> (wraps heap)\<^sup>*\<^sup>* i j \<Longrightarrow> \<not> coded heap j code"
proof (induction heap pending seen arbitrary: i rule: sqlstate_loop.induct)
  case (1 heap seen)
  then show ?case using explored_end [of heap seen i j code] by simp
next
  case (2 heap current pending seen)
  show ?case
  proof (cases "current \<in> seen \<or> length heap \<le> current")
    case True
    with 2(3) have "sqlstate_loop heap pending seen = None" by simp
    then show ?thesis using 2(1) [OF True] explored_skip [OF 2(4) True] 2(5,6) True by auto
  next
    case False
    with 2(3) have code: "own_code (heap ! current) = None"
      "sqlstate_loop heap (nested (heap ! current) @ pending) (insert current seen) = None"
      by (auto split: option.splits)
    then show ?thesis using 2(2) [OF False code(1) code(2)] explored_visit [OF 2(4) code(1)] 2(5,6) by auto
  qed
qed

text \<open>
  The search through wrapped exceptions always ends, also on cycles of references; it finds
  no code exactly when no exception reachable through \<open>orig\<close>, \<open>__cause__\<close> and \<open>__context__\<close>
  carries one, any code it returns is carried by a reachable exception, and the code of the
  error itself comes first.
\<close>

theorem sqlstate_search:
  "(postgres_sqlstate heap error = None \<longleftrightarrow> (\<forall>i code. (wraps heap)\<^sup>*\<^sup>* error i \<longrightarrow> \<not> coded heap i code))
   \<and> (\<forall>code. postgres_sqlstate heap error = Some code \<longrightarrow> (\<exists>i. (wraps heap)\<^sup>*\<^sup>* error i \<and> coded heap i code))
   \<and> (\<forall>code. coded heap error code \<longrightarrow> postgres_sqlstate heap error = Some code)"
proof -
  have "\<not> coded heap i code" if "postgres_sqlstate heap error = None" "(wraps heap)\<^sup>*\<^sup>* error i" for i code
    using sqlstate_loop_complete [of heap "[error]" "{}" error i code] that
    by (simp add: postgres_sqlstate_def explored_def)
  moreover have "\<exists>i. (wraps heap)\<^sup>*\<^sup>* error i \<and> coded heap i code" if "postgres_sqlstate heap error = Some code" for code
    using sqlstate_loop_sound [of heap "[error]" "{}" code] that by (simp add: postgres_sqlstate_def)
  moreover have "postgres_sqlstate heap error = Some code" if "coded heap error code" for code
    using that by (simp add: coded_def postgres_sqlstate_def)
  ultimately show ?thesis by (metis not_None_eq)
qed


text \<open>A wrapper and the driver's exception that refer to each other.\<close>

definition sample_exceptions :: "exc_object list" where
  "sample_exceptions =
     [\<lparr> eo_sqlstate = None, eo_pgcode = None, eo_orig = Some 1, eo_cause = Some 1, eo_context = Some 1 \<rparr>,
      \<lparr> eo_sqlstate = Some ''40001'', eo_pgcode = None, eo_orig = None, eo_cause = Some 0, eo_context = None \<rparr>]"

theorem sqlstate_search_witness:
  "postgres_sqlstate sample_exceptions 0 = Some ''40001''
   \<and> (\<exists>i. (wraps sample_exceptions)\<^sup>*\<^sup>* 0 i \<and> coded sample_exceptions i ''40001'')"
proof -
  have "postgres_sqlstate sample_exceptions 0 = Some ''40001''" by code_simp
  with sqlstate_search [of sample_exceptions 0] show ?thesis by blast
qed

section \<open>What a retried transaction leaves behind\<close>

text \<open>
  The database that attempt \<open>m + k\<close> finds when \<open>db\<close> was there before attempt \<open>m\<close> and the
  attempts in between left nothing behind.
\<close>

fun snapshot :: "'s world \<Rightarrow> nat \<Rightarrow> nat \<Rightarrow> 's \<Rightarrow> 's" where
  "snapshot w m 0 db = wd_interfere w m db"
| "snapshot w m (Suc k) db = snapshot w (Suc m) k (wd_interfere w m db)"

definition failed_attempt :: "'s world \<Rightarrow> ('s, 'a) operation \<Rightarrow> nat \<Rightarrow> 's \<Rightarrow> bool" where
  "failed_attempt w operation n db \<longleftrightarrow>
     (case run_attempt (wd_engine w n) operation db of (Inl e, _) \<Rightarrow> retryable e | (Inr _, _) \<Rightarrow> False)"

lemma run_attempt_cases:
  assumes "run_attempt en operation db = (r, db')"
  shows "case r of Inr x \<Rightarrow> operation db = (Inr x, db') \<and> en_commit en = None | Inl e \<Rightarrow> db' = db"
  using assms by (auto simp: run_attempt_def split: option.splits prod.splits sum.splits)

lemma serializable_loop_outcome:
  assumes "serializable_loop w operation attempts base m db = (r, db', sleeps)" "m < attempts"
  shows "\<exists>d. m + d < attempts \<and> (\<forall>k < d. failed_attempt w operation (m + k) (snapshot w m k db))
    \<and> run_attempt (wd_engine w (m + d)) operation (snapshot w m d db) = (r, db')
    \<and> (\<forall>e. r = Inl e \<and> retryable e \<longrightarrow> Suc (m + d) = attempts)
    \<and> sleeps = map (\<lambda>k. base * 2 ^ k + wd_jitter w k) [m..<m + d]"
  using assms
proof (induction w operation attempts base m db arbitrary: r db' sleeps rule: serializable_loop.induct)
  case (1 w operation attempts base m db)
  obtain r1 db1 where tried: "run_attempt (wd_engine w m) operation (wd_interfere w m db) = (r1, db1)"
    by (metis prod.exhaust)
  note loop = 1(2) [unfolded serializable_loop.simps [of w operation attempts base m db] tried]
  show ?case
  proof (cases "\<exists>e. r1 = Inl e \<and> retryable e \<and> m + 1 \<noteq> attempts")
    case False
    then have "r = r1" "db' = db1" "sleeps = []" "\<forall>e. r1 = Inl e \<and> retryable e \<longrightarrow> Suc m = attempts"
      using loop 1(3) by (auto split: sum.splits if_splits)
    then show ?thesis using tried 1(3) by (intro exI [of _ 0]) auto
  next
    case True
    then obtain e where e: "r1 = Inl e" "retryable e" "m + 1 \<noteq> attempts" by blast
    have db1: "db1 = wd_interfere w m db" using run_attempt_cases [OF tried] e(1) by simp
    obtain rest where rest: "serializable_loop w operation attempts base (m + 1) db1 = (r, db', rest)"
      and sleeps: "sleeps = (base * 2 ^ m + wd_jitter w m) # rest"
      using loop e 1(3) by (auto simp: Let_def split: prod.splits)
    have more: "\<not> attempts \<le> m" "m + 1 < attempts" using 1(3) e(3) by simp_all
    obtain d where d: "m + 1 + d < attempts"
      "\<forall>k < d. failed_attempt w operation (m + 1 + k) (snapshot w (m + 1) k db1)"
      "run_attempt (wd_engine w (m + 1 + d)) operation (snapshot w (m + 1) d db1) = (r, db')"
      "\<forall>e. r = Inl e \<and> retryable e \<longrightarrow> Suc (m + 1 + d) = attempts"
      "rest = map (\<lambda>k. base * 2 ^ k + wd_jitter w k) [m + 1..<m + 1 + d]"
      using 1(1) [OF more(1) tried [symmetric] e(1) _ e(3) refl rest more(2)] e(2) by auto
    have "failed_attempt w operation (m + k) (snapshot w m k db)" if "k < Suc d" for k
      using that d(2) e tried db1 by (cases k) (auto simp: failed_attempt_def)
    moreover have "[m..<m + Suc d] = m # [m + 1..<m + 1 + d]" by (simp add: upt_conv_Cons)
    ultimately show ?thesis using d sleeps db1 by (intro exI [of _ "Suc d"]) auto
  qed
qed

text \<open>
  C29. A serializable use case runs at most the given number of transactions. All attempts before
  the last one failed with a serialization failure or a deadlock and left nothing behind; the
  outcome is that of the last attempt, which either committed the operation's effect on the
  database it found, or left that database as it was; a retryable error is reported only when
  the attempts are used up; and the delays between attempts double, plus jitter.
\<close>

theorem serializable_retry:
  assumes "1 \<le> attempts" "0 \<le> base_delay"
    "run_serializable w operation attempts base_delay db = (r, db', sleeps)"
  shows "\<exists>n. int n < attempts \<and> (\<forall>k < n. failed_attempt w operation k (snapshot w 0 k db))
    \<and> run_attempt (wd_engine w n) operation (snapshot w 0 n db) = (r, db')
    \<and> (case r of
         Inr x \<Rightarrow> operation (snapshot w 0 n db) = (Inr x, db') \<and> en_commit (wd_engine w n) = None
       | Inl e \<Rightarrow> db' = snapshot w 0 n db \<and> (retryable e \<longrightarrow> int n + 1 = attempts))
    \<and> sleeps = map (\<lambda>k. base_delay * 2 ^ k + wd_jitter w k) [0..<n]"
proof -
  have "serializable_loop w operation (nat attempts) base_delay 0 db = (r, db', sleeps)"
    using assms by (simp add: run_serializable_def)
  from serializable_loop_outcome [OF this] assms(1) obtain n where n: "n < nat attempts"
    "\<forall>k < n. failed_attempt w operation k (snapshot w 0 k db)"
    "run_attempt (wd_engine w n) operation (snapshot w 0 n db) = (r, db')"
    "\<forall>e. r = Inl e \<and> retryable e \<longrightarrow> Suc n = nat attempts"
    "sleeps = map (\<lambda>k. base_delay * 2 ^ k + wd_jitter w k) [0..<n]" by auto
  with run_attempt_cases [OF n(3)] assms(1) show ?thesis
    by (intro exI [of _ n]) (auto split: sum.splits)
qed

text \<open>
  A counter that another transaction raises in between: the first attempt fails to commit with a
  serialization failure wrapped in the driver's exception, the second succeeds.
\<close>

definition sample_conflict :: tx_error where
  "sample_conflict = DatabaseError sample_exceptions 0"

definition sample_world :: "int world" where
  "sample_world = \<lparr> wd_interfere = (\<lambda>n db. db + 10),
     wd_engine = (\<lambda>n. \<lparr> en_open = None, en_isolation = None,
                       en_commit = (if n = 0 then Some sample_conflict else None) \<rparr>),
     wd_jitter = (\<lambda>n. 0) \<rparr>"

theorem serializable_retry_witness:
  "run_serializable sample_world (\<lambda>db. (Inr (db + 1), db + 1)) 3 (1 / 100) 0 = (Inr 21, 21, [1 / 100])
   \<and> (\<exists>n. int n < 3 \<and> snapshot sample_world 0 n 0 = 20)"
proof -
  have run: "run_serializable sample_world (\<lambda>db. (Inr (db + 1), db + 1)) 3 (1 / 100) 0 = (Inr 21, 21, [1 / 100])"
    by code_simp
  from serializable_retry [OF _ _ run] show ?thesis using run by auto
qed

end
