(* ===== verification/Cache.thy ===== *)
theory Cache
  imports Py_Text
begin

text \<open>
  \<open>cache.py\<close>: the caches, the cache-aside query of delivery zones and the Redis lease.

  The Redis server is a parameter: a record of the commands the code sends. Each takes the
  server's time and may raise \<open>RedisError\<close>, before or after the command had its effect.
  What Redis documents of the commands is the predicate \<open>redis_documented\<close>. The contract of
  a cache is the locale \<open>cache_port\<close>; the in-memory cache and a cache on any Redis that behaves as
  documented satisfy it.
\<close>

section \<open>The in-memory cache\<close>

record CacheEntry =
  ce_value :: string
  ce_expires_at :: datetime

type_synonym InMemoryTTLCache = "(string \<times> CacheEntry) list"

definition mem_cache_get :: "datetime \<Rightarrow> string \<Rightarrow> (InMemoryTTLCache, string option) action" where
  "mem_cache_get now key entries =
     (case dict_get entries key of
        None \<Rightarrow> (Inr None, entries)
      | Some entry \<Rightarrow>
          if ce_expires_at entry \<le> now then (Inr None, dict_pop key entries)
          else (Inr (Some (ce_value entry)), entries))"

definition mem_cache_set :: "datetime \<Rightarrow> string \<Rightarrow> string \<Rightarrow> int \<Rightarrow> (InMemoryTTLCache, unit) action" where
  "mem_cache_set now key value ttl entries =
     (if ttl \<le> 0 then (Inl (ValueError ''cache TTL must be positive''), entries)
      else (Inr (), dict_set key \<lparr> ce_value = value, ce_expires_at = now + ttl \<rparr> entries))"

definition mem_cache_delete :: "datetime \<Rightarrow> string \<Rightarrow> (InMemoryTTLCache, unit) action" where
  "mem_cache_delete now key entries = (Inr (), dict_pop key entries)"

section \<open>The cache on Redis\<close>

text \<open>
  \<open>rd_set now key value nx px\<close> is \<open>SET key value PX px\<close>, with \<open>NX\<close> when \<open>nx\<close>; its answer says
  whether the value was set. \<open>rd_delete\<close> answers whether the key was there.
\<close>

record 'r redis_client =
  rd_get :: "datetime \<Rightarrow> string \<Rightarrow> ('r, string option) action"
  rd_set :: "datetime \<Rightarrow> string \<Rightarrow> string \<Rightarrow> bool \<Rightarrow> int \<Rightarrow> ('r, bool) action"
  rd_delete :: "datetime \<Rightarrow> string \<Rightarrow> ('r, bool) action"

definition redis_cache_get :: "'r redis_client \<Rightarrow> datetime \<Rightarrow> string \<Rightarrow> ('r, string option) action" where
  "redis_cache_get client now key = rd_get client now key"

text \<open>\<open>int(ttl.total_seconds())\<close> truncates towards zero; the key lives at least one second.\<close>

definition whole_seconds :: "int \<Rightarrow> int" where
  "whole_seconds ttl = (if 0 \<le> ttl then ttl div 1000000 else - (- ttl div 1000000))"

definition redis_cache_set :: "'r redis_client \<Rightarrow> datetime \<Rightarrow> string \<Rightarrow> string \<Rightarrow> int \<Rightarrow> ('r, unit) action" where
  "redis_cache_set client now key value ttl =
     andThen (rd_set client now key value False (1000 * max 1 (whole_seconds ttl))) (\<lambda>_. ret ())"

definition redis_cache_delete :: "'r redis_client \<Rightarrow> datetime \<Rightarrow> string \<Rightarrow> ('r, unit) action" where
  "redis_cache_delete client now key = andThen (rd_delete client now key) (\<lambda>_. ret ())"

section \<open>Delivery zones\<close>

record DeliveryZoneRead =
  dz_id :: uuid
  dz_name :: string
  dz_version :: int

text \<open>The constraints of the model's fields.\<close>

definition zone_valid :: "DeliveryZoneRead \<Rightarrow> bool" where
  "zone_valid z \<longleftrightarrow> 1 \<le> length (dz_name z) \<and> length (dz_name z) \<le> 120 \<and> 1 \<le> dz_version z"

record 's Cache =
  ca_get :: "datetime \<Rightarrow> string \<Rightarrow> ('s, string option) action"
  ca_set :: "datetime \<Rightarrow> string \<Rightarrow> string \<Rightarrow> int \<Rightarrow> ('s, unit) action"
  ca_delete :: "datetime \<Rightarrow> string \<Rightarrow> ('s, unit) action"

definition in_memory_cache :: "InMemoryTTLCache Cache" where
  "in_memory_cache = \<lparr> ca_get = mem_cache_get, ca_set = mem_cache_set, ca_delete = mem_cache_delete \<rparr>"

definition redis_cache :: "'r redis_client \<Rightarrow> 'r Cache" where
  "redis_cache client = \<lparr> ca_get = redis_cache_get client, ca_set = redis_cache_set client,
     ca_delete = redis_cache_delete client \<rparr>"

text \<open>The JSON form of a zone: pydantic's \<open>model_dump_json\<close> and \<open>model_validate_json\<close>.\<close>

record zone_codec =
  zc_dump :: "DeliveryZoneRead \<Rightarrow> string"
  zc_validate :: "string \<Rightarrow> DeliveryZoneRead option"

record 's DeliveryZoneCacheAside =
  za_cache :: "'s Cache"
  za_ttl :: int
  za_codec :: zone_codec

definition cache_aside_init :: "'s Cache \<Rightarrow> int \<Rightarrow> zone_codec \<Rightarrow> 's DeliveryZoneCacheAside result" where
  "cache_aside_init cache ttl codec =
     (if ttl \<le> 0 then Inl (ValueError ''cache TTL must be positive'')
      else Inr \<lparr> za_cache = cache, za_ttl = ttl, za_codec = codec \<rparr>)"

definition zone_key :: "uuid \<Rightarrow> string" where
  "zone_key zone_id = ''delivery:cache:v1:zone:'' @ str_uuid zone_id"

text \<open>\<open>try ... except RedisError\<close>: only this error is answered with a default.\<close>

definition best_effort :: "'a \<Rightarrow> ('s, 'a) action \<Rightarrow> ('s, 'a) action" where
  "best_effort fallback m s =
     (case m s of (Inl RedisError, s') \<Rightarrow> (Inr fallback, s') | (r, s') \<Rightarrow> (r, s'))"

definition delete_best_effort :: "'s DeliveryZoneCacheAside \<Rightarrow> datetime \<Rightarrow> string \<Rightarrow> ('s, unit) action" where
  "delete_best_effort za now key = best_effort () (ca_delete (za_cache za) now key)"

text \<open>
  \<open>get\<close> awaits the cache, the loader and the cache again, and other calls run in between; its
  parts are a lookup, the removal of a text that is no zone, the load and the store.
\<close>

datatype lookup = Hit DeliveryZoneRead | Garbage | Miss

definition zone_lookup :: "'s DeliveryZoneCacheAside \<Rightarrow> datetime \<Rightarrow> uuid \<Rightarrow> ('s, lookup) action" where
  "zone_lookup za now zone_id =
     andThen (best_effort None (ca_get (za_cache za) now (zone_key zone_id))) (\<lambda>cached.
     ret (case cached of
            None \<Rightarrow> Miss
          | Some text \<Rightarrow> (case zc_validate (za_codec za) text of Some zone \<Rightarrow> Hit zone | None \<Rightarrow> Garbage)))"

definition zone_store :: "'s DeliveryZoneCacheAside \<Rightarrow> datetime \<Rightarrow> uuid \<Rightarrow> DeliveryZoneRead \<Rightarrow> ('s, unit) action" where
  "zone_store za now zone_id zone =
     best_effort () (ca_set (za_cache za) now (zone_key zone_id) (zc_dump (za_codec za) zone) (za_ttl za))"

definition zone_invalidate :: "'s DeliveryZoneCacheAside \<Rightarrow> datetime \<Rightarrow> uuid \<Rightarrow> ('s, unit) action" where
  "zone_invalidate za now zone_id = delete_best_effort za now (zone_key zone_id)"

section \<open>The lease\<close>

record RedisLease =
  le_key :: string
  le_token :: string

definition lease_acquire ::
  "'r redis_client \<Rightarrow> datetime \<Rightarrow> string \<Rightarrow> string \<Rightarrow> int \<Rightarrow> ('r, RedisLease option) action" where
  "lease_acquire client now token key ttl_ms =
     andThen (check (\<not> ttl_ms \<le> 0) (ValueError ''lease TTL must be positive'')) (\<lambda>_.
     andThen (rd_set client now key token True ttl_ms) (\<lambda>acquired.
     ret (if acquired then Some \<lparr> le_key = key, le_token = token \<rparr> else None)))"

text \<open>The script \<open>RELEASE_IF_OWNER\<close>, which Redis runs as one step.\<close>

definition RELEASE_IF_OWNER :: "'r redis_client \<Rightarrow> datetime \<Rightarrow> string \<Rightarrow> string \<Rightarrow> ('r, bool) action" where
  "RELEASE_IF_OWNER client now key token =
     andThen (rd_get client now key) (\<lambda>value.
       if value = Some token then rd_delete client now key else ret False)"

definition lease_release :: "'r redis_client \<Rightarrow> datetime \<Rightarrow> RedisLease \<Rightarrow> ('r, bool) action" where
  "lease_release client now lease = RELEASE_IF_OWNER client now (le_key lease) (le_token lease)"


section \<open>The contract of a cache\<close>

text \<open>
  \<open>visible s t key\<close> is what a read of \<open>key\<close> at time \<open>t\<close> would find in state \<open>s\<close>. A read never
  invents a value, a write makes no other value visible and not for longer than its time to
  live (at least a second), and what was deleted is gone. The only failure is \<open>RedisError\<close>.
\<close>

locale cache_port =
  fixes cache :: "'s Cache"
    and visible :: "'s \<Rightarrow> datetime \<Rightarrow> string \<Rightarrow> string option"
  assumes get_value: "ca_get cache now k s = (Inr (Some v), s') \<Longrightarrow> visible s now k = Some v"
    and get_error: "ca_get cache now k s = (Inl e, s') \<Longrightarrow> e = RedisError"
    and get_frame: "ca_get cache now k s = (got, s') \<Longrightarrow> now \<le> t \<Longrightarrow> visible s' t k' = Some v \<Longrightarrow> visible s t k' = Some v"
    and set_error: "0 < ttl \<Longrightarrow> ca_set cache now k v ttl s = (Inl e, s') \<Longrightarrow> e = RedisError"
    and set_frame: "0 < ttl \<Longrightarrow> ca_set cache now k v ttl s = (r, s') \<Longrightarrow> now \<le> t \<Longrightarrow> visible s' t k' = Some v' \<Longrightarrow>
      visible s t k' = Some v' \<or> k' = k \<and> v' = v \<and> t < now + max ttl 1000000"
    and delete_error: "ca_delete cache now k s = (Inl e, s') \<Longrightarrow> e = RedisError"
    and delete_frame: "ca_delete cache now k s = (r, s') \<Longrightarrow> now \<le> t \<Longrightarrow> visible s' t k' = Some v \<Longrightarrow>
      visible s t k' = Some v \<and> (r = Inr () \<longrightarrow> k' \<noteq> k)"

section \<open>Interleaved reads and invalidations\<close>

text \<open>
  Where a read stands between two awaits: it has to remove a text that is no zone, has to load,
  or has to store the zone it loaded, with the time of the load.
\<close>

datatype zone_reader = Discarding uuid | Loading uuid | Storing uuid DeliveryZoneRead datetime

text \<open>
  What happened, in order: a copy was written to the cache, with the times of its load and of
  the write; an invalidation succeeded; a read answered from the cache, or with what the
  loader gave it; a call raised out of the cache code.
\<close>

datatype zone_event =
    Stored uuid DeliveryZoneRead datetime datetime
  | Dropped uuid
  | Served uuid DeliveryZoneRead datetime
  | Returned uuid "DeliveryZoneRead result" datetime
  | Raised exn

record 's zone_world =
  zw_now :: datetime
  zw_cache :: 's
  zw_reader :: "nat \<Rightarrow> zone_reader option"
  zw_log :: "zone_event list"

text \<open>
  \<open>source t i\<close> are the answers \<open>load_from_postgres\<close> may give at time \<open>t\<close>. Time passes between any
  two steps, any number of reads are under way, and a read may be cancelled.
\<close>

inductive zone_step ::
  "'s DeliveryZoneCacheAside \<Rightarrow> (datetime \<Rightarrow> uuid \<Rightarrow> DeliveryZoneRead result set) \<Rightarrow> 's zone_world \<Rightarrow> 's zone_world \<Rightarrow> bool"
  for za source where
  tick: "zw_now w \<le> t \<Longrightarrow> zone_step za source w (w \<lparr> zw_now := t \<rparr>)"
| hit: "zone_lookup za (zw_now w) i (zw_cache w) = (Inr (Hit z), c) \<Longrightarrow>
    zone_step za source w (w \<lparr> zw_cache := c, zw_log := zw_log w @ [Served i z (zw_now w)] \<rparr>)"
| miss: "zw_reader w n = None \<Longrightarrow> zone_lookup za (zw_now w) i (zw_cache w) = (Inr Miss, c) \<Longrightarrow>
    zone_step za source w (w \<lparr> zw_cache := c, zw_reader := (zw_reader w)(n \<mapsto> Loading i) \<rparr>)"
| garbage: "zw_reader w n = None \<Longrightarrow> zone_lookup za (zw_now w) i (zw_cache w) = (Inr Garbage, c) \<Longrightarrow>
    zone_step za source w (w \<lparr> zw_cache := c, zw_reader := (zw_reader w)(n \<mapsto> Discarding i) \<rparr>)"
| lookup_raises: "zone_lookup za (zw_now w) i (zw_cache w) = (Inl e, c) \<Longrightarrow>
    zone_step za source w (w \<lparr> zw_cache := c, zw_log := zw_log w @ [Raised e] \<rparr>)"
| discard: "zw_reader w n = Some (Discarding i) \<Longrightarrow> delete_best_effort za (zw_now w) (zone_key i) (zw_cache w) = (r, c) \<Longrightarrow>
    zone_step za source w (case r of
       Inr _ \<Rightarrow> w \<lparr> zw_cache := c, zw_reader := (zw_reader w)(n \<mapsto> Loading i) \<rparr>
     | Inl e \<Rightarrow> w \<lparr> zw_cache := c, zw_reader := (zw_reader w)(n := None), zw_log := zw_log w @ [Raised e] \<rparr>)"
| load: "zw_reader w n = Some (Loading i) \<Longrightarrow> Inr z \<in> source (zw_now w) i \<Longrightarrow> zone_valid z \<Longrightarrow>
    zone_step za source w (w \<lparr> zw_reader := (zw_reader w)(n \<mapsto> Storing i z (zw_now w)) \<rparr>)"
| load_fails: "zw_reader w n = Some (Loading i) \<Longrightarrow> Inl e \<in> source (zw_now w) i \<Longrightarrow>
    zone_step za source w (w \<lparr> zw_reader := (zw_reader w)(n := None), zw_log := zw_log w @ [Returned i (Inl e) (zw_now w)] \<rparr>)"
| store: "zw_reader w n = Some (Storing i z t) \<Longrightarrow> zone_store za (zw_now w) i z (zw_cache w) = (r, c) \<Longrightarrow>
    zone_step za source w (w \<lparr> zw_cache := c, zw_reader := (zw_reader w)(n := None), zw_log := zw_log w @
      [Stored i z t (zw_now w), case r of Inr _ \<Rightarrow> Returned i (Inr z) t | Inl e \<Rightarrow> Raised e] \<rparr>)"
| invalidate: "zone_invalidate za (zw_now w) i (zw_cache w) = (r, c) \<Longrightarrow>
    zone_step za source w (w \<lparr> zw_cache := c, zw_log := zw_log w @ (case r of
       Inl e \<Rightarrow> [Raised e]
     | Inr _ \<Rightarrow> if fst (ca_delete (za_cache za) (zw_now w) (zone_key i) (zw_cache w)) = Inr () then [Dropped i] else []) \<rparr>)"
| cancel: "zone_step za source w (w \<lparr> zw_reader := (zw_reader w)(n := None) \<rparr>)"

definition zone_start :: "'s \<Rightarrow> datetime \<Rightarrow> 's zone_world" where
  "zone_start c t = \<lparr> zw_now = t, zw_cache = c, zw_reader = (\<lambda>_. None), zw_log = [] \<rparr>"

text \<open>
  The last copy of a zone written before a moment of the log, not dropped since: it came out of
  the source of truth, and was written less than a time to live ago.
\<close>

definition recent_copy ::
  "int \<Rightarrow> (datetime \<Rightarrow> uuid \<Rightarrow> DeliveryZoneRead result set) \<Rightarrow> zone_event list \<Rightarrow> datetime \<Rightarrow> uuid \<Rightarrow> DeliveryZoneRead \<Rightarrow> bool" where
  "recent_copy ttl source lg now i z \<longleftrightarrow>
     (\<exists>pre loaded written post. lg = pre @ Stored i z loaded written # post \<and> Dropped i \<notin> set post
        \<and> Inr z \<in> source loaded i \<and> loaded \<le> written \<and> now < written + max ttl 1000000)"

lemma zone_key_inject [simp]: "zone_key i = zone_key j \<longleftrightarrow> i = j"
  by (auto simp: zone_key_def dest: str_uuid_inject [THEN iffD1])

lemma best_effort_Inl: "best_effort d m s = (Inl e, s') \<longleftrightarrow> m s = (Inl e, s') \<and> e \<noteq> RedisError"
  by (auto simp: best_effort_def split: prod.splits sum.splits exn.splits)

lemma best_effort_Inr:
  "best_effort d m s = (Inr x, s') \<longleftrightarrow> m s = (Inr x, s') \<or> m s = (Inl RedisError, s') \<and> x = d"
  by (auto simp: best_effort_def split: prod.splits sum.splits exn.splits)

definition codec_documented :: "zone_codec \<Rightarrow> bool" where
  "codec_documented codec \<longleftrightarrow> (\<forall>z. zone_valid z \<longrightarrow> zc_validate codec (zc_dump codec z) = Some z)"

text \<open>
  Every visible copy of a zone is the text of a recent one; a zone that waits to be stored came
  out of the source; and the log says so of the past: what was served was a recent copy then,
  what was returned came out of the source, and nothing was raised.
\<close>

definition copies_ok ::
  "('s \<Rightarrow> datetime \<Rightarrow> string \<Rightarrow> string option) \<Rightarrow> 's DeliveryZoneCacheAside \<Rightarrow>
   (datetime \<Rightarrow> uuid \<Rightarrow> DeliveryZoneRead result set) \<Rightarrow> datetime \<Rightarrow> zone_event list \<Rightarrow> 's \<Rightarrow> bool" where
  "copies_ok visible za source now lg s \<longleftrightarrow>
     (\<forall>t i v. now \<le> t \<and> visible s t (zone_key i) = Some v \<longrightarrow>
        (\<exists>z. zone_valid z \<and> v = zc_dump (za_codec za) z \<and> recent_copy (za_ttl za) source lg t i z))"

definition log_ok :: "int \<Rightarrow> (datetime \<Rightarrow> uuid \<Rightarrow> DeliveryZoneRead result set) \<Rightarrow> zone_event list \<Rightarrow> bool" where
  "log_ok ttl source lg \<longleftrightarrow>
     (\<forall>pre i z t post. lg = pre @ Served i z t # post \<longrightarrow> recent_copy ttl source pre t i z)
   \<and> (\<forall>i r t. Returned i r t \<in> set lg \<longrightarrow> r \<in> source t i) \<and> (\<forall>e. Raised e \<notin> set lg)"

definition world_ok ::
  "('s \<Rightarrow> datetime \<Rightarrow> string \<Rightarrow> string option) \<Rightarrow> 's DeliveryZoneCacheAside \<Rightarrow>
   (datetime \<Rightarrow> uuid \<Rightarrow> DeliveryZoneRead result set) \<Rightarrow> 's zone_world \<Rightarrow> bool" where
  "world_ok visible za source w \<longleftrightarrow>
     copies_ok visible za source (zw_now w) (zw_log w) (zw_cache w) \<and> log_ok (za_ttl za) source (zw_log w)
   \<and> (\<forall>n i z t. zw_reader w n = Some (Storing i z t) \<longrightarrow> Inr z \<in> source t i \<and> zone_valid z \<and> t \<le> zw_now w)"

lemma recent_copy_append:
  "recent_copy ttl source lg now i z \<Longrightarrow> Dropped i \<notin> set lg' \<Longrightarrow> recent_copy ttl source (lg @ lg') now i z"
  unfolding recent_copy_def by (metis (no_types, lifting) Un_iff append.assoc append_Cons set_append)

lemma log_ok_snoc:
  assumes "log_ok ttl source lg"
    "case x of Served i z t \<Rightarrow> recent_copy ttl source lg t i z | Returned i r t \<Rightarrow> r \<in> source t i | Raised e \<Rightarrow> False | _ \<Rightarrow> True"
  shows "log_ok ttl source (lg @ [x])"
proof -
  have "recent_copy ttl source pre t i z" if "lg @ [x] = pre @ Served i z t # post" for pre i z t post
    using that assms by (cases post rule: rev_cases) (auto simp: log_ok_def)
  with assms show ?thesis by (cases x) (auto simp: log_ok_def)
qed

text \<open>What a change of the cache may do to the copies: nothing new, or one new copy.\<close>

lemma copies_ok_mono:
  assumes "copies_ok visible za source t lg s" "t \<le> now"
    "\<And>u k v. now \<le> u \<Longrightarrow> visible s' u k = Some v \<Longrightarrow> visible s u k = Some v"
  shows "copies_ok visible za source now lg s'"
  using assms(1,2) assms(3) unfolding copies_ok_def by (meson order_trans)

lemma copies_ok_log:
  assumes "copies_ok visible za source now lg s"
    "\<And>i u. Dropped i \<in> set lg' \<Longrightarrow> now \<le> u \<Longrightarrow> visible s u (zone_key i) = None"
  shows "copies_ok visible za source now (lg @ lg') s"
  unfolding copies_ok_def
proof (intro allI impI, elim conjE)
  fix u i v
  assume u: "now \<le> u" "visible s u (zone_key i) = Some v"
  then have "Dropped i \<notin> set lg'" using assms(2) by fastforce
  with assms(1) u show "\<exists>z. zone_valid z \<and> v = zc_dump (za_codec za) z \<and> recent_copy (za_ttl za) source (lg @ lg') u i z"
    unfolding copies_ok_def using recent_copy_append by metis
qed

lemma copies_ok_store:
  assumes "copies_ok visible za source now lg s" "Inr z \<in> source t i" "zone_valid z" "t \<le> now"
    and new: "\<And>u k v. now \<le> u \<Longrightarrow> visible s' u k = Some v \<Longrightarrow> visible s u k = Some v
        \<or> k = zone_key i \<and> v = zc_dump (za_codec za) z \<and> u < now + max (za_ttl za) 1000000"
  shows "copies_ok visible za source now (lg @ [Stored i z t now]) s'"
  unfolding copies_ok_def
proof (intro allI impI, elim conjE)
  fix u j v
  assume u: "now \<le> u" "visible s' u (zone_key j) = Some v"
  from new [OF this]
  show "\<exists>z'. zone_valid z' \<and> v = zc_dump (za_codec za) z' \<and> recent_copy (za_ttl za) source (lg @ [Stored i z t now]) u j z'"
  proof
    assume "visible s u (zone_key j) = Some v"
    with assms(1) u(1) show ?thesis
      unfolding copies_ok_def using recent_copy_append [where lg' = "[Stored i z t now]"] by fastforce
  next
    assume "zone_key j = zone_key i \<and> v = zc_dump (za_codec za) z \<and> u < now + max (za_ttl za) 1000000"
    then have "recent_copy (za_ttl za) source (lg @ [Stored i z t now]) u j z" "v = zc_dump (za_codec za) z"
      using assms(2,4) by (fastforce simp: recent_copy_def)+
    with assms(3) show ?thesis by blast
  qed
qed

context cache_port
begin

lemma deleted:
  assumes "delete_best_effort za now k s = (r, s')" "za_cache za = cache"
  shows "r = Inr ()" "now \<le> u \<Longrightarrow> visible s' u k' = Some v \<Longrightarrow> visible s u k' = Some v"
    "fst (ca_delete cache now k s) = Inr () \<Longrightarrow> now \<le> u \<Longrightarrow> visible s' u k = None"
proof -
  obtain q where q: "ca_delete cache now k s = (q, s')" "q = Inr () \<or> q = Inl RedisError" "r = Inr ()"
    using assms delete_error [of now k s]
    by (cases r) (auto simp: delete_best_effort_def best_effort_Inl best_effort_Inr)
  then show "r = Inr ()" "now \<le> u \<Longrightarrow> visible s' u k' = Some v \<Longrightarrow> visible s u k' = Some v"
    using delete_frame by blast+
  show "fst (ca_delete cache now k s) = Inr () \<Longrightarrow> now \<le> u \<Longrightarrow> visible s' u k = None"
    using q(1) delete_frame [OF q(1)] by (cases "visible s' u k") auto
qed

lemma looked_up:
  assumes "zone_lookup za now i s = (r, s')" "za_cache za = cache"
  shows "r \<noteq> Inl e" "now \<le> u \<Longrightarrow> visible s' u k = Some v \<Longrightarrow> visible s u k = Some v"
    "r = Inr (Hit z) \<Longrightarrow> \<exists>v. visible s now (zone_key i) = Some v \<and> zc_validate (za_codec za) v = Some z"
proof -
  obtain q s1 where q: "ca_get cache now (zone_key i) s = (q, s1)" by fastforce
  have eq: "s' = s1" "case q of Inl x \<Rightarrow> r = Inr Miss
      | Inr None \<Rightarrow> r = Inr Miss
      | Inr (Some v) \<Rightarrow> r = Inr (case zc_validate (za_codec za) v of Some z \<Rightarrow> Hit z | None \<Rightarrow> Garbage)"
    using assms q get_error [of now "zone_key i" s]
    by (auto simp: zone_lookup_def best_effort_def action_defs split: sum.splits option.splits)
  show "r \<noteq> Inl e" using eq(2) by (auto split: sum.splits option.splits)
  show "now \<le> u \<Longrightarrow> visible s' u k = Some v \<Longrightarrow> visible s u k = Some v" using get_frame [OF q] eq(1) by blast
  show "\<exists>v. visible s now (zone_key i) = Some v \<and> zc_validate (za_codec za) v = Some z" if "r = Inr (Hit z)"
    using eq(2) that q by (auto split: sum.splits option.splits intro: get_value)
qed

lemma stored:
  assumes "zone_store za now i z s = (r, s')" "za_cache za = cache" "0 < za_ttl za"
  shows "r = Inr ()" "now \<le> u \<Longrightarrow> visible s' u k = Some v \<Longrightarrow> visible s u k = Some v
    \<or> k = zone_key i \<and> v = zc_dump (za_codec za) z \<and> u < now + max (za_ttl za) 1000000"
proof -
  obtain q where q: "ca_set cache now (zone_key i) (zc_dump (za_codec za) z) (za_ttl za) s = (q, s')" "r = Inr ()"
    using assms(1,2) set_error [OF assms(3)]
    by (cases r) (auto simp: zone_store_def best_effort_Inl best_effort_Inr)
  then show "r = Inr ()" "now \<le> u \<Longrightarrow> visible s' u k = Some v \<Longrightarrow> visible s u k = Some v
    \<or> k = zone_key i \<and> v = zc_dump (za_codec za) z \<and> u < now + max (za_ttl za) 1000000"
    using set_frame [OF assms(3) q(1)] by blast+
qed

lemma hit_recent:
  assumes "world_ok visible za source w" "codec_documented (za_codec za)" "za_cache za = cache"
    "zone_lookup za (zw_now w) i (zw_cache w) = (Inr (Hit z), c)"
  shows "recent_copy (za_ttl za) source (zw_log w) (zw_now w) i z"
proof -
  from looked_up(3) [OF assms(4,3) refl] obtain v where
    v: "visible (zw_cache w) (zw_now w) (zone_key i) = Some v" "zc_validate (za_codec za) v = Some z" by blast
  from assms(1) v(1) obtain z' where "zone_valid z'" "v = zc_dump (za_codec za) z'"
    "recent_copy (za_ttl za) source (zw_log w) (zw_now w) i z'" unfolding world_ok_def copies_ok_def by blast
  with v(2) assms(2) show ?thesis by (simp add: codec_documented_def)
qed

lemma world_ok_step:
  assumes "zone_step za source w w'" "world_ok visible za source w" "za_cache za = cache" "0 < za_ttl za"
    "codec_documented (za_codec za)"
  shows "world_ok visible za source w'"
proof -
  note inv = assms(2) [unfolded world_ok_def]
  have same: "copies_ok visible za source (zw_now w) (zw_log w) c"
    if "\<And>u k v. zw_now w \<le> u \<Longrightarrow> visible c u k = Some v \<Longrightarrow> visible (zw_cache w) u k = Some v" for c
    using copies_ok_mono [of visible za source "zw_now w" "zw_log w" "zw_cache w" "zw_now w" c] inv that by blast
  from assms(1) show ?thesis
  proof cases
    case (tick t)
    then show ?thesis using inv copies_ok_mono [of visible za source "zw_now w" _ "zw_cache w" t]
      by (fastforce simp: world_ok_def)
  next
    case (hit i z c)
    have kept: "copies_ok visible za source (zw_now w) (zw_log w) c" by (rule same) (rule looked_up(2) [OF hit(2) assms(3)])
    have "log_ok (za_ttl za) source (zw_log w @ [Served i z (zw_now w)])"
      using log_ok_snoc [of _ source "zw_log w" "Served i z (zw_now w)"] hit_recent [OF assms(2,5,3) hit(2)] inv by simp
    with hit inv copies_ok_log [OF kept, of "[Served i z (zw_now w)]"] show ?thesis by (simp add: world_ok_def)
  next
    case (miss n i c)
    have kept: "copies_ok visible za source (zw_now w) (zw_log w) c" by (rule same) (rule looked_up(2) [OF miss(3) assms(3)])
    with miss(1) inv kept show ?thesis by (simp add: world_ok_def)
  next
    case (garbage n i c)
    have kept: "copies_ok visible za source (zw_now w) (zw_log w) c" by (rule same) (rule looked_up(2) [OF garbage(3) assms(3)])
    with garbage(1) inv kept show ?thesis by (simp add: world_ok_def)
  next
    case (lookup_raises i e c)
    then show ?thesis using looked_up(1) [OF lookup_raises(2) assms(3)] by blast
  next
    case (discard n i r c)
    note del = deleted [OF discard(3) assms(3)]
    have kept: "copies_ok visible za source (zw_now w) (zw_log w) c" by (rule same) (rule del(2))
    with discard(1) del(1) inv kept show ?thesis by (simp add: world_ok_def)
  next
    case (load_fails n i e)
    have "log_ok (za_ttl za) source (zw_log w @ [Returned i (Inl e) (zw_now w)])"
      using log_ok_snoc [of _ source "zw_log w" "Returned i (Inl e) (zw_now w)"] load_fails(3) inv by simp
    with load_fails(1) inv copies_ok_log [of visible za source "zw_now w" "zw_log w" "zw_cache w" "[Returned i (Inl e) (zw_now w)]"]
    show ?thesis by (simp add: world_ok_def)
  next
    case (store n i z t r c)
    note st = stored [OF store(3) assms(3,4)]
    have z: "Inr z \<in> source t i" "zone_valid z" "t \<le> zw_now w" using inv store(2) by blast+
    have "log_ok (za_ttl za) source ((zw_log w @ [Stored i z t (zw_now w)]) @ [Returned i (Inr z) t])"
      by (intro log_ok_snoc) (use inv z in simp_all)
    moreover have "copies_ok visible za source (zw_now w) ((zw_log w @ [Stored i z t (zw_now w)]) @ [Returned i (Inr z) t]) c"
      by (intro copies_ok_log copies_ok_store [OF conjunct1 [OF inv] _ z(2,3)]) (use z(1) st(2) in auto)
    ultimately show ?thesis using store(1) st(1) inv by (simp add: world_ok_def)
  next
    case (invalidate i r c)
    note del = deleted [OF invalidate(2) [unfolded zone_invalidate_def] assms(3)]
    let ?lg = "if fst (ca_delete cache (zw_now w) (zone_key i) (zw_cache w)) = Inr () then [Dropped i] else []"
    have "copies_ok visible za source (zw_now w) (zw_log w @ ?lg) c"
      by (intro copies_ok_log same del(2)) (auto simp: del(3) split: if_splits)
    moreover have "log_ok (za_ttl za) source (zw_log w @ ?lg)" using inv log_ok_snoc [of _ source "zw_log w" "Dropped i"] by simp
    ultimately show ?thesis using invalidate(1) del(1) inv assms(3) by (simp add: world_ok_def)
  qed (use inv in \<open>auto simp: world_ok_def\<close>)
qed

lemma zone_run_log:
  assumes "(zone_step za source)\<^sup>*\<^sup>* (zone_start s0 t0) w" "za_cache za = cache" "0 < za_ttl za"
    "codec_documented (za_codec za)" "\<And>t k. visible s0 t k = None"
  shows "log_ok (za_ttl za) source (zw_log w)"
proof -
  from assms(1) have "world_ok visible za source w"
  proof (induction rule: rtranclp_induct)
    case base
    then show ?case using assms(5) by (simp add: world_ok_def zone_start_def copies_ok_def log_ok_def)
  qed (rule world_ok_step [OF _ _ assms(2-4)])
  then show ?thesis by (simp add: world_ok_def)
qed

end

section \<open>The providers\<close>

definition mem_visible :: "InMemoryTTLCache \<Rightarrow> datetime \<Rightarrow> string \<Rightarrow> string option" where
  "mem_visible entries t key =
     (case dict_get entries key of
        None \<Rightarrow> None
      | Some entry \<Rightarrow> if t < ce_expires_at entry then Some (ce_value entry) else None)"

interpretation mem_cache: cache_port in_memory_cache mem_visible
  by unfold_locales
    (auto simp: in_memory_cache_def mem_cache_get_def mem_cache_set_def mem_cache_delete_def mem_visible_def
       delete_conv' split: option.splits if_splits)

text \<open>
  What Redis documents: a read returns the value until it expires; a write with \<open>NX\<close> happens
  exactly when the key is absent and then makes the value visible for its time to live; a
  deletion removes the key; no command touches another key; a command that fails may have had
  its effect.
\<close>

definition redis_set_effect ::
  "('r \<Rightarrow> datetime \<Rightarrow> string \<Rightarrow> string option) \<Rightarrow> datetime \<Rightarrow> string \<Rightarrow> string \<Rightarrow> int \<Rightarrow> 'r \<Rightarrow> bool" where
  "redis_set_effect visible now k v px r' \<longleftrightarrow>
     (\<forall>t \<ge> now. visible r' t k = (if t < now + 1000 * px then Some v else None))"

definition redis_same ::
  "('r \<Rightarrow> datetime \<Rightarrow> string \<Rightarrow> string option) \<Rightarrow> datetime \<Rightarrow> string \<Rightarrow> 'r \<Rightarrow> 'r \<Rightarrow> bool" where
  "redis_same visible now k r r' \<longleftrightarrow> (\<forall>t \<ge> now. visible r' t k = visible r t k)"

definition redis_documented ::
  "'r redis_client \<Rightarrow> ('r \<Rightarrow> datetime \<Rightarrow> string \<Rightarrow> string option) \<Rightarrow> bool" where
  "redis_documented client visible \<longleftrightarrow>
     (\<forall>now k r a r'. rd_get client now k r = (a, r') \<longrightarrow>
        (\<forall>k'. redis_same visible now k' r r') \<and> (a = Inl RedisError \<or> a = Inr (visible r now k)))
   \<and> (\<forall>now k v nx px r a r'. rd_set client now k v nx px r = (a, r') \<longrightarrow>
        (\<forall>k'. k' \<noteq> k \<longrightarrow> redis_same visible now k' r r')
        \<and> (let blocked = (nx \<and> visible r now k \<noteq> None) in
             a = Inr True \<and> \<not> blocked \<and> redis_set_effect visible now k v px r'
             \<or> a = Inr False \<and> blocked \<and> redis_same visible now k r r'
             \<or> a = Inl RedisError \<and> (redis_same visible now k r r' \<or> \<not> blocked \<and> redis_set_effect visible now k v px r')))
   \<and> (\<forall>now k r a r'. rd_delete client now k r = (a, r') \<longrightarrow>
        (\<forall>k'. k' \<noteq> k \<longrightarrow> redis_same visible now k' r r')
        \<and> (let gone = (\<forall>t \<ge> now. visible r' t k = None) in
             a = Inr (visible r now k \<noteq> None) \<and> gone
             \<or> a = Inl RedisError \<and> (redis_same visible now k r r' \<or> gone)))"


lemma redis_getD:
  assumes "redis_documented client visible" "rd_get client now k r = (a, r')"
  shows "redis_same visible now k' r r'" "a = Inl RedisError \<or> a = Inr (visible r now k)"
  using assms(1) [unfolded redis_documented_def, THEN conjunct1, rule_format, OF assms(2)] by simp_all

lemma redis_setD:
  assumes "redis_documented client visible" "rd_set client now k v nx px r = (a, r')"
  shows "k' \<noteq> k \<Longrightarrow> redis_same visible now k' r r'"
    "a = Inr True \<and> \<not> (nx \<and> visible r now k \<noteq> None) \<and> redis_set_effect visible now k v px r'
     \<or> a = Inr False \<and> nx \<and> visible r now k \<noteq> None \<and> redis_same visible now k r r'
     \<or> a = Inl RedisError \<and> (redis_same visible now k r r'
          \<or> \<not> (nx \<and> visible r now k \<noteq> None) \<and> redis_set_effect visible now k v px r')"
  using assms(1) [unfolded redis_documented_def, THEN conjunct2, THEN conjunct1, rule_format, OF assms(2)]
  by (simp_all add: Let_def)

lemma redis_deleteD:
  assumes "redis_documented client visible" "rd_delete client now k r = (a, r')"
  shows "k' \<noteq> k \<Longrightarrow> redis_same visible now k' r r'"
    "a = Inr (visible r now k \<noteq> None) \<and> (\<forall>t \<ge> now. visible r' t k = None)
     \<or> a = Inl RedisError \<and> (redis_same visible now k r r' \<or> (\<forall>t \<ge> now. visible r' t k = None))"
  using assms(1) [unfolded redis_documented_def, THEN conjunct2, THEN conjunct2, rule_format, OF assms(2)]
  by (simp_all add: Let_def)

lemma redis_ttl: "0 < ttl \<Longrightarrow> 1000 * (1000 * max 1 (whole_seconds ttl)) \<le> max ttl 1000000"
proof -
  have "1000000 * (ttl div 1000000) \<le> ttl"
    using pos_mod_sign [of 1000000 ttl] mult_div_mod_eq [of 1000000 ttl] by linarith
  then show "0 < ttl \<Longrightarrow> ?thesis" by (simp add: whole_seconds_def max_def)
qed

lemma redis_cache_port:
  assumes "redis_documented client visible"
  shows "cache_port (redis_cache client) visible"
proof (unfold_locales, goal_cases)
  case (1 now k s v s')
  then show ?case using redis_getD(2) [OF assms] by (fastforce simp: redis_cache_def redis_cache_get_def)
next
  case (2 now k s e s')
  then show ?case using redis_getD(2) [OF assms] by (fastforce simp: redis_cache_def redis_cache_get_def)
next
  case (3 now k s got s' t k' v)
  then show ?case using redis_getD(1) [OF assms, of now k s got s' k'] by (simp add: redis_cache_def redis_cache_get_def redis_same_def)
next
  case (4 ttl now k v s e s')
  then show ?case using redis_setD(2) [OF assms]
    by (fastforce simp: redis_cache_def redis_cache_set_def andThen_Inl)
next
  case (5 ttl now k v s r s' t k' v')
  then obtain a where a: "rd_set client now k v False (1000 * max 1 (whole_seconds ttl)) s = (a, s')"
    by (auto simp: redis_cache_def redis_cache_set_def andThen_def ret_def split: prod.splits sum.splits)
  have "now + 1000 * (1000 * max 1 (whole_seconds ttl)) \<le> now + max ttl 1000000" using redis_ttl [OF 5(1)] by simp
  then show ?case using redis_setD [OF assms a] 5(3,4)
    by (cases "k' = k") (auto simp: redis_same_def redis_set_effect_def split: if_splits)
next
  case (6 now k s e s')
  then show ?case using redis_deleteD(2) [OF assms]
    by (fastforce simp: redis_cache_def redis_cache_delete_def andThen_Inl)
next
  case (7 now k s r s' t k' v)
  then obtain a where a: "rd_delete client now k s = (a, s')" "r = Inr () \<longleftrightarrow> a \<noteq> Inl RedisError"
    using redis_deleteD(2) [OF assms]
    by (fastforce simp: redis_cache_def redis_cache_delete_def andThen_def ret_def split: prod.splits sum.splits)
  then show ?case using redis_deleteD [OF assms a(1)] 7(2,3) by (cases "k' = k") (auto simp: redis_same_def)
qed


section \<open>Staleness of a cached zone\<close>

text \<open>
  C34. However reads, invalidations and cancellations interleave over an initially empty cache, in
  memory or on a Redis that behaves as documented: a zone served from the cache is one that
  PostgreSQL held when it was loaded, that was written to the cache less than a time to live
  ago, and after whose write no invalidation of the zone succeeded; every other answer is
  what the loader gave, its errors included; and no failure of Redis reaches a caller. An
  invalidation that falls between a load and its write does not reach the copy.
\<close>

theorem zone_cache_staleness:
  "(\<forall>za source t w. 0 < za_ttl za \<and> codec_documented (za_codec za) \<and> za_cache za = in_memory_cache
      \<and> (zone_step za source)\<^sup>*\<^sup>* (zone_start [] t) w \<longrightarrow> log_ok (za_ttl za) source (zw_log w))
   \<and> (\<forall>za source t w s0. redis_documented client visible \<and> (\<forall>t k. visible s0 t k = None)
      \<and> 0 < za_ttl za \<and> codec_documented (za_codec za) \<and> za_cache za = redis_cache client
      \<and> (zone_step za source)\<^sup>*\<^sup>* (zone_start s0 t) w \<longrightarrow> log_ok (za_ttl za) source (zw_log w))"
proof (intro conjI allI impI; elim conjE)
  fix za source t w
  assume "0 < za_ttl za" "codec_documented (za_codec za)" "za_cache za = in_memory_cache"
    "(zone_step za source)\<^sup>*\<^sup>* (zone_start [] t) w"
  then show "log_ok (za_ttl za) source (zw_log w)" using mem_cache.zone_run_log by (simp add: mem_visible_def)
next
  fix za source t w s0
  assume "redis_documented client visible" "\<forall>t k. visible s0 t k = None" "0 < za_ttl za" "codec_documented (za_codec za)"
    "za_cache za = redis_cache client" "(zone_step za source)\<^sup>*\<^sup>* (zone_start s0 t) w"
  then show "log_ok (za_ttl za) source (zw_log w)" by (intro cache_port.zone_run_log [OF redis_cache_port [of client visible]]) auto
qed

text \<open>A Redis kept in a dictionary, which never fails, and a text form of zones.\<close>

definition dict_redis :: "InMemoryTTLCache redis_client" where
  "dict_redis = \<lparr>
     rd_get = (\<lambda>now k r. (Inr (mem_visible r now k), r)),
     rd_set = (\<lambda>now k v nx px r.
       if nx \<and> mem_visible r now k \<noteq> None then (Inr False, r)
       else (Inr True, dict_set k \<lparr> ce_value = v, ce_expires_at = now + 1000 * px \<rparr> r)),
     rd_delete = (\<lambda>now k r. (Inr (mem_visible r now k \<noteq> None), dict_pop k r)) \<rparr>"

lemma dict_redis_documented: "redis_documented dict_redis mem_visible"
  by (simp add: redis_documented_def dict_redis_def redis_same_def redis_set_effect_def mem_visible_def delete_conv')

definition sample_zone :: DeliveryZoneRead where
  "sample_zone = \<lparr> dz_id = 7, dz_name = ''north'', dz_version = 2 \<rparr>"

definition sample_codec :: zone_codec where
  "sample_codec = \<lparr>
     zc_dump = (\<lambda>z. str_uuid (dz_id z) @ replicate (length (dz_name z)) CHR ''.'' @ ''|'' @ dz_name z
                 @ replicate (nat (dz_version z)) CHR ''.''),
     zc_validate = (\<lambda>text.
       let rest = drop 36 text; n = length (takeWhile (\<lambda>c. c = CHR ''.'') rest); body = drop (n + 1) rest
       in case uuid_of_text (take 36 text) of
            None \<Rightarrow> None
          | Some i \<Rightarrow> Some \<lparr> dz_id = i, dz_name = take n body, dz_version = int (length (drop n body)) \<rparr>) \<rparr>"

lemma sample_codec_documented: "codec_documented sample_codec"
proof -
  have "takeWhile (\<lambda>c. c = CHR ''.'') (replicate n CHR ''.'' @ ''|'' @ xs) = replicate n CHR ''.''" for n xs
    by (induction n) simp_all
  then show ?thesis by (simp add: codec_documented_def sample_codec_def zone_valid_def Let_def)
qed

definition sample_aside :: "InMemoryTTLCache Cache \<Rightarrow> InMemoryTTLCache DeliveryZoneCacheAside" where
  "sample_aside cache = \<lparr> za_cache = cache, za_ttl = 60000000, za_codec = sample_codec \<rparr>"

text \<open>
  A read that loads a zone before it changes and writes it after the invalidation: the old zone
  is served although the invalidation succeeded.
\<close>

definition sample_source :: "datetime \<Rightarrow> uuid \<Rightarrow> DeliveryZoneRead result set" where
  "sample_source t i = {Inr (if t < 10 then sample_zone else sample_zone \<lparr> dz_version := 3 \<rparr>)}"

definition sample_copy :: InMemoryTTLCache where
  "sample_copy = [(zone_key 7, \<lparr> ce_value = zc_dump sample_codec sample_zone, ce_expires_at = 60000020 \<rparr>)]"

lemmas zone_eval = zone_lookup_def zone_store_def zone_invalidate_def delete_best_effort_def best_effort_def sample_aside_def
  in_memory_cache_def mem_cache_get_def mem_cache_set_def mem_cache_delete_def action_defs

lemma sample_zone_text: "zc_validate sample_codec (zc_dump sample_codec sample_zone) = Some sample_zone"
  using sample_codec_documented by (simp add: codec_documented_def zone_valid_def sample_zone_def)

lemma invalidation_race:
  "\<exists>w. (zone_step (sample_aside in_memory_cache) sample_source)\<^sup>*\<^sup>* (zone_start [] 0) w
     \<and> zw_log w = [Dropped 7, Stored 7 sample_zone 0 20, Returned 7 (Inr sample_zone) 0, Served 7 sample_zone 30]"
proof -
  let ?za = "sample_aside in_memory_cache"
  let ?step = "zone_step ?za sample_source"
  define w where "w t c rd lg = \<lparr> zw_now = t, zw_cache = c, zw_reader = rd, zw_log = lg \<rparr>"
    for t and c :: InMemoryTTLCache and rd :: "nat \<Rightarrow> zone_reader option" and lg
  have closed: "Map.empty(0 := None) = Map.empty" by (simp add: fun_eq_iff)
  have 1: "?step (w 0 [] Map.empty []) (w 0 [] [0 \<mapsto> Loading 7] [])"
    using zone_step.miss [of "w 0 [] Map.empty []" 0 ?za 7 "[]" sample_source] by (simp add: w_def zone_eval)
  have 2: "?step (w 0 [] [0 \<mapsto> Loading 7] []) (w 0 [] [0 \<mapsto> Storing 7 sample_zone 0] [])"
    using zone_step.load [of "w 0 [] [0 \<mapsto> Loading 7] []" 0 7 sample_zone sample_source ?za]
    by (simp add: w_def sample_source_def zone_valid_def sample_zone_def)
  have time: "?step (w t c rd lg) (w u c rd lg)" if "t \<le> u" for t u c rd lg
    using zone_step.tick [of "w t c rd lg" u] that by (simp add: w_def)
  have 3: "?step (w 10 [] rd []) (w 10 [] rd [Dropped 7])" for rd
    using zone_step.invalidate [of ?za "w 10 [] rd []" 7 "Inr ()" "[]" sample_source] by (simp add: w_def zone_eval)
  have 4: "?step (w 20 [] [0 \<mapsto> Storing 7 sample_zone 0] [Dropped 7])
      (w 20 sample_copy Map.empty [Dropped 7, Stored 7 sample_zone 0 20, Returned 7 (Inr sample_zone) 0])"
    using zone_step.store [of "w 20 [] [0 \<mapsto> Storing 7 sample_zone 0] [Dropped 7]" 0 7 sample_zone 0 ?za "Inr ()" sample_copy]
    by (simp add: w_def closed zone_eval sample_copy_def)
  have 5: "?step (w 30 sample_copy Map.empty lg) (w 30 sample_copy Map.empty (lg @ [Served 7 sample_zone 30]))" for lg
    using zone_step.hit [of ?za "w 30 sample_copy Map.empty lg" 7 sample_zone sample_copy]
    by (simp add: w_def zone_eval sample_copy_def sample_zone_text)
  note run = converse_rtranclp_into_rtranclp [where r = ?step]
  have "?step\<^sup>*\<^sup>* (w 0 [] Map.empty []) (w 30 sample_copy Map.empty
      ([Dropped 7, Stored 7 sample_zone 0 20, Returned 7 (Inr sample_zone) 0] @ [Served 7 sample_zone 30]))"
    by (rule run, rule 1, rule run, rule 2, rule run, rule time [of 0 10], simp, rule run, rule 3,
        rule run, rule time [of 10 20], simp, rule run, rule 4, rule run, rule time [of 20 30], simp,
        rule run, rule 5, rule rtranclp.rtrancl_refl)
  moreover have "zone_start [] 0 = w 0 [] Map.empty []" by (simp add: zone_start_def w_def)
  ultimately show ?thesis by (auto simp: w_def)
qed

theorem zone_cache_staleness_witness:
  "\<exists>w. (zone_step (sample_aside in_memory_cache) sample_source)\<^sup>*\<^sup>* (zone_start [] 0) w
     \<and> zw_log w = [Dropped 7, Stored 7 sample_zone 0 20, Returned 7 (Inr sample_zone) 0, Served 7 sample_zone 30]
     \<and> log_ok (za_ttl (sample_aside in_memory_cache)) sample_source (zw_log w)"
proof -
  have "0 < za_ttl (sample_aside c)" "za_codec (sample_aside c) = sample_codec" "za_cache (sample_aside c) = c" for c
    by (simp_all add: sample_aside_def)
  then show ?thesis
    using invalidation_race zone_cache_staleness [where client = dict_redis and visible = mem_visible, THEN conjunct1]
      sample_codec_documented by metis
qed

section \<open>Ownership of a lease\<close>

text \<open>What other workers do with leases, on any key, with tokens of their own, as time passes.\<close>

inductive others_step :: "'r redis_client \<Rightarrow> string \<Rightarrow> 'r \<times> datetime \<Rightarrow> 'r \<times> datetime \<Rightarrow> bool" for client mine where
  acquire: "token \<noteq> mine \<Longrightarrow> t \<le> now \<Longrightarrow> lease_acquire client now token k ttl r = (a, r')
    \<Longrightarrow> others_step client mine (r, t) (r', now)"
| release: "le_token lease \<noteq> mine \<Longrightarrow> t \<le> now \<Longrightarrow> lease_release client now lease r = (a, r')
    \<Longrightarrow> others_step client mine (r, t) (r', now)"

inductive_cases others_stepE [elim]: "others_step client mine (r, t) s"

definition owned_until ::
  "('r \<Rightarrow> datetime \<Rightarrow> string \<Rightarrow> string option) \<Rightarrow> string \<Rightarrow> string \<Rightarrow> datetime \<Rightarrow> 'r \<times> datetime \<Rightarrow> bool" where
  "owned_until visible k mine expiry s \<longleftrightarrow>
     (\<forall>t \<ge> snd s. (visible (fst s) t k = Some mine) = (t < expiry))"

lemma owned_until_same:
  assumes "owned_until visible k mine e (r, t)" "t \<le> now" "redis_same visible now k r r'"
  shows "owned_until visible k mine e (r', now)"
  using assms by (auto simp: owned_until_def redis_same_def)

lemma acquire_owned:
  assumes "redis_documented client visible" "owned_until visible k mine e (r, t)" "t \<le> now" "token \<noteq> mine"
    "lease_acquire client now token k' ttl r = (a, r')"
  shows "owned_until visible k mine e (r', now)" "now < e \<Longrightarrow> a \<noteq> Inr (Some \<lparr> le_key = k, le_token = token \<rparr>)"
proof -
  have "owned_until visible k mine e (r', now)
    \<and> (now < e \<longrightarrow> a \<noteq> Inr (Some \<lparr> le_key = k, le_token = token \<rparr>))"
  proof (cases "ttl \<le> 0")
    case True
    then have "a = Inl (ValueError ''lease TTL must be positive'')" "r' = r"
      using assms(5) by (auto simp: lease_acquire_def action_defs)
    then show ?thesis using owned_until_same [OF assms(2,3)] by (simp add: redis_same_def)
  next
    case False
    obtain b r1 where b: "rd_set client now k' token True ttl r = (b, r1)" by fastforce
    then have eff: "r' = r1" "a = (case b of Inl x \<Rightarrow> Inl x
        | Inr got \<Rightarrow> Inr (if got then Some \<lparr> le_key = k', le_token = token \<rparr> else None))"
      using assms(5) False by (auto simp: lease_acquire_def action_defs split: sum.splits)
    note doc = redis_setD [OF assms(1) b]
    show ?thesis
    proof (cases "k' = k")
      case False
      with doc(1) eff assms(4) show ?thesis using owned_until_same [OF assms(2,3)] by (auto split: sum.splits)
    next
      case True
      show ?thesis
      proof (cases "redis_same visible now k r r'")
        case same: True
        with doc(2) have "now < e \<Longrightarrow> b \<noteq> Inr True" using assms(2,3) True
          by (auto simp: owned_until_def redis_same_def)
        then show ?thesis using owned_until_same [OF assms(2,3) same] eff(2) by (auto split: sum.splits if_splits)
      next
        case False
        with doc(2) eff(1) True have free: "visible r now k = None" "redis_set_effect visible now k token ttl r'"
          by auto
        then have "e \<le> now" using assms(2,3) by (auto simp: owned_until_def)
        with free(2) assms(4) show ?thesis
          by (auto simp: owned_until_def redis_set_effect_def)
      qed
    qed
  qed
  then show "owned_until visible k mine e (r', now)" "now < e \<Longrightarrow> a \<noteq> Inr (Some \<lparr> le_key = k, le_token = token \<rparr>)"
    by simp_all
qed

lemma release_cases:
  assumes "redis_documented client visible" "lease_release client now lease r = (a, r')"
  obtains (failed) "a = Inl RedisError" "\<And>k. redis_same visible now k r r'"
    | (kept) "a = Inr False" "visible r now (le_key lease) \<noteq> Some (le_token lease)" "\<And>k. redis_same visible now k r r'"
    | (deleted) "visible r now (le_key lease) = Some (le_token lease)" "a = Inr True \<or> a = Inl RedisError"
        "\<And>k. k \<noteq> le_key lease \<Longrightarrow> redis_same visible now k r r'"
        "redis_same visible now (le_key lease) r r' \<and> a \<noteq> Inr True \<or> (\<forall>t \<ge> now. visible r' t (le_key lease) = None)"
proof -
  obtain v r1 where v: "rd_get client now (le_key lease) r = (v, r1)" by fastforce
  note same = redis_getD(1) [OF assms(1) v]
  note answer = redis_getD(2) [OF assms(1) v]
  note run = assms(2) [unfolded lease_release_def RELEASE_IF_OWNER_def andThen_def v]
  show thesis
  proof (cases "v = Inr (Some (le_token lease))")
    case False
    with answer run have "a = Inl RedisError \<and> r' = r1
        \<or> a = Inr False \<and> r' = r1 \<and> visible r now (le_key lease) \<noteq> Some (le_token lease)"
      by (auto simp: ret_def split: if_splits)
    then show thesis using failed kept same by blast
  next
    case True
    then have seen: "visible r now (le_key lease) = Some (le_token lease)" using answer by simp
    then have seen1: "visible r1 now (le_key lease) = Some (le_token lease)"
      using same [of "le_key lease"] by (simp add: redis_same_def)
    from True run have d: "rd_delete client now (le_key lease) r1 = (a, r')" by simp
    show thesis
      by (rule deleted [OF seen])
        (use redis_deleteD [OF assms(1) d] seen1 same in \<open>auto simp: redis_same_def\<close>)
  qed
qed

lemma release_owned:
  assumes "redis_documented client visible" "owned_until visible k mine e (r, t)" "t \<le> now" "le_token lease \<noteq> mine"
    "lease_release client now lease r = (a, r')"
  shows "owned_until visible k mine e (r', now)"
  using assms(1,5)
proof (cases rule: release_cases)
  case deleted
  show ?thesis
  proof (cases "redis_same visible now k r r'")
    case False
    then have "k = le_key lease" using deleted(3) by blast
    with False deleted(4) have k: "k = le_key lease" "\<forall>u \<ge> now. visible r' u k = None" by simp_all
    then have "\<not> now < e" using deleted(1) assms(2-4) by (auto simp: owned_until_def)
    with k(2) show ?thesis by (auto simp: owned_until_def)
  qed (rule owned_until_same [OF assms(2,3)])
qed (use owned_until_same [OF assms(2,3)] in blast)+

lemma others_owned:
  assumes "redis_documented client visible" "(others_step client mine)\<^sup>*\<^sup>* s s'" "owned_until visible k mine e s"
  shows "owned_until visible k mine e s'"
  using assms(2,3)
proof (induction rule: rtranclp_induct)
  case (step s s')
  then have "owned_until visible k mine e (fst s, snd s)" by simp
  with step.hyps(2) show ?case
    by (cases s) (auto intro: acquire_owned(1) [OF assms(1)] release_owned [OF assms(1)])
qed

text \<open>
  A lease that was acquired stays its owner's for exactly its time to live, whatever other
  workers acquire or release in the meantime: none of them gets a lease on the key before it
  expires. Releasing it in time frees the key; releasing it too late reports so and leaves the
  lease that somebody else may hold untouched. A Redis failure is the only other outcome.
\<close>

theorem lease_exclusive:
  assumes "redis_documented client visible" "lease_acquire client t1 mine k ttl r = (Inr (Some l), r1)"
    "(others_step client mine)\<^sup>*\<^sup>* (r1, t1) (r2, t2)" "t2 \<le> now" "expiry = t1 + 1000 * ttl"
  shows "(\<forall>token ttl2 other r3. token \<noteq> mine \<and> now < expiry \<longrightarrow>
        lease_acquire client now token k ttl2 r2 \<noteq> (Inr (Some other), r3))
    \<and> (\<forall>a r3. lease_release client now l r2 = (a, r3) \<longrightarrow>
        (if now < expiry
         then (a = Inr True \<and> (\<forall>t \<ge> now. visible r3 t k = None)) \<or> a = Inl RedisError
         else (a = Inr False \<or> a = Inl RedisError) \<and> (\<forall>k'. redis_same visible now k' r2 r3)))"
proof (intro conjI allI impI)
  have l: "l = \<lparr> le_key = k, le_token = mine \<rparr>" "rd_set client t1 k mine True ttl r = (Inr True, r1)"
    using assms(2) by (auto simp: lease_acquire_def action_defs split: prod.splits sum.splits if_splits)
  from redis_setD(2) [OF assms(1) l(2)] have "owned_until visible k mine expiry (r1, t1)"
    by (auto simp: owned_until_def redis_set_effect_def assms(5))
  from others_owned [OF assms(1,3) this] have own: "owned_until visible k mine expiry (r2, t2)" .
  show "lease_acquire client now token k ttl2 r2 \<noteq> (Inr (Some other), r3)"
    if that: "token \<noteq> mine \<and> now < expiry" for token ttl2 other r3
  proof
    assume got: "lease_acquire client now token k ttl2 r2 = (Inr (Some other), r3)"
    then have "other = \<lparr> le_key = k, le_token = token \<rparr>"
      by (auto simp: lease_acquire_def split: if_splits)
    then show False using acquire_owned(2) [OF assms(1) own assms(4) _ got] that by simp
  qed
  fix a r3
  assume rel: "lease_release client now l r2 = (a, r3)"
  have at_now: "visible r2 now k = Some mine \<longleftrightarrow> now < expiry" using own assms(4) by (simp add: owned_until_def)
  from assms(1) rel show "if now < expiry
       then (a = Inr True \<and> (\<forall>t \<ge> now. visible r3 t k = None)) \<or> a = Inl RedisError
       else (a = Inr False \<or> a = Inl RedisError) \<and> (\<forall>k'. redis_same visible now k' r2 r3)"
    by (cases rule: release_cases) (use at_now l(1) in auto)
qed

theorem lease_exclusive_witness:
  "\<exists>r1. lease_acquire dict_redis 0 ''me'' ''warm'' 500 [] = (Inr (Some \<lparr> le_key = ''warm'', le_token = ''me'' \<rparr>), r1)
     \<and> (\<forall>other r3. lease_acquire dict_redis 400000 ''you'' ''warm'' 500 r1 \<noteq> (Inr (Some other), r3))"
proof -
  obtain r1 where r1: "lease_acquire dict_redis 0 ''me'' ''warm'' 500 [] = (Inr (Some \<lparr> le_key = ''warm'', le_token = ''me'' \<rparr>), r1)"
    by (simp add: lease_acquire_def dict_redis_def mem_visible_def action_defs)
  have "lease_acquire dict_redis 400000 ''you'' ''warm'' 500 r1 \<noteq> (Inr (Some other), r3)" for other r3
    using lease_exclusive [OF dict_redis_documented r1 rtranclp.rtrancl_refl, of 400000 500000, THEN conjunct1] by simp
  with r1 show ?thesis by blast
qed

end
