(* ===== verification/Observability.thy ===== *)
theory Observability
  imports Tracking_Live
begin

text \<open>
  \<open>observability.py\<close>: the schema of log events and span attributes, the JSON formatter, request
  identifiers, and the ASGI middleware that surrounds every request with a correlation id, a
  span, metrics and one log event. OpenTelemetry's propagation is a parameter (the headers it
  injects), as are the order in which Python iterates over a set of names and its
  text form of floating-point numbers. The logger and the trace provider are the parts of the
  library objects that the code configures: handlers, level, span processors, sampling ratio.
\<close>

section \<open>Values and names\<close>

text \<open>The values a caller may pass for a field: \<open>LOther\<close> is any object of another type.\<close>

datatype log_value = LStr string | LInt int | LFloat real | LBool bool | LUuid uuid | LOther

definition alnum :: "char \<Rightarrow> bool" where
  "alnum c \<longleftrightarrow> 48 \<le> code c \<and> code c \<le> 57 \<or> 65 \<le> code c \<and> code c \<le> 90 \<or> 97 \<le> code c \<and> code c \<le> 122"

definition token_char :: "char \<Rightarrow> bool" where
  "token_char c \<longleftrightarrow> alnum c \<or> c \<in> set ''._:-''"

text \<open>\<open>[A-Za-z0-9][A-Za-z0-9._:-]{0,127}\<close>, the pattern of request ids and of token fields.\<close>

fun REQUEST_ID_PATTERN :: "string \<Rightarrow> bool" where
  "REQUEST_ID_PATTERN [] = False"
| "REQUEST_ID_PATTERN (c # cs) \<longleftrightarrow> alnum c \<and> list_all token_char cs \<and> length cs \<le> 127"

fun TOKEN_FIELD_PATTERN :: "string \<Rightarrow> bool" where
  "TOKEN_FIELD_PATTERN [] = False"
| "TOKEN_FIELD_PATTERN (c # cs) \<longleftrightarrow> alnum c \<and> list_all token_char cs \<and> length cs \<le> 127"

definition event_char :: "char \<Rightarrow> bool" where
  "event_char c \<longleftrightarrow> 97 \<le> code c \<and> code c \<le> 122 \<or> 48 \<le> code c \<and> code c \<le> 57 \<or> c \<in> set ''_.''"

fun EVENT_NAME_PATTERN :: "string \<Rightarrow> bool" where
  "EVENT_NAME_PATTERN [] = False"
| "EVENT_NAME_PATTERN (c # cs) \<longleftrightarrow> 97 \<le> code c \<and> code c \<le> 122 \<and> list_all event_char cs \<and> length cs \<le> 63"

definition SAFE_LOG_FIELDS :: "string list" where
  "SAFE_LOG_FIELDS = [''correlation_id'', ''trace_id'', ''method'', ''route'', ''status'', ''duration_ms'', ''outcome'',
     ''error_kind'', ''order_id'', ''event_id'', ''attempt'', ''retryable'', ''redelivered'', ''applied'']"

definition SAFE_SPAN_ATTRIBUTES :: "string list" where
  "SAFE_SPAN_ATTRIBUTES = [''http.request.method'', ''http.route'', ''http.response.status_code'',
     ''delivery.operation'', ''delivery.outcome'', ''db.system'', ''db.operation.name'', ''db.namespace'',
     ''server.address'', ''cache.operation'', ''messaging.operation.name'', ''error.type'']"

definition METRIC_METHODS :: "string list" where
  "METRIC_METHODS = [''GET'', ''POST'', ''PUT'', ''PATCH'', ''DELETE'', ''OPTIONS'', ''HEAD'']"

definition SLO_OPERATIONS :: "((string \<times> string) \<times> string) list" where
  "SLO_OPERATIONS =
     [((''POST'', ''/api/v1/orders''), ''create_order''),
      ((''GET'', ''/api/v1/orders/{order_id}''), ''get_order''),
      ((''GET'', ''/api/v1/orders/{order_id}/tracking/events''), ''track_order'')]"

definition request_outcome :: "int \<Rightarrow> string" where
  "request_outcome status_code =
     (if 500 \<le> status_code then ''server_error'' else if 400 \<le> status_code then ''client_error'' else ''success'')"

definition upper :: "char \<Rightarrow> char" where
  "upper c = (if 97 \<le> code c \<and> code c \<le> 122 then char_of (code c - 32) else c)"

definition metric_method :: "string \<Rightarrow> string" where
  "metric_method value = (let normalized = map upper value in if normalized \<in> set METRIC_METHODS then normalized else ''OTHER'')"

text \<open>\<open>', '.join(sorted(unknown))\<close>.\<close>

definition named_sorted :: "string list \<Rightarrow> string" where
  "named_sorted names = join '', '' (sort (remdups names))"

section \<open>Spans\<close>

record span =
  sp_name :: string
  sp_attributes :: "(string \<times> log_value) list"
  sp_exceptions :: "exn list"
  sp_error :: bool

definition bounded_scalar :: "log_value \<Rightarrow> bool" where
  "bounded_scalar v =
     (case v of LBool _ \<Rightarrow> True | LInt _ \<Rightarrow> True | LFloat _ \<Rightarrow> True
      | LStr s \<Rightarrow> length s \<le> 160 \<and> newline \<notin> set s | _ \<Rightarrow> False)"

text \<open>The loop stores the attributes before the one that is refused.\<close>

fun store_attributes :: "(string \<times> log_value) list \<Rightarrow> (span, unit) action" where
  "store_attributes [] sp = (Inr (), sp)"
| "store_attributes ((name, v) # rest) sp =
     (if bounded_scalar v then store_attributes rest (sp \<lparr> sp_attributes := dict_set name v (sp_attributes sp) \<rparr>)
      else (Inl (TypeError (name @ '' must be a bounded scalar'')), sp))"

definition set_safe_span_attributes :: "(string \<times> log_value) list \<Rightarrow> (span, unit) action" where
  "set_safe_span_attributes attributes sp =
     (let unknown = filter (\<lambda>n. n \<notin> set SAFE_SPAN_ATTRIBUTES) (map fst attributes)
      in if unknown \<noteq> [] then (Inl (ValueError (''unsafe or unknown span attributes: '' @ named_sorted unknown)), sp)
         else store_attributes attributes sp)"

text \<open>
  \<open>traced_operation\<close> around a body: attributes first; an exception of the body is recorded with
  its class name and raised again. \<open>class_of\<close> gives the name of an exception's class.
\<close>

definition traced_operation ::
  "(exn \<Rightarrow> string) \<Rightarrow> string \<Rightarrow> (string \<times> log_value) list \<Rightarrow> ('s, 'a) action \<Rightarrow> 's \<Rightarrow> 'a result \<times> 's \<times> span" where
  "traced_operation class_of name attributes body s =
     (let sp = \<lparr> sp_name = name, sp_attributes = [], sp_exceptions = [], sp_error = False \<rparr>
      in case (if attributes = [] then (Inr (), sp) else set_safe_span_attributes attributes sp) of
           (Inl e, sp1) \<Rightarrow> (Inl e, s, sp1)
         | (Inr _, sp1) \<Rightarrow>
             (case body s of
                (Inr x, s') \<Rightarrow> (Inr x, s', sp1)
              | (Inl e, s') \<Rightarrow>
                  (case set_safe_span_attributes [(''error.type'', LStr (class_of e))]
                          (sp1 \<lparr> sp_exceptions := sp_exceptions sp1 @ [e] \<rparr>) of
                     (Inl e2, sp2) \<Rightarrow> (Inl e2, s', sp2)
                   | (Inr _, sp2) \<Rightarrow> (Inl e, s', sp2 \<lparr> sp_error := True \<rparr>))))"

section \<open>Log events\<close>

definition safe_log_value :: "string \<Rightarrow> log_value \<Rightarrow> log_value result" where
  "safe_log_value name value0 =
     (let value = (case value0 of LUuid u \<Rightarrow> LStr (str_uuid u) | v \<Rightarrow> v)
      in if name \<in> {''status'', ''attempt''}
         then (case value of LInt i \<Rightarrow> Inr value | _ \<Rightarrow> Inl (TypeError (name @ '' must be an integer'')))
         else if name = ''duration_ms''
         then (case value of
                 LInt i \<Rightarrow> if i < 0 then Inl (TypeError ''duration_ms must be a non-negative number'') else Inr value
               | LFloat x \<Rightarrow> if x < 0 then Inl (TypeError ''duration_ms must be a non-negative number'') else Inr value
               | _ \<Rightarrow> Inl (TypeError ''duration_ms must be a non-negative number''))
         else if name \<in> {''retryable'', ''redelivered'', ''applied''}
         then (case value of LBool b \<Rightarrow> Inr value | _ \<Rightarrow> Inl (TypeError (name @ '' must be a boolean'')))
         else (case value of
                 LStr text \<Rightarrow>
                   if name = ''route''
                   then if \<not> startswith text ''/'' \<or> CHR ''?'' \<in> set text \<or> 256 < length text
                        then Inl (ValueError ''route must be a bounded route template without query'')
                        else Inr value
                   else if \<not> TOKEN_FIELD_PATTERN text
                        then Inl (ValueError (name @ '' contains unsafe or unbounded characters''))
                        else Inr value
               | _ \<Rightarrow> Inl (TypeError (name @ '' must be a string''))))"

record log_record =
  lr_message :: string
  lr_level :: int
  lr_fields :: "(string \<times> log_value) list"
  lr_error_type :: "string option"

definition log_event ::
  "string \<Rightarrow> string \<Rightarrow> int \<Rightarrow> string option \<Rightarrow> (string \<times> log_value) list \<Rightarrow> (log_record list, unit) action" where
  "log_event current_correlation_id event level error_type given sink =
     (let unknown = filter (\<lambda>n. n \<notin> set SAFE_LOG_FIELDS) (map fst given)
      in if \<not> EVENT_NAME_PATTERN event then (Inl (ValueError ''event must be a bounded lower-case identifier''), sink)
         else if unknown \<noteq> [] then (Inl (ValueError (''unsafe or unknown log fields: '' @ named_sorted unknown)), sink)
         else
           let given1 = (if ''correlation_id'' \<notin> set (map fst given) \<and> current_correlation_id \<noteq> ''''
                          then given @ [(''correlation_id'', LStr current_correlation_id)] else given)
           in case map_result (\<lambda>(n, v). thenR (safe_log_value n v) (\<lambda>w. Inr (n, w))) given1 of
                Inl e \<Rightarrow> (Inl e, sink)
              | Inr normalized \<Rightarrow>
                  if level < 20 then (Inr (), sink)
                  else (Inr (), sink @ [\<lparr> lr_message = event, lr_level = level, lr_fields = normalized,
                                          lr_error_type = error_type \<rparr>]))"

section \<open>The formatter\<close>

definition json_of_value :: "log_value \<Rightarrow> json" where
  "json_of_value v =
     (case v of LStr s \<Rightarrow> JStr s | LInt i \<Rightarrow> JInt i | LFloat x \<Rightarrow> JFloat x | LBool b \<Rightarrow> JBool b
      | LUuid u \<Rightarrow> JStr (str_uuid u) | LOther \<Rightarrow> JNull)"

text \<open>\<open>isoformat(timespec="milliseconds")\<close> with \<open>+00:00\<close> replaced by \<open>Z\<close>.\<close>

definition iso_millis :: "datetime \<Rightarrow> string" where
  "iso_millis t =
     (let day = t div 86400000000; us = t mod 86400000000;
          ymd = ord2ymd (719163 + day);
          secs = us div 1000000; millis = us mod 1000000 div 1000
      in dec_fixed 4 (nat (fst ymd)) @ ''-'' @ dec_fixed 2 (nat (fst (snd ymd))) @ ''-''
         @ dec_fixed 2 (nat (snd (snd ymd))) @ ''T''
         @ dec_fixed 2 (nat (secs div 3600)) @ '':'' @ dec_fixed 2 (nat (secs div 60 mod 60)) @ '':''
         @ dec_fixed 2 (nat (secs mod 60)) @ ''.'' @ dec_fixed 3 (nat millis) @ ''Z'')"

text \<open>
  \<open>SafeJsonFormatter.format\<close>; \<open>order\<close> is the order in which Python iterates over
  \<open>SAFE_LOG_FIELDS\<close>, \<open>levelname\<close> the name of the level.
\<close>

definition format_fields :: "string list \<Rightarrow> log_record \<Rightarrow> json_object result" where
  "format_fields order r =
     map_result (\<lambda>(n, v). thenR (safe_log_value n v) (\<lambda>w. Inr (n, json_of_value w)))
       (concat (map (\<lambda>n. case dict_get (lr_fields r) n of None \<Rightarrow> [] | Some v \<Rightarrow> [(n, v)]) order))"

definition format_record ::
  "(real \<Rightarrow> string) \<Rightarrow> (int \<Rightarrow> string) \<Rightarrow> string list \<Rightarrow> datetime \<Rightarrow> log_record \<Rightarrow> string result" where
  "format_record float_repr levelname order created r =
     thenR (format_fields order r) (\<lambda>shown.
       Inr (json_dumps float_repr (JObj (
         [(''timestamp'', JStr (iso_millis created)),
          (''level'', JStr (levelname (lr_level r))),
          (''service'', JStr ''delivery-service''),
          (''event'', JStr (if EVENT_NAME_PATTERN (lr_message r) then lr_message r else ''invalid_log_event''))]
         @ shown
         @ (case lr_error_type r of None \<Rightarrow> [] | Some name \<Rightarrow> [(''error_type'', JStr name)])))))"

section \<open>Requests\<close>

definition select_request_id :: "uuid \<Rightarrow> string option \<Rightarrow> string" where
  "select_request_id fresh incoming =
     (case incoming of
        Some text \<Rightarrow> if text \<noteq> '''' \<and> REQUEST_ID_PATTERN text then text else str_uuid fresh
      | None \<Rightarrow> str_uuid fresh)"

text \<open>
  \<open>inject_request_context\<close> on the headers of an outgoing request (names in lower case);
  \<open>carrier\<close> is what the trace propagator injects.
\<close>

definition inject_request_context ::
  "string \<Rightarrow> (string \<times> string) list \<Rightarrow> (string \<times> string) list \<Rightarrow> (string \<times> string) list" where
  "inject_request_context request_id carrier headers =
     (let h = (if request_id \<noteq> '''' \<and> dict_get headers ''x-request-id'' = None
               then dict_set ''x-request-id'' request_id headers else headers)
      in fold (\<lambda>(n, v). dict_set n v) carrier h)"


section \<open>The middleware\<close>

text \<open>
  The process-wide telemetry: the correlation id of the current context, the gauge and the
  counters by their labels, the observations of the histograms, finished spans and emitted
  log records.
\<close>

record telemetry =
  tm_correlation :: string
  tm_in_flight :: "string \<Rightarrow> int"
  tm_requests :: "string \<times> string \<times> string \<Rightarrow> nat"
  tm_latency :: "string \<times> string \<Rightarrow> real list"
  tm_slo_requests :: "string \<times> string \<Rightarrow> nat"
  tm_slo_latency :: "string \<Rightarrow> real list"
  tm_spans :: "span list"
  tm_log :: "log_record list"

datatype asgi_message = ResponseStart int "(string \<times> string) list" | ResponseBody string

record asgi_scope =
  sc_http :: bool
  sc_method :: string
  sc_request_id_header :: "string option"

text \<open>
  What the wrapped application does with a request: the messages it sends, the path template of
  the route it matched, and the exception it raises (with the name of its class), if any.
\<close>

record app_behaviour =
  ab_messages :: "asgi_message list"
  ab_route :: "string option"
  ab_raises :: "(string \<times> exn) option"

text \<open>\<open>send_with_context\<close>: the status code is remembered and the headers are completed.\<close>

definition send_with_context ::
  "string \<Rightarrow> (string \<times> string) list \<Rightarrow> asgi_message \<Rightarrow> int \<Rightarrow> asgi_message \<times> int" where
  "send_with_context request_id carrier message status_code =
     (case message of
        ResponseStart status headers \<Rightarrow>
          let h = dict_set ''x-request-id'' request_id headers;
              traced = filter (\<lambda>n. case dict_get carrier n of None \<Rightarrow> False | Some v \<Rightarrow> v \<noteq> '''') [''traceparent'', ''tracestate'']
          in (ResponseStart status (fold (\<lambda>n. dict_set n (the (dict_get carrier n))) traced h), status)
      | ResponseBody _ \<Rightarrow> (message, status_code))"

fun send_all ::
  "string \<Rightarrow> (string \<times> string) list \<Rightarrow> asgi_message list \<Rightarrow> int \<Rightarrow> asgi_message list \<times> int" where
  "send_all request_id carrier [] status_code = ([], status_code)"
| "send_all request_id carrier (m # ms) status_code =
     (case send_with_context request_id carrier m status_code of
        (m', status') \<Rightarrow> (case send_all request_id carrier ms status' of (ms', final) \<Rightarrow> (m' # ms', final)))"

text \<open>The metrics and the log event of a completed request.\<close>

definition count_request :: "string \<Rightarrow> string \<Rightarrow> int \<Rightarrow> real \<Rightarrow> telemetry \<Rightarrow> telemetry" where
  "count_request meth route_path status_code duration tm =
     (let key = (meth, route_path, dec_int status_code);
          tm1 = tm \<lparr> tm_requests := (tm_requests tm)(key := tm_requests tm key + 1),
                    tm_latency := (tm_latency tm)((meth, route_path) := tm_latency tm (meth, route_path) @ [duration]) \<rparr>
      in case dict_get SLO_OPERATIONS (meth, route_path) of
           None \<Rightarrow> tm1
         | Some operation \<Rightarrow>
             let label = (operation, request_outcome status_code)
             in tm1 \<lparr> tm_slo_requests := (tm_slo_requests tm1)(label := tm_slo_requests tm1 label + 1),
                     tm_slo_latency := (tm_slo_latency tm1)(operation := tm_slo_latency tm1 operation @ [duration]) \<rparr>)"

definition log_completed ::
  "string \<Rightarrow> string \<Rightarrow> string \<Rightarrow> int \<Rightarrow> real \<Rightarrow> (telemetry, unit) action" where
  "log_completed request_id meth route_path status_code duration_ms tm =
     (case log_event (tm_correlation tm) ''request_completed'' 20 None
             [(''correlation_id'', LStr request_id), (''method'', LStr meth), (''route'', LStr route_path),
              (''status'', LInt status_code), (''duration_ms'', LFloat duration_ms)] (tm_log tm) of
        (r, sink) \<Rightarrow> (r, tm \<lparr> tm_log := sink \<rparr>))"

text \<open>
  The \<open>finally\<close> block of the middleware. The attributes of the span are set before the inner
  \<open>try\<close>: only what follows them is protected. \<open>outcome\<close> is the exception on its way out.
\<close>

definition finish_request ::
  "string \<Rightarrow> string \<Rightarrow> string \<Rightarrow> string \<Rightarrow> int \<Rightarrow> real \<Rightarrow> real \<Rightarrow> unit result \<Rightarrow> span \<Rightarrow> telemetry \<Rightarrow> unit result \<times> telemetry" where
  "finish_request previous request_id meth route_path status_code duration duration_ms outcome sp tm =
     (case set_safe_span_attributes
             [(''http.request.method'', LStr meth), (''http.route'', LStr route_path),
              (''http.response.status_code'', LInt status_code), (''delivery.outcome'', LStr (request_outcome status_code))]
             (sp \<lparr> sp_name := meth @ '' '' @ route_path \<rparr>) of
        (Inl e, sp1) \<Rightarrow> (Inl e, tm \<lparr> tm_spans := tm_spans tm @ [sp1] \<rparr>)
      | (Inr _, sp1) \<Rightarrow>
          let sp2 = (if 500 \<le> status_code then sp1 \<lparr> sp_error := True \<rparr> else sp1);
              (r, tm1) = log_completed request_id meth route_path status_code duration_ms
                           (count_request meth route_path status_code duration tm);
              tm2 = tm1 \<lparr> tm_in_flight := (tm_in_flight tm1)(meth := tm_in_flight tm1 meth - 1),
                          tm_correlation := previous, tm_spans := tm_spans tm1 @ [sp2] \<rparr>
          in (case r of Inl e \<Rightarrow> Inl e | Inr _ \<Rightarrow> outcome, tm2))"

text \<open>
  One call of the middleware: \<open>fresh\<close> is the drawn id, \<open>carrier\<close> what the propagator injects,
  \<open>duration\<close> the measured time and \<open>duration_ms\<close> its rounded form. The last result is what
  reaches the server.
\<close>

definition TelemetryMiddleware ::
  "uuid \<Rightarrow> (string \<times> string) list \<Rightarrow> real \<Rightarrow> real \<Rightarrow> asgi_scope \<Rightarrow> app_behaviour \<Rightarrow> telemetry
   \<Rightarrow> unit result \<times> telemetry \<times> asgi_message list" where
  "TelemetryMiddleware fresh carrier duration duration_ms scope app tm =
     (if \<not> sc_http scope
      then (case ab_raises app of Some (_, e) \<Rightarrow> Inl e | None \<Rightarrow> Inr (), tm, ab_messages app)
      else
        let request_id = select_request_id fresh (sc_request_id_header scope);
            meth = metric_method (sc_method scope);
            previous = tm_correlation tm;
            tm1 = tm \<lparr> tm_correlation := request_id, tm_in_flight := (tm_in_flight tm)(meth := tm_in_flight tm meth + 1) \<rparr>;
            (sent, status_code) = send_all request_id carrier (ab_messages app) 500;
            sp = \<lparr> sp_name = ''HTTP request'', sp_attributes = [], sp_exceptions = [], sp_error = False \<rparr>;
            (outcome, sp1) = (case ab_raises app of
               None \<Rightarrow> (Inr (), sp)
             | Some (name, e) \<Rightarrow>
                 (case set_safe_span_attributes [(''error.type'', LStr name)] (sp \<lparr> sp_exceptions := [e] \<rparr>) of
                    (Inl e2, sp2) \<Rightarrow> (Inl e2, sp2)
                  | (Inr _, sp2) \<Rightarrow> (Inl e, sp2 \<lparr> sp_error := True \<rparr>)));
            route_path = (case ab_route app of Some p \<Rightarrow> p | None \<Rightarrow> ''/unmatched'');
            (r, tm2) = finish_request previous request_id meth route_path status_code duration duration_ms outcome sp1 tm1
        in (r, tm2, sent))"


section \<open>Configuration of logging and tracing\<close>

text \<open>
  A handler of the service's logger: whether the code tagged it as its own (\<open>delivery_json\<close>), the
  stream it writes to, and whether it formats with \<open>SafeJsonFormatter\<close>.
\<close>

record log_handler =
  lh_delivery_json :: bool
  lh_stream :: string
  lh_safe_json :: bool

record logger_state =
  lg_handlers :: "log_handler list"
  lg_level :: int
  lg_propagate :: bool

definition configure_json_logging :: "string option \<Rightarrow> logger_state \<Rightarrow> log_handler \<times> logger_state" where
  "configure_json_logging stream lg =
     (case find lh_delivery_json (lg_handlers lg) of
        Some existing \<Rightarrow> (existing, lg)
      | None \<Rightarrow>
          let handler = \<lparr> lh_delivery_json = True,
                lh_stream = (case stream of Some name \<Rightarrow> name | None \<Rightarrow> ''stdout''), lh_safe_json = True \<rparr>
          in (handler, lg \<lparr> lg_handlers := lg_handlers lg @ [handler], lg_level := 20, lg_propagate := False \<rparr>))"

text \<open>The provider: its processors by the exporter they batch for, and the endpoints configured so far.\<close>

record trace_provider =
  tp_resource :: "(string \<times> string) list"
  tp_sample_ratio :: rat
  tp_processors :: "string list"
  tp_configured_otlp_endpoints :: "string set"

definition build_trace_provider :: "rat \<Rightarrow> string option \<Rightarrow> trace_provider" where
  "build_trace_provider sample_ratio exporter = \<lparr>
     tp_resource = [(''service.name'', ''delivery-service''), (''service.version'', ''1.0.0'')],
     tp_sample_ratio = sample_ratio,
     tp_processors = (case exporter of Some e \<Rightarrow> [e] | None \<Rightarrow> []),
     tp_configured_otlp_endpoints = {} \<rparr>"

definition configure_otlp_exporter :: "string option \<Rightarrow> trace_provider \<Rightarrow> trace_provider" where
  "configure_otlp_exporter endpoint tp =
     (case endpoint of
        None \<Rightarrow> tp
      | Some url \<Rightarrow>
          if url = '''' \<or> url \<in> tp_configured_otlp_endpoints tp then tp
          else tp \<lparr> tp_processors := tp_processors tp @ [url],
                   tp_configured_otlp_endpoints := insert url (tp_configured_otlp_endpoints tp) \<rparr>)"


section \<open>The schema of log events\<close>

text \<open>What a field of an emitted record may hold.\<close>

definition field_safe :: "string \<Rightarrow> log_value \<Rightarrow> bool" where
  "field_safe n v =
     (case v of
        LStr s \<Rightarrow> length s \<le> 256 \<and> (if n = ''route'' then startswith s ''/'' \<and> CHR ''?'' \<notin> set s else list_all token_char s)
      | LInt i \<Rightarrow> n \<in> {''status'', ''attempt''} \<or> n = ''duration_ms'' \<and> 0 \<le> i
      | LFloat x \<Rightarrow> n = ''duration_ms'' \<and> 0 \<le> x
      | LBool b \<Rightarrow> n \<in> {''retryable'', ''redelivered'', ''applied''}
      | _ \<Rightarrow> False)"

lemma token_pattern_safe: "TOKEN_FIELD_PATTERN s \<Longrightarrow> length s \<le> 256 \<and> list_all token_char s"
  by (cases s) (auto simp: token_char_def)

lemma safe_log_value_Inr:
  assumes "safe_log_value n v = Inr w"
  shows "field_safe n w" "safe_log_value n w = Inr w"
  using assms
  by (auto simp: safe_log_value_def field_safe_def Let_def token_pattern_safe
      split: if_splits log_value.splits)

lemma normalized_fields:
  assumes "map_result (\<lambda>(n, v). thenR (safe_log_value n v) (\<lambda>w. Inr (n, w))) kw = Inr out"
  shows "map fst out = map fst kw" "\<forall>(n, w) \<in> set out. field_safe n w \<and> safe_log_value n w = Inr w"
proof -
  have "map fst out = map fst kw \<and> (\<forall>(n, w) \<in> set out. field_safe n w \<and> safe_log_value n w = Inr w)"
    using assms
  proof (induction kw arbitrary: out)
    case (Cons p kw)
    obtain n v where p: "p = (n, v)" by fastforce
    with Cons.prems obtain w rest where w: "safe_log_value n v = Inr w" "out = (n, w) # rest"
      "map_result (\<lambda>(n, v). thenR (safe_log_value n v) (\<lambda>w. Inr (n, w))) kw = Inr rest"
      by (auto simp: thenR_Inr)
    with Cons.IH [OF w(3)] safe_log_value_Inr [OF w(1)] p show ?case by auto
  qed simp
  then show "map fst out = map fst kw" "\<forall>(n, w) \<in> set out. field_safe n w \<and> safe_log_value n w = Inr w"
    by simp_all
qed

lemma format_fields_safe:
  assumes "\<forall>(n, w) \<in> set (lr_fields r). safe_log_value n w = Inr w"
  shows "\<exists>out. format_fields order r = Inr out"
proof -
  let ?xs = "concat (map (\<lambda>n. case dict_get (lr_fields r) n of None \<Rightarrow> [] | Some v \<Rightarrow> [(n, v)]) order)"
  have visited: "p \<in> set (lr_fields r)" if "p \<in> set ?xs" for p
    using that by (auto split: option.splits intro: map_of_SomeD [OF sym])
  have "safe_log_value (fst p) (snd p) = Inr (snd p)" if "p \<in> set ?xs" for p
    using bspec [OF assms visited [OF that]] by (simp only: case_prod_unfold)
  then have "map_result (\<lambda>(n, v). thenR (safe_log_value n v) (\<lambda>w. Inr (n, json_of_value w))) ?xs
      = Inr (map (\<lambda>p. (fst p, json_of_value (snd p))) ?xs)"
    by (intro map_result_Inr) (simp only: case_prod_unfold thenR_simps)
  then show ?thesis unfolding format_fields_def by (rule exI)
qed

lemma format_record_line:
  assumes "format_fields order r = Inr out" "\<And>x. printable (float_repr x)"
  shows "\<exists>line. format_record float_repr levelname order created r = Inr line \<and> printable line"
proof -
  obtain payload where "format_record float_repr levelname order created r = Inr (json_dumps float_repr payload)"
    unfolding format_record_def assms(1) thenR_simps by blast
  with printable_dumps [of float_repr payload, OF assms(2)] show ?thesis by blast
qed

text \<open>
  \<open>log_event\<close> emits at most one record and nothing when it raises. What it emits has a
  bounded lower-case event name and only fields of the schema, with numbers and flags of their
  types and texts of at most 256 characters, all of them from the token alphabet except in a
  route template. The formatter never fails on such a record, in whatever order it visits the
  fields, and prints it on a single line.
\<close>

theorem log_event_schema:
  assumes "log_event current event level error_type given sink = (r, sink')" "\<And>x. printable (float_repr x)"
  shows "case r of
      Inl _ \<Rightarrow> sink' = sink
    | Inr _ \<Rightarrow> EVENT_NAME_PATTERN event \<and> set (map fst given) \<subseteq> set SAFE_LOG_FIELDS
        \<and> (if level < 20 then sink' = sink
           else \<exists>entry. sink' = sink @ [entry] \<and> lr_message entry = event
             \<and> map fst (lr_fields entry) = map fst given @
                 (if ''correlation_id'' \<notin> set (map fst given) \<and> current \<noteq> '''' then [''correlation_id''] else [])
             \<and> (\<forall>(n, v) \<in> set (lr_fields entry). field_safe n v)
             \<and> (\<exists>line. format_record float_repr levelname order created entry = Inr line \<and> newline \<notin> set line))"
proof (cases r)
  case (Inl e)
  with assms(1) show ?thesis by (auto simp: log_event_def Let_def split: if_splits sum.splits)
next
  case (Inr u)
  let ?kw = "if ''correlation_id'' \<notin> set (map fst given) \<and> current \<noteq> ''''
      then given @ [(''correlation_id'', LStr current)] else given"
  obtain out where ok: "EVENT_NAME_PATTERN event" "set (map fst given) \<subseteq> set SAFE_LOG_FIELDS"
    "map_result (\<lambda>(n, v). thenR (safe_log_value n v) (\<lambda>w. Inr (n, w))) ?kw = Inr out"
    "sink' = (if level < 20 then sink else sink @ [\<lparr> lr_message = event, lr_level = level, lr_fields = out,
        lr_error_type = error_type \<rparr>])"
    using assms(1) Inr
    by (auto simp: log_event_def Let_def filter_empty_conv split: if_splits sum.splits)
  let ?rec = "\<lparr> lr_message = event, lr_level = level, lr_fields = out, lr_error_type = error_type \<rparr>"
  note safe = normalized_fields [OF ok(3)]
  have "\<forall>(n, w) \<in> set (lr_fields ?rec). safe_log_value n w = Inr w" using safe(2) by auto
  from format_fields_safe [OF this, of order] obtain shown where "format_fields order ?rec = Inr shown" by blast
  from format_record_line [of order ?rec shown float_repr, OF this assms(2)] obtain line where
    "format_record float_repr levelname order created ?rec = Inr line" "printable line" by blast
  with safe ok(1,2,4) Inr printable_no_newline show ?thesis by (auto simp: case_prod_unfold)
qed

theorem log_event_schema_witness:
  "\<exists>entry. log_event ''abc'' ''order_created'' 20 None [(''attempt'', LInt 1)] [] = (Inr (), [entry])
     \<and> map fst (lr_fields entry) = [''attempt'', ''correlation_id'']
     \<and> (\<exists>line. format_record (\<lambda>_. ''0.0'') (\<lambda>_. ''INFO'') SAFE_LOG_FIELDS 0 entry = Inr line \<and> newline \<notin> set line)"
proof -
  obtain r sink where run: "log_event ''abc'' ''order_created'' 20 None [(''attempt'', LInt 1)] [] = (r, sink)" by fastforce
  have "fst (log_event ''abc'' ''order_created'' 20 None [(''attempt'', LInt 1)] []) = Inr ()" by code_simp
  with run have "r = Inr ()" by simp
  moreover have "printable ((\<lambda>_. ''0.0'') x)" for x :: real by (simp add: code_def)
  ultimately show ?thesis
    using log_event_schema [OF run, of "\<lambda>_. ''0.0''" "\<lambda>_. ''INFO''" SAFE_LOG_FIELDS 0] run by auto
qed


section \<open>Balance of the middleware\<close>

lemma digit_alnum: "d < 16 \<Longrightarrow> alnum (digit_char d)"
  by (simp add: alnum_def code_digit_char)

lemma str_uuid_pattern: "REQUEST_ID_PATTERN (str_uuid u)"
proof -
  obtain c cs where h: "hex_fixed 32 (unat u) = c # cs"
    using length_hex_fixed [of 32 "unat u"] by (cases "hex_fixed 32 (unat u)") simp_all
  then have "\<exists>d < 16. c = digit_char d" using set_hex_fixed [of c 32 "unat u"] by simp
  then have first: "alnum c" using digit_alnum by blast
  obtain rest where u: "str_uuid u = c # rest" using h by (simp add: str_uuid_def Let_def)
  have "token_char x" if "x \<in> set (str_uuid u)" for x
    using set_str_uuid [OF that] digit_alnum by (auto simp: token_char_def)
  with u have "list_all token_char rest" by (simp add: list_all_iff)
  moreover have "length rest = 35" using u length_str_uuid [of u] by simp
  ultimately show ?thesis using u first by simp
qed

lemma patterns_agree: "TOKEN_FIELD_PATTERN s = REQUEST_ID_PATTERN s"
  by (cases s) simp_all

lemma select_request_id_pattern: "REQUEST_ID_PATTERN (select_request_id fresh incoming)"
  using str_uuid_pattern by (auto simp: select_request_id_def split: option.splits)

lemma metric_method_bounded: "metric_method m \<in> set (''OTHER'' # METRIC_METHODS)"
  by (simp add: metric_method_def Let_def)

lemma metric_method_safe:
  "TOKEN_FIELD_PATTERN (metric_method m)" "length (metric_method m) \<le> 160" "newline \<notin> set (metric_method m)"
proof -
  have "list_all (\<lambda>m. TOKEN_FIELD_PATTERN m \<and> length m \<le> 160 \<and> newline \<notin> set m) (''OTHER'' # METRIC_METHODS)"
    by code_simp
  then show "TOKEN_FIELD_PATTERN (metric_method m)" "length (metric_method m) \<le> 160" "newline \<notin> set (metric_method m)"
    using metric_method_bounded [of m] by (auto simp: list_all_iff simp del: TOKEN_FIELD_PATTERN.simps)
qed

text \<open>A path template as the application registers them.\<close>

definition route_ok :: "string \<Rightarrow> bool" where
  "route_ok p \<longleftrightarrow> startswith p ''/'' \<and> CHR ''?'' \<notin> set p \<and> newline \<notin> set p \<and> length p \<le> 160"

lemma log_completed_ok:
  assumes "REQUEST_ID_PATTERN request_id" "route_ok path" "0 \<le> duration_ms"
  shows "log_completed request_id (metric_method m) path st duration_ms tm
    = (Inr (), tm \<lparr> tm_log := tm_log tm @ [\<lparr> lr_message = ''request_completed'', lr_level = 20,
         lr_fields = [(''correlation_id'', LStr request_id), (''method'', LStr (metric_method m)), (''route'', LStr path),
           (''status'', LInt st), (''duration_ms'', LFloat duration_ms)], lr_error_type = None \<rparr>] \<rparr>)"
proof -
  have "EVENT_NAME_PATTERN ''request_completed''" by code_simp
  moreover have "safe_log_value ''correlation_id'' (LStr request_id) = Inr (LStr request_id)"
    "safe_log_value ''method'' (LStr (metric_method m)) = Inr (LStr (metric_method m))"
    "safe_log_value ''route'' (LStr path) = Inr (LStr path)"
    "safe_log_value ''status'' (LInt st) = Inr (LInt st)"
    "safe_log_value ''duration_ms'' (LFloat duration_ms) = Inr (LFloat duration_ms)"
    using assms metric_method_safe(1) by (simp_all add: safe_log_value_def patterns_agree route_ok_def)
  ultimately show ?thesis by (simp add: log_completed_def log_event_def SAFE_LOG_FIELDS_def)
qed

lemma finish_attributes_ok:
  assumes "route_ok path"
  shows "\<exists>sp'. set_safe_span_attributes [(''http.request.method'', LStr (metric_method m)), (''http.route'', LStr path),
      (''http.response.status_code'', LInt st), (''delivery.outcome'', LStr (request_outcome st))] sp = (Inr (), sp')"
proof -
  have "length (request_outcome st) \<le> 160 \<and> newline \<notin> set (request_outcome st)"
    by (simp add: request_outcome_def newline_def)
  then show ?thesis
    using assms metric_method_safe(2,3)
    by (simp add: set_safe_span_attributes_def SAFE_SPAN_ATTRIBUTES_def bounded_scalar_def route_ok_def)
qed

lemma finish_request_done:
  assumes "REQUEST_ID_PATTERN request_id" "route_ok path" "0 \<le> duration_ms"
  shows "\<exists>sp' entry. finish_request previous request_id (metric_method m) path st duration duration_ms outcome sp tm
    = (outcome, (count_request (metric_method m) path st duration tm)
         \<lparr> tm_in_flight := (tm_in_flight tm)(metric_method m := tm_in_flight tm (metric_method m) - 1),
           tm_correlation := previous, tm_spans := tm_spans tm @ [sp'], tm_log := tm_log tm @ [entry] \<rparr>)
    \<and> lr_fields entry = [(''correlation_id'', LStr request_id), (''method'', LStr (metric_method m)), (''route'', LStr path),
           (''status'', LInt st), (''duration_ms'', LFloat duration_ms)]"
proof -
  have frame: "tm_in_flight (count_request a b c d tm) = tm_in_flight tm" "tm_spans (count_request a b c d tm) = tm_spans tm"
    "tm_log (count_request a b c d tm) = tm_log tm" for a b c d
    by (simp_all add: count_request_def Let_def split: option.splits)
  obtain sp1 where attrs: "set_safe_span_attributes [(''http.request.method'', LStr (metric_method m)), (''http.route'', LStr path),
      (''http.response.status_code'', LInt st), (''delivery.outcome'', LStr (request_outcome st))]
      (sp \<lparr> sp_name := metric_method m @ '' '' @ path \<rparr>) = (Inr (), sp1)"
    using finish_attributes_ok [OF assms(2)] by blast
  let ?entry = "\<lparr> lr_message = ''request_completed'', lr_level = 20,
     lr_fields = [(''correlation_id'', LStr request_id), (''method'', LStr (metric_method m)), (''route'', LStr path),
       (''status'', LInt st), (''duration_ms'', LFloat duration_ms)], lr_error_type = None \<rparr>"
  show ?thesis
    unfolding finish_request_def attrs
    by (intro exI [of _ "if 500 \<le> st then sp1 \<lparr> sp_error := True \<rparr> else sp1"] exI [of _ ?entry])
      (simp add: log_completed_ok [OF assms] frame Let_def)
qed

text \<open>The messages the server receives, and the status that counts: the last one announced, or 500.\<close>

lemma send_all_messages:
  assumes "send_all request_id carrier ms st = (sent, final)"
  shows "length sent = length ms"
    "\<forall>m \<in> set sent. \<forall>status headers. m = ResponseStart status headers \<longrightarrow>
       dict_get headers ''x-request-id'' = Some request_id"
    "final = fold (\<lambda>m acc. case m of ResponseStart status _ \<Rightarrow> status | ResponseBody _ \<Rightarrow> acc) ms st"
proof -
  have traced: "dict_get (fold (\<lambda>n. dict_set n (the (dict_get carrier n))) ns h) ''x-request-id'' = Some request_id"
    if "dict_get h ''x-request-id'' = Some request_id" "set ns \<subseteq> {''traceparent'', ''tracestate''}" for ns h
    using that by (induction ns arbitrary: h) auto
  have "length sent = length ms \<and> (\<forall>m \<in> set sent. \<forall>status headers. m = ResponseStart status headers \<longrightarrow>
       dict_get headers ''x-request-id'' = Some request_id)
     \<and> final = fold (\<lambda>m acc. case m of ResponseStart status _ \<Rightarrow> status | ResponseBody _ \<Rightarrow> acc) ms st"
    using assms
  proof (induction ms arbitrary: st sent final)
    case (Cons m ms)
    obtain m' st' where m': "send_with_context request_id carrier m st = (m', st')" by fastforce
    obtain rest where rest: "send_all request_id carrier ms st' = (rest, final)" "sent = m' # rest"
      using Cons.prems m' by (auto split: prod.splits)
    have "st' = (case m of ResponseStart status _ \<Rightarrow> status | ResponseBody _ \<Rightarrow> st)"
      "m' = ResponseStart status headers \<Longrightarrow> dict_get headers ''x-request-id'' = Some request_id" for status headers
      using m' traced by (auto simp: send_with_context_def Let_def split: asgi_message.splits)
    with Cons.IH [OF rest(1)] rest(2) show ?case by auto
  qed simp
  then show "length sent = length ms"
    "\<forall>m \<in> set sent. \<forall>status headers. m = ResponseStart status headers \<longrightarrow>
       dict_get headers ''x-request-id'' = Some request_id"
    "final = fold (\<lambda>m acc. case m of ResponseStart status _ \<Rightarrow> status | ResponseBody _ \<Rightarrow> acc) ms st"
    by auto
qed


lemma error_attribute_ok:
  assumes "length name \<le> 160" "newline \<notin> set name"
  shows "\<exists>sp'. set_safe_span_attributes [(''error.type'', LStr name)] sp = (Inr (), sp')"
  using assms by (simp add: set_safe_span_attributes_def SAFE_SPAN_ATTRIBUTES_def bounded_scalar_def)

text \<open>The counters of a completed request.\<close>

lemma count_request_counters:
  "tm_requests (count_request meth path st d tm)
     = (tm_requests tm)((meth, path, dec_int st) := tm_requests tm (meth, path, dec_int st) + 1)"
  "tm_slo_requests (count_request meth path st d tm) k
     = tm_slo_requests tm k
       + (if dict_get SLO_OPERATIONS (meth, path) = Some (fst k) \<and> snd k = request_outcome st then 1 else 0)"
  by (cases k; auto simp: count_request_def Let_def split: option.splits)+

abbreviation matched_path :: "app_behaviour \<Rightarrow> string" where
  "matched_path app \<equiv> (case ab_route app of Some p \<Rightarrow> p | None \<Rightarrow> ''/unmatched'')"

abbreviation announced_status :: "app_behaviour \<Rightarrow> int" where
  "announced_status app \<equiv> fold (\<lambda>m acc. case m of ResponseStart status _ \<Rightarrow> status | ResponseBody _ \<Rightarrow> acc) (ab_messages app) 500"

abbreviation raised_result :: "app_behaviour \<Rightarrow> unit result" where
  "raised_result app \<equiv> (case ab_raises app of None \<Rightarrow> Inr () | Some (_, e) \<Rightarrow> Inl e)"

text \<open>The middleware up to its \<open>finally\<close> block.\<close>

lemma middleware_finishes:
  assumes "sc_http scope" "pred_option (\<lambda>(name, e). length name \<le> 160 \<and> newline \<notin> set name) (ab_raises app)"
    "TelemetryMiddleware fresh carrier duration duration_ms scope app tm = (r, tm', sent)"
    "meth = metric_method (sc_method scope)" "rid = select_request_id fresh (sc_request_id_header scope)"
  obtains st sp where "send_all rid carrier (ab_messages app) 500 = (sent, st)"
    "finish_request (tm_correlation tm) rid meth (matched_path app) st duration duration_ms (raised_result app) sp
       (tm \<lparr> tm_correlation := rid, tm_in_flight := (tm_in_flight tm)(meth := tm_in_flight tm meth + 1) \<rparr>) = (r, tm')"
proof -
  obtain sent1 st where s1: "send_all rid carrier (ab_messages app) 500 = (sent1, st)" by fastforce
  show thesis
  proof (cases "ab_raises app")
    case None
    with assms(1,3-5) s1 that show thesis
      by (auto simp: TelemetryMiddleware_def Let_def split: prod.splits)
  next
    case (Some p)
    obtain name e where p: "p = (name, e)" by fastforce
    with assms(2) Some have "length name \<le> 160" "newline \<notin> set name" by simp_all
    from error_attribute_ok [OF this] obtain sp2 where
      "set_safe_span_attributes [(''error.type'', LStr name)] \<lparr> sp_name = ''HTTP request'', sp_attributes = [],
         sp_exceptions = [e], sp_error = False \<rparr> = (Inr (), sp2)" by blast
    with assms(1,3-5) s1 Some p that show thesis
      by (auto simp: TelemetryMiddleware_def Let_def split: prod.splits)
  qed
qed

text \<open>
  C33. Whatever the application does with an HTTP request, and whether or not it raises, the
  middleware leaves the in-flight gauge and the correlation id as they were, hands the
  application's outcome on, counts the request exactly once under a method from a fixed
  set, its route template and its last announced status (500 when there was none), counts it
  for the service level exactly when the operation is one of the three measured ones, records
  one span and one log event, and marks every response start with a request id from the safe
  alphabet, the incoming one or a fresh one.
\<close>

theorem telemetry_balanced:
  assumes "sc_http scope" "route_ok (matched_path app)" "0 \<le> duration_ms"
    "pred_option (\<lambda>(name, e). length name \<le> 160 \<and> newline \<notin> set name) (ab_raises app)"
    "TelemetryMiddleware fresh carrier duration duration_ms scope app tm = (r, tm', sent)"
    "meth = metric_method (sc_method scope)" "rid = select_request_id fresh (sc_request_id_header scope)"
    "label = (meth, matched_path app, dec_int (announced_status app))"
  shows "r = raised_result app
    \<and> tm_in_flight tm' = tm_in_flight tm \<and> tm_correlation tm' = tm_correlation tm
    \<and> tm_requests tm' = (tm_requests tm)(label := tm_requests tm label + 1) \<and> meth \<in> set (''OTHER'' # METRIC_METHODS)
    \<and> (\<forall>k. tm_slo_requests tm' k = tm_slo_requests tm k
         + (if dict_get SLO_OPERATIONS (meth, matched_path app) = Some (fst k) \<and> snd k = request_outcome (announced_status app)
            then 1 else 0))
    \<and> length (tm_spans tm') = length (tm_spans tm) + 1
    \<and> (\<exists>entry. tm_log tm' = tm_log tm @ [entry] \<and> dict_get (lr_fields entry) ''correlation_id'' = Some (LStr rid))
    \<and> REQUEST_ID_PATTERN rid
    \<and> (\<forall>status headers. ResponseStart status headers \<in> set sent \<longrightarrow> dict_get headers ''x-request-id'' = Some rid)"
proof -
  let ?tm1 = "tm \<lparr> tm_correlation := rid, tm_in_flight := (tm_in_flight tm)(meth := tm_in_flight tm meth + 1) \<rparr>"
  have rid: "REQUEST_ID_PATTERN rid" unfolding assms(7) by (rule select_request_id_pattern)
  obtain st sp where sent: "send_all rid carrier (ab_messages app) 500 = (sent, st)"
    and fin: "finish_request (tm_correlation tm) rid meth (matched_path app) st duration duration_ms (raised_result app) sp ?tm1
      = (r, tm')"
    using middleware_finishes [OF assms(1,4-7)] by blast
  note messages = send_all_messages [OF sent]
  obtain sp' entry where fine: "r = raised_result app"
    "tm' = (count_request meth (matched_path app) st duration ?tm1)
       \<lparr> tm_in_flight := (tm_in_flight ?tm1)(meth := tm_in_flight ?tm1 meth - 1),
         tm_correlation := tm_correlation tm, tm_spans := tm_spans ?tm1 @ [sp'], tm_log := tm_log ?tm1 @ [entry] \<rparr>"
    "dict_get (lr_fields entry) ''correlation_id'' = Some (LStr rid)"
    using finish_request_done [OF rid assms(2,3), of "tm_correlation tm" "sc_method scope" st duration "raised_result app" sp ?tm1]
      fin unfolding assms(6) by auto
  show ?thesis
    using fine messages(2) messages(3) [symmetric] rid metric_method_bounded [of "sc_method scope"]
      count_request_counters [of meth "matched_path app" st duration ?tm1] assms(6,8) by simp
qed

theorem telemetry_balanced_witness:
  "\<exists>tm'. TelemetryMiddleware 5 [] (1/2) 500
       \<lparr> sc_http = True, sc_method = ''post'', sc_request_id_header = Some ''req-1'' \<rparr>
       \<lparr> ab_messages = [ResponseStart 201 []], ab_route = Some ''/api/v1/orders'', ab_raises = None \<rparr>
       \<lparr> tm_correlation = '''', tm_in_flight = (\<lambda>_. 0), tm_requests = (\<lambda>_. 0), tm_latency = (\<lambda>_. []),
         tm_slo_requests = (\<lambda>_. 0), tm_slo_latency = (\<lambda>_. []), tm_spans = [], tm_log = [] \<rparr>
     = (Inr (), tm', [ResponseStart 201 [(''x-request-id'', ''req-1'')]])
     \<and> tm_requests tm' (''POST'', ''/api/v1/orders'', ''201'') = 1 \<and> tm_in_flight tm' = (\<lambda>_. 0)
     \<and> tm_slo_requests tm' (''create_order'', ''success'') = 1"
  (is "\<exists>tm'. TelemetryMiddleware _ _ _ _ ?scope ?app ?tm = _ \<and> _")
proof -
  obtain r tm' sent where run: "TelemetryMiddleware 5 [] (1/2) 500 ?scope ?app ?tm = (r, tm', sent)"
    by (metis prod.exhaust)
  have "snd (snd (TelemetryMiddleware 5 [] (1/2) 500 ?scope ?app ?tm)) = [ResponseStart 201 [(''x-request-id'', ''req-1'')]]"
    by code_simp
  with run have sent: "sent = [ResponseStart 201 [(''x-request-id'', ''req-1'')]]" by simp
  have facts: "metric_method ''post'' = ''POST''" "route_ok ''/api/v1/orders''" "dec_int 201 = ''201''"
    "dict_get SLO_OPERATIONS (''POST'', ''/api/v1/orders'') = Some ''create_order''" "request_outcome 201 = ''success''"
    by code_simp+
  from telemetry_balanced [OF _ _ _ _ run refl refl refl] show ?thesis
    using run sent facts by auto
qed

section \<open>Configuring twice\<close>

text \<open>However often the process starts the application, it writes each event once and exports each span once.\<close>

lemma configure_json_logging_once:
  assumes "configure_json_logging stream lg = (handler, lg')"
  shows "handler \<in> set (lg_handlers lg')" "lh_delivery_json handler" "set (lg_handlers lg) \<subseteq> set (lg_handlers lg')"
    "length (filter lh_delivery_json (lg_handlers lg')) = max 1 (length (filter lh_delivery_json (lg_handlers lg)))"
    "configure_json_logging stream' lg' = (handler, lg')"
proof -
  have none: "filter lh_delivery_json hs = []" if "find lh_delivery_json hs = None" for hs
    using that by (auto simp: find_None_iff filter_empty_conv)
  have some: "h \<in> set hs \<and> lh_delivery_json h \<and> 1 \<le> length (filter lh_delivery_json hs)"
    if "find lh_delivery_json hs = Some h" for hs h
    using that by (induction hs) (auto split: if_splits)
  have "handler \<in> set (lg_handlers lg') \<and> lh_delivery_json handler \<and> set (lg_handlers lg) \<subseteq> set (lg_handlers lg')
    \<and> length (filter lh_delivery_json (lg_handlers lg')) = max 1 (length (filter lh_delivery_json (lg_handlers lg)))
    \<and> configure_json_logging stream' lg' = (handler, lg')"
  proof (cases "find lh_delivery_json (lg_handlers lg)")
    case None
    with assms none [OF None] show ?thesis
      by (auto simp: configure_json_logging_def find_append Let_def)
  next
    case (Some h)
    with assms some [OF Some] show ?thesis by (auto simp: configure_json_logging_def)
  qed
  then show "handler \<in> set (lg_handlers lg')" "lh_delivery_json handler" "set (lg_handlers lg) \<subseteq> set (lg_handlers lg')"
    "length (filter lh_delivery_json (lg_handlers lg')) = max 1 (length (filter lh_delivery_json (lg_handlers lg)))"
    "configure_json_logging stream' lg' = (handler, lg')"
    by blast+
qed

definition exporters_ok :: "trace_provider \<Rightarrow> bool" where
  "exporters_ok tp \<longleftrightarrow> distinct (tp_processors tp) \<and> set (tp_processors tp) = tp_configured_otlp_endpoints tp \<and> '''' \<notin> set (tp_processors tp)"

lemma build_trace_provider_ok: "exporters_ok (build_trace_provider ratio None)"
  by (simp add: exporters_ok_def build_trace_provider_def)

lemma configure_otlp_exporter_ok:
  "exporters_ok tp \<Longrightarrow> exporters_ok (configure_otlp_exporter endpoint tp)"
  "configure_otlp_exporter endpoint (configure_otlp_exporter endpoint tp) = configure_otlp_exporter endpoint tp"
  "endpoint = Some url \<Longrightarrow> url \<noteq> '''' \<Longrightarrow> exporters_ok tp \<Longrightarrow> url \<in> set (tp_processors (configure_otlp_exporter endpoint tp))"
  by (auto simp: exporters_ok_def configure_otlp_exporter_def split: option.splits)

end
