(* ===== verification/Lifecycle.thy ===== *)
theory Lifecycle
  imports Settings Observability
begin

text \<open>
  The life of the application process (\<open>lifespan\<close> and the health endpoints of \<open>main.py\<close>):
  resources are opened, the database is probed, requests are served, and everything is released
  on the way out. An exception of opening a resource, of the probe, of the served application or
  of a release is a value of the environment. \<open>finally\<close> runs on every path that has reached the
  \<open>try\<close>; the resources are opened before it.
\<close>

section \<open>State and environment\<close>

datatype resource = HttpClient | RedisClient | TrackingListener | DatabaseEngine

datatype life_event = Opened resource | Probed | Served | Released resource | TracesFlushed

text \<open>
  \<open>app.state\<close>: the readiness flag and the resources that are open; the log of what happened; the
  logger and the trace provider of the process. The connections of the engine count as open
  once the probe used it.
\<close>

record app_state =
  as_ready :: "bool option"
  as_open :: "resource list"
  as_log :: "life_event list"
  as_tracking :: "TrackingHub option"
  as_logger :: logger_state
  as_tracing :: trace_provider

record life_env =
  lf_exporter :: "exn option"
  lf_http_open :: "exn option"
  lf_redis_open :: "exn option"
  lf_probe :: "exn option"
  lf_serve :: "exn option"
  lf_http_close :: "exn option"
  lf_redis_close :: "exn option"
  lf_engine_dispose :: "exn option"
  lf_flush :: "exn option"

definition opened :: "resource \<Rightarrow> app_state \<Rightarrow> app_state" where
  "opened r st = st \<lparr> as_open := as_open st @ [r], as_log := as_log st @ [Opened r] \<rparr>"

definition released :: "resource \<Rightarrow> app_state \<Rightarrow> app_state" where
  "released r st = st \<lparr> as_open := removeAll r (as_open st), as_log := as_log st @ [Released r] \<rparr>"

text \<open>A release that may raise.\<close>

definition release :: "exn option \<Rightarrow> resource \<Rightarrow> (app_state, unit) action" where
  "release failure r st = (case failure of Some e \<Rightarrow> (Inl e, st) | None \<Rightarrow> (Inr (), released r st))"

text \<open>A constructor that may raise.\<close>

definition open_resource :: "exn option \<Rightarrow> resource \<Rightarrow> (app_state, unit) action" where
  "open_resource failure r st = (case failure of Some e \<Rightarrow> (Inl e, st) | None \<Rightarrow> (Inr (), opened r st))"

section \<open>Startup, service and shutdown\<close>

text \<open>\<open>configure_otlp_exporter\<close> builds an exporter only for an endpoint that has none yet.\<close>

definition exporter_needed :: "string option \<Rightarrow> trace_provider \<Rightarrow> bool" where
  "exporter_needed endpoint tp = (case endpoint of None \<Rightarrow> False | Some url \<Rightarrow> url \<noteq> '''' \<and> url \<notin> tp_configured_otlp_endpoints tp)"

definition attach_exporter :: "Settings \<Rightarrow> life_env \<Rightarrow> (app_state, unit) action" where
  "attach_exporter s env st =
     (case lf_exporter env of
        Some e \<Rightarrow> if exporter_needed (st_otel_exporter_otlp_endpoint s) (as_tracing st) then (Inl e, st) else (Inr (), st)
      | None \<Rightarrow> (Inr (), st \<lparr> as_tracing := configure_otlp_exporter (st_otel_exporter_otlp_endpoint s) (as_tracing st) \<rparr>))"

definition startup :: "Settings \<Rightarrow> life_env \<Rightarrow> (app_state, unit) action" where
  "startup s env st =
     andThen (attach_exporter s env) (\<lambda>_.
     andThen (open_resource (lf_http_open env) HttpClient) (\<lambda>_.
     andThen (open_resource (lf_redis_open env) RedisClient) (\<lambda>_ st2.
       let st3 = st2 \<lparr> as_tracking := Some (tracking_hub (st_tracking_queue_size s)) \<rparr>;
           st4 = (if st_use_in_memory_repository s then st3 else opened TrackingListener st3)
       in (Inr (), st4 \<lparr> as_ready := Some False \<rparr>))))
       (st \<lparr> as_logger := snd (configure_json_logging None (as_logger st)) \<rparr>)"

text \<open>The body of the \<open>try\<close>: the probe, then the served application until it stops.\<close>

definition serve :: "Settings \<Rightarrow> life_env \<Rightarrow> (app_state, unit) action" where
  "serve s env st =
     (let st1 = (if st_use_in_memory_repository s then st else opened DatabaseEngine st)
      in if \<not> st_use_in_memory_repository s \<and> lf_probe env \<noteq> None
         then (Inl (the (lf_probe env)), st1)
         else let st2 = (if st_use_in_memory_repository s then st1 else st1 \<lparr> as_log := as_log st1 @ [Probed] \<rparr>);
                  st3 = st2 \<lparr> as_ready := Some True, as_log := as_log st2 @ [Served] \<rparr>
              in case lf_serve env of Some e \<Rightarrow> (Inl e, st3) | None \<Rightarrow> (Inr (), st3))"

text \<open>The \<open>finally\<close> block.\<close>

definition shutdown :: "Settings \<Rightarrow> life_env \<Rightarrow> (app_state, unit) action" where
  "shutdown s env st =
     (let st1 = st \<lparr> as_ready := Some False \<rparr>;
          st2 = (if TrackingListener \<in> set (as_open st1) then released TrackingListener st1 else st1)
      in andThen (release (lf_http_close env) HttpClient) (\<lambda>_.
         andThen (release (lf_redis_close env) RedisClient) (\<lambda>_.
         andThen (if st_use_in_memory_repository s then ret () else release (lf_engine_dispose env) DatabaseEngine) (\<lambda>_ st3.
           case lf_flush env of Some e \<Rightarrow> (Inl e, st3) | None \<Rightarrow> (Inr (), st3 \<lparr> as_log := as_log st3 @ [TracesFlushed] \<rparr>)))) st2)"

text \<open>An exception of the \<open>finally\<close> block replaces the one on its way out.\<close>

definition lifespan :: "Settings \<Rightarrow> life_env \<Rightarrow> (app_state, unit) action" where
  "lifespan s env st =
     andThen (startup s env) (\<lambda>_ st0.
       case serve s env st0 of
         (r, st1) \<Rightarrow> (case shutdown s env st1 of
                        (Inl e, st2) \<Rightarrow> (Inl e, st2)
                      | (Inr _, st2) \<Rightarrow> (r, st2))) st"

section \<open>Health endpoints\<close>

definition liveness :: "(string \<times> string) list" where
  "liveness = [(''status'', ''ok'')]"

definition readiness :: "app_state \<Rightarrow> (string \<times> string) list result" where
  "readiness st =
     (if \<not> (case as_ready st of Some b \<Rightarrow> b | None \<Rightarrow> False) then Inl (HTTPException 503 ''not ready'' [])
      else Inr [(''status'', ''ready'')])"

section \<open>Release on every path\<close>

text \<open>What the probe and the served application report.\<close>

definition life_outcome :: "Settings \<Rightarrow> life_env \<Rightarrow> unit result" where
  "life_outcome s env =
     (if \<not> st_use_in_memory_repository s \<and> lf_probe env \<noteq> None then Inl (the (lf_probe env))
      else case lf_serve env of Some e \<Rightarrow> Inl e | None \<Rightarrow> Inr ())"

text \<open>Where the process stops before it has anything to clean up in its own code, and why.\<close>

definition startup_failure :: "Settings \<Rightarrow> life_env \<Rightarrow> app_state \<Rightarrow> exn option" where
  "startup_failure s env st =
     (if lf_exporter env \<noteq> None \<and> exporter_needed (st_otel_exporter_otlp_endpoint s) (as_tracing st) then lf_exporter env
      else if lf_http_open env \<noteq> None then lf_http_open env else lf_redis_open env)"

lemmas startup_simps = startup_def attach_exporter_def open_resource_def opened_def andThen_def Let_def startup_failure_def

lemma startup_fails:
  assumes "startup_failure s env st = Some e" "as_open st = []" "as_log st = []"
  shows "\<exists>st'. startup s env st = (Inl e, st') \<and> as_ready st' = as_ready st \<and> Served \<notin> set (as_log st')
    \<and> as_open st' = (if exporter_needed (st_otel_exporter_otlp_endpoint s) (as_tracing st) \<and> lf_exporter env \<noteq> None
          \<or> lf_http_open env \<noteq> None then [] else [HttpClient])"
  using assms by (auto simp: startup_simps split: option.splits if_splits)

lemma startup_succeeds:
  assumes "startup_failure s env st = None" "as_open st = []" "as_log st = []"
  shows "\<exists>st'. startup s env st = (Inr (), st') \<and> Served \<notin> set (as_log st')
    \<and> as_open st' = [HttpClient, RedisClient] @ (if st_use_in_memory_repository s then [] else [TrackingListener])"
  using assms by (auto simp: startup_simps split: option.splits if_splits)

lemma startup_telemetry:
  assumes "startup s env st = (q, st')"
  shows "as_logger st' = snd (configure_json_logging None (as_logger st))"
    "exporters_ok (as_tracing st) \<Longrightarrow> exporters_ok (as_tracing st')"
  using assms by (auto simp: startup_simps configure_otlp_exporter_ok split: option.splits if_splits)

lemma serve_outcome:
  "fst (serve s env st) = life_outcome s env"
  "as_open (snd (serve s env st)) = as_open st @ (if st_use_in_memory_repository s then [] else [DatabaseEngine])"
  "Served \<notin> set (as_log st) \<Longrightarrow>
     Served \<in> set (as_log (snd (serve s env st))) \<longleftrightarrow> st_use_in_memory_repository s \<or> lf_probe env = None"
  by (auto simp: serve_def life_outcome_def opened_def Let_def split: option.splits)

lemma life_telemetry:
  "as_logger (snd (serve s env st)) = as_logger st \<and> as_tracing (snd (serve s env st)) = as_tracing st"
  "as_logger (snd (shutdown s env st)) = as_logger st \<and> as_tracing (snd (shutdown s env st)) = as_tracing st"
  by (auto simp: serve_def shutdown_def release_def opened_def released_def andThen_def ret_def Let_def
      split: option.splits)

definition closes_cleanly :: "life_env \<Rightarrow> bool" where
  "closes_cleanly env \<longleftrightarrow> lf_http_close env = None \<and> lf_redis_close env = None \<and> lf_engine_dispose env = None
     \<and> lf_flush env = None"

lemma shutdown_outcome:
  assumes "shutdown s env st = (q, st')"
  shows "as_ready st' = Some False"
    "Served \<in> set (as_log st') \<longleftrightarrow> Served \<in> set (as_log st)"
    "closes_cleanly env \<Longrightarrow> q = Inr () \<and> last (as_log st') = TracesFlushed
       \<and> set (as_open st') = set (as_open st) - {TrackingListener, HttpClient, RedisClient}
           - (if st_use_in_memory_repository s then {} else {DatabaseEngine})"
    "lf_http_close env = Some e \<Longrightarrow> q = Inl e \<and> set (as_open st') = set (as_open st) - {TrackingListener}"
  using assms
  by (auto simp: shutdown_def release_def released_def closes_cleanly_def andThen_def ret_def Let_def
      split: option.splits if_splits)

lemma lifespan_released:
  assumes "as_open st = []" "as_log st = []" "startup_failure s env st = None" "lifespan s env st = (r, st')"
  shows "as_ready st' = Some False" "Served \<in> set (as_log st') \<longleftrightarrow> st_use_in_memory_repository s \<or> lf_probe env = None"
    "closes_cleanly env \<Longrightarrow> as_open st' = [] \<and> last (as_log st') = TracesFlushed \<and> r = life_outcome s env"
    "lf_http_close env = Some e \<Longrightarrow> r = Inl e
       \<and> set (as_open st') = {HttpClient, RedisClient} \<union> (if st_use_in_memory_repository s then {} else {DatabaseEngine})"
proof -
  from startup_succeeds [OF assms(3,1,2)] obtain st0 where st0: "startup s env st = (Inr (), st0)" "Served \<notin> set (as_log st0)"
    "as_open st0 = [HttpClient, RedisClient] @ (if st_use_in_memory_repository s then [] else [TrackingListener])" by blast
  obtain r1 st1 where served: "serve s env st0 = (r1, st1)" by fastforce
  note serve = serve_outcome [where s = s and env = env and st = st0, unfolded served fst_conv snd_conv]
  obtain q st2 where shut: "shutdown s env st1 = (q, st2)" by fastforce
  note shutdown = shutdown_outcome [OF shut]
  from assms(4) st0(1) served shut have out: "st' = st2" "r = (case q of Inl e \<Rightarrow> Inl e | Inr _ \<Rightarrow> r1)"
    by (auto simp: lifespan_def andThen_def split: sum.splits)
  have opened: "set (as_open st1) = {HttpClient, RedisClient}
      \<union> (if st_use_in_memory_repository s then {} else {TrackingListener, DatabaseEngine})"
    using serve(2) st0(3) by auto
  show "as_ready st' = Some False" "Served \<in> set (as_log st') \<longleftrightarrow> st_use_in_memory_repository s \<or> lf_probe env = None"
    using shutdown(1,2) serve(3) [OF st0(2)] out(1) by auto
  show "as_open st' = [] \<and> last (as_log st') = TracesFlushed \<and> r = life_outcome s env" if "closes_cleanly env"
  proof -
    have "set (as_open st2) = {}" using shutdown(3) [OF that] opened by auto
    then have "as_open st2 = []" by simp
    then show ?thesis using shutdown(3) [OF that] out serve(1) by simp
  qed
  show "r = Inl e \<and> set (as_open st') = {HttpClient, RedisClient} \<union> (if st_use_in_memory_repository s then {} else {DatabaseEngine})"
    if "lf_http_close env = Some e" using shutdown(4) [OF that] opened out by auto
qed

lemma lifespan_startup_failed:
  assumes "startup s env st = (Inl e, st0)"
  shows "lifespan s env st = (Inl e, st0)"
  using assms by (simp add: lifespan_def andThen_def)

lemma lifespan_telemetry:
  assumes "lifespan s env st = (r, st')"
  shows "as_logger st' = snd (configure_json_logging None (as_logger st))"
    "exporters_ok (as_tracing st) \<Longrightarrow> exporters_ok (as_tracing st')"
proof -
  obtain q st0 where q: "startup s env st = (q, st0)" by fastforce
  have "as_logger st' = as_logger st0 \<and> as_tracing st' = as_tracing st0"
    using assms q life_telemetry(1) [of s env st0] life_telemetry(2) [of s env "snd (serve s env st0)"]
    by (auto simp: lifespan_def andThen_def split: sum.splits prod.splits)
  with startup_telemetry [OF q] show "as_logger st' = snd (configure_json_logging None (as_logger st))"
    "exporters_ok (as_tracing st) \<Longrightarrow> exporters_ok (as_tracing st')" by simp_all
qed

text \<open>
  C36. Once the process has opened its resources, however its life ends, by a failed probe of the
  database, an exception or cancellation of the application, or normally: as long as no release
  raises, every resource that was opened is released, traces are flushed last, and the original
  exception is the one reported; when closing the HTTP client raises, the releases after it do
  not run, and the Redis client and the database engine stay open. When opening a resource
  raises, the exception is reported and nothing is released: the HTTP client stays open when
  the Redis client cannot be built. In every case the readiness endpoint answers 503
  afterwards, and the application has served exactly when startup succeeded and the probe did or
  there was nothing to probe. Any number of starts leaves one JSON handler and one exporter per
  endpoint.
\<close>

theorem lifespan_releases_everything:
  assumes "as_open st = []" "as_log st = []" "as_ready st \<noteq> Some True" "lifespan s env st = (r, st')"
  shows "readiness st' = Inl (HTTPException 503 ''not ready'' [])
    \<and> (Served \<in> set (as_log st') \<longleftrightarrow> startup_failure s env st = None \<and> (st_use_in_memory_repository s \<or> lf_probe env = None))
    \<and> (case startup_failure s env st of
         None \<Rightarrow> (closes_cleanly env \<longrightarrow> as_open st' = [] \<and> last (as_log st') = TracesFlushed \<and> r = life_outcome s env)
           \<and> (\<forall>e. lf_http_close env = Some e \<longrightarrow> r = Inl e
                \<and> set (as_open st') = {HttpClient, RedisClient} \<union> (if st_use_in_memory_repository s then {} else {DatabaseEngine}))
       | Some e \<Rightarrow> r = Inl e \<and> as_open st' =
           (if exporter_needed (st_otel_exporter_otlp_endpoint s) (as_tracing st) \<and> lf_exporter env \<noteq> None
               \<or> lf_http_open env \<noteq> None then [] else [HttpClient]))
    \<and> length (filter lh_delivery_json (lg_handlers (as_logger st')))
        = max 1 (length (filter lh_delivery_json (lg_handlers (as_logger st))))
    \<and> (exporters_ok (as_tracing st) \<longrightarrow> exporters_ok (as_tracing st'))"
proof -
  obtain h lg where lg: "configure_json_logging None (as_logger st) = (h, lg)" by fastforce
  note tele = lifespan_telemetry [OF assms(4)] configure_json_logging_once(4) [OF lg]
  show ?thesis
  proof (cases "startup_failure s env st")
    case None
    note life = lifespan_released [OF assms(1,2) None assms(4)]
    then show ?thesis using None tele lg by (simp add: readiness_def)
  next
    case (Some e)
    from startup_fails [OF this assms(1,2)] lifespan_startup_failed [of s env st e] assms(3,4) Some tele lg
    show ?thesis by (auto simp: readiness_def split: option.splits)
  qed
qed

text \<open>A Redis URL that the client library refuses, and a database that cannot be reached.\<close>

definition fresh_state :: app_state where
  "fresh_state = \<lparr> as_ready = None, as_open = [], as_log = [], as_tracking = None,
     as_logger = \<lparr> lg_handlers = [], lg_level = 0, lg_propagate = True \<rparr>, as_tracing = build_trace_provider 1 None \<rparr>"

definition smooth_env :: life_env where
  "smooth_env = \<lparr> lf_exporter = None, lf_http_open = None, lf_redis_open = None, lf_probe = None, lf_serve = None,
     lf_http_close = None, lf_redis_close = None, lf_engine_dispose = None, lf_flush = None \<rparr>"

theorem lifespan_releases_everything_witness:
  "(\<exists>st'. lifespan sample_settings (smooth_env \<lparr> lf_probe := Some (OtherException ''ConnectionRefusedError'') \<rparr>) fresh_state
       = (Inl (OtherException ''ConnectionRefusedError''), st') \<and> as_open st' = [] \<and> Served \<notin> set (as_log st'))
   \<and> (\<exists>st'. lifespan sample_settings (smooth_env \<lparr> lf_redis_open := Some (ValueError ''Redis URL must specify a scheme'') \<rparr>) fresh_state
       = (Inl (ValueError ''Redis URL must specify a scheme''), st') \<and> as_open st' = [HttpClient])"
proof
  let ?env = "smooth_env \<lparr> lf_probe := Some (OtherException ''ConnectionRefusedError'') \<rparr>"
  obtain r st' where run: "lifespan sample_settings ?env fresh_state = (r, st')" by fastforce
  have "\<not> st_use_in_memory_repository sample_settings" by (simp add: sample_settings_def)
  with lifespan_releases_everything [OF _ _ _ run] run
  show "\<exists>st'. lifespan sample_settings ?env fresh_state = (Inl (OtherException ''ConnectionRefusedError''), st')
      \<and> as_open st' = [] \<and> Served \<notin> set (as_log st')"
    by (simp add: closes_cleanly_def life_outcome_def startup_failure_def smooth_env_def fresh_state_def)
next
  let ?env = "smooth_env \<lparr> lf_redis_open := Some (ValueError ''Redis URL must specify a scheme'') \<rparr>"
  obtain r st' where run: "lifespan sample_settings ?env fresh_state = (r, st')" by fastforce
  from lifespan_releases_everything [OF _ _ _ run] run
  show "\<exists>st'. lifespan sample_settings ?env fresh_state = (Inl (ValueError ''Redis URL must specify a scheme''), st')
      \<and> as_open st' = [HttpClient]"
    by (simp add: startup_failure_def smooth_env_def fresh_state_def)
qed

end
