(* ===== verification/Bounded_Gather.thy ===== *)
theory Bounded_Gather
  imports Prelude
begin

text \<open>
  \<open>gather_bounded\<close> of \<open>async_tools.py\<close>: a task group whose tasks share a semaphore. The event
  loop may interleave the tasks in any way, so the group is a step relation: a task that waits
  gets a permit in the order of creation (\<open>asyncio.Semaphore\<close> is fair), a running task ends, the
  first exception aborts the group, and an aborted group cancels tasks that wait or run.
  \<open>asyncio.TaskGroup\<close> takes no notice of a task that ends with \<open>CancelledError\<close>. \<open>outcome i\<close> is
  what factory \<open>i\<close> returns or raises when it is left alone, \<open>reaction i\<close> what it does when it is
  cancelled while it runs: it may let the cancellation through, raise something else or even
  return a value. The caller's own task is not cancelled.
\<close>

section \<open>The task group\<close>

record 'a group =
  gr_waiting :: "nat list"
  gr_running :: "nat list"
  gr_results :: "'a option list"
  gr_errors :: "exn list"

definition start_group :: "nat \<Rightarrow> 'a group" where
  "start_group n = \<lparr> gr_waiting = [0..<n], gr_running = [], gr_results = replicate n None, gr_errors = [] \<rparr>"

text \<open>
  The end of one task, \<open>async with semaphore: results[index] = await factory()\<close>, as the group
  sees it.
\<close>

definition end_task :: "nat \<Rightarrow> 'a result \<Rightarrow> 'a group \<Rightarrow> 'a group" where
  "end_task i r g =
     (case r of
        Inr v \<Rightarrow> g \<lparr> gr_running := remove1 i (gr_running g), gr_results := (gr_results g)[i := Some v] \<rparr>
      | Inl e \<Rightarrow> g \<lparr> gr_running := remove1 i (gr_running g),
                     gr_errors := (if e = CancelledError then gr_errors g else gr_errors g @ [e]) \<rparr>)"

inductive gather_step :: "nat \<Rightarrow> (nat \<Rightarrow> 'a result) \<Rightarrow> (nat \<Rightarrow> 'a result) \<Rightarrow> 'a group \<Rightarrow> 'a group \<Rightarrow> bool"
  for concurrency outcome reaction where
  acquire: "gr_waiting g = i # rest \<Longrightarrow> length (gr_running g) < concurrency \<Longrightarrow>
    gather_step concurrency outcome reaction g (g \<lparr> gr_waiting := rest, gr_running := gr_running g @ [i] \<rparr>)"
| finish: "i \<in> set (gr_running g) \<Longrightarrow> gather_step concurrency outcome reaction g (end_task i (outcome i) g)"
| cancel_waiting: "gr_errors g \<noteq> [] \<Longrightarrow> i \<in> set (gr_waiting g) \<Longrightarrow>
    gather_step concurrency outcome reaction g (g \<lparr> gr_waiting := remove1 i (gr_waiting g) \<rparr>)"
| cancel_running: "gr_errors g \<noteq> [] \<Longrightarrow> i \<in> set (gr_running g) \<Longrightarrow>
    gather_step concurrency outcome reaction g (end_task i (reaction i) g)"

inductive_cases gather_stepE: "gather_step concurrency outcome reaction g g'"

definition group_over :: "'a group \<Rightarrow> bool" where
  "group_over g \<longleftrightarrow> gr_waiting g = [] \<and> gr_running g = []"

text \<open>
  What the caller gets when the group is over: the exceptions of the tasks as a group, else the
  results in the order of the factories. A missing result would trip the assertion.
\<close>

datatype 'a gathered = Gathered "'a list" | ExceptionGroup "exn list" | AssertionFailed | Refused exn

definition group_result :: "'a group \<Rightarrow> 'a gathered" where
  "group_result g =
     (if gr_errors g \<noteq> [] then ExceptionGroup (gr_errors g)
      else if list_ex (\<lambda>r. r = None) (gr_results g) then AssertionFailed
      else Gathered (map the (gr_results g)))"

text \<open>\<open>gather_bounded\<close> as a relation between its arguments and what it may answer.\<close>

inductive gather_bounded :: "int \<Rightarrow> nat \<Rightarrow> (nat \<Rightarrow> 'a result) \<Rightarrow> (nat \<Rightarrow> 'a result) \<Rightarrow> 'a gathered \<Rightarrow> bool" where
  refused: "concurrency < 1 \<Longrightarrow>
    gather_bounded concurrency n outcome reaction (Refused (ValueError ''concurrency must be positive''))"
| answered: "1 \<le> concurrency \<Longrightarrow> (gather_step (nat concurrency) outcome reaction)\<^sup>*\<^sup>* (start_group n) g \<Longrightarrow> group_over g \<Longrightarrow>
    gather_bounded concurrency n outcome reaction (group_result g)"

inductive_cases gather_boundedE [elim]: "gather_bounded concurrency n outcome reaction r"

section \<open>Invariant\<close>

text \<open>A factory raises when it ends, left alone, with an exception that the group collects.\<close>

definition raises :: "'a result \<Rightarrow> exn \<Rightarrow> bool" where
  "raises r e \<longleftrightarrow> r = Inl e \<and> e \<noteq> CancelledError"

text \<open>The result entry of a task whose factory has returned or was cancelled.\<close>

definition left_alone :: "'a result \<Rightarrow> 'a option \<Rightarrow> bool" where
  "left_alone r entry \<longleftrightarrow> (case r of Inr v \<Rightarrow> entry = Some v | Inl e \<Rightarrow> e = CancelledError \<and> entry = None)"

lemma left_alone_simps [simp]:
  "left_alone (Inr v) entry \<longleftrightarrow> entry = Some v"
  "left_alone (Inl e) entry \<longleftrightarrow> e = CancelledError \<and> entry = None"
  by (simp_all add: left_alone_def)

text \<open>
  Each task waits, runs or has ended; at most \<open>concurrency\<close> run; every collected exception is a
  factory's and there is none before a factory raises on its own. As long as there is none,
  the tasks that have ended are those whose factory returned, with its value, or was cancelled.
\<close>

definition group_ok :: "nat \<Rightarrow> (nat \<Rightarrow> 'a result) \<Rightarrow> (nat \<Rightarrow> 'a result) \<Rightarrow> nat \<Rightarrow> 'a group \<Rightarrow> bool" where
  "group_ok concurrency outcome reaction n g \<longleftrightarrow>
     distinct (gr_waiting g @ gr_running g) \<and> set (gr_waiting g @ gr_running g) \<subseteq> {..<n}
   \<and> length (gr_running g) \<le> concurrency \<and> length (gr_results g) = n
   \<and> (\<forall>e \<in> set (gr_errors g). \<exists>i < n. raises (outcome i) e \<or> raises (reaction i) e)
   \<and> (gr_errors g \<noteq> [] \<longrightarrow> (\<exists>i < n. \<exists>e. raises (outcome i) e))
   \<and> (gr_errors g = [] \<longrightarrow> (\<forall>i < n.
        if i \<in> set (gr_waiting g @ gr_running g) then gr_results g ! i = None
        else left_alone (outcome i) (gr_results g ! i)))"

lemma group_ok_start: "group_ok concurrency outcome reaction n (start_group n)"
  by (auto simp: group_ok_def start_group_def)

lemma group_ok_finish:
  assumes "group_ok concurrency outcome reaction n g" "i \<in> set (gr_running g)"
  shows "group_ok concurrency outcome reaction n (end_task i (outcome i) g)"
proof (cases "outcome i")
  case (Inr v)
  have "i < n" "i \<notin> set (gr_waiting g)" using assms by (auto simp: group_ok_def)
  with Inr assms show ?thesis
    by (auto simp: group_ok_def end_task_def length_remove1 nth_list_update set_remove1_eq)
next
  case (Inl e)
  with assms have i: "i < n" "i \<notin> set (gr_waiting g)" by (auto simp: group_ok_def)
  show ?thesis
  proof (cases "e = CancelledError")
    case True
    with Inl i assms show ?thesis by (auto simp: group_ok_def end_task_def length_remove1 set_remove1_eq)
  next
    case False
    then have "raises (outcome i) e" using Inl by (simp add: raises_def)
    then have "\<exists>j < n. raises (outcome j) e" "\<exists>j < n. \<exists>e. raises (outcome j) e" using i(1) by blast+
    with Inl False assms show ?thesis by (auto simp: group_ok_def end_task_def length_remove1 set_remove1_eq)
  qed
qed

lemma group_ok_cancel:
  assumes "group_ok concurrency outcome reaction n g" "gr_errors g \<noteq> []" "i \<in> set (gr_running g)"
  shows "group_ok concurrency outcome reaction n (end_task i (reaction i) g)"
proof -
  have "e \<noteq> CancelledError \<Longrightarrow> reaction i = Inl e \<Longrightarrow> i < n \<and> raises (reaction i) e" for e
    using assms by (auto simp: group_ok_def raises_def)
  with assms show ?thesis
    by (auto simp: group_ok_def end_task_def length_remove1 set_remove1_eq split: sum.splits)
qed

lemma group_ok_step:
  assumes "gather_step concurrency outcome reaction g g'" "group_ok concurrency outcome reaction n g"
  shows "group_ok concurrency outcome reaction n g'"
  using assms(1)
proof cases
  case (acquire i rest)
  then show ?thesis using assms(2) by (auto simp: group_ok_def)
next
  case (cancel_waiting i)
  then show ?thesis using assms(2) by (auto simp: group_ok_def set_remove1_eq)
qed (use assms(2) group_ok_finish group_ok_cancel in blast)+

lemma group_ok_run:
  "(gather_step concurrency outcome reaction)\<^sup>*\<^sup>* (start_group n) g \<Longrightarrow> group_ok concurrency outcome reaction n g"
  by (induction rule: rtranclp_induct) (auto intro: group_ok_start group_ok_step)

section \<open>Progress\<close>

text \<open>A waiting task has two steps to go, a running one has one.\<close>

definition steps_to_go :: "'a group \<Rightarrow> nat" where
  "steps_to_go g = 2 * length (gr_waiting g) + length (gr_running g)"

lemma length_remove1_less: "i \<in> set xs \<Longrightarrow> length (remove1 i xs) < length xs"
  by (auto simp: length_remove1 dest: length_pos_if_in_set)

lemma end_task_progress: "i \<in> set (gr_running g) \<Longrightarrow> steps_to_go (end_task i r g) < steps_to_go g"
  by (auto simp: steps_to_go_def end_task_def length_remove1_less split: sum.splits)

lemma step_progress: "gather_step concurrency outcome reaction g g' \<Longrightarrow> steps_to_go g' < steps_to_go g"
  by (induction rule: gather_step.induct)
    (simp_all add: end_task_progress, simp_all add: steps_to_go_def length_remove1_less)

lemma step_exists:
  assumes "1 \<le> concurrency" "\<not> group_over g"
  shows "\<exists>g'. gather_step concurrency outcome reaction g g'"
proof (cases "gr_running g")
  case Nil
  with assms(2) obtain i rest where "gr_waiting g = i # rest" by (cases "gr_waiting g") (auto simp: group_over_def)
  then show ?thesis using gather_step.acquire [of g i rest concurrency outcome reaction] Nil assms(1) by auto
next
  case (Cons i rest)
  then show ?thesis using gather_step.finish [of i g concurrency outcome reaction] by auto
qed

lemma run_to_end:
  assumes "1 \<le> concurrency"
  shows "\<exists>g'. (gather_step concurrency outcome reaction)\<^sup>*\<^sup>* g g' \<and> group_over g'"
proof (induction "steps_to_go g" arbitrary: g rule: less_induct)
  case less
  show ?case
  proof (cases "group_over g")
    case False
    then obtain h where h: "gather_step concurrency outcome reaction g h" using step_exists [OF assms] by blast
    from less [OF step_progress [OF h]] h show ?thesis by (meson converse_rtranclp_into_rtranclp)
  qed blast
qed

lemma ended_group:
  assumes "group_ok concurrency outcome reaction n g" "group_over g"
  shows "if \<exists>i < n. \<exists>e. raises (outcome i) e
         then \<exists>es. group_result g = ExceptionGroup es \<and> es \<noteq> []
            \<and> (\<forall>e \<in> set es. \<exists>i < n. raises (outcome i) e \<or> raises (reaction i) e)
         else if \<exists>i < n. outcome i = Inl CancelledError then group_result g = AssertionFailed
         else group_result g = Gathered (map (\<lambda>i. projr (outcome i)) [0..<n])"
proof (cases "gr_errors g = []")
  case True
  with assms have len: "length (gr_results g) = n"
    and res: "i < n \<Longrightarrow> left_alone (outcome i) (gr_results g ! i)" for i
    by (auto simp: group_ok_def group_over_def)
  have none: "\<not> raises (outcome i) e" if "i < n" for i e using res [OF that] by (auto simp: raises_def)
  have missing: "list_ex (\<lambda>r. r = None) (gr_results g) \<longleftrightarrow> (\<exists>i < n. outcome i = Inl CancelledError)"
  proof
    assume "list_ex (\<lambda>r. r = None) (gr_results g)"
    then obtain i where i: "i < n" "gr_results g ! i = None" by (auto simp: list_ex_length len)
    with res [of i] show "\<exists>i < n. outcome i = Inl CancelledError" by (cases "outcome i") auto
  next
    assume "\<exists>i < n. outcome i = Inl CancelledError"
    with res show "list_ex (\<lambda>r. r = None) (gr_results g)" by (fastforce simp: list_ex_length len)
  qed
  have "gr_results g = map (\<lambda>i. Some (projr (outcome i))) [0..<n]" if "\<nexists>i. i < n \<and> outcome i = Inl CancelledError"
  proof (rule nth_equalityI)
    fix i assume "i < length (gr_results g)"
    with res [of i] that show "gr_results g ! i = map (\<lambda>i. Some (projr (outcome i))) [0..<n] ! i"
      by (cases "outcome i") (auto simp: len)
  qed (simp add: len)
  with none missing True show ?thesis by (auto simp: group_result_def comp_def)
next
  case False
  with assms(1) have "\<exists>i < n. \<exists>e. raises (outcome i) e" by (simp add: group_ok_def)
  with False assms(1) show ?thesis by (simp add: group_result_def group_ok_def)
qed

lemma gather_bounded_returns: "\<exists>r. gather_bounded concurrency n outcome reaction r"
proof (cases "concurrency < 1")
  case False
  with run_to_end [of "nat concurrency" outcome reaction "start_group n"]
  obtain g where "(gather_step (nat concurrency) outcome reaction)\<^sup>*\<^sup>* (start_group n) g" "group_over g"
    by (auto simp: le_nat_iff not_less)
  with False show ?thesis by (meson gather_bounded.answered not_less)
qed (blast intro: gather_bounded.refused)

text \<open>
  C37. However the event loop interleaves the tasks and whatever factories do when they are
  cancelled, at most \<open>concurrency\<close> of them hold the semaphore, every step brings the group closer
  to its end, and it ends. What the caller gets is decided by the factories: a non-empty group
  of exceptions, each raised by a factory, when some factory raises; else a failed assertion
  when some factory ends with \<open>CancelledError\<close>, which the group ignores; else the factories'
  values in the order of the factories. A concurrency below one is refused.
\<close>

theorem gather_bounded_correct:
  "(\<forall>r. gather_bounded concurrency n outcome reaction r \<longrightarrow>
      (if concurrency < 1 then r = Refused (ValueError ''concurrency must be positive'')
       else if \<exists>i < n. \<exists>e. raises (outcome i) e
       then \<exists>es. r = ExceptionGroup es \<and> es \<noteq> []
          \<and> (\<forall>e \<in> set es. \<exists>i < n. raises (outcome i) e \<or> raises (reaction i) e)
       else if \<exists>i < n. outcome i = Inl CancelledError then r = AssertionFailed
       else r = Gathered (map (\<lambda>i. projr (outcome i)) [0..<n])))
   \<and> (\<exists>r. gather_bounded concurrency n outcome reaction r)
   \<and> (\<forall>g g'. (gather_step (nat concurrency) outcome reaction)\<^sup>*\<^sup>* (start_group n) g \<longrightarrow>
        length (gr_running g) \<le> nat concurrency
        \<and> (gather_step (nat concurrency) outcome reaction g g' \<longrightarrow> steps_to_go g' < steps_to_go g))"
proof (intro conjI allI impI)
  fix r assume "gather_bounded concurrency n outcome reaction r"
  then show "if concurrency < 1 then r = Refused (ValueError ''concurrency must be positive'')
       else if \<exists>i < n. \<exists>e. raises (outcome i) e
       then \<exists>es. r = ExceptionGroup es \<and> es \<noteq> []
          \<and> (\<forall>e \<in> set es. \<exists>i < n. raises (outcome i) e \<or> raises (reaction i) e)
       else if \<exists>i < n. outcome i = Inl CancelledError then r = AssertionFailed
       else r = Gathered (map (\<lambda>i. projr (outcome i)) [0..<n])"
  proof (cases rule: gather_bounded.cases)
    case (answered g)
    then show ?thesis using ended_group [OF group_ok_run [OF answered(3)] answered(4)] by simp
  qed simp
next
  show "\<exists>r. gather_bounded concurrency n outcome reaction r" by (rule gather_bounded_returns)
next
  fix g g' assume run: "(gather_step (nat concurrency) outcome reaction)\<^sup>*\<^sup>* (start_group n) g"
  then show "length (gr_running g) \<le> nat concurrency" by (simp add: group_ok_run [unfolded group_ok_def])
  show "steps_to_go g' < steps_to_go g" if "gather_step (nat concurrency) outcome reaction g g'"
    using that by (rule step_progress)
qed

text \<open>Three factories under two permits: all return, one is cancelled, or one raises as well.\<close>

theorem gather_bounded_correct_witness:
  "gather_bounded 2 3 (\<lambda>i. Inr (10 * i)) (\<lambda>_. Inl CancelledError) (Gathered [0, 10, 20 :: nat])
   \<and> gather_bounded 2 3 (\<lambda>i. if i = 1 then Inl CancelledError else Inr i) (\<lambda>_. Inl CancelledError)
       (AssertionFailed :: nat gathered)
   \<and> (\<exists>es. gather_bounded 2 3 (\<lambda>i. if i = 1 then Inl IndexError else Inr i) (\<lambda>_. Inl CancelledError)
        (ExceptionGroup es :: nat gathered) \<and> set es = {IndexError})"
proof (intro conjI)
  let ?c = "\<lambda>_. Inl CancelledError" and ?mid = "\<lambda>e i. if i = 1 then Inl e else Inr (i :: nat)"
  note good = gather_bounded_correct [of 2 3 "\<lambda>i. Inr (10 * i :: nat)" ?c]
  from good [THEN conjunct2, THEN conjunct1] obtain r where r: "gather_bounded 2 3 (\<lambda>i. Inr (10 * i :: nat)) ?c r" by blast
  have all: "\<not> (\<exists>i < (3 :: nat). \<exists>e. raises (Inr (10 * i :: nat)) e)" "\<not> (\<exists>i < (3 :: nat). Inr (10 * i :: nat) = Inl CancelledError)"
    by (auto simp: raises_def)
  from good [THEN conjunct1, rule_format, OF r] have "r = Gathered [0, 10, 20]"
    unfolding if_not_P [OF all(1)] if_not_P [OF all(2)] by (simp add: upt_rec)
  with r show "gather_bounded 2 3 (\<lambda>i. Inr (10 * i)) ?c (Gathered [0, 10, 20 :: nat])" by simp
  note mid = gather_bounded_correct [of 2 3 "?mid e" ?c for e]
  have no: "\<not> (\<exists>i < (3 :: nat). \<exists>e. raises (?mid CancelledError i) e)" "\<exists>i < (3 :: nat). ?mid CancelledError i = Inl CancelledError"
    by (auto simp: raises_def)
  from mid [THEN conjunct2, THEN conjunct1] obtain r' where r': "gather_bounded 2 3 (?mid CancelledError) ?c r'" by blast
  from mid [THEN conjunct1, rule_format, OF this] have "r' = AssertionFailed"
    unfolding if_not_P [OF no(1)] if_P [OF no(2)] by simp
  with r' show "gather_bounded 2 3 (?mid CancelledError) ?c AssertionFailed" by simp
  have yes: "\<exists>i < (3 :: nat). \<exists>e. raises (?mid IndexError i) e" by (auto simp: raises_def)
  from mid [THEN conjunct2, THEN conjunct1] obtain q where q: "gather_bounded 2 3 (?mid IndexError) ?c q" by blast
  from mid [THEN conjunct1, rule_format, OF this] obtain es where es: "q = ExceptionGroup es" "es \<noteq> []"
    "\<forall>e \<in> set es. \<exists>i < 3. raises (?mid IndexError i) e \<or> raises (?c i :: nat result) e"
    unfolding if_P [OF yes] by auto
  have "\<forall>e \<in> set es. e = IndexError" using es(3) by (auto simp: raises_def split: if_splits)
  with es(2) have "set es = {IndexError}" by (cases es) auto
  with es(1) q show "\<exists>es. gather_bounded 2 3 (?mid IndexError) ?c (ExceptionGroup es) \<and> set es = {IndexError}" by blast
qed

end
