(* ===== verification/Presentation.thy ===== *)
theory Presentation
  imports Http_Properties
begin

text \<open>
  The order card: \<open>presentation.py\<close>, the handler \<open>get_order_card\<close> of \<open>main.py\<close> and the template
  \<open>templates/orders/card.html\<close>. Text is in the UTF-8 form in which the response carries it. Jinja's
  escaping of inserted values is a parameter (\<open>escape\<close>); what it documents is \<open>escape_documented\<close>.
  Shown: whoever sees a card may see the order, and no value of an order changes the page's markup.
\<close>

section \<open>The view\<close>

definition utf8 :: "nat list \<Rightarrow> string" where
  "utf8 bytes = map char_of bytes"

text \<open>The labels of the states: Created, Courier assigned, Handed to the courier, Delivered, Cancelled, in Russian.\<close>

fun STATUS_LABELS :: "OrderStatus \<Rightarrow> string" where
  "STATUS_LABELS CREATED = utf8 [0xD0,0xA1,0xD0,0xBE,0xD0,0xB7,0xD0,0xB4,0xD0,0xB0,0xD0,0xBD]"
| "STATUS_LABELS ASSIGNED = utf8 [0xD0,0x9D,0xD0,0xB0,0xD0,0xB7,0xD0,0xBD,0xD0,0xB0,0xD1,0x87,0xD0,0xB5,0xD0,0xBD,
     0x20,0xD0,0xBA,0xD1,0x83,0xD1,0x80,0xD1,0x8C,0xD0,0xB5,0xD1,0x80]"
| "STATUS_LABELS PICKED_UP = utf8 [0xD0,0x9F,0xD0,0xB5,0xD1,0x80,0xD0,0xB5,0xD0,0xB4,0xD0,0xB0,0xD0,0xBD,
     0x20,0xD0,0xBA,0xD1,0x83,0xD1,0x80,0xD1,0x8C,0xD0,0xB5,0xD1,0x80,0xD1,0x83]"
| "STATUS_LABELS DELIVERED = utf8 [0xD0,0x94,0xD0,0xBE,0xD1,0x81,0xD1,0x82,0xD0,0xB0,0xD0,0xB2,0xD0,0xBB,0xD0,0xB5,0xD0,0xBD]"
| "STATUS_LABELS CANCELLED = utf8 [0xD0,0x9E,0xD1,0x82,0xD0,0xBC,0xD0,0xB5,0xD0,0xBD,0xD1,0x91,0xD0,0xBD]"

record OrderCardView =
  cv_id :: string
  cv_public_number :: string
  cv_status_code :: string
  cv_status_label :: string
  cv_pickup_address :: string
  cv_destination_address :: string
  cv_weight_text :: string
  cv_created_at_text :: string

definition to_upper :: "char \<Rightarrow> char" where
  "to_upper c = (if 97 \<le> code c \<and> code c \<le> 122 then char_of (code c - 32) else c)"

text \<open>
  \<open>f"{grams / 1000:g} kg"\<close>: six significant digits without trailing zeros. Below a million grams
  these are all the digits of the quotient; \<open>format_g\<close> stands for the longer ones.
\<close>

definition strip_zeros :: "string \<Rightarrow> string" where
  "strip_zeros s = rev (dropWhile (\<lambda>c. c = CHR ''0'') (rev s))"

definition weight_number :: "(int \<Rightarrow> string) \<Rightarrow> int \<Rightarrow> string" where
  "weight_number format_g grams =
     (if 0 \<le> grams \<and> grams < 1000000
      then let fraction = strip_zeros (dec_fixed 3 (nat (grams mod 1000)))
           in dec_int (grams div 1000) @ (if fraction = '''' then '''' else ''.'' @ fraction)
      else format_g grams)"

definition weight_text :: "(int \<Rightarrow> string) \<Rightarrow> int \<Rightarrow> string" where
  "weight_text format_g grams = weight_number format_g grams @ utf8 [0x20,0xD0,0xBA,0xD0,0xB3]"

text \<open>\<open>strftime("%d.%m.%Y %H:%M UTC")\<close> of a UTC time.\<close>

definition created_at_text :: "datetime \<Rightarrow> string" where
  "created_at_text t =
     (let ymd = ord2ymd (719163 + t div 86400000000); secs = t mod 86400000000 div 1000000
      in dec_fixed 2 (nat (snd (snd ymd))) @ ''.'' @ dec_fixed 2 (nat (fst (snd ymd))) @ ''.'' @ dec_int (fst ymd)
         @ '' '' @ dec_fixed 2 (nat (secs div 3600)) @ '':'' @ dec_fixed 2 (nat (secs div 60 mod 60)) @ '' UTC'')"

definition card_from_order :: "(int \<Rightarrow> string) \<Rightarrow> DeliveryOrder \<Rightarrow> OrderCardView" where
  "card_from_order format_g order = \<lparr>
     cv_id = str_uuid (o_id order),
     cv_public_number = map to_upper (hd (split_on (CHR ''-'') (str_uuid (o_id order)))),
     cv_status_code = status_value (o_status order),
     cv_status_label = STATUS_LABELS (o_status order),
     cv_pickup_address = o_pickup_address order,
     cv_destination_address = o_destination_address order,
     cv_weight_text = weight_text format_g (o_weight_grams order),
     cv_created_at_text = created_at_text (o_created_at order) \<rparr>"

section \<open>The page\<close>

text \<open>A template is text and inserted values; a value is escaped where it is inserted.\<close>

datatype piece = Markup string | Insert "OrderCardView \<Rightarrow> string" | Link

definition quoted :: "string \<Rightarrow> string" where
  "quoted s = [CHR 0x22] @ s @ [CHR 0x22]"

definition order_word :: string where
  "order_word = utf8 [0xD0,0x97,0xD0,0xB0,0xD0,0xBA,0xD0,0xB0,0xD0,0xB7]"

text \<open>A line break of the file and the indentation of the next line.\<close>

definition br :: "nat \<Rightarrow> string" where
  "br n = newline # replicate n (CHR 0x20)"

text \<open>\<open>card.html\<close>; Jinja drops the line break at the end of the file.\<close>

definition card_head :: "piece list" where
  "card_head =
     [Markup (''<!doctype html>'' @ br 0 @ ''<html lang='' @ quoted ''ru'' @ ''>'' @ br 2 @ ''<head>'' @ br 4
        @ ''<meta charset='' @ quoted ''utf-8'' @ ''>'' @ br 4
        @ ''<meta name='' @ quoted ''viewport'' @ '' content='' @ quoted ''width=device-width, initial-scale=1'' @ ''>'' @ br 4
        @ ''<title>'' @ order_word @ '' ''), Insert cv_public_number, Markup (''</title>'' @ br 2 @ ''</head>'' @ br 2)]"

definition card_body :: "piece list" where
  "card_body =
     [Markup (''<body>'' @ br 4 @ ''<main>'' @ br 6 @ ''<article data-order-id='' @ [CHR 0x22]), Insert cv_id,
      Markup ([CHR 0x22] @ '' data-status='' @ [CHR 0x22]), Insert cv_status_code,
      Markup ([CHR 0x22] @ ''>'' @ br 8 @ ''<header>'' @ br 10 @ ''<p>'' @ order_word @ '' ''), Insert cv_public_number,
      Markup (''</p>'' @ br 10 @ ''<h1>''), Insert cv_status_label,
      Markup (''</h1>'' @ br 8 @ ''</header>'' @ br 8 @ ''<dl>'' @ br 10 @ ''<dt>''
        @ utf8 [0xD0,0x9E,0xD1,0x82,0xD0,0xBA,0xD1,0x83,0xD0,0xB4,0xD0,0xB0] @ ''</dt>'' @ br 10 @ ''<dd>''),
      Insert cv_pickup_address,
      Markup (''</dd>'' @ br 10 @ ''<dt>'' @ utf8 [0xD0,0x9A,0xD1,0x83,0xD0,0xB4,0xD0,0xB0] @ ''</dt>'' @ br 10 @ ''<dd>''),
      Insert cv_destination_address,
      Markup (''</dd>'' @ br 10 @ ''<dt>'' @ utf8 [0xD0,0x92,0xD0,0xB5,0xD1,0x81] @ ''</dt>'' @ br 10 @ ''<dd>''),
      Insert cv_weight_text,
      Markup (''</dd>'' @ br 10 @ ''<dt>'' @ utf8 [0xD0,0xA1,0xD0,0xBE,0xD0,0xB7,0xD0,0xB4,0xD0,0xB0,0xD0,0xBD] @ ''</dt>'' @ br 10 @ ''<dd>''),
      Insert cv_created_at_text,
      Markup (''</dd>'' @ br 8 @ ''</dl>'' @ br 8 @ ''<a href='' @ [CHR 0x22]), Link,
      Markup ([CHR 0x22] @ ''>'' @ utf8 [0xD0,0x9E,0xD1,0x82,0xD0,0xBA,0xD1,0x80,0xD1,0x8B,0xD1,0x82,0xD1,0x8C,
        0x20,0xD0,0xB4,0xD0,0xB0,0xD0,0xBD,0xD0,0xBD,0xD1,0x8B,0xD0,0xB5,0x20,
        0xD0,0xB7,0xD0,0xB0,0xD0,0xBA,0xD0,0xB0,0xD0,0xB7,0xD0,0xB0] @ ''</a>'' @ br 6 @ ''</article>'' @ br 4 @ ''</main>''
        @ br 2 @ ''</body>'' @ br 0 @ ''</html>'')]"

definition card_template :: "piece list" where
  "card_template = card_head @ card_body"

text \<open>\<open>url_for('get_order', order_id=order.id)\<close> under the base URL of the request.\<close>

definition order_url :: "string \<Rightarrow> OrderCardView \<Rightarrow> string" where
  "order_url base_url vw = base_url @ ''/api/v1/orders/'' @ cv_id vw"

fun render_piece :: "(string \<Rightarrow> string) \<Rightarrow> string \<Rightarrow> OrderCardView \<Rightarrow> piece \<Rightarrow> string" where
  "render_piece escape base_url vw (Markup m) = m"
| "render_piece escape base_url vw (Insert f) = escape (f vw)"
| "render_piece escape base_url vw Link = escape (order_url base_url vw)"

definition render_card :: "(string \<Rightarrow> string) \<Rightarrow> string \<Rightarrow> OrderCardView \<Rightarrow> string" where
  "render_card escape base_url vw = concat (map (render_piece escape base_url vw) card_template)"

definition card_headers :: "(string \<times> string) list" where
  "card_headers =
     [(''Content-Security-Policy'', ''default-src '' @ [CHR 0x27] @ ''none'' @ [CHR 0x27] @ ''; base-uri '' @ [CHR 0x27] @ ''none''
         @ [CHR 0x27] @ ''; frame-ancestors '' @ [CHR 0x27] @ ''none'' @ [CHR 0x27] @ ''; form-action '' @ [CHR 0x27] @ ''self'' @ [CHR 0x27]),
      (''X-Content-Type-Options'', ''nosniff''), (''Referrer-Policy'', ''no-referrer'')]"

definition get_order_card ::
  "(string \<Rightarrow> string) \<Rightarrow> (int \<Rightarrow> string) \<Rightarrow> string \<Rightarrow> 's OrderRepository \<Rightarrow> uuid \<Rightarrow> Actor \<Rightarrow> ('s, string answer) action" where
  "get_order_card escape format_g base_url repo order_id actor =
     andThen (owned_order repo actor order_id) (\<lambda>order.
     ret (render_card escape base_url (card_from_order format_g order), card_headers))"


section \<open>Markup\<close>

text \<open>The characters that can open or close a tag or an attribute.\<close>

definition markup_char :: "char \<Rightarrow> bool" where
  "markup_char c \<longleftrightarrow> c \<in> {CHR ''<'', CHR ''>'', CHR 0x22, CHR 0x27}"

text \<open>What Jinja documents of its escaping: none of these characters is left, and plain text stays as it is.\<close>

definition escape_documented :: "(string \<Rightarrow> string) \<Rightarrow> bool" where
  "escape_documented escape \<longleftrightarrow>
     (\<forall>s. list_all (\<lambda>c. \<not> markup_char c) (escape s))
   \<and> (\<forall>s. list_all (\<lambda>c. \<not> markup_char c \<and> c \<noteq> CHR ''&'') s \<longrightarrow> escape s = s)"

fun piece_markup :: "piece \<Rightarrow> string" where
  "piece_markup (Markup m) = filter markup_char m"
| "piece_markup _ = []"

lemma render_markup:
  assumes "escape_documented escape"
  shows "filter markup_char (render_card escape base_url vw) = concat (map piece_markup card_template)"
proof -
  have none: "filter markup_char (escape s) = []" for s
    using assms by (simp add: escape_documented_def list_all_iff filter_empty_conv)
  have "filter markup_char (render_piece escape base_url vw p) = piece_markup p" for p
    by (cases p) (simp_all add: none)
  then show ?thesis by (simp add: render_card_def filter_concat comp_def)
qed

lemma card_texts:
  "map (weight_number (\<lambda>_. '''')) [1, 750, 1000, 1200, 100000] = [''0.001'', ''0.75'', ''1'', ''1.2'', ''100'']"
  "created_at_text 1700000000000000 = ''14.11.2023 22:13 UTC''"
  "cv_public_number (card_from_order (\<lambda>_. '''') sample_stored) = ''00000000''"
  by code_simp+

lemma pickup_shown:
  assumes "escape_documented escape" "list_all (\<lambda>c. \<not> markup_char c \<and> c \<noteq> CHR ''&'') (cv_pickup_address vw)"
  shows "\<exists>before after. render_card escape base_url vw = before @ ''<dd>'' @ cv_pickup_address vw @ ''</dd>'' @ after"
proof -
  have esc: "escape (cv_pickup_address vw) = cv_pickup_address vw"
    using assms unfolding escape_documented_def by blast
  obtain pre post m m' where body: "card_template = pre @ [Markup (m @ ''<dd>''), Insert cv_pickup_address, Markup (''</dd>'' @ m')] @ post"
    using that [of "card_head @ take 8 card_body" "''</h1>'' @ br 8 @ ''</header>'' @ br 8 @ ''<dl>'' @ br 10 @ ''<dt>''
        @ utf8 [0xD0,0x9E,0xD1,0x82,0xD0,0xBA,0xD1,0x83,0xD0,0xB4,0xD0,0xB0] @ ''</dt>'' @ br 10"
        "br 10 @ ''<dt>'' @ utf8 [0xD0,0x9A,0xD1,0x83,0xD0,0xB4,0xD0,0xB0] @ ''</dt>'' @ br 10 @ ''<dd>''" "drop 11 card_body"]
    by (simp add: card_template_def card_body_def)
  then show ?thesis
    by (intro exI [of _ "concat (map (render_piece escape base_url vw) pre) @ m"]
        exI [of _ "m' @ concat (map (render_piece escape base_url vw) post)"]) (simp add: render_card_def body esc)
qed

text \<open>
  C39. The order card is shown only to an actor that may access the order; others get 403 or the
  repository's error, and the repository is left as it was. However hostile the addresses of
  the order are, the page has the markup of the template and nothing else, it carries a
  policy that forbids scripts and framing, and a plain address appears as the order has it.
\<close>

theorem order_card_is_inert:
  assumes "escape_documented escape" "get_order_card escape format_g base_url repo order_id actor s = (r, s')"
    "snd (repo_get repo order_id s) = s"
  shows "s' = s \<and> (case r of
      Inl e \<Rightarrow> e = access_denied \<or> fst (service_get repo order_id s) = Inl e
    | Inr (page, headers) \<Rightarrow> \<exists>order. fst (service_get repo order_id s) = Inr order
        \<and> can_access_order actor (o_tenant_id order) (o_customer_id order) (o_courier_id order)
        \<and> filter markup_char page = concat (map piece_markup card_template)
        \<and> headers = card_headers
        \<and> (list_all (\<lambda>c. \<not> markup_char c \<and> c \<noteq> CHR ''&'') (o_pickup_address order) \<longrightarrow>
             (\<exists>before after. page = before @ ''<dd>'' @ o_pickup_address order @ ''</dd>'' @ after)))"
proof -
  obtain got s1 where got: "service_get repo order_id s = (got, s1)" by fastforce
  have s1: "s1 = s" using assms(3) got
    by (auto simp: service_get_def andThen_def raise_def ret_def split: prod.splits sum.splits option.splits)
  show ?thesis
  proof (cases got)
    case (Inl e)
    with assms(2) got s1 show ?thesis by (auto simp: get_order_card_def owned_order_def andThen_def)
  next
    case (Inr order)
    have shown: "list_all (\<lambda>c. \<not> markup_char c \<and> c \<noteq> CHR ''&'') (o_pickup_address order) \<Longrightarrow>
      \<exists>before after. render_card escape base_url (card_from_order format_g order)
        = before @ ''<dd>'' @ o_pickup_address order @ ''</dd>'' @ after"
      using pickup_shown [OF assms(1), of "card_from_order format_g order" base_url] by (simp add: card_from_order_def)
    from Inr assms(2) got s1 shown render_markup [OF assms(1)] show ?thesis
      by (auto simp: get_order_card_def owned_order_def owns_order_def andThen_def ret_def raise_def split: if_splits)
  qed
qed

section \<open>A concrete escaping\<close>

fun html_entity :: "char \<Rightarrow> string" where
  "html_entity c =
     (if c = CHR ''&'' then ''&amp;'' else if c = CHR ''<'' then ''&lt;'' else if c = CHR ''>'' then ''&gt;''
      else if c = CHR 0x22 then ''&#34;'' else if c = CHR 0x27 then ''&#39;'' else [c])"

definition html_escape :: "string \<Rightarrow> string" where
  "html_escape s = concat (map html_entity s)"

lemma html_escape_documented: "escape_documented html_escape"
  unfolding escape_documented_def
proof (intro conjI allI impI)
  fix s show "list_all (\<lambda>c. \<not> markup_char c) (html_escape s)"
    by (induction s) (auto simp: html_escape_def markup_char_def)
next
  fix s assume "list_all (\<lambda>c. \<not> markup_char c \<and> c \<noteq> CHR ''&'') s"
  then show "html_escape s = s" by (induction s) (auto simp: html_escape_def markup_char_def)
qed

theorem order_card_is_inert_witness:
  "\<exists>page. get_order_card html_escape (\<lambda>_. '''') ''https://app'' in_memory_repository 5 sample_dispatcher sample_orders
     = (Inr (page, card_headers), sample_orders) \<and> filter markup_char page = concat (map piece_markup card_template)"
proof -
  obtain r s' where run: "get_order_card html_escape (\<lambda>_. '''') ''https://app'' in_memory_repository 5 sample_dispatcher sample_orders
      = (r, s')" by fastforce
  have "can_access_order sample_dispatcher (o_tenant_id sample_stored) (o_customer_id sample_stored) (o_courier_id sample_stored)"
    by code_simp
  with run obtain page where "r = Inr (page, card_headers)"
    by (auto simp: get_order_card_def owned_order_def owns_order_def andThen_def sample_get ret_def)
  with order_card_is_inert [OF html_escape_documented run] run show ?thesis
    by (auto simp: in_memory_repository_def mem_get_def)
qed

end
