(* ===== verification/Worker.thy ===== *)
theory Worker
  imports Messaging_Properties Observability
begin

text \<open>
  The Celery task of \<open>worker.py\<close> around the notification job of \<open>Messaging\<close>: its options, its body
  with the log event, and what becomes of the message. Celery is a parameter that maps the
  options, the number of retries so far and the outcome of the body to the end of the
  attempt; what it documents is \<open>celery_documented\<close>.
\<close>

section \<open>The task\<close>

definition is_transient :: "exn \<Rightarrow> bool" where
  "is_transient e \<longleftrightarrow> e = OtherException ''TransientNotificationError''"

fun is_permanent :: "exn \<Rightarrow> bool" where
  "is_permanent (PermanentNotificationError _) = True"
| "is_permanent _ = False"

record task_options =
  to_name :: string
  to_acks_late :: bool
  to_reject_on_worker_lost :: bool
  to_ignore_result :: bool
  to_autoretry_for :: "exn \<Rightarrow> bool"
  to_dont_autoretry_for :: "exn \<Rightarrow> bool"
  to_retry_backoff :: nat
  to_retry_backoff_max :: nat
  to_retry_jitter :: bool
  to_max_retries :: nat

definition send_notification_options :: task_options where
  "send_notification_options = \<lparr>
     to_name = ''delivery.send_notification'', to_acks_late = True, to_reject_on_worker_lost = True,
     to_ignore_result = True, to_autoretry_for = is_transient, to_dont_autoretry_for = is_permanent,
     to_retry_backoff = 2, to_retry_backoff_max = 60, to_retry_jitter = True, to_max_retries = 5 \<rparr>"

type_synonym worker_state = "(message_tables \<times> InMemoryIdempotentNotificationProvider) \<times> log_record list"

text \<open>The body; \<open>redelivered\<close> is what the broker says of the message, if anything.\<close>

definition send_notification :: "datetime \<Rightarrow> bool option \<Rightarrow> string \<Rightarrow> (worker_state, unit) action" where
  "send_notification now redelivered event_id st =
     (case run_notification_job now event_id (fst st) of
        (Inl e, s) \<Rightarrow> (Inl e, (s, snd st))
      | (Inr applied, s) \<Rightarrow>
          (case log_event '''' ''notification_processed'' 20 None
                  [(''event_id'', LStr event_id), (''redelivered'', LBool (redelivered = Some True)), (''applied'', LBool applied)]
                  (snd st) of
             (r, sink) \<Rightarrow> (r, (s, sink))))"

datatype task_end = Succeeded | Retried | Failed exn

text \<open>
  With \<open>autoretry_for\<close> Celery retries what is listed and not excepted, at most \<open>max_retries\<close> times;
  every other exception fails the task, and the message is acknowledged.
\<close>

definition celery_documented :: "(task_options \<Rightarrow> nat \<Rightarrow> unit result \<Rightarrow> task_end) \<Rightarrow> bool" where
  "celery_documented celery \<longleftrightarrow>
     (\<forall>opts n. celery opts n (Inr ()) = Succeeded
       \<and> (\<forall>e. celery opts n (Inl e) =
            (if to_autoretry_for opts e \<and> \<not> to_dont_autoretry_for opts e \<and> n < to_max_retries opts then Retried else Failed e)))"

section \<open>Exceptions of the job\<close>

text \<open>An action that never raises \<open>TransientNotificationError\<close>.\<close>

definition steady :: "('s, 'a) action \<Rightarrow> bool" where
  "steady m \<longleftrightarrow> (\<forall>s e. fst (m s) = Inl e \<longrightarrow> \<not> is_transient e)"

named_theorems steady_rules

lemma steady_andThen [steady_rules]: "steady m \<Longrightarrow> (\<And>x. steady (f x)) \<Longrightarrow> steady (andThen m f)"
  unfolding steady_def andThen_def by (auto split: prod.splits sum.splits) (metis fst_conv)+

lemma steady_ret [steady_rules]: "steady (ret x)"
  by (simp add: steady_def ret_def)

lemma steady_check [steady_rules]: "\<not> is_transient e \<Longrightarrow> steady (check b e)"
  by (auto simp: steady_def check_def)

lemma steady_if [steady_rules]: "steady m \<Longrightarrow> steady m' \<Longrightarrow> steady (if b then m else m')"
  by simp

lemma steady_on_tables [steady_rules]: "steady m \<Longrightarrow> steady (on_tables m)"
  unfolding steady_def on_tables_def by (simp add: case_prod_unfold)

lemma steady_on_world [steady_rules]: "steady m \<Longrightarrow> steady (on_world m)"
  unfolding steady_def on_world_def by (simp add: case_prod_unfold)

lemma steady_tables [steady_rules]:
  "steady (claim_inbox ev ty now)" "steady (insert_notification_row row)" "steady (update_notification_row row)"
  "steady (provider_send to_whom msg key)"
  by (auto simp: steady_def is_transient_def claim_inbox_def insert_notification_row_def update_notification_row_def
      notification_row_error_def provider_send_def Let_def split: option.splits if_splits)

lemma payload_errors: "json_get_uuid payload key = Inl e \<Longrightarrow> \<not> is_transient e"
  by (auto simp: json_get_uuid_def json_get_str_def json_get_def is_transient_def thenR_def of_option_def
      split: option.splits sum.splits elim!: json_str.elims)

lemma steady_payload [steady_rules]:
  "steady (lift_result (json_get_uuid payload key))" "steady (lift_result (created_order_id payload))"
  by (auto simp: steady_def lift_result_def created_order_id_def dest: payload_errors split: if_splits)

lemma steady_claimed:
  assumes "\<And>b. steady (f b)"
  shows "steady (\<lambda>s. if \<not> claimed then (Inr False, s) else f (preference_enabled (fst s) t c channel) s)"
  using assms unfolding steady_def by auto

lemma steady_dispatch:
  "steady (dispatch_order_created_notification_once provider_send ev ty payload now channel)"
  unfolding dispatch_order_created_notification_once_def Let_def
  by (intro steady_rules steady_claimed) (simp add: is_transient_def)

lemma steady_job: "steady (run_notification_job now event_id)"
proof -
  have "steady (notification_event now ev)" for ev
    using steady_dispatch unfolding steady_def notification_event_def
    by (auto simp: is_transient_def split: option.splits)
  then have "steady (process_notification_event now ev)" for ev
    unfolding steady_def process_notification_event_def external_transaction_def
    by (auto split: prod.splits sum.splits) (metis fst_conv)+
  then show ?thesis
    unfolding run_notification_job_def by (auto simp: steady_def raise_def is_transient_def split: option.splits)
qed

section \<open>One attempt\<close>

lemma processed_event_logged:
  "log_event '''' ''notification_processed'' 20 None
     [(''event_id'', LStr (str_uuid ev)), (''redelivered'', LBool red), (''applied'', LBool app)] sink
   = (Inr (), sink @ [\<lparr> lr_message = ''notification_processed'', lr_level = 20,
        lr_fields = [(''event_id'', LStr (str_uuid ev)), (''redelivered'', LBool red), (''applied'', LBool app)],
        lr_error_type = None \<rparr>])"
proof -
  have "EVENT_NAME_PATTERN ''notification_processed''" by code_simp
  moreover have "TOKEN_FIELD_PATTERN (str_uuid ev)" by (simp add: patterns_agree str_uuid_pattern)
  ultimately show ?thesis
    by (simp add: log_event_def SAFE_LOG_FIELDS_def safe_log_value_def)
qed

text \<open>
  The task for an event that is named by its canonical id ends as its job ends: when the job
  answers, the task succeeds and writes one log event that says whether the event was
  applied; when the job raises, nothing is logged and no table changed. Whatever the message,
  the options never lead to a retry: no code of the service raises
  \<open>TransientNotificationError\<close>, the only exception the task retries, so a failed attempt is final.
\<close>

theorem notification_attempt_is_final:
  assumes "celery_documented celery"
  shows "celery send_notification_options n (fst (send_notification now redelivered text st)) \<noteq> Retried
    \<and> (case process_notification_event now ev (fst st) of
         (Inr applied, s) \<Rightarrow> \<exists>entry. send_notification now redelivered (str_uuid ev) st = (Inr (), (s, snd st @ [entry]))
           \<and> dict_get (lr_fields entry) ''applied'' = Some (LBool applied)
           \<and> dict_get (lr_fields entry) ''redelivered'' = Some (LBool (redelivered = Some True))
       | (Inl e, s) \<Rightarrow> send_notification now redelivered (str_uuid ev) st = (Inl e, (s, snd st)) \<and> fst s = fst (fst st)
           \<and> celery send_notification_options n (Inl e) = Failed e)"
proof
  obtain r st' where run: "send_notification now redelivered text st = (r, st')" by (rule prod.exhaust)
  have "\<not> is_transient e" if "r = Inl e" for e
  proof (cases "fst (run_notification_job now text (fst st))")
    case (Inl e')
    with that run have "e = e'" by (auto simp: send_notification_def split: prod.splits)
    with Inl steady_job show ?thesis unfolding steady_def by blast
  next
    case (Inr applied)
    with that run show ?thesis
      by (auto simp: send_notification_def log_event_def safe_log_value_def is_transient_def Let_def
          split: prod.splits if_splits sum.splits)
  qed
  then show "celery send_notification_options n (fst (send_notification now redelivered text st)) \<noteq> Retried"
    using assms run by (cases r) (auto simp: celery_documented_def send_notification_options_def)
next
  obtain r s where job: "process_notification_event now ev (fst st) = (r, s)" by (rule prod.exhaust)
  show "case process_notification_event now ev (fst st) of
         (Inr applied, s) \<Rightarrow> \<exists>entry. send_notification now redelivered (str_uuid ev) st = (Inr (), (s, snd st @ [entry]))
           \<and> dict_get (lr_fields entry) ''applied'' = Some (LBool applied)
           \<and> dict_get (lr_fields entry) ''redelivered'' = Some (LBool (redelivered = Some True))
       | (Inl e, s) \<Rightarrow> send_notification now redelivered (str_uuid ev) st = (Inl e, (s, snd st)) \<and> fst s = fst (fst st)
           \<and> celery send_notification_options n (Inl e) = Failed e"
  proof (cases r)
    case (Inl e)
    have "fst s = fst (fst st)" using job Inl
      by (auto simp: process_notification_event_def external_transaction_def split: prod.splits sum.splits)
    moreover have "\<not> is_transient e"
      using steady_job [of now "str_uuid ev"] job Inl unfolding steady_def run_notification_job_def
      by (metis fst_conv option.case(2) uuid_text_roundtrip)
    ultimately show ?thesis
      using job Inl assms
      by (simp add: send_notification_def run_notification_job_def celery_documented_def send_notification_options_def)
  next
    case (Inr applied)
    with job show ?thesis by (simp add: send_notification_def run_notification_job_def processed_event_logged)
  qed
qed

text \<open>
  A message that writes the id in another form that \<open>UUID\<close> accepts, such as with braces, is
  applied and committed, and then the log event is refused: the task fails although its work is done.
\<close>

lemma braced_id_fails_after_commit:
  "\<exists>s. send_notification 9 None ''{00000000-0000-0000-0000-000000000001}'' ((sample_messages, idle_provider), [])
      = (Inl (ValueError ''event_id contains unsafe or unbounded characters''), (s, []))
    \<and> dict_get (mb_notifications (fst s)) 1 \<noteq> None"
proof -
  let ?text = "''{00000000-0000-0000-0000-000000000001}''"
  obtain db p where job: "process_notification_event 9 1 (sample_messages, idle_provider) = (Inr True, (db, p))"
    using sample_job by auto
  then have "notification_event 9 1 (sample_messages, idle_provider) = (Inr True, (db, p))"
    by (auto simp: process_notification_event_def external_transaction_def split: prod.splits sum.splits)
  then have "dispatch_order_created_notification_once provider_send 1 ''order.created''
      (created_integration_payload sample_created) 9 ''email'' (sample_messages, idle_provider) = (Inr True, (db, p))"
    by (simp add: notification_event_def sample_messages_def)
  from dispatch_True [OF this] have stored: "dict_get (mb_notifications db) 1 \<noteq> None" by auto
  have "uuid_of_text ?text = Some 1" by code_simp
  with job have ran: "run_notification_job 9 ?text (sample_messages, idle_provider) = (Inr True, (db, p))"
    by (simp add: run_notification_job_def)
  have "log_event '''' ''notification_processed'' 20 None
      [(''event_id'', LStr ?text), (''redelivered'', LBool (None = Some True)), (''applied'', LBool True)] []
    = (Inl (ValueError ''event_id contains unsafe or unbounded characters''), [])" by code_simp
  with ran stored show ?thesis by (simp add: send_notification_def)
qed

definition plain_celery :: "task_options \<Rightarrow> nat \<Rightarrow> unit result \<Rightarrow> task_end" where
  "plain_celery opts n r =
     (case r of
        Inr _ \<Rightarrow> Succeeded
      | Inl e \<Rightarrow> if to_autoretry_for opts e \<and> \<not> to_dont_autoretry_for opts e \<and> n < to_max_retries opts then Retried else Failed e)"

theorem notification_attempt_is_final_witness:
  "\<exists>s entry. process_notification_event 9 1 (sample_messages, idle_provider) = (Inr True, s)
     \<and> send_notification 9 (Some True) (str_uuid 1) ((sample_messages, idle_provider), []) = (Inr (), (s, [entry]))
     \<and> dict_get (lr_fields entry) ''applied'' = Some (LBool True)"
proof -
  obtain s where job: "process_notification_event 9 1 (sample_messages, idle_provider) = (Inr True, s)" using sample_job by blast
  have "celery_documented plain_celery" by (simp add: celery_documented_def plain_celery_def)
  from notification_attempt_is_final [OF this, of 0 9 "Some True" "str_uuid 1" "((sample_messages, idle_provider), [])" 1] job
  show ?thesis by auto
qed

end
