(* ===== verification/Release.thy ===== *)
theory Release
  imports Proof_Storage
begin

text \<open>
  \<open>release.py\<close>: the check of a release manifest before deployment. \<open>json.loads\<close> is a parameter; of a
  decoded value matters only whether it is a text, another scalar, or a container, which Python
  cannot hash.
\<close>

section \<open>The check\<close>

datatype decoded_value = DText string | DScalar | DContainer

datatype decoded = DObject "(string \<times> decoded_value) list" | DOther

record ReleaseManifest =
  rm_commit :: string
  rm_image :: string
  rm_alembic :: string

definition COMMIT_SHA :: "string \<Rightarrow> bool" where
  "COMMIT_SHA s \<longleftrightarrow> length s = 40 \<and> list_all lower_hex s"

text \<open>\<open>[a-z0-9_.-]\<close>\<close>

definition image_char :: "char \<Rightarrow> bool" where
  "image_char c \<longleftrightarrow> 97 \<le> code c \<and> code c \<le> 122 \<or> 48 \<le> code c \<and> code c \<le> 57 \<or> c \<in> set ''_.-''"

text \<open>
  The pattern of a pinned image. Its character classes contain neither the slash nor the at
  sign, so the first of each ends the owner and the name.
\<close>

definition PINNED_IMAGE :: "string \<Rightarrow> bool" where
  "PINNED_IMAGE s \<longleftrightarrow>
     (let (owner, slash, rest) = partition_at (CHR ''/'') (drop 8 s); (name, at_sign, pin) = partition_at (CHR ''@'') rest
      in startswith s ''ghcr.io/'' \<and> slash \<and> at_sign \<and> owner \<noteq> '''' \<and> list_all image_char owner
         \<and> name \<noteq> '''' \<and> list_all image_char name
         \<and> startswith pin ''sha256:'' \<and> length pin = 71 \<and> list_all lower_hex (drop 7 pin))"

definition is_text :: "(string \<Rightarrow> bool) \<Rightarrow> decoded_value option \<Rightarrow> bool" where
  "is_text p v = (case v of Some (DText t) \<Rightarrow> p t | _ \<Rightarrow> False)"

definition text_of :: "decoded_value option \<Rightarrow> string" where
  "text_of v = (case v of Some (DText t) \<Rightarrow> t | _ \<Rightarrow> '''')"

definition verify_release_manifest ::
  "(string \<Rightarrow> decoded result) \<Rightarrow> string \<Rightarrow> string \<Rightarrow> string set \<Rightarrow> ReleaseManifest result" where
  "verify_release_manifest loads raw expected_commit compatible_revisions =
     thenR (loads raw) (\<lambda>value.
       case value of
         DOther \<Rightarrow> Inl (ValueError ''unexpected release manifest fields'')
       | DObject given \<Rightarrow>
           if fst ` set given \<noteq> {''commit'', ''image'', ''alembic''}
           then Inl (ValueError ''unexpected release manifest fields'')
           else if \<not> COMMIT_SHA expected_commit
           then Inl (ValueError ''expected commit must be a full Git SHA'')
           else if dict_get given ''commit'' \<noteq> Some (DText expected_commit)
           then Inl (ValueError ''release manifest belongs to another commit'')
           else if \<not> is_text PINNED_IMAGE (dict_get given ''image'')
           then Inl (ValueError ''image must be pinned by a sha256 digest'')
           else if dict_get given ''alembic'' = Some DContainer
           then Inl (TypeError ''unhashable type'')
           else if \<not> is_text (\<lambda>t. t \<in> compatible_revisions) (dict_get given ''alembic'')
           then Inl (ValueError ''database revision is outside the compatibility window'')
           else Inr \<lparr> rm_commit = expected_commit, rm_image = text_of (dict_get given ''image''),
                      rm_alembic = text_of (dict_get given ''alembic'') \<rparr>)"

section \<open>What is accepted\<close>

lemma partition_at_eq:
  "partition_at c s = (a, True, b) \<longleftrightarrow> s = a @ c # b \<and> c \<notin> set a"
proof (induction s arbitrary: a b)
  case (Cons x xs)
  then show ?case
    by (cases a; cases "partition_at c xs") (auto split: prod.splits)
qed simp

lemma startswith_drop: "startswith s p \<Longrightarrow> length p = n \<Longrightarrow> s = p @ drop n s"
  by (metis append_take_drop_id startswith_def)

definition image_spec :: "string \<Rightarrow> bool" where
  "image_spec s \<longleftrightarrow> (\<exists>owner name digest. s = ''ghcr.io/'' @ owner @ ''/'' @ name @ ''@sha256:'' @ digest
     \<and> owner \<noteq> [] \<and> list_all image_char owner \<and> name \<noteq> [] \<and> list_all image_char name
     \<and> length digest = 64 \<and> list_all lower_hex digest)"

lemma PINNED_IMAGE_spec: "PINNED_IMAGE s \<longleftrightarrow> image_spec s"
proof
  assume "PINNED_IMAGE s"
  then obtain owner rest name pin where parts: "partition_at (CHR ''/'') (drop 8 s) = (owner, True, rest)"
    "partition_at (CHR ''@'') rest = (name, True, pin)" "startswith s ''ghcr.io/''"
    and ok: "owner \<noteq> ''''" "list_all image_char owner" "name \<noteq> ''''" "list_all image_char name"
    "startswith pin ''sha256:''" "length pin = 71" "list_all lower_hex (drop 7 pin)"
    by (auto simp: PINNED_IMAGE_def Let_def split: prod.splits)
  have "s = ''ghcr.io/'' @ drop 8 s"
    by (rule startswith_drop [OF parts(3)]) simp
  moreover have "pin = ''sha256:'' @ drop 7 pin"
    by (rule startswith_drop [OF ok(5)]) simp
  ultimately have "s = ''ghcr.io/'' @ owner @ ''/'' @ name @ ''@sha256:'' @ drop 7 pin"
    using parts(1,2) by (metis partition_at_eq append_Cons append_Nil append_assoc)
  with ok show "image_spec s" unfolding image_spec_def by (intro exI [of _ owner] exI [of _ name] exI [of _ "drop 7 pin"]) simp
next
  assume "image_spec s"
  then obtain owner name digest where s: "s = ''ghcr.io/'' @ owner @ ''/'' @ name @ ''@sha256:'' @ digest"
    and ok: "owner \<noteq> []" "list_all image_char owner" "name \<noteq> []" "list_all image_char name"
    "length digest = 64" "list_all lower_hex digest" by (auto simp: image_spec_def)
  have no: "CHR ''/'' \<notin> set owner" "CHR ''@'' \<notin> set name"
    using ok(2,4) by (auto simp: list_all_iff image_char_def code_def)
  have "partition_at (CHR ''/'') (drop 8 s) = (owner, True, name @ ''@sha256:'' @ digest)"
    "partition_at (CHR ''@'') (name @ ''@sha256:'' @ digest) = (name, True, ''sha256:'' @ digest)"
    using no by (simp_all add: partition_at_eq s)
  with ok show "PINNED_IMAGE s" by (simp add: PINNED_IMAGE_def startswith_def s)
qed

text \<open>
  The check accepts exactly the manifests that are an object with the three fields, name the
  expected full commit, pin an image of the registry by its digest, and a schema revision
  inside the compatibility window, and returns what the manifest says. Everything else is
  refused with an exception; in particular no image that is named by a tag passes.
\<close>

theorem release_manifest_exact:
  "verify_release_manifest loads raw expected compatible = Inr m \<longleftrightarrow>
     (\<exists>given. loads raw = Inr (DObject given) \<and> fst ` set given = {''commit'', ''image'', ''alembic''}
        \<and> length expected = 40 \<and> list_all lower_hex expected \<and> rm_commit m = expected
        \<and> dict_get given ''commit'' = Some (DText (rm_commit m))
        \<and> dict_get given ''image'' = Some (DText (rm_image m)) \<and> image_spec (rm_image m)
        \<and> dict_get given ''alembic'' = Some (DText (rm_alembic m)) \<and> rm_alembic m \<in> compatible)"
  by (cases m)
    (auto simp: verify_release_manifest_def thenR_def COMMIT_SHA_def is_text_def text_of_def PINNED_IMAGE_spec
      split: sum.splits decoded.splits if_splits option.splits decoded_value.splits)

end
