(* ===== verification/Websocket.thy ===== *)
theory Websocket
  imports Http_Api
begin

text \<open>
  The WebSocket of \<open>main.py\<close> after its credentials are accepted: the handler \<open>tracking\<close> with its
  two tasks, \<open>_send_tracking_events\<close> and \<open>_wait_for_websocket_disconnect\<close>. The tasks, the
  publishers and the other subscribers interleave in any way, so a session is a run of steps.
  The hub is that of \<open>Tracking_Live\<close>.
\<close>

section \<open>Sessions\<close>

datatype ws_task = Active | Ended "unit result"

text \<open>
  \<open>Opening\<close> is the handler after \<open>subscribe\<close>, \<open>Greeting\<close> after the snapshot is loaded, with the
  first message to send, \<open>Serving\<close> is \<open>asyncio.wait\<close>, \<open>Closing\<close> the
  \<open>finally\<close> block up to its \<open>unsubscribe\<close>, with what the block will report. A handler ends
  \<open>Finished\<close> after its cleanup and \<open>Abandoned\<close> without it.
\<close>

datatype ws_phase = Opening | Greeting TrackingEvent | Serving | Closing "unit result" | Finished "unit result" | Abandoned exn

record ws_session =
  ws_order :: DeliveryOrder
  ws_order_id :: uuid
  ws_queue :: nat
  ws_phase_of :: ws_phase
  ws_sender :: ws_task
  ws_receiver :: ws_task
  ws_initial :: "TrackingEvent option"
  ws_sent :: "TrackingEvent list"

definition ws_open :: "DeliveryOrder \<Rightarrow> uuid \<Rightarrow> nat \<Rightarrow> ws_session" where
  "ws_open order order_id queue = \<lparr> ws_order = order, ws_order_id = order_id, ws_queue = queue, ws_phase_of = Opening,
     ws_sender = Active, ws_receiver = Active, ws_initial = None, ws_sent = [] \<rparr>"

text \<open>What the client has received: the first message, then what the sender took from the queue.\<close>

definition ws_messages :: "ws_session \<Rightarrow> TrackingEvent list" where
  "ws_messages w = (case ws_initial w of None \<Rightarrow> [] | Some e \<Rightarrow> e # ws_sent w)"

text \<open>\<open>except (WebSocketDisconnect, OSError, asyncio.CancelledError): pass\<close>\<close>

fun absorbed :: "exn \<Rightarrow> bool" where
  "absorbed CancelledError = True"
| "absorbed (OtherException name) = (name \<in> {''WebSocketDisconnect'', ''OSError''})"
| "absorbed _ = False"

definition absorb :: "unit result \<Rightarrow> unit result" where
  "absorb r = (case r of Inl e \<Rightarrow> if absorbed e then Inr () else Inl e | Inr _ \<Rightarrow> Inr ())"

text \<open>What \<open>for task in done: task.result()\<close> may report: the exception of a finished task, if one has any.\<close>

definition done_results :: "ws_session \<Rightarrow> unit result \<Rightarrow> bool" where
  "done_results w r \<longleftrightarrow>
     (case r of
        Inl e \<Rightarrow> ws_sender w = Ended (Inl e) \<or> ws_receiver w = Ended (Inl e)
      | Inr _ \<Rightarrow> (ws_sender w \<noteq> Active \<or> ws_receiver w \<noteq> Active)
                 \<and> ws_sender w \<in> {Active, Ended (Inr ())} \<and> ws_receiver w \<in> {Active, Ended (Inr ())})"

section \<open>Steps\<close>

text \<open>
  The list is what was published, in order. \<open>loaded\<close>: the snapshot is whatever the repository
  holds then. \<open>refused\<close>: loading the snapshot, accepting the connection or sending the first
  message raises before the \<open>try\<close>. \<open>interrupted\<close>: the
  handler is cancelled again while its \<open>finally\<close> block waits for the tasks.
\<close>

inductive ws_run :: "ws_session \<Rightarrow> TrackingHub \<Rightarrow> TrackingEvent list \<Rightarrow> ws_session \<Rightarrow> TrackingHub \<Rightarrow> bool" for w0 h0 where
  opened: "ws_run w0 h0 [] w0 h0"
| published: "ws_run w0 h0 ps w h \<Longrightarrow> hub_publish e h = (Inr (), h') \<Longrightarrow> ws_run w0 h0 (ps @ [e]) w h'"
| joined: "ws_run w0 h0 ps w h \<Longrightarrow> hub_subscribe i h = (q, h') \<Longrightarrow> ws_run w0 h0 ps w h'"
| left: "ws_run w0 h0 ps w h \<Longrightarrow> q \<noteq> ws_queue w0 \<Longrightarrow> ws_run w0 h0 ps w (hub_unsubscribe i q h)"
| loaded: "ws_run w0 h0 ps w h \<Longrightarrow> ws_phase_of w = Opening \<Longrightarrow>
    ws_run w0 h0 ps (w \<lparr> ws_phase_of := Greeting (initial_event (ws_order w) (ws_order_id w) snapshot) \<rparr>) h"
| accepted: "ws_run w0 h0 ps w h \<Longrightarrow> ws_phase_of w = Greeting e \<Longrightarrow>
    ws_run w0 h0 ps (w \<lparr> ws_phase_of := Serving, ws_initial := Some e \<rparr>) h"
| refused: "ws_run w0 h0 ps w h \<Longrightarrow> ws_phase_of w = Opening \<or> ws_phase_of w = Greeting m \<Longrightarrow>
    ws_run w0 h0 ps (w \<lparr> ws_phase_of := Abandoned e \<rparr>) h"
| forwarded: "ws_run w0 h0 ps w h \<Longrightarrow> ws_phase_of w = Serving \<Longrightarrow> ws_sender w = Active \<Longrightarrow>
    queue_of h (ws_queue w) = e # rest \<Longrightarrow>
    ws_run w0 h0 ps (w \<lparr> ws_sent := ws_sent w @ [e] \<rparr>) (h \<lparr> hub_queues := dict_set (ws_queue w) rest (hub_queues h) \<rparr>)"
| send_failed: "ws_run w0 h0 ps w h \<Longrightarrow> ws_phase_of w = Serving \<Longrightarrow> ws_sender w = Active \<Longrightarrow>
    queue_of h (ws_queue w) = e # rest \<Longrightarrow>
    ws_run w0 h0 ps (w \<lparr> ws_sender := Ended (Inl x) \<rparr>) (h \<lparr> hub_queues := dict_set (ws_queue w) rest (hub_queues h) \<rparr>)"
| disconnected: "ws_run w0 h0 ps w h \<Longrightarrow> ws_phase_of w = Serving \<Longrightarrow> ws_receiver w = Active \<Longrightarrow>
    ws_run w0 h0 ps (w \<lparr> ws_receiver := Ended (Inr ()) \<rparr>) h"
| receive_failed: "ws_run w0 h0 ps w h \<Longrightarrow> ws_phase_of w = Serving \<Longrightarrow> ws_receiver w = Active \<Longrightarrow>
    ws_run w0 h0 ps (w \<lparr> ws_receiver := Ended (Inl x) \<rparr>) h"
| noticed: "ws_run w0 h0 ps w h \<Longrightarrow> ws_phase_of w = Serving \<Longrightarrow> done_results w r \<Longrightarrow>
    ws_run w0 h0 ps (w \<lparr> ws_phase_of := Closing (absorb r) \<rparr>) h"
| cancelled: "ws_run w0 h0 ps w h \<Longrightarrow> ws_phase_of w = Serving \<Longrightarrow>
    ws_run w0 h0 ps (w \<lparr> ws_phase_of := Closing (absorb (Inl CancelledError)) \<rparr>) h"
| cleaned: "ws_run w0 h0 ps w h \<Longrightarrow> ws_phase_of w = Closing r \<Longrightarrow>
    ws_run w0 h0 ps (w \<lparr> ws_phase_of := Finished r \<rparr>) (hub_unsubscribe (ws_order_id w) (ws_queue w) h)"
| interrupted: "ws_run w0 h0 ps w h \<Longrightarrow> ws_phase_of w = Closing r \<Longrightarrow>
    ws_run w0 h0 ps (w \<lparr> ws_phase_of := Abandoned CancelledError \<rparr>) h"

section \<open>Invariant\<close>

abbreviation own_events :: "uuid \<Rightarrow> TrackingEvent list \<Rightarrow> TrackingEvent list" where
  "own_events i ps \<equiv> filter (\<lambda>e. te_order_id e = i) ps"

text \<open>What was taken from the queue, as the invariant of a stream that filters nothing.\<close>

definition taken_ok :: "uuid \<Rightarrow> nat \<Rightarrow> TrackingHub \<Rightarrow> TrackingEvent list \<Rightarrow> TrackingHub \<Rightarrow> TrackingEvent list \<Rightarrow> bool" where
  "taken_ok i q h0 ps h taken \<longleftrightarrow>
     in_step \<lparr> es_order_id = i, es_queue = q, es_floor = 0 \<rparr> h0 ps (climb 0 taken)
       \<lparr> es_order_id = i, es_queue = q, es_floor = floor_after 0 (climb 0 taken) \<rparr> h taken"

lemma taken_okD:
  assumes "taken_ok i q h0 ps h taken"
  shows "hub_ok h" "q \<in> set (subscribers_of h i)" "q < hub_next_queue h" "subseq (taken @ queue_of h q) (own_events i ps)"
    "hub_dropped_updates h = hub_dropped_updates h0 \<Longrightarrow> taken @ queue_of h q = own_events i ps"
  using assms subs_ok_D(2) by (auto simp: taken_ok_def in_step_def Let_def hub_ok_def)

lemma taken_ok_publish: "taken_ok i q h0 ps h taken \<Longrightarrow> hub_publish e h = (Inr (), h') \<Longrightarrow> taken_ok i q h0 (ps @ [e]) h' taken"
  unfolding taken_ok_def by (rule in_step_publish)

lemma taken_ok_joined: "taken_ok i q h0 ps h taken \<Longrightarrow> hub_subscribe j h = (p, h') \<Longrightarrow> taken_ok i q h0 ps h' taken"
  unfolding taken_ok_def by (rule in_step_joined)

lemma taken_ok_left: "taken_ok i q h0 ps h taken \<Longrightarrow> p \<noteq> q \<Longrightarrow> taken_ok i q h0 ps (hub_unsubscribe j p h) taken"
  unfolding taken_ok_def by (rule in_step_left) simp_all

lemma taken_ok_take:
  assumes "taken_ok i q h0 ps h taken" "queue_of h q = e # rest"
  shows "taken_ok i q h0 ps (h \<lparr> hub_queues := dict_set q rest (hub_queues h) \<rparr>) (taken @ [e])"
proof -
  have "hub_ok (h \<lparr> hub_queues := dict_set q rest (hub_queues h) \<rparr>)"
    using taken_okD(1,3) [OF assms(1)] assms(2) by (intro hub_ok_take) auto
  with assms show ?thesis by (simp add: taken_ok_def in_step_def Let_def)
qed

text \<open>
  A session that has not finished is subscribed, and has sent what it took except for the
  event whose sending failed. A finished one is subscribed nowhere and reports nothing it absorbs.
\<close>

definition session_ok :: "uuid \<Rightarrow> nat \<Rightarrow> TrackingHub \<Rightarrow> TrackingEvent list \<Rightarrow> ws_session \<Rightarrow> TrackingHub \<Rightarrow> bool" where
  "session_ok i q h0 ps w h \<longleftrightarrow>
     ws_order_id w = i \<and> ws_queue w = q \<and> hub_ok h \<and> q < hub_next_queue h \<and> subseq (ws_sent w) (own_events i ps)
   \<and> (case ws_phase_of w of
        Finished r \<Rightarrow> (\<forall>j. q \<notin> set (subscribers_of h j)) \<and> absorb r = r
      | ph \<Rightarrow> (\<exists>taken. taken_ok i q h0 ps h taken \<and> prefix (ws_sent w) taken \<and> (ws_sender w = Active \<longrightarrow> taken = ws_sent w))
          \<and> (\<forall>r. ph = Closing r \<longrightarrow> absorb r = r))"

lemma session_running:
  assumes "session_ok i q h0 ps w h" "\<And>r. ws_phase_of w \<noteq> Finished r"
  obtains taken where "taken_ok i q h0 ps h taken" "prefix (ws_sent w) taken" "ws_sender w = Active \<longrightarrow> taken = ws_sent w"
  using assms by (auto simp: session_ok_def split: ws_phase.splits)

lemma session_intro:
  assumes "ws_order_id w = i" "ws_queue w = q" "taken_ok i q h0 ps h taken" "prefix (ws_sent w) taken"
    "ws_sender w = Active \<longrightarrow> taken = ws_sent w" "\<And>r. ws_phase_of w \<noteq> Finished r"
    "\<And>r. ws_phase_of w = Closing r \<Longrightarrow> absorb r = r"
  shows "session_ok i q h0 ps w h"
proof -
  note t = taken_okD [OF assms(3)]
  have "subseq (ws_sent w) (own_events i ps)"
    using assms(4) t(4) by (meson prefix_imp_subseq prefix_prefix subseq_order.trans)
  with assms t show ?thesis by (auto simp: session_ok_def split: ws_phase.splits)
qed

lemma absorb_idem [simp]: "absorb (absorb r) = absorb r"
  by (auto simp: absorb_def split: sum.splits)

lemma hub_moves:
  assumes "session_ok i q h0 ps w h" "hub_ok h'" "hub_next_queue h \<le> hub_next_queue h'"
    "\<forall>j. q \<notin> set (subscribers_of h j) \<Longrightarrow> \<forall>j. q \<notin> set (subscribers_of h' j)"
    "\<And>taken. taken_ok i q h0 ps h taken \<Longrightarrow> taken_ok i q h0 (ps @ later) h' taken"
  shows "session_ok i q h0 (ps @ later) w h'"
proof (cases "\<exists>r. ws_phase_of w = Finished r")
  case True
  with assms(1-4) show ?thesis
    by (auto simp: session_ok_def intro: subseq_order.trans [OF _ prefix_imp_subseq])
next
  case False
  with assms(1) obtain taken where "taken_ok i q h0 ps h taken" "prefix (ws_sent w) taken" "ws_sender w = Active \<longrightarrow> taken = ws_sent w"
    by (auto elim: session_running)
  with False assms(1,5) show ?thesis
    by (intro session_intro [of w i q h0 _ h' taken]) (auto simp: session_ok_def split: ws_phase.splits)
qed

lemma session_published:
  assumes "session_ok i q h0 ps w h" "hub_publish e h = (Inr (), h')"
  shows "session_ok i q h0 (ps @ [e]) w h'"
proof -
  have "hub_ok h" using assms(1) by (simp add: session_ok_def)
  from hub_publish_done [OF this, of e] assms(2) have h': "hub_ok h'" "subscribers_of h' = subscribers_of h" by auto
  have "hub_next_queue h' = hub_next_queue h"
    using publish_to_done [of "subscribers_of h (te_order_id e)" h e] \<open>hub_ok h\<close> assms(2)
    by (auto simp: hub_publish_def hub_ok_def subs_ok_def)
  with h' show ?thesis using hub_moves [OF assms(1) h'(1)] taken_ok_publish [OF _ assms(2)] by simp
qed

lemma session_joined:
  assumes "session_ok i q h0 ps w h" "hub_subscribe j h = (p, h')"
  shows "session_ok i q h0 ps w h'"
proof -
  have ok: "hub_ok h" "q < hub_next_queue h" using assms(1) by (simp_all add: session_ok_def)
  note new = subscribe_new [OF ok(1) assms(2)]
  have "hub_next_queue h \<le> hub_next_queue h'" using assms(2) by (auto simp: hub_subscribe_def Let_def)
  moreover have "\<forall>k. q \<notin> set (subscribers_of h k) \<Longrightarrow> \<forall>k. q \<notin> set (subscribers_of h' k)"
    using new(6,8) ok(2) by auto
  ultimately show ?thesis
    using hub_moves [OF assms(1) new(1), of "[]"] taken_ok_joined [OF _ assms(2)] by simp
qed

lemma session_left:
  assumes "session_ok i q h0 ps w h" "p \<noteq> q"
  shows "session_ok i q h0 ps w (hub_unsubscribe j p h)"
proof -
  have "hub_ok (hub_unsubscribe j p h)" using assms(1) by (simp add: session_ok_def unsubscribe_ok)
  moreover have "\<forall>k. q \<notin> set (subscribers_of h k) \<Longrightarrow> \<forall>k. q \<notin> set (subscribers_of (hub_unsubscribe j p h) k)"
    by (simp add: unsubscribe_subscribers)
  ultimately show ?thesis
    using hub_moves [OF assms(1), of "hub_unsubscribe j p h" "[]"] taken_ok_left [OF _ assms(2)]
    by (simp add: unsubscribe_subscribers)
qed

lemma session_taken:
  assumes "session_ok i q h0 ps w h" "ws_phase_of w = Serving" "ws_sender w = Active" "queue_of h (ws_queue w) = e # rest"
  shows "session_ok i q h0 ps (w \<lparr> ws_sent := ws_sent w @ [e] \<rparr>) (h \<lparr> hub_queues := dict_set (ws_queue w) rest (hub_queues h) \<rparr>)"
    "session_ok i q h0 ps (w \<lparr> ws_sender := Ended (Inl x) \<rparr>) (h \<lparr> hub_queues := dict_set (ws_queue w) rest (hub_queues h) \<rparr>)"
proof -
  from session_running [OF assms(1)] assms(2,3) have t: "taken_ok i q h0 ps h (ws_sent w)" by auto
  have w: "ws_order_id w = i" "ws_queue w = q" using assms(1) by (simp_all add: session_ok_def)
  have t': "taken_ok i q h0 ps (h \<lparr> hub_queues := dict_set (ws_queue w) rest (hub_queues h) \<rparr>) (ws_sent w @ [e])"
    unfolding w using taken_ok_take [OF t] assms(4) w by simp
  show "session_ok i q h0 ps (w \<lparr> ws_sent := ws_sent w @ [e] \<rparr>) (h \<lparr> hub_queues := dict_set (ws_queue w) rest (hub_queues h) \<rparr>)"
    "session_ok i q h0 ps (w \<lparr> ws_sender := Ended (Inl x) \<rparr>) (h \<lparr> hub_queues := dict_set (ws_queue w) rest (hub_queues h) \<rparr>)"
    by (rule session_intro [OF _ _ t']; simp add: w assms(2))+
qed

text \<open>A step that concerns only the phase or the receiver.\<close>

lemma session_phase:
  assumes "session_ok i q h0 ps w h" "\<And>r. ws_phase_of w \<noteq> Finished r" "\<And>r. ph \<noteq> Finished r"
    "\<And>r. ph = Closing r \<Longrightarrow> absorb r = r"
  shows "session_ok i q h0 ps (w \<lparr> ws_phase_of := ph \<rparr>) h"
proof -
  from session_running [OF assms(1,2)] obtain taken where
    t: "taken_ok i q h0 ps h taken" "prefix (ws_sent w) taken" "ws_sender w = Active \<longrightarrow> taken = ws_sent w" by blast
  have "ws_order_id w = i" "ws_queue w = q" using assms(1) by (simp_all add: session_ok_def)
  with t assms(3,4) show ?thesis by (intro session_intro [where taken = taken]) simp_all
qed

lemma session_accepted:
  assumes "session_ok i q h0 ps w h" "ws_phase_of w = Greeting e"
  shows "session_ok i q h0 ps (w \<lparr> ws_phase_of := Serving, ws_initial := Some e \<rparr>) h"
  using assms by (simp add: session_ok_def)

lemma session_receiver:
  assumes "session_ok i q h0 ps w h" "ws_phase_of w = Serving"
  shows "session_ok i q h0 ps (w \<lparr> ws_receiver := task \<rparr>) h"
  using assms by (simp add: session_ok_def)

lemma session_cleaned:
  assumes "session_ok i q h0 ps w h" "ws_phase_of w = Closing r"
  shows "session_ok i q h0 ps (w \<lparr> ws_phase_of := Finished r \<rparr>) (hub_unsubscribe i q h)"
proof -
  from session_running [OF assms(1)] assms(2) obtain taken where "taken_ok i q h0 ps h taken" by auto
  then have "q \<in> set (subscribers_of h i)" "hub_ok h" by (rule taken_okD)+
  have other: "q \<notin> set (subscribers_of h j)" if "j \<noteq> i" for j
    using that subs_ok_D(3) [OF \<open>hub_ok h\<close> [unfolded hub_ok_def, THEN conjunct2, THEN conjunct2] _ \<open>q \<in> _\<close>] by blast
  have gone: "\<forall>j. q \<notin> set (subscribers_of (hub_unsubscribe i q h) j)"
    by (simp add: unsubscribe_subscribers other)
  have "ws_order_id w = i" "ws_queue w = q" "q < hub_next_queue h" "subseq (ws_sent w) (own_events i ps)" "absorb r = r"
    using assms by (simp_all add: session_ok_def)
  with gone \<open>hub_ok h\<close> show ?thesis
    by (simp add: session_ok_def unsubscribe_ok unsubscribe_subscribers(5) del: unsubscribe_subscribers(1))
qed

lemma session_invariant:
  assumes "ws_run (ws_open order i q) h0 ps w h" "hub_ok h0" "queue_of h0 q = []" "q \<in> set (subscribers_of h0 i)"
  shows "session_ok i q h0 ps w h"
  using assms
proof (induction rule: ws_run.induct)
  case opened
  then have "taken_ok i q h0 [] h0 []" by (simp add: taken_ok_def in_step_def floor_after_def)
  then show ?case by (intro session_intro [where taken = "[]"]) (simp_all add: ws_open_def)
next
  case (published ps w h e h')
  then show ?case by (metis session_published)
next
  case (joined ps w h j p h')
  then show ?case by (metis session_joined)
next
  case (left ps w h p j)
  then show ?case using session_left [of i q h0 ps w h p j] by (simp add: ws_open_def)
next
  case (forwarded ps w h e rest)
  then show ?case by (metis session_taken(1))
next
  case (send_failed ps w h e rest x)
  then show ?case by (metis session_taken(2))
next
  case (cleaned ps w h r)
  then have "session_ok i q h0 ps w h" by simp
  moreover from this have "ws_order_id w = i" "ws_queue w = q" by (simp_all add: session_ok_def)
  ultimately show ?case using session_cleaned cleaned.hyps(2) by simp
qed (rule session_phase session_receiver session_accepted; auto)+

text \<open>The first message is made from a snapshot, and nothing is sent before it.\<close>

definition greeted :: "DeliveryOrder \<Rightarrow> uuid \<Rightarrow> ws_session \<Rightarrow> bool" where
  "greeted order i w \<longleftrightarrow> ws_order w = order \<and> ws_order_id w = i
   \<and> (\<forall>e. ws_phase_of w = Greeting e \<or> ws_initial w = Some e \<longrightarrow> (\<exists>snapshot. e = initial_event order i snapshot))
   \<and> (ws_initial w = None \<longrightarrow> ws_sent w = [])
   \<and> (ws_initial w = None \<longleftrightarrow> (case ws_phase_of w of Opening \<Rightarrow> True | Greeting _ \<Rightarrow> True | Abandoned _ \<Rightarrow> ws_initial w = None | _ \<Rightarrow> False))"

lemma session_greeted: "ws_run (ws_open order i q) h0 ps w h \<Longrightarrow> greeted order i w"
  by (induction rule: ws_run.induct) (auto simp: greeted_def ws_open_def)

section \<open>Properties\<close>

lemma done_result:
  assumes "ws_sender w \<noteq> Active \<or> ws_receiver w \<noteq> Active"
  shows "\<exists>r. done_results w r"
proof (cases "\<exists>e. ws_sender w = Ended (Inl e) \<or> ws_receiver w = Ended (Inl e)")
  case True
  then obtain e where "done_results w (Inl e)" by (auto simp: done_results_def)
  then show ?thesis by blast
next
  case False
  have fine: "task \<in> {Active, Ended (Inr ())}" if "\<nexists>e. task = Ended (Inl e)" for task
    using that by (metis insertCI old.sum.exhaust old.unit.exhaust ws_task.exhaust)
  from False have "done_results w (Inr ())"
    using assms fine [of "ws_sender w"] fine [of "ws_receiver w"] by (simp add: done_results_def)
  then show ?thesis by blast
qed

text \<open>
  C38. The first message a client receives is made from the snapshot that was loaded after it
  subscribed; the others are, in the order of publication, updates of its order that were
  published since it subscribed, and all of them unless the hub dropped some: those not yet
  sent wait in its queue. The queue is not compared with the snapshot, so an update that is in
  the snapshot and is published afterwards is sent twice. Once the session has finished, on a
  disconnect, an exception or a cancellation, its queue is subscribed nowhere and no
  disconnect, socket error or cancellation is reported as a failure; a session whose task has
  ended can always finish. A handler that raises before it serves, because the snapshot cannot
  be loaded or the client leaves during the handshake, never unsubscribes: its queue stays with
  the hub.
\<close>

theorem websocket_session:
  assumes "hub_ok h" "hub_subscribe i h = (q, h0)" "ws_run (ws_open order i q) h0 ps w h'"
  shows "(ws_messages w = [] \<and> ws_phase_of w \<noteq> Serving \<or> (\<exists>snapshot. ws_messages w = initial_event order i snapshot # ws_sent w))
    \<and> subseq (ws_sent w) (own_events i ps)
    \<and> (ws_phase_of w = Serving \<and> ws_sender w = Active \<and> hub_dropped_updates h' = hub_dropped_updates h0
         \<longrightarrow> ws_sent w @ queue_of h' q = own_events i ps)
    \<and> (\<forall>r. ws_phase_of w = Finished r \<longrightarrow> (\<forall>j. q \<notin> set (subscribers_of h' j)) \<and> (\<forall>e. r = Inl e \<longrightarrow> \<not> absorbed e))
    \<and> (ws_phase_of w = Serving \<and> (ws_sender w \<noteq> Active \<or> ws_receiver w \<noteq> Active)
         \<longrightarrow> (\<exists>w' h'' r. ws_run (ws_open order i q) h0 ps w' h'' \<and> ws_phase_of w' = Finished r))
    \<and> (\<forall>e. ws_phase_of w = Abandoned e \<longrightarrow> q \<in> set (subscribers_of h' i))"
proof -
  note new = subscribe_new [OF assms(1,2)]
  note inv = session_invariant [OF assms(3) new(1-3)]
  have first: "ws_messages w = [] \<and> ws_phase_of w \<noteq> Serving \<or> (\<exists>snapshot. ws_messages w = initial_event order i snapshot # ws_sent w)"
    using session_greeted [OF assms(3)] by (auto simp: greeted_def ws_messages_def split: option.splits)
  have sent: "subseq (ws_sent w) (own_events i ps)" using inv by (simp add: session_ok_def)
  have all: "ws_sent w @ queue_of h' q = own_events i ps"
    if "ws_phase_of w = Serving" "ws_sender w = Active" "hub_dropped_updates h' = hub_dropped_updates h0"
  proof -
    have "ws_phase_of w \<noteq> Finished r" for r using that(1) by simp
    from session_running [OF inv this] that(2) have "taken_ok i q h0 ps h' (ws_sent w)" by auto
    then show ?thesis using that(3) by (rule taken_okD(5))
  qed
  have fin: "(\<forall>j. q \<notin> set (subscribers_of h' j)) \<and> (\<forall>e. r = Inl e \<longrightarrow> \<not> absorbed e)"
    if "ws_phase_of w = Finished r" for r
    using inv that by (auto simp: session_ok_def absorb_def split: if_splits)
  have ends: "\<exists>w' h'' r. ws_run (ws_open order i q) h0 ps w' h'' \<and> ws_phase_of w' = Finished r"
    if serving: "ws_phase_of w = Serving" and ended: "ws_sender w \<noteq> Active \<or> ws_receiver w \<noteq> Active"
  proof -
    obtain r where r: "done_results w r" using done_result [OF ended] by blast
    from ws_run.cleaned [OF ws_run.noticed [OF assms(3) serving r], of "absorb r"]
    show ?thesis by (intro exI [of _ "w \<lparr> ws_phase_of := Finished (absorb r) \<rparr>"]) auto
  qed
  have leak: "q \<in> set (subscribers_of h' i)" if "ws_phase_of w = Abandoned e" for e
  proof -
    have "ws_phase_of w \<noteq> Finished r" for r using that by simp
    from session_running [OF inv this] obtain taken where "taken_ok i q h0 ps h' taken" by blast
    then show ?thesis by (rule taken_okD(2))
  qed
  show ?thesis using first sent all fin ends leak by blast
qed

text \<open>
  A client that leaves during the handshake, and one to which an update goes twice, with the
  snapshot and when it is published.
\<close>

definition sample_order_ws :: DeliveryOrder where
  "sample_order_ws = \<lparr> o_id = 1, o_tenant_id = 1, o_customer_id = 7, o_pickup_address = ''Main street 1'',
     o_destination_address = ''Side street 2'', o_weight_grams = 10, o_status = ASSIGNED, o_courier_id = Some 3, o_version = 2,
     o_created_at = 0 \<rparr>"

lemma session_of_sample:
  assumes "hub_ok h" "hub_subscribe (ts_order_id snap) h = (q, h0)"
  shows "\<exists>w h'. ws_run (ws_open order (ts_order_id snap) q) h0 [snapshot_event snap] w h' \<and> ws_phase_of w = Serving
    \<and> ws_messages w = [snapshot_event snap, snapshot_event snap]"
proof -
  let ?w = "ws_open order (ts_order_id snap) q" and ?e = "snapshot_event snap"
  note new = subscribe_new [OF assms]
  from hub_publish_done [OF new(1), of ?e] obtain h1 where pub: "hub_publish ?e h0 = (Inr (), h1)"
    and queue: "queue_of h1 q = keep_newest (hub_queue_size h0) [?e]"
    using new(2,3) by (auto simp: snapshot_event_def)
  have "ws_run ?w h0 [] (?w \<lparr> ws_phase_of := Greeting ?e \<rparr>) h0"
    using ws_run.loaded [OF ws_run.opened, of ?w h0 "Some snap"] by (simp add: ws_open_def initial_event_def)
  from ws_run.accepted [OF this, of ?e]
  have "ws_run ?w h0 [] (?w \<lparr> ws_phase_of := Serving, ws_initial := Some ?e \<rparr>) h0" by simp
  from ws_run.published [OF this pub]
  have run: "ws_run ?w h0 [?e] (?w \<lparr> ws_phase_of := Serving, ws_initial := Some ?e \<rparr>) h1" by simp
  have "queue_of h1 q = [?e]" using queue by (simp add: keep_newest_def)
  from ws_run.forwarded [OF run, of ?e "[]"] this show ?thesis by (auto simp: ws_open_def ws_messages_def)
qed

theorem websocket_session_witness:
  "\<exists>h0. hub_subscribe 1 (tracking_hub 2) = (0, h0)
     \<and> (\<exists>w. ws_run (ws_open sample_order_ws 1 0) h0 [] w h0 \<and> ws_phase_of w = Abandoned (OtherException ''WebSocketDisconnect'')
          \<and> 0 \<in> set (subscribers_of h0 1))
     \<and> (\<exists>w h'. ws_run (ws_open sample_order_ws 1 0) h0 [snapshot_event (sample_position 1 8)] w h' \<and> ws_phase_of w = Serving
          \<and> ws_messages w = [snapshot_event (sample_position 1 8), snapshot_event (sample_position 1 8)]
          \<and> subseq (ws_sent w) [snapshot_event (sample_position 1 8)])"
proof -
  obtain q h0 where sub: "hub_subscribe 1 (tracking_hub 2) = (q, h0)" by fastforce
  note new = subscribe_new [OF hub_ok_init sub]
  have q: "q = 0" using new(8) by (simp add: tracking_hub_def)
  note session = websocket_session [OF hub_ok_init sub]
  let ?w = "ws_open sample_order_ws 1 0" and ?p = "sample_position 1 8"
  have id: "ts_order_id ?p = 1" by (simp add: sample_position_def)
  have "ws_run ?w h0 [] (?w \<lparr> ws_phase_of := Abandoned (OtherException ''WebSocketDisconnect'') \<rparr>) h0"
    by (rule ws_run.refused [OF ws_run.opened]) (simp add: ws_open_def)
  with session [unfolded q, OF this] have first: "\<exists>w. ws_run ?w h0 [] w h0
      \<and> ws_phase_of w = Abandoned (OtherException ''WebSocketDisconnect'') \<and> 0 \<in> set (subscribers_of h0 1)"
    by (intro exI [of _ "?w \<lparr> ws_phase_of := Abandoned (OtherException ''WebSocketDisconnect'') \<rparr>"]) simp
  from session_of_sample [OF hub_ok_init, of ?p 2 q h0 sample_order_ws] sub obtain w h' where
    w: "ws_run ?w h0 [snapshot_event ?p] w h'" "ws_phase_of w = Serving" "ws_messages w = [snapshot_event ?p, snapshot_event ?p]"
    unfolding id q by blast
  have "subseq (ws_sent w) [snapshot_event ?p]"
    using session [unfolded q, OF w(1)] by (simp add: snapshot_event_def id split: if_splits)
  with w first sub q show ?thesis by blast
qed

end
