(* ===== verification/Acceptance.thy ===== *)
theory Acceptance
  imports Http_Properties Lifecycle Auth_Properties
begin

text \<open>
  The release probe \<open>scripts/acceptance_smoke.py\<close> and the service behind it. The probe is modelled
  over any HTTP client; the client of the theorem is the modelled application itself: the
  routes of \<open>main.py\<close> that the probe uses, authentication, the handlers of \<open>Http_Api\<close> on
  the in-memory repository, the exception handlers and the health endpoints. Clock readings,
  drawn identifiers, Prometheus's text and pydantic's text of a time are parameters.
\<close>

section \<open>The probe\<close>

datatype json_body = Object json_object | Objects "json_object list" | NoJson

record http_response =
  re_status_code :: int
  re_headers :: "(string \<times> string) list"
  re_text :: string
  re_json :: json_body

record 'c HttpClient =
  hc_get :: "string \<Rightarrow> (string \<times> string) list \<Rightarrow> ('c, http_response) action"
  hc_post :: "string \<Rightarrow> (string \<times> string) list \<Rightarrow> json_object \<Rightarrow> ('c, http_response) action"
  hc_patch :: "string \<Rightarrow> (string \<times> string) list \<Rightarrow> json_object \<Rightarrow> ('c, http_response) action"

record AcceptanceEvidence =
  ae_order_id :: string
  ae_replayed :: bool
  ae_foreign_access_denied :: bool
  ae_stale_update_rejected :: bool
  ae_final_status :: string
  ae_metrics_exposed :: bool

definition require_status :: "int \<Rightarrow> string \<Rightarrow> http_response \<Rightarrow> ('c, http_response) action" where
  "require_status status step response =
     (if re_status_code response \<noteq> status
      then raise (RuntimeError (step @ '': expected '' @ dec_int status @ '', got '' @ dec_int (re_status_code response)
             @ '': '' @ take 500 (re_text response)))
      else ret response)"

text \<open>\<open>response.json()\<close> and the lookups in it; \<open>str\<close> of a value is \<open>json_str\<close>.\<close>

definition body_of :: "http_response \<Rightarrow> ('c, json_body) action" where
  "body_of response = (case re_json response of NoJson \<Rightarrow> raise (ValueError ''JSONDecodeError'') | b \<Rightarrow> ret b)"

definition item_text :: "json_body \<Rightarrow> string \<Rightarrow> string result" where
  "item_text body key =
     (case body of
        Object ob \<Rightarrow> json_get_str ob key
      | _ \<Rightarrow> Inl (TypeError ''list indices must be integers or slices, not str''))"

definition item_ids :: "json_body \<Rightarrow> string list result" where
  "item_ids body =
     (case body of
        Objects obs \<Rightarrow> map_result (\<lambda>ob. json_get_str ob ''id'') obs
      | _ \<Rightarrow> Inl (TypeError ''string indices must be integers''))"

definition same_body :: "json_body \<Rightarrow> json_body \<Rightarrow> bool" where
  "same_body a b = (case (a, b) of (Object x, Object y) \<Rightarrow> same_object x y | _ \<Rightarrow> a = b)"

definition probe_headers :: "string \<Rightarrow> string \<Rightarrow> (string \<times> string) list" where
  "probe_headers customer_token key =
     [(''Authorization'', ''Bearer '' @ customer_token), (''Idempotency-Key'', key), (''X-Request-ID'', ''acceptance-'' @ key)]"

definition probe_payload :: "string \<Rightarrow> json_object" where
  "probe_payload customer_id =
     [(''customer_id'', JStr customer_id), (''pickup_address'', JStr ''Acceptance street 1''),
      (''destination_address'', JStr ''Release avenue 2''), (''weight_grams'', JInt 750)]"

text \<open>Health, creation and its replay: the location and the body of the created order.\<close>

definition accept_created ::
  "'c HttpClient \<Rightarrow> (string \<times> string) list \<Rightarrow> json_object \<Rightarrow> ('c, string \<times> json_body) action" where
  "accept_created client headers payload =
     andThen (andThen (hc_get client ''/health/live'' []) (require_status 200 ''liveness'')) (\<lambda>_.
     andThen (andThen (hc_get client ''/health/ready'' []) (require_status 200 ''readiness'')) (\<lambda>_.
     andThen (andThen (hc_get client ''/metrics'' []) (require_status 200 ''metrics'')) (\<lambda>_.
     andThen (andThen (hc_post client ''/api/v1/orders'' headers payload) (require_status 201 ''create order'')) (\<lambda>created_response.
     andThen (body_of created_response) (\<lambda>created.
     case dict_get (re_headers created_response) ''Location'' of
       None \<Rightarrow> raise (RuntimeError ''create order: Location header is missing'')
     | Some location \<Rightarrow>
         if location = '''' then raise (RuntimeError ''create order: Location header is missing'')
         else andThen (andThen (andThen (hc_post client ''/api/v1/orders'' headers payload)
                 (require_status 201 ''idempotent replay'')) body_of) (\<lambda>replay.
              if \<not> same_body replay created then raise (RuntimeError ''idempotent replay returned another response snapshot'')
              else ret (location, created)))))))"

text \<open>Foreign access, the update and the stale update: the body of the updated order.\<close>

definition accept_guarded ::
  "'c HttpClient \<Rightarrow> (string \<times> string) list \<Rightarrow> string \<Rightarrow> string \<Rightarrow> ('c, json_body) action" where
  "accept_guarded client headers foreign_token location =
     andThen (hc_get client location [(''Authorization'', ''Bearer '' @ foreign_token)]) (\<lambda>foreign.
     andThen (check (re_status_code foreign \<in> {403, 404})
       (RuntimeError (''foreign access was not denied: '' @ dec_int (re_status_code foreign)))) (\<lambda>_.
     andThen (andThen (andThen (hc_patch client location (dict_set ''X-Expected-Version'' ''1'' headers) [(''weight_grams'', JInt 800)])
       (require_status 200 ''optimistic update'')) body_of) (\<lambda>updated.
     andThen (hc_patch client location (dict_set ''X-Expected-Version'' ''1'' headers) [(''weight_grams'', JInt 900)]) (\<lambda>stale.
     andThen (check (re_status_code stale = 409)
       (RuntimeError (''stale update was not rejected: '' @ dec_int (re_status_code stale)))) (\<lambda>_.
     ret updated)))))"

text \<open>Cancellation, the owner's list, the export and the metrics: the identifier, the final status and whether the metric is exposed.\<close>

definition accept_cancelled ::
  "'c HttpClient \<Rightarrow> (string \<times> string) list \<Rightarrow> string \<Rightarrow> json_body \<Rightarrow> json_body
     \<Rightarrow> ('c, string \<times> string \<times> bool) action" where
  "accept_cancelled client headers location created updated =
     andThen (lift_result (item_text updated ''version'')) (\<lambda>version.
     andThen (andThen (andThen (hc_post client (location @ ''/transitions'') (dict_set ''X-Expected-Version'' version headers)
       [(''status'', JStr ''cancelled'')]) (require_status 200 ''cancel order'')) body_of) (\<lambda>cancelled.
     andThen (andThen (andThen (hc_get client ''/api/v1/orders?status=cancelled'' headers)
       (require_status 200 ''filtered order list'')) body_of) (\<lambda>visible.
     andThen (lift_result (item_ids visible)) (\<lambda>ids.
     andThen (lift_result (item_text created ''id'')) (\<lambda>created_id.
     if ids \<noteq> [created_id] then raise (RuntimeError ''cancelled order is absent from the owner-visible page'')
     else andThen (andThen (hc_get client (''/api/v1/exports/'' @ created_id) headers) (require_status 200 ''order export'')) (\<lambda>export.
          if \<not> sublist created_id (re_text export) then raise (RuntimeError ''order export does not contain the accepted order'')
          else andThen (andThen (hc_get client ''/metrics'' []) (require_status 200 ''metrics after scenario'')) (\<lambda>metrics.
               andThen (lift_result (item_text cancelled ''status'')) (\<lambda>final_status.
               ret (created_id, final_status, sublist ''http_requests_total'' (re_text metrics))))))))))"

definition run_acceptance ::
  "'c HttpClient \<Rightarrow> string \<Rightarrow> string \<Rightarrow> string \<Rightarrow> string \<Rightarrow> ('c, AcceptanceEvidence) action" where
  "run_acceptance client customer_id customer_token foreign_token key =
     andThen (accept_created client (probe_headers customer_token key) (probe_payload customer_id)) (\<lambda>(location, created).
     andThen (accept_guarded client (probe_headers customer_token key) foreign_token location) (\<lambda>updated.
     andThen (accept_cancelled client (probe_headers customer_token key) location created updated) (\<lambda>(created_id, final_status, exposed).
     ret \<lparr> ae_order_id = created_id, ae_replayed = True, ae_foreign_access_denied = True,
           ae_stale_update_rejected = True, ae_final_status = final_status, ae_metrics_exposed = exposed \<rparr>)))"

section \<open>The service as the probe's client\<close>

record service =
  sv_auth :: auth_config
  sv_clock :: "nat \<Rightarrow> datetime"
  sv_draws :: "nat \<Rightarrow> draws"
  sv_request_id :: "nat \<Rightarrow> uuid"
  sv_metrics :: "nat \<Rightarrow> string"
  sv_stamp :: "datetime \<Rightarrow> string"

text \<open>The application, the orders, and how many requests were served.\<close>

record service_state =
  ss_app :: app_state
  ss_orders :: InMemoryOrderRepository
  ss_requests :: nat

definition order_json :: "(datetime \<Rightarrow> string) \<Rightarrow> OrderRead \<Rightarrow> json_object" where
  "order_json stamp x =
     [(''id'', JStr (str_uuid (or_id x))), (''customer_id'', JStr (str_uuid (or_customer_id x))),
      (''pickup_address'', JStr (or_pickup_address x)), (''destination_address'', JStr (or_destination_address x)),
      (''weight_grams'', JInt (or_weight_grams x)), (''status'', JStr (status_value (or_status x))),
      (''courier_id'', case or_courier_id x of None \<Rightarrow> JNull | Some c \<Rightarrow> JStr (str_uuid c)),
      (''version'', JInt (or_version x)), (''created_at'', JStr (stamp (or_created_at x)))]"

definition json_reply :: "int \<Rightarrow> (string \<times> string) list \<Rightarrow> json_object \<Rightarrow> http_response" where
  "json_reply status headers ob =
     \<lparr> re_status_code = status, re_headers = headers, re_text = json_dumps (\<lambda>_. '''') (JObj ob), re_json = Object ob \<rparr>"

definition list_reply :: "json_object list \<Rightarrow> http_response" where
  "list_reply obs =
     \<lparr> re_status_code = 200, re_headers = [], re_text = ''['' @ join '','' (map (\<lambda>ob. json_dumps (\<lambda>_. '''') (JObj ob)) obs) @ '']'',
       re_json = Objects obs \<rparr>"

definition text_reply :: "(string \<times> string) list \<Rightarrow> string \<Rightarrow> http_response" where
  "text_reply headers text = \<lparr> re_status_code = 200, re_headers = headers, re_text = text, re_json = NoJson \<rparr>"

definition error_reply_of :: "string \<Rightarrow> exn \<Rightarrow> http_response" where
  "error_reply_of request_id e =
     (let reply = exception_reply request_id request_id (\<lambda>_. []) e
      in json_reply (er_status reply) (er_headers reply) (map (\<lambda>(k, v). (k, JStr v)) (er_content reply)))"

text \<open>The routes the probe uses, as \<open>main.py\<close> declares them.\<close>

datatype endpoint = Liveness | Readiness | Metrics | CreateOrder | ListOrders "string option" | GetOrder uuid
  | UpdateOrder uuid | TransitionOrder uuid | ExportOrder uuid

definition route :: "string \<Rightarrow> string \<Rightarrow> endpoint option" where
  "route meth url =
     (if meth = ''GET'' \<and> url = ''/health/live'' then Some Liveness
      else if meth = ''GET'' \<and> url = ''/health/ready'' then Some Readiness
      else if meth = ''GET'' \<and> url = ''/metrics'' then Some Metrics
      else if meth = ''POST'' \<and> url = ''/api/v1/orders'' then Some CreateOrder
      else if meth = ''GET'' \<and> url = ''/api/v1/orders'' then Some (ListOrders None)
      else if meth = ''GET'' \<and> startswith url ''/api/v1/orders?status='' then Some (ListOrders (Some (drop 22 url)))
      else if meth = ''GET'' \<and> startswith url ''/api/v1/exports/'' then map_option ExportOrder (uuid_of_text (drop 16 url))
      else if startswith url ''/api/v1/orders/''
      then (case partition_at (CHR ''/'') (drop 15 url) of
              (order_id, found, rest) \<Rightarrow>
                (case uuid_of_text order_id of
                   None \<Rightarrow> None
                 | Some u \<Rightarrow>
                     if found then (if meth = ''POST'' \<and> rest = ''transitions'' then Some (TransitionOrder u) else None)
                     else if meth = ''GET'' then Some (GetOrder u)
                     else if meth = ''PATCH'' then Some (UpdateOrder u)
                     else None))
      else None)"

definition bearer_token :: "(string \<times> string) list \<Rightarrow> string option" where
  "bearer_token headers =
     (case dict_get headers ''Authorization'' of
        None \<Rightarrow> None
      | Some h \<Rightarrow> if startswith h ''Bearer '' then Some (drop 7 h) else None)"

definition request_of :: "string \<Rightarrow> (string \<times> string) list \<Rightarrow> auth_request" where
  "request_of meth headers = \<lparr> rq_method = meth, rq_bearer = bearer_token headers, rq_session_cookie = None,
     rq_csrf_cookie = None, rq_csrf_header = None \<rparr>"

definition header_version :: "(string \<times> string) list \<Rightarrow> int result" where
  "header_version headers =
     of_option (ValidationError ''request'') (Option.bind (dict_get headers ''X-Expected-Version'') (py_int 10))"

text \<open>The request bodies the probe sends, as the models parse them; a missing or mistyped field is refused.\<close>

definition order_create_of :: "json_object \<Rightarrow> OrderCreate result" where
  "order_create_of body =
     (if \<not> fst ` set body \<subseteq> {''customer_id'', ''pickup_address'', ''destination_address'', ''weight_grams''} then invalid_request
      else case (dict_get body ''customer_id'', dict_get body ''pickup_address'', dict_get body ''destination_address'',
            dict_get body ''weight_grams'') of
        (Some (JStr c), Some (JStr p), Some (JStr d), Some (JInt w)) \<Rightarrow>
          (case uuid_of_text c of
             None \<Rightarrow> invalid_request
           | Some u \<Rightarrow> Inr \<lparr> oc_customer_id' = u, oc_pickup_address' = p, oc_destination_address' = d, oc_weight_grams' = w \<rparr>)
      | _ \<Rightarrow> invalid_request)"

definition optional_text :: "json option \<Rightarrow> string option result" where
  "optional_text v = (case v of None \<Rightarrow> Inr None | Some JNull \<Rightarrow> Inr None | Some (JStr t) \<Rightarrow> Inr (Some t) | _ \<Rightarrow> invalid_request)"

definition optional_int :: "json option \<Rightarrow> int option result" where
  "optional_int v = (case v of None \<Rightarrow> Inr None | Some JNull \<Rightarrow> Inr None | Some (JInt i) \<Rightarrow> Inr (Some i) | _ \<Rightarrow> invalid_request)"

definition order_update_of :: "json_object \<Rightarrow> OrderUpdate result" where
  "order_update_of body =
     (if \<not> fst ` set body \<subseteq> {''pickup_address'', ''destination_address'', ''weight_grams''} then invalid_request
      else thenR (optional_text (dict_get body ''pickup_address'')) (\<lambda>p.
           thenR (optional_text (dict_get body ''destination_address'')) (\<lambda>d.
           thenR (optional_int (dict_get body ''weight_grams'')) (\<lambda>w.
           Inr \<lparr> ou_pickup_address = p, ou_destination_address = d, ou_weight_grams = w \<rparr>))))"

definition transition_of :: "json_object \<Rightarrow> OrderStatus result" where
  "transition_of body =
     (case dict_get body ''status'' of
        Some (JStr s) \<Rightarrow> of_option (ValidationError ''request'')
          (find (\<lambda>x. status_value x = s) [CREATED, ASSIGNED, PICKED_UP, DELIVERED, CANCELLED])
      | _ \<Rightarrow> invalid_request)"

text \<open>One request, as the route's handler answers it.\<close>

definition endpoint_answer ::
  "service \<Rightarrow> nat \<Rightarrow> string \<Rightarrow> string \<Rightarrow> (string \<times> string) list \<Rightarrow> json_object \<Rightarrow> app_state \<Rightarrow> endpoint
   \<Rightarrow> (InMemoryOrderRepository, http_response) action" where
  "endpoint_answer svc n request_id meth headers body app target =
     (let repo = in_memory_repository; draws = sv_draws svc n; shown = \<lambda>x. json_reply 200 [] (order_json (sv_stamp svc) x);
          as_actor = \<lambda>handler. authenticated (sv_auth svc) (sv_clock svc n) (request_of meth headers) handler
      in case target of
           Liveness \<Rightarrow> ret (json_reply 200 [] (map (\<lambda>(k, v). (k, JStr v)) liveness))
         | Readiness \<Rightarrow> andThen (lift_result (readiness app)) (\<lambda>r. ret (json_reply 200 [] (map (\<lambda>(k, v). (k, JStr v)) r)))
         | Metrics \<Rightarrow> ret (text_reply [] (sv_metrics svc n))
         | CreateOrder \<Rightarrow> as_actor (\<lambda>actor.
             andThen (lift_result (order_create_of body)) (\<lambda>raw.
             andThen (lift_result (of_option (ValidationError ''request'') (dict_get headers ''Idempotency-Key''))) (\<lambda>key.
             andThen (create_order repo draws raw key actor) (\<lambda>(x, hs).
             ret (json_reply 201 hs (order_json (sv_stamp svc) x))))))
         | ListOrders status_filter \<Rightarrow> as_actor (\<lambda>actor.
             andThen (list_orders repo 20 0 ''created_at'' status_filter actor) (\<lambda>xs.
             ret (list_reply (map (order_json (sv_stamp svc)) xs))))
         | GetOrder u \<Rightarrow> as_actor (\<lambda>actor. andThen (get_order repo u actor) (\<lambda>x. ret (shown x)))
         | UpdateOrder u \<Rightarrow> as_actor (\<lambda>actor.
             andThen (lift_result (order_update_of body)) (\<lambda>raw.
             andThen (lift_result (header_version headers)) (\<lambda>v.
             andThen (update_order repo u raw v actor) (\<lambda>x. ret (shown x)))))
         | TransitionOrder u \<Rightarrow> as_actor (\<lambda>actor.
             andThen (lift_result (transition_of body)) (\<lambda>t.
             andThen (lift_result (header_version headers)) (\<lambda>v.
             andThen (transition_order repo draws u t v request_id actor) (\<lambda>x. ret (shown x)))))
         | ExportOrder u \<Rightarrow> as_actor (\<lambda>actor.
             andThen (export_order repo u actor) (\<lambda>(rows, hs). ret (text_reply hs (concat rows)))))"

definition serve_request ::
  "service \<Rightarrow> string \<Rightarrow> string \<Rightarrow> (string \<times> string) list \<Rightarrow> json_object \<Rightarrow> (service_state, http_response) action" where
  "serve_request svc meth url headers body st =
     (let n = ss_requests st;
          request_id = select_request_id (sv_request_id svc n) (dict_get headers ''X-Request-ID'');
          (r, s) = (case route meth url of
                      None \<Rightarrow> (Inl (HTTPException 404 ''Not Found'' []), ss_orders st)
                    | Some target \<Rightarrow> endpoint_answer svc n request_id meth headers body (ss_app st) target (ss_orders st))
      in (Inr (case r of Inr response \<Rightarrow> response | Inl e \<Rightarrow> error_reply_of request_id e),
          st \<lparr> ss_orders := s, ss_requests := n + 1 \<rparr>))"

definition service_client :: "service \<Rightarrow> service_state HttpClient" where
  "service_client svc = \<lparr>
     hc_get = (\<lambda>url headers. serve_request svc ''GET'' url headers []),
     hc_post = (\<lambda>url headers body. serve_request svc ''POST'' url headers body),
     hc_patch = (\<lambda>url headers body. serve_request svc ''PATCH'' url headers body) \<rparr>"

section \<open>The probe's requests\<close>

definition authenticates :: "service \<Rightarrow> string \<Rightarrow> Actor \<Rightarrow> bool" where
  "authenticates svc token actor \<longleftrightarrow>
     (\<forall>n meth. current_actor (ac_jwt (sv_auth svc)) (ac_settings (sv_auth svc)) (sv_clock svc n)
        \<lparr> rq_method = meth, rq_bearer = Some token, rq_session_cookie = None, rq_csrf_cookie = None, rq_csrf_header = None \<rparr>
        = Inr actor)"

definition probe_command :: "Actor \<Rightarrow> CreateOrderCommand" where
  "probe_command customer = \<lparr> cc_customer_id = a_user_id customer, cc_pickup_address = ''Acceptance street 1'',
     cc_destination_address = ''Release avenue 2'', cc_weight_grams = 750 \<rparr>"

definition probe_scope :: "Actor \<Rightarrow> string \<Rightarrow> string" where
  "probe_scope customer key = idempotency_scope (a_tenant_id customer) (a_user_id customer) key"

definition probe_order :: "Actor \<Rightarrow> draws \<Rightarrow> DeliveryOrder" where
  "probe_order customer d = \<lparr> o_id = d_order_id d, o_tenant_id = a_tenant_id customer, o_customer_id = a_user_id customer,
     o_pickup_address = ''Acceptance street 1'', o_destination_address = ''Release avenue 2'', o_weight_grams = 750,
     o_status = CREATED, o_courier_id = None, o_version = 1, o_created_at = d_clock d \<rparr>"

lemma as_actor:
  assumes "authenticates svc token actor" "bearer_token headers = Some token"
  shows "authenticated (sv_auth svc) (sv_clock svc n) (request_of meth headers) handler s = handler actor s"
  using assms by (simp add: authenticated_def authenticates_def request_of_def andThen_def lift_result_def)

lemma probe_bearer [simp]:
  "bearer_token (probe_headers token key) = Some token"
  "bearer_token (dict_set ''X-Expected-Version'' v (probe_headers token key)) = Some token"
  "bearer_token [(''Authorization'', ''Bearer '' @ token)] = Some token"
  by (simp_all add: bearer_token_def probe_headers_def startswith_def)

lemma slash_free: "CHR ''/'' \<notin> set (str_uuid u)"
proof
  assume "CHR ''/'' \<in> set (str_uuid u)"
  then obtain d where "d < 16" "CHR ''/'' = digit_char d" using set_str_uuid [of "CHR ''/''" u] by auto
  then have "code (CHR ''/'') = (if d < 10 then 48 + d else 87 + d)" by (simp add: code_digit_char)
  then show False by (simp add: code_def split: if_splits)
qed

lemma partition_at_absent: "c \<notin> set s \<Longrightarrow> partition_at c s = (s, False, [])"
  by (induction s) auto

lemma probe_routes:
  "route ''GET'' ''/health/live'' = Some Liveness" "route ''GET'' ''/health/ready'' = Some Readiness"
  "route ''GET'' ''/metrics'' = Some Metrics" "route ''POST'' ''/api/v1/orders'' = Some CreateOrder"
  "route ''GET'' ''/api/v1/orders?status=cancelled'' = Some (ListOrders (Some ''cancelled''))"
  "route ''GET'' (''/api/v1/orders/'' @ str_uuid u) = Some (GetOrder u)"
  "route ''PATCH'' (''/api/v1/orders/'' @ str_uuid u) = Some (UpdateOrder u)"
  "route ''POST'' ((''/api/v1/orders/'' @ str_uuid u) @ ''/transitions'') = Some (TransitionOrder u)"
  "route ''GET'' (''/api/v1/exports/'' @ str_uuid u) = Some (ExportOrder u)"
  using slash_free [of u] partition_at_absent [OF slash_free, of u]
  by (simp_all add: route_def startswith_def partition_at_append)

text \<open>What a request does, once its endpoint answers.\<close>

abbreviation request_id_of :: "service \<Rightarrow> service_state \<Rightarrow> (string \<times> string) list \<Rightarrow> string" where
  "request_id_of svc st headers \<equiv> select_request_id (sv_request_id svc (ss_requests st)) (dict_get headers ''X-Request-ID'')"

definition served :: "nat \<Rightarrow> InMemoryOrderRepository \<Rightarrow> service_state \<Rightarrow> service_state" where
  "served k s st = st \<lparr> ss_orders := s, ss_requests := ss_requests st + k \<rparr>"

lemma served_simps [simp]:
  "ss_orders (served k s st) = s" "ss_requests (served k s st) = ss_requests st + k" "ss_app (served k s st) = ss_app st"
  "served j t (served k s st) = served (k + j) t st"
  by (simp_all add: served_def)

lemma serve_answer:
  assumes "route meth url = Some target"
    "endpoint_answer svc (ss_requests st) (request_id_of svc st headers) meth headers body (ss_app st) target s
       = (Inr response, s')" "ss_orders st = s"
  shows "serve_request svc meth url headers body st
    = (Inr response, served 1 s' st)"
  using assms by (simp add: serve_request_def served_def Let_def)

lemma serve_error:
  assumes "route meth url = Some target"
    "endpoint_answer svc (ss_requests st) (request_id_of svc st headers) meth headers body (ss_app st) target s
       = (Inl e, s')" "ss_orders st = s"
  shows "\<exists>response. serve_request svc meth url headers body st
      = (Inr response, served 1 s' st)
    \<and> re_status_code response = es_status_code (fst (handler_of (\<lambda>_. []) e))"
  using assms
  by (auto simp: serve_request_def served_def Let_def error_reply_of_def json_reply_def exception_reply_def error_response_def
      split: prod.splits)

definition probe_raw :: "Actor \<Rightarrow> OrderCreate" where
  "probe_raw customer = \<lparr> oc_customer_id' = a_user_id customer, oc_pickup_address' = ''Acceptance street 1'',
     oc_destination_address' = ''Release avenue 2'', oc_weight_grams' = 750 \<rparr>"

lemma probe_raw_valid: "validate_order_create (probe_raw customer) = Inr (probe_raw customer)"
proof -
  have "normalize_address ''Acceptance street 1'' = ''Acceptance street 1''"
    "normalize_address ''Release avenue 2'' = ''Release avenue 2''"
    "casefold ''Acceptance street 1'' \<noteq> casefold ''Release avenue 2''" by code_simp+
  then show ?thesis by (simp add: probe_raw_def validate_order_create_def Address_def WeightGrams_def)
qed

definition created_store :: "Actor \<Rightarrow> draws \<Rightarrow> string \<Rightarrow> InMemoryOrderRepository \<Rightarrow> InMemoryOrderRepository" where
  "created_store customer d key s =
     (let x = probe_order customer d
      in s \<lparr> orders := dict_set (d_order_id d) x (orders s),
             outbox := outbox s @ [created_integration_payload (created_from_order (d_event_id d) x)],
             idempotency := dict_set (probe_scope customer key) (request_fingerprint (probe_command customer), x) (idempotency s) \<rparr>)"

definition created_reply :: "service \<Rightarrow> Actor \<Rightarrow> draws \<Rightarrow> http_response" where
  "created_reply svc customer d = json_reply 201 [(''Location'', ''/api/v1/orders/'' @ str_uuid (d_order_id d))]
     (order_json (sv_stamp svc) (order_read (probe_order customer d)))"

text \<open>The customer and the key of a probe.\<close>

definition probe_of :: "service \<Rightarrow> Actor \<Rightarrow> string \<Rightarrow> string \<Rightarrow> string \<Rightarrow> bool" where
  "probe_of svc customer customer_id customer_token key \<longleftrightarrow>
     authenticates svc customer_token customer \<and> a_role customer = CUSTOMER
     \<and> uuid_of_text customer_id = Some (a_user_id customer) \<and> idempotency_key_valid key"

lemma create_answer:
  assumes "probe_of svc customer customer_id customer_token key"
  shows "endpoint_answer svc n rid ''POST'' (probe_headers customer_token key) (probe_payload customer_id) app CreateOrder s
   = (case dict_get (idempotency s) (probe_scope customer key) of
        None \<Rightarrow> (Inr (created_reply svc customer (sv_draws svc n)), created_store customer (sv_draws svc n) key s)
      | Some (fp, x) \<Rightarrow>
          if fp \<noteq> request_fingerprint (probe_command customer)
          then (Inl (IdempotencyConflict ''idempotency key was already used for another request''), s)
          else (Inr (json_reply 201 [(''Location'', ''/api/v1/orders/'' @ str_uuid (o_id x))] (order_json (sv_stamp svc) (order_read x))), s))"
proof -
  have raw: "order_create_of (probe_payload customer_id) = Inr (probe_raw customer)"
    using assms by (simp add: probe_of_def order_create_of_def probe_payload_def probe_raw_def)
  have key: "idempotency_key_valid key" "key \<noteq> ''''" "dict_get (probe_headers customer_token key) ''Idempotency-Key'' = Some key"
    using assms by (auto simp: probe_of_def idempotency_key_valid_def probe_headers_def)
  have create: "create_order in_memory_repository (sv_draws svc n) (probe_raw customer) key customer s
      = andThen (service_create in_memory_repository (sv_draws svc n) (probe_command customer) (Some key) (a_tenant_id customer))
          (\<lambda>order. ret (order_read order, [(''Location'', ''/api/v1/orders/'' @ str_uuid (o_id order))])) s"
    using assms key(1)
    by (simp add: create_order_def probe_raw_valid action_defs probe_of_def)
      (simp add: probe_raw_def probe_command_def)
  have service: "service_create in_memory_repository (sv_draws svc n) (probe_command customer) (Some key) (a_tenant_id customer) s
      = (case dict_get (idempotency s) (probe_scope customer key) of
           None \<Rightarrow> (Inr (probe_order customer (sv_draws svc n)), created_store customer (sv_draws svc n) key s)
         | Some (fp, x) \<Rightarrow>
             if fp \<noteq> request_fingerprint (probe_command customer)
             then (Inl (IdempotencyConflict ''idempotency key was already used for another request''), s) else (Inr x, s))"
    using key(2)
    by (auto simp: service_create_def Let_def action_defs mem_idempotent_order_def place_order_def order_create_def
        mem_add_def mem_record_created_event_def mem_remember_idempotency_def created_store_def probe_scope_def probe_order_def
        probe_command_def split: option.splits)
  show ?thesis
    using assms create service
    by (auto simp: endpoint_answer_def Let_def as_actor [where token = customer_token] probe_of_def raw key action_defs
        of_option_def created_reply_def probe_order_def split: option.splits)
qed

lemma owner_access:
  assumes "dict_get (orders s) u = Some x" "can_access_order actor (o_tenant_id x) (o_customer_id x) (o_courier_id x)"
  shows "owned_order in_memory_repository actor u s = (Inr x, s)"
  using assms by (simp add: owned_order_def service_get_def mem_get_def owns_order_def action_defs)

lemma foreign_answer:
  assumes "authenticates svc token actor" "dict_get (orders s) u = Some x"
    "\<not> can_access_order actor (o_tenant_id x) (o_customer_id x) (o_courier_id x)"
  shows "endpoint_answer svc n rid ''GET'' [(''Authorization'', ''Bearer '' @ token)] body app (GetOrder u) s = (Inl access_denied, s)"
  using assms
  by (simp add: endpoint_answer_def Let_def as_actor [where token = token] get_order_def owned_order_def service_get_def
      mem_get_def owns_order_def action_defs del: append_Cons)

lemma version_header:
  "header_version (dict_set ''X-Expected-Version'' ''1'' (probe_headers token key)) = Inr 1"
  "header_version (dict_set ''X-Expected-Version'' ''2'' (probe_headers token key)) = Inr 2"
proof -
  have "py_int 10 ''1'' = Some 1" "py_int 10 ''2'' = Some 2" by code_simp+
  then show "header_version (dict_set ''X-Expected-Version'' ''1'' (probe_headers token key)) = Inr 1"
    "header_version (dict_set ''X-Expected-Version'' ''2'' (probe_headers token key)) = Inr 2"
    by (simp_all add: header_version_def probe_headers_def of_option_def)
qed

lemma update_answer:
  assumes "authenticates svc token actor" "dict_get (orders s) u = Some x" "o_id x = u" "0 < w" "w \<le> 100000"
    "can_access_order actor (o_tenant_id x) (o_customer_id x) (o_courier_id x)"
    "casefold (o_pickup_address x) \<noteq> casefold (o_destination_address x)"
  shows "endpoint_answer svc n rid ''PATCH'' (dict_set ''X-Expected-Version'' ''1'' (probe_headers token key))
      [(''weight_grams'', JInt w)] app (UpdateOrder u) s
    = (if o_version x \<noteq> 1 then (Inl (ConcurrentUpdate ''optimistic version conflict''), s)
       else (Inr (json_reply 200 [] (order_json (sv_stamp svc) (order_read (x \<lparr> o_weight_grams := w, o_version := 2 \<rparr>)))),
             s \<lparr> orders := dict_set u (x \<lparr> o_weight_grams := w, o_version := 2 \<rparr>) (orders s) \<rparr>))"
proof -
  have raw: "order_update_of [(''weight_grams'', JInt w)]
      = Inr \<lparr> ou_pickup_address = None, ou_destination_address = None, ou_weight_grams = Some w \<rparr>"
    by (simp add: order_update_of_def optional_text_def optional_int_def)
  have "update_order in_memory_repository u \<lparr> ou_pickup_address = None, ou_destination_address = None, ou_weight_grams = Some w \<rparr> 1 actor s
    = (if o_version x \<noteq> 1 then (Inl (ConcurrentUpdate ''optimistic version conflict''), s)
       else (Inr (order_read (x \<lparr> o_weight_grams := w, o_version := 2 \<rparr>)),
             s \<lparr> orders := dict_set u (x \<lparr> o_weight_grams := w, o_version := 2 \<rparr>) (orders s) \<rparr>))"
    using assms(2-7) owner_access [OF assms(2,6)]
    by (simp add: update_order_def validate_order_update_def WeightGrams_def service_update_def service_get_def mem_get_def
        command_changes_def update_details_def changed_text_def changed_int_def mem_save_def action_defs)
  then show ?thesis
    using assms(1)
    by (simp add: endpoint_answer_def Let_def as_actor [where token = token] raw version_header action_defs)
qed

lemma cancel_answer:
  assumes "authenticates svc token actor" "dict_get (orders s) u = Some x" "o_id x = u" "o_version x = 2" "o_status x = CREATED"
    "can_access_order actor (o_tenant_id x) (o_customer_id x) (o_courier_id x)" "a_user_id actor = o_customer_id x"
  shows "\<exists>event. endpoint_answer svc n rid ''POST'' (dict_set ''X-Expected-Version'' ''2'' (probe_headers token key))
      [(''status'', JStr ''cancelled'')] app (TransitionOrder u) s
    = (Inr (json_reply 200 [] (order_json (sv_stamp svc) (order_read (x \<lparr> o_status := CANCELLED, o_version := 3 \<rparr>)))),
       s \<lparr> orders := dict_set u (x \<lparr> o_status := CANCELLED, o_version := 3 \<rparr>) (orders s),
           transition_history := transition_history s @ [event], outbox := outbox s @ [status_integration_payload event] \<rparr>)"
proof -
  have target: "transition_of [(''status'', JStr ''cancelled'')] = Inr CANCELLED"
    by (simp add: transition_of_def of_option_def)
  have "\<exists>event. transition_order in_memory_repository (sv_draws svc n) u CANCELLED 2 rid actor s
    = (Inr (order_read (x \<lparr> o_status := CANCELLED, o_version := 3 \<rparr>)),
       s \<lparr> orders := dict_set u (x \<lparr> o_status := CANCELLED, o_version := 3 \<rparr>) (orders s),
           transition_history := transition_history s @ [event], outbox := outbox s @ [status_integration_payload event] \<rparr>)"
    using assms(2-7) owner_access [OF assms(2,6)]
    by (simp add: transition_order_def service_transition_def service_get_def mem_get_def order_transition_def allows_def
        from_transition_def mem_save_transition_def mem_save_def action_defs) (rule exI, rule refl)
  then obtain event where "transition_order in_memory_repository (sv_draws svc n) u CANCELLED 2 rid actor s
    = (Inr (order_read (x \<lparr> o_status := CANCELLED, o_version := 3 \<rparr>)),
       s \<lparr> orders := dict_set u (x \<lparr> o_status := CANCELLED, o_version := 3 \<rparr>) (orders s),
           transition_history := transition_history s @ [event], outbox := outbox s @ [status_integration_payload event] \<rparr>)" by blast
  then show ?thesis
    using assms(1)
    by (intro exI [of _ event])
      (simp add: endpoint_answer_def Let_def as_actor [where token = token] target version_header action_defs)
qed

lemma export_answer:
  assumes "authenticates svc token actor" "dict_get (orders s) u = Some x"
    "can_access_order actor (o_tenant_id x) (o_customer_id x) (o_courier_id x)"
  shows "\<exists>reply. endpoint_answer svc n rid ''GET'' (probe_headers token key) body app (ExportOrder u) s = (Inr reply, s)
    \<and> re_status_code reply = 200 \<and> sublist (str_uuid u) (re_text reply)"
proof -
  have "sublist (str_uuid u) (''order_id,status'' @ [newline] @ str_uuid u @ rest)" for rest
    by (metis append_assoc sublist_appendI)
  then show ?thesis
    using assms owner_access [OF assms(2,3)]
    by (simp add: endpoint_answer_def Let_def as_actor [where token = token] export_order_def text_reply_def action_defs)
qed

text \<open>The cancelled orders a customer has.\<close>

definition past_cancelled :: "Actor \<Rightarrow> InMemoryOrderRepository \<Rightarrow> DeliveryOrder list" where
  "past_cancelled customer s =
     filter (\<lambda>x. status_value (o_status x) = ''cancelled'')
       (filter (visible_to ''customer'' (a_user_id customer) (a_tenant_id customer)) (values_of (orders s)))"

lemma list_answer:
  assumes "authenticates svc token customer" "a_role customer = CUSTOMER"
  shows "endpoint_answer svc n rid ''GET'' (probe_headers token key) body app (ListOrders (Some ''cancelled'')) s
    = (Inr (list_reply (map (order_json (sv_stamp svc) \<circ> order_read)
         (take 20 (sort_orders ''created_at'' (past_cancelled customer s))))), s)"
proof -
  have slice: "py_slice 0 20 xs = take 20 xs" for xs :: "DeliveryOrder list" using py_slice_nonneg [of 0 20 xs] by simp
  have "list_orders in_memory_repository 20 0 ''created_at'' (Some ''cancelled'') customer s
      = (Inr (map order_read (take 20 (sort_orders ''created_at'' (past_cancelled customer s)))), s)"
    using assms(2) slice
    by (simp add: list_orders_def list_query_valid_def service_list_visible_def mem_list_visible_def past_cancelled_def
        Let_def action_defs)
  with assms show ?thesis
    by (simp add: endpoint_answer_def Let_def as_actor [where token = token] action_defs)
qed

lemma listed_ids:
  "item_ids (re_json (list_reply (map (order_json stamp \<circ> order_read) xs))) = Inr (map (str_uuid \<circ> o_id) xs)"
proof -
  have "json_get_str (order_json stamp (order_read x)) ''id'' = Inr (str_uuid (o_id x))" for x
    by (simp add: json_get_str_def json_get_def order_json_def order_read_def)
  then show ?thesis
    by (induction xs) (simp_all add: item_ids_def list_reply_def)
qed

lemma reply_simps [simp]:
  "re_status_code (json_reply st hs ob) = st" "re_headers (json_reply st hs ob) = hs" "re_json (json_reply st hs ob) = Object ob"
  "re_status_code (text_reply hs t) = 200" "re_text (text_reply hs t) = t" "re_status_code (list_reply obs) = 200"
  "re_json (list_reply obs) = Objects obs"
  by (simp_all add: json_reply_def text_reply_def list_reply_def)

lemma created_reply_simps [simp]:
  "re_status_code (created_reply svc customer d) = 201"
  "re_headers (created_reply svc customer d) = [(''Location'', ''/api/v1/orders/'' @ str_uuid (d_order_id d))]"
  "re_json (created_reply svc customer d) = Object (order_json (sv_stamp svc) (order_read (probe_order customer d)))"
  by (simp_all add: created_reply_def)

lemma same_body_refl [simp]: "same_body b b"
  by (cases b) (simp_all add: same_body_def same_object_def list_all_iff)

lemmas probe_defs = require_status_def body_of_def service_client_def action_defs

lemma created_phase:
  assumes "probe_of svc customer customer_id token key" "readiness (ss_app st) = Inr r"
    "dict_get (idempotency (ss_orders st)) (probe_scope customer key) = None" "d = sv_draws svc (ss_requests st + 3)"
  shows "accept_created (service_client svc) (probe_headers token key) (probe_payload customer_id) st
    = (Inr (''/api/v1/orders/'' @ str_uuid (d_order_id d), Object (order_json (sv_stamp svc) (order_read (probe_order customer d)))),
       served 5 (created_store customer d key (ss_orders st)) st)"
proof -
  let ?s = "ss_orders st" and ?n = "ss_requests st" and ?h = "probe_headers token key"
  have health: "serve_request svc ''GET'' ''/health/live'' [] [] st = (Inr (json_reply 200 [] [(''status'', JStr ''ok'')]), served (Suc 0) ?s st)"
    "serve_request svc ''GET'' ''/health/ready'' [] [] (served (Suc 0) ?s st)
       = (Inr (json_reply 200 [] (map (\<lambda>(k, v). (k, JStr v)) r)), served 2 ?s st)"
    "serve_request svc ''GET'' ''/metrics'' [] [] (served 2 ?s st) = (Inr (text_reply [] (sv_metrics svc (?n + 2))), served 3 ?s st)"
    using assms(2)
    by (simp_all add: serve_answer [OF probe_routes(1)] serve_answer [OF probe_routes(2)] serve_answer [OF probe_routes(3)]
        endpoint_answer_def liveness_def action_defs Let_def)
  let ?s' = "created_store customer d key ?s"
  have "endpoint_answer svc (?n + 3) rid ''POST'' ?h (probe_payload customer_id) app CreateOrder ?s
      = (Inr (created_reply svc customer d), ?s')" for rid app
    using assms(3,4) by (simp add: create_answer [OF assms(1)])
  from serve_answer [OF probe_routes(4), of svc "served 3 ?s st", OF _ served_simps(1)] this
  have create: "serve_request svc ''POST'' ''/api/v1/orders'' ?h (probe_payload customer_id) (served 3 ?s st)
      = (Inr (created_reply svc customer d), served 4 ?s' st)" by simp
  have "endpoint_answer svc n rid ''POST'' ?h (probe_payload customer_id) app CreateOrder ?s'
      = (Inr (created_reply svc customer d), ?s')" for n rid app
    by (simp add: create_answer [OF assms(1)] created_store_def Let_def created_reply_def probe_order_def)
  from serve_answer [OF probe_routes(4) this, of "served 4 ?s' st"]
  have replay: "serve_request svc ''POST'' ''/api/v1/orders'' ?h (probe_payload customer_id) (served 4 ?s' st)
      = (Inr (created_reply svc customer d), served 5 ?s' st)" by simp
  show ?thesis
    by (simp add: accept_created_def probe_defs health create replay)
qed

lemma probe_owner: "a_role customer = CUSTOMER \<Longrightarrow> can_access_order customer (a_tenant_id customer) (a_user_id customer) c"
  by (simp add: can_access_order_def)

lemma probe_addresses: "casefold ''Acceptance street 1'' \<noteq> casefold ''Release avenue 2''"
  by code_simp

abbreviation updated_order :: "Actor \<Rightarrow> draws \<Rightarrow> DeliveryOrder" where
  "updated_order customer d \<equiv> probe_order customer d \<lparr> o_weight_grams := 800, o_version := 2 \<rparr>"

abbreviation put_order :: "DeliveryOrder \<Rightarrow> InMemoryOrderRepository \<Rightarrow> InMemoryOrderRepository" where
  "put_order x s \<equiv> s \<lparr> orders := dict_set (o_id x) x (orders s) \<rparr>"

lemma guarded_phase:
  assumes "probe_of svc customer customer_id token key" "authenticates svc foreign_token foreign"
    "\<not> can_access_order foreign (a_tenant_id customer) (a_user_id customer) None"
    "dict_get (orders (ss_orders st)) (d_order_id d) = Some (probe_order customer d)"
  shows "accept_guarded (service_client svc) (probe_headers token key) foreign_token (''/api/v1/orders/'' @ str_uuid (d_order_id d)) st
    = (Inr (Object (order_json (sv_stamp svc) (order_read (updated_order customer d)))),
       served 3 (put_order (updated_order customer d) (ss_orders st)) st)"
proof -
  let ?u = "d_order_id d" and ?x = "probe_order customer d" and ?s = "ss_orders st" and ?h = "probe_headers token key"
  let ?url = "''/api/v1/orders/'' @ str_uuid ?u" and ?v = "dict_set ''X-Expected-Version'' ''1'' ?h"
  let ?s' = "put_order (updated_order customer d) ?s"
  have known: "authenticates svc token customer" "a_role customer = CUSTOMER" using assms(1) by (simp_all add: probe_of_def)
  have x: "o_id ?x = ?u" "o_version ?x = 1" "o_tenant_id ?x = a_tenant_id customer" "o_customer_id ?x = a_user_id customer"
    "o_courier_id ?x = None" "casefold (o_pickup_address ?x) \<noteq> casefold (o_destination_address ?x)"
    using probe_addresses by (simp_all add: probe_order_def)
  have "endpoint_answer svc n rid ''GET'' [(''Authorization'', ''Bearer '' @ foreign_token)] [] app (GetOrder ?u) ?s = (Inl access_denied, ?s)"
    for n rid app by (rule foreign_answer [OF assms(2,4)]) (simp add: x assms(3))
  from serve_error [OF probe_routes(6) this, of st] obtain f where foreign:
    "serve_request svc ''GET'' ?url [(''Authorization'', ''Bearer '' @ foreign_token)] [] st = (Inr f, served (Suc 0) ?s st)"
    "re_status_code f = 403"
    by (auto simp: access_denied_def handler_of_def http_exception_spec_def HTTP_ERROR_SPECS_def error_spec_def)
  have patch: "endpoint_answer svc n rid ''PATCH'' ?v [(''weight_grams'', JInt 800)] app (UpdateOrder ?u) ?s
      = (Inr (json_reply 200 [] (order_json (sv_stamp svc) (order_read (updated_order customer d)))), ?s')" for n rid app
    using update_answer [OF known(1) assms(4) x(1), of 800] x probe_owner [OF known(2)] by simp
  have "endpoint_answer svc n rid ''PATCH'' ?v [(''weight_grams'', JInt 900)] app (UpdateOrder ?u) ?s'
      = (Inl (ConcurrentUpdate ''optimistic version conflict''), ?s')" for n rid app
    using update_answer [OF known(1), of ?s' ?u "updated_order customer d" 900] x probe_owner [OF known(2)] by simp
  from serve_error [OF probe_routes(7) this, of "served 2 ?s' st"] obtain g where stale:
    "serve_request svc ''PATCH'' ?url ?v [(''weight_grams'', JInt 900)] (served 2 ?s' st) = (Inr g, served 3 ?s' st)"
    "re_status_code g = 409"
    by (auto simp: handler_of_def CONCURRENT_UPDATE_def error_spec_def)
  have update: "serve_request svc ''PATCH'' ?url ?v [(''weight_grams'', JInt 800)] (served (Suc 0) ?s st)
      = (Inr (json_reply 200 [] (order_json (sv_stamp svc) (order_read (updated_order customer d)))), served 2 ?s' st)"
    using serve_answer [OF probe_routes(7) patch, of "served (Suc 0) ?s st"] by (simp add: numeral_2_eq_2)
  show ?thesis
    using foreign stale update by (simp add: accept_guarded_def probe_defs del: append_Cons)
qed

abbreviation cancelled_order :: "Actor \<Rightarrow> draws \<Rightarrow> DeliveryOrder" where
  "cancelled_order customer d \<equiv> (updated_order customer d) \<lparr> o_status := CANCELLED, o_version := 3 \<rparr>"

lemma dict_set_last: "k \<notin> fst ` set e \<Longrightarrow> dict_set k v (e @ [(k, w)]) = e @ [(k, v)]"
  by (induction e) auto

lemma past_append:
  "orders s = e @ [(i, x)] \<Longrightarrow> past_cancelled customer s
     = past_cancelled customer (s \<lparr> orders := e \<rparr>)
       @ (if visible_to ''customer'' (a_user_id customer) (a_tenant_id customer) x \<and> status_value (o_status x) = ''cancelled'' then [x] else [])"
  by (simp add: past_cancelled_def)

lemma page_is_own:
  "map (str_uuid \<circ> o_id) (take 20 (sort_orders ''created_at'' (xs @ [x]))) = [str_uuid (o_id x)] \<longleftrightarrow> xs = []"
proof
  assume "map (str_uuid \<circ> o_id) (take 20 (sort_orders ''created_at'' (xs @ [x]))) = [str_uuid (o_id x)]"
  then have "length (map (str_uuid \<circ> o_id) (take 20 (sort_orders ''created_at'' (xs @ [x])))) = 1" by simp
  then show "xs = []" by (cases xs) (simp_all add: sort_orders_def)
qed (simp add: sort_orders_def)

lemma cancelled_phase:
  assumes "probe_of svc customer customer_id token key" "orders (ss_orders st) = e @ [(d_order_id d, updated_order customer d)]"
    "d_order_id d \<notin> fst ` set e" "past = past_cancelled customer ((ss_orders st) \<lparr> orders := e \<rparr>)"
    "item_text created ''id'' = Inr (str_uuid (d_order_id d))"
  shows "\<exists>k s'. accept_cancelled (service_client svc) (probe_headers token key) (''/api/v1/orders/'' @ str_uuid (d_order_id d))
        created (Object (order_json (sv_stamp svc) (order_read (updated_order customer d)))) st
      = (if past = [] then Inr (str_uuid (d_order_id d), ''cancelled'', sublist ''http_requests_total'' (sv_metrics svc (ss_requests st + 3)))
         else Inl (RuntimeError ''cancelled order is absent from the owner-visible page''), served k s' st)
    \<and> orders s' = e @ [(d_order_id d, cancelled_order customer d)]"
proof -
  let ?u = "d_order_id d" and ?x = "updated_order customer d" and ?s = "ss_orders st" and ?h = "probe_headers token key"
  let ?z = "cancelled_order customer d" and ?url = "''/api/v1/orders/'' @ str_uuid ?u"
  have known: "authenticates svc token customer" "a_role customer = CUSTOMER" using assms(1) by (simp_all add: probe_of_def)
  have version: "item_text (Object (order_json (sv_stamp svc) (order_read ?x))) ''version'' = Inr ''2''"
    "item_text (Object (order_json (sv_stamp svc) (order_read ?z))) ''status'' = Inr ''cancelled''"
  proof -
    have "dec_int 2 = ''2''" by code_simp
    then show "item_text (Object (order_json (sv_stamp svc) (order_read ?x))) ''version'' = Inr ''2''"
      "item_text (Object (order_json (sv_stamp svc) (order_read ?z))) ''status'' = Inr ''cancelled''"
      by (simp_all add: item_text_def json_get_str_def json_get_def order_json_def order_read_def)
  qed
  have x: "dict_get (orders ?s) ?u = Some ?x" "o_id ?x = ?u" "o_version ?x = 2" "o_status ?x = CREATED" "a_user_id customer = o_customer_id ?x"
    "can_access_order customer (o_tenant_id ?x) (o_customer_id ?x) (o_courier_id ?x)"
    using assms(2,3) probe_owner [OF known(2)] by (simp_all add: probe_order_def map_of_append map_add_def map_of_eq_None_iff [THEN iffD2])
  obtain event where cancel: "endpoint_answer svc (ss_requests st) (request_id_of svc st (dict_set ''X-Expected-Version'' ''2'' ?h)) ''POST''
      (dict_set ''X-Expected-Version'' ''2'' ?h) [(''status'', JStr ''cancelled'')] (ss_app st) (TransitionOrder ?u) ?s
    = (Inr (json_reply 200 [] (order_json (sv_stamp svc) (order_read ?z))),
       ?s \<lparr> orders := dict_set ?u ?z (orders ?s), transition_history := transition_history ?s @ [event],
            outbox := outbox ?s @ [status_integration_payload event] \<rparr>)"
    using cancel_answer [OF known(1) x(1-4,6,5)] by blast
  define s' where "s' = ?s \<lparr> orders := dict_set ?u ?z (orders ?s), transition_history := transition_history ?s @ [event],
            outbox := outbox ?s @ [status_integration_payload event] \<rparr>"
  have s': "orders s' = e @ [(?u, ?z)]" using assms(2,3) dict_set_last [OF assms(3)] by (simp add: s'_def)
  have "past_cancelled customer s' = past @ [?z]"
    using past_append [OF s', of customer] by (simp add: assms(4) past_cancelled_def visible_to_def probe_order_def)
  then have page: "map (str_uuid \<circ> o_id) (take 20 (sort_orders ''created_at'' (past_cancelled customer s'))) = [str_uuid ?u] \<longleftrightarrow> past = []"
    using page_is_own [of past ?z] by (simp add: probe_order_def)
  note cancelled = serve_answer [OF probe_routes(8) cancel refl, folded s'_def]
  have dropped: "\<exists>export. serve_request svc ''GET'' (''/api/v1/exports/'' @ str_uuid ?u) ?h [] (served 2 s' st) = (Inr export, served 3 s' st)
      \<and> re_status_code export = 200 \<and> sublist (str_uuid ?u) (re_text export)"
  proof -
    have z: "dict_get (orders s') ?u = Some ?z" using s' assms(3) by (simp add: map_add_def map_of_eq_None_iff [THEN iffD2])
    have "can_access_order customer (o_tenant_id ?z) (o_customer_id ?z) (o_courier_id ?z)"
      using probe_owner [OF known(2)] by (simp add: probe_order_def)
    from export_answer [OF known(1) z this] obtain reply where reply: "endpoint_answer svc (ss_requests (served 2 s' st))
        (request_id_of svc (served 2 s' st) ?h) ''GET'' ?h [] (ss_app (served 2 s' st)) (ExportOrder ?u) s' = (Inr reply, s')"
      "re_status_code reply = 200" "sublist (str_uuid ?u) (re_text reply)" by blast
    from serve_answer [OF probe_routes(9) reply(1)] reply(2,3) show ?thesis by simp
  qed
  then obtain export where export: "serve_request svc ''GET'' (''/api/v1/exports/'' @ str_uuid ?u) ?h [] (served 2 s' st) = (Inr export, served 3 s' st)"
    "re_status_code export = 200" "sublist (str_uuid ?u) (re_text export)" by blast
  have metrics: "serve_request svc ''GET'' ''/metrics'' [] [] (served 3 s' st) = (Inr (text_reply [] (sv_metrics svc (ss_requests st + 3))), served 4 s' st)"
    by (simp add: serve_answer [OF probe_routes(3)] endpoint_answer_def action_defs Let_def)
  have listed: "serve_request svc ''GET'' ''/api/v1/orders?status=cancelled'' ?h [] (served (Suc 0) s' st)
      = (Inr (list_reply (map (order_json (sv_stamp svc) \<circ> order_read)
           (take 20 (sort_orders ''created_at'' (past_cancelled customer s'))))), served 2 s' st)"
    using serve_answer [OF probe_routes(5) list_answer [OF known], of "served (Suc 0) s' st"] by (simp add: numeral_2_eq_2)
  have post: "serve_request svc ''POST'' (?url @ ''/transitions'') (dict_set ''X-Expected-Version'' ''2'' ?h) [(''status'', JStr ''cancelled'')] st
      = (Inr (json_reply 200 [] (order_json (sv_stamp svc) (order_read ?z))), served (Suc 0) s' st)"
    using cancelled by simp
  note ids = listed_ids [of "sv_stamp svc" "take 20 (sort_orders ''created_at'' (past_cancelled customer s'))"]
  have "accept_cancelled (service_client svc) ?h ?url created (Object (order_json (sv_stamp svc) (order_read ?x))) st
      = (if past = [] then (Inr (str_uuid ?u, ''cancelled'', sublist ''http_requests_total'' (sv_metrics svc (ss_requests st + 3))), served 4 s' st)
         else (Inl (RuntimeError ''cancelled order is absent from the owner-visible page''), served 2 s' st))"
    using export metrics listed post ids page version assms(5)
    by (simp add: accept_cancelled_def probe_defs del: append_Cons append_assoc)
  with s' show ?thesis by (intro exI [of _ "if past = [] then 4 else 2"] exI [of _ s']) simp
qed

section \<open>The probe passes\<close>

text \<open>
  C10. Run against the service with a customer's token, another actor's token and an unused key,
  the release probe passes exactly when the customer has no cancelled order yet: creation
  and its replay agree, the other actor is refused, the update is applied, the stale update
  is refused, the order is cancelled, listed and exported. It leaves the order cancelled, so
  that a second probe for the same customer fails.
\<close>

theorem acceptance_probe:
  assumes "probe_of svc customer customer_id customer_token key" "authenticates svc foreign_token foreign"
    "\<not> can_access_order foreign (a_tenant_id customer) (a_user_id customer) None"
    "readiness (ss_app st) = Inr r" "dict_get (idempotency (ss_orders st)) (probe_scope customer key) = None"
    "d = sv_draws svc (ss_requests st + 3)" "d_order_id d \<notin> fst ` set (orders (ss_orders st))"
    "run_acceptance (service_client svc) customer_id customer_token foreign_token key st = (result, st')"
  shows "result = (if past_cancelled customer (ss_orders st) = []
       then Inr \<lparr> ae_order_id = str_uuid (d_order_id d), ae_replayed = True, ae_foreign_access_denied = True,
              ae_stale_update_rejected = True, ae_final_status = ''cancelled'',
              ae_metrics_exposed = sublist ''http_requests_total'' (sv_metrics svc (ss_requests st + 11)) \<rparr>
       else Inl (RuntimeError ''cancelled order is absent from the owner-visible page''))
    \<and> orders (ss_orders st') = orders (ss_orders st) @ [(d_order_id d, cancelled_order customer d)]
    \<and> past_cancelled customer (ss_orders st') \<noteq> []"
proof -
  let ?s = "ss_orders st" and ?u = "d_order_id d"
  define st1 where "st1 = served 5 (created_store customer d key ?s) st"
  define st2 where "st2 = served 8 (put_order (updated_order customer d) (created_store customer d key ?s)) st"
  have "orders (created_store customer d key ?s) = orders ?s @ [(?u, probe_order customer d)]"
    using assms(7) by (simp add: created_store_def Let_def dict_set_new)
  then have o1: "orders (ss_orders st1) = orders ?s @ [(?u, probe_order customer d)]" by (simp add: st1_def)
  then have o2: "orders (ss_orders st2) = orders ?s @ [(?u, updated_order customer d)]"
    using dict_set_last [OF assms(7)] by (simp add: st1_def st2_def probe_order_def)
  have got: "dict_get (orders (ss_orders st1)) ?u = Some (probe_order customer d)"
    using o1 assms(7) by (simp add: map_add_def map_of_eq_None_iff [THEN iffD2])
  have past: "past_cancelled customer ((ss_orders st2) \<lparr> orders := orders ?s \<rparr>) = past_cancelled customer ?s"
    by (simp add: past_cancelled_def)
  have first: "item_text (Object (order_json (sv_stamp svc) (order_read (probe_order customer d)))) ''id'' = Inr (str_uuid ?u)"
    by (simp add: item_text_def json_get_str_def json_get_def order_json_def order_read_def probe_order_def)
  note p1 = created_phase [OF assms(1,4,5,6), folded st1_def]
  have p2: "accept_guarded (service_client svc) (probe_headers customer_token key) foreign_token (''/api/v1/orders/'' @ str_uuid ?u) st1
      = (Inr (Object (order_json (sv_stamp svc) (order_read (updated_order customer d)))), st2)"
    using guarded_phase [OF assms(1-3) got] by (simp add: st1_def st2_def)
  obtain k s' where p3: "accept_cancelled (service_client svc) (probe_headers customer_token key) (''/api/v1/orders/'' @ str_uuid ?u)
        (Object (order_json (sv_stamp svc) (order_read (probe_order customer d))))
        (Object (order_json (sv_stamp svc) (order_read (updated_order customer d)))) st2
      = (if past_cancelled customer ?s = [] then Inr (str_uuid ?u, ''cancelled'', sublist ''http_requests_total'' (sv_metrics svc (ss_requests st2 + 3)))
         else Inl (RuntimeError ''cancelled order is absent from the owner-visible page''), served k s' st2)"
    "orders s' = orders ?s @ [(?u, cancelled_order customer d)]"
    using cancelled_phase [OF assms(1) o2 assms(7) past [symmetric] first] by blast
  have requests: "ss_requests st2 + 3 = ss_requests st + 11" by (simp add: st2_def)
  have run: "st' = served k s' st2" "result = (if past_cancelled customer ?s = []
       then Inr \<lparr> ae_order_id = str_uuid ?u, ae_replayed = True, ae_foreign_access_denied = True,
              ae_stale_update_rejected = True, ae_final_status = ''cancelled'',
              ae_metrics_exposed = sublist ''http_requests_total'' (sv_metrics svc (ss_requests st + 11)) \<rparr>
       else Inl (RuntimeError ''cancelled order is absent from the owner-visible page''))"
    using assms(8) p1 p2 p3(1) unfolding requests
    by (simp_all add: run_acceptance_def action_defs del: append_Cons split: if_splits)
  have "past_cancelled customer (ss_orders st') \<noteq> []"
    using past_append [of "ss_orders st'" "orders ?s" ?u "cancelled_order customer d" customer] p3(2) run(1)
    by (simp add: visible_to_def probe_order_def)
  with run p3(2) show ?thesis by simp
qed

text \<open>An access token authenticates its actor at every clock reading within its lifetime.\<close>

lemma issued_authenticates:
  assumes "jwt_documented (ac_jwt (sv_auth svc))"
    "create_token (ac_jwt (sv_auth svc)) (ac_settings (sv_auth svc)) td (actor_subject a) ''access'' lifetime tid fam (Some t0)
       (a_tenant_id a) = Inr token"
    "\<And>n. seconds (t0 div 1000000) \<le> sv_clock svc n + seconds 30
       \<and> sv_clock svc n - seconds 30 < seconds ((t0 + lifetime) div 1000000)"
  shows "authenticates svc token a"
  unfolding authenticates_def
proof (intro allI)
  fix n meth
  from created_token(1) [OF assms(1) parse_subject_actor assms(2) refl, of "sv_clock svc n"] assms(3) [of n]
  obtain claims where "decode_token (ac_jwt (sv_auth svc)) (ac_settings (sv_auth svc)) (sv_clock svc n) ''access'' token = Inr claims"
    "actor_from_claims claims = Inr a" by auto
  then show "current_actor (ac_jwt (sv_auth svc)) (ac_settings (sv_auth svc)) (sv_clock svc n)
      \<lparr> rq_method = meth, rq_bearer = Some token, rq_session_cookie = None, rq_csrf_cookie = None, rq_csrf_header = None \<rparr> = Inr a"
    by (simp add: current_actor_def)
qed

definition sample_service :: service where
  "sample_service = \<lparr> sv_auth = sample_config, sv_clock = (\<lambda>n. seconds 60),
     sv_draws = (\<lambda>n. \<lparr> d_order_id = 100, d_event_id = 200, d_clock = 0, d_now = 0 \<rparr>),
     sv_request_id = (\<lambda>n. 5), sv_metrics = (\<lambda>n. ''delivery_http_requests_total 1''), sv_stamp = isoformat \<rparr>"

definition sample_serving :: service_state where
  "sample_serving = \<lparr> ss_app = \<lparr> as_ready = Some True, as_open = [], as_log = [], as_tracking = None,
       as_logger = \<lparr> lg_handlers = [], lg_level = 0, lg_propagate = True \<rparr>, as_tracing = build_trace_provider 1 None \<rparr>,
     ss_orders = empty_store, ss_requests = 0 \<rparr>"

definition sample_customer :: "uuid \<Rightarrow> Actor" where
  "sample_customer u = \<lparr> a_user_id = u, a_role = CUSTOMER, a_tenant_id = 3 \<rparr>"

lemma sample_jwt:
  "ac_jwt (sv_auth sample_service) = dotted_jwt" "ac_settings (sv_auth sample_service) = ac_settings sample_config"
  by (simp_all add: sample_service_def sample_config_def)

lemma sample_token: "\<exists>token. authenticates sample_service token (sample_customer u)"
proof -
  obtain token where tok: "create_token dotted_jwt (ac_settings sample_config) \<lparr> td_now = 0, td_token_id = 1, td_family_id = 2 \<rparr>
      (actor_subject (sample_customer u)) ''access'' (seconds 900) None None (Some 0) (a_tenant_id (sample_customer u)) = Inr token"
    by (simp add: create_token_def Let_def)
  have "authenticates sample_service token (sample_customer u)"
    by (rule issued_authenticates [OF _ tok [folded sample_jwt]])
      (simp_all add: sample_service_def sample_config_def dotted_jwt_documented)
  then show ?thesis ..
qed

theorem acceptance_probe_witness:
  "\<exists>customer_token foreign_token st'.
     run_acceptance (service_client sample_service) (str_uuid 7) customer_token foreign_token ''release-1'' sample_serving
       = (Inr \<lparr> ae_order_id = str_uuid 100, ae_replayed = True, ae_foreign_access_denied = True,
            ae_stale_update_rejected = True, ae_final_status = ''cancelled'', ae_metrics_exposed = True \<rparr>, st')
     \<and> past_cancelled (sample_customer 7) (ss_orders st') \<noteq> []"
proof -
  from sample_token obtain t f where tok: "authenticates sample_service t (sample_customer 7)"
    "authenticates sample_service f (sample_customer 8)" by blast
  obtain r st' where run: "run_acceptance (service_client sample_service) (str_uuid 7) t f ''release-1'' sample_serving = (r, st')"
    by (rule prod.exhaust)
  have "idempotency_key_valid ''release-1''" by code_simp
  then have "probe_of sample_service (sample_customer 7) (str_uuid 7) t ''release-1''"
    using tok(1) by (simp add: probe_of_def sample_customer_def)
  moreover have "sublist ''http_requests_total'' ''delivery_http_requests_total 1''"
    by code_simp
  ultimately show ?thesis
    using acceptance_probe [OF _ tok(2) _ _ _ refl _ run, of "sample_customer 7"] run
    by (auto simp: sample_customer_def sample_serving_def sample_service_def can_access_order_def readiness_def
        empty_store_def past_cancelled_def)
qed

end
