(* ===== verification/Edge.thy ===== *)
theory Edge
  imports Settings Observability
begin

text \<open>
  The edge of the application, as \<open>main.py\<close> assembles it: the three middlewares with their
  configuration, and the routers. \<open>CORSMiddleware\<close> and \<open>TrustedHostMiddleware\<close> are Starlette's,
  so they are parameters with their documented behaviour; \<open>TelemetryMiddleware\<close> is the
  service's own. \<open>add_middleware\<close> puts each middleware around those added before it.
\<close>

section \<open>Configuration\<close>





section \<open>Routes\<close>






section \<open>The stack\<close>






section \<open>Documented behaviour of the two middlewares\<close>










section \<open>What reaches the router\<close>




















end
