(* ===== verification/Load.thy ===== *)
theory Load
  imports Py_Text "HOL-Library.Multiset"
begin

text \<open>
  The load measurement of \<open>performance.py\<close> and the load probe \<open>scripts/load_smoke.py\<close>. A \<open>float\<close>
  is a real number; \<open>fl\<close> rounds the exact result of an operation to a double, so \<open>a * b\<close> of the
  source is \<open>fl (a * b)\<close>. What IEEE 754 says of rounding is \<open>rounds_as_ieee\<close>. The event loop may
  interleave the tasks of the open loop in any way, so the loop is a step relation.
\<close>

section \<open>Plans, samples and reports\<close>

record OperationSpec =
  op_name :: string
  op_method :: string
  op_path :: string
  op_weight :: int
  op_expected_statuses :: "int set"
  op_json_factory :: "(nat \<Rightarrow> json_object) option"
  op_header_factory :: "(nat \<Rightarrow> (string \<times> string) list) option"

definition operation_spec :: "OperationSpec \<Rightarrow> OperationSpec result" where
  "operation_spec op =
     (if op_name op = '''' \<or> \<not> startswith (op_path op) ''/''
      then Inl (ValueError ''operation needs a stable name and absolute path'')
      else if op_weight op \<le> 0 \<or> op_expected_statuses op = {}
      then Inl (ValueError ''weight and expected statuses must be positive'')
      else Inr op)"

record LoadPlan =
  lp_duration_seconds :: real
  lp_arrival_rate_per_second :: real
  lp_concurrency_limit :: int
  lp_timeout_seconds :: real
  lp_operations :: "OperationSpec list"

definition load_plan :: "LoadPlan \<Rightarrow> LoadPlan result" where
  "load_plan p =
     (if lp_duration_seconds p \<le> 0 \<or> lp_arrival_rate_per_second p \<le> 0
      then Inl (ValueError ''duration and arrival rate must be positive'')
      else if lp_concurrency_limit p \<le> 0 \<or> lp_timeout_seconds p \<le> 0
      then Inl (ValueError ''concurrency and timeout must be positive'')
      else if lp_operations p = [] then Inl (ValueError ''at least one operation is required'')
      else Inr p)"

definition request_count :: "(real \<Rightarrow> real) \<Rightarrow> LoadPlan \<Rightarrow> int" where
  "request_count fl p = max 1 \<lceil>fl (lp_duration_seconds p * lp_arrival_rate_per_second p)\<rceil>"

record RequestSample =
  rs_operation :: string
  rs_scheduled_at :: real
  rs_started_at :: real
  rs_finished_at :: real
  rs_status_code :: "int option"
  rs_succeeded :: bool
  rs_error_type :: "string option"

definition service_latency_ms :: "(real \<Rightarrow> real) \<Rightarrow> RequestSample \<Rightarrow> real" where
  "service_latency_ms fl x = max 0 (fl (fl (rs_finished_at x - rs_started_at x) * 1000))"

definition end_to_end_latency_ms :: "(real \<Rightarrow> real) \<Rightarrow> RequestSample \<Rightarrow> real" where
  "end_to_end_latency_ms fl x = max 0 (fl (fl (rs_finished_at x - rs_scheduled_at x) * 1000))"

definition queue_delay_ms :: "(real \<Rightarrow> real) \<Rightarrow> RequestSample \<Rightarrow> real" where
  "queue_delay_ms fl x = max 0 (fl (fl (rs_started_at x - rs_scheduled_at x) * 1000))"

record LoadReport =
  lr_requests :: int
  lr_successes :: int
  lr_failures :: int
  lr_error_rate :: real
  lr_throughput_per_second :: real
  lr_service_p50_ms :: real
  lr_service_p95_ms :: real
  lr_service_p99_ms :: real
  lr_end_to_end_p95_ms :: real
  lr_queue_delay_p95_ms :: real

section \<open>Percentiles, mix and summary\<close>

definition nearest_rank :: "(real \<Rightarrow> real) \<Rightarrow> real list \<Rightarrow> real \<Rightarrow> real result" where
  "nearest_rank fl samples percentile =
     (if samples = [] then Inl (ValueError ''percentile requires at least one observation'')
      else if \<not> (0 < percentile \<and> percentile \<le> 1) then Inl (ValueError ''percentile must be in (0, 1]'')
      else let ordered = sort samples;
               i = nat (max 0 (\<lceil>fl (percentile * real (length ordered))\<rceil> - 1))
           in if i < length ordered then Inr (ordered ! i) else Inl IndexError)"

definition weighted_cycle :: "OperationSpec list \<Rightarrow> OperationSpec list" where
  "weighted_cycle ops = concat (map (\<lambda>op. replicate (nat (op_weight op)) op) ops)"

definition summarize :: "(real \<Rightarrow> real) \<Rightarrow> RequestSample list \<Rightarrow> real \<Rightarrow> LoadReport result" where
  "summarize fl samples elapsed_seconds =
     (if samples = [] \<or> elapsed_seconds \<le> 0 then Inl (ValueError ''a report needs samples and positive elapsed time'')
      else
        let service = map (service_latency_ms fl) samples;
            end_to_end = map (end_to_end_latency_ms fl) samples;
            queue = map (queue_delay_ms fl) samples;
            successes = int (length (filter rs_succeeded samples));
            failures = int (length samples) - successes
        in thenR (nearest_rank fl service (fl (50 / 100))) (\<lambda>p50.
           thenR (nearest_rank fl service (fl (95 / 100))) (\<lambda>p95.
           thenR (nearest_rank fl service (fl (99 / 100))) (\<lambda>p99.
           thenR (nearest_rank fl end_to_end (fl (95 / 100))) (\<lambda>e95.
           thenR (nearest_rank fl queue (fl (95 / 100))) (\<lambda>q95.
           Inr \<lparr> lr_requests = int (length samples), lr_successes = successes, lr_failures = failures,
                 lr_error_rate = fl (of_int failures / real (length samples)),
                 lr_throughput_per_second = fl (real (length samples) / elapsed_seconds),
                 lr_service_p50_ms = p50, lr_service_p95_ms = p95, lr_service_p99_ms = p99,
                 lr_end_to_end_p95_ms = e95, lr_queue_delay_p95_ms = q95 \<rparr>))))))"

record Comparison =
  cp_p95_change_percent :: real
  cp_throughput_change_percent :: real
  cp_error_rate_ok :: bool
  cp_p95_ok :: bool
  cp_queue_not_worse :: bool

definition change_percent :: "(real \<Rightarrow> real) \<Rightarrow> real \<Rightarrow> real \<Rightarrow> real" where
  "change_percent fl candidate baseline =
     (if baseline \<noteq> 0 then fl (fl (fl (candidate - baseline) / baseline) * 100) else 0)"

definition compare_reports :: "(real \<Rightarrow> real) \<Rightarrow> LoadReport \<Rightarrow> LoadReport \<Rightarrow> real \<Rightarrow> real \<Rightarrow> Comparison" where
  "compare_reports fl baseline candidate max_error_rate max_p95_ms = \<lparr>
     cp_p95_change_percent = change_percent fl (lr_end_to_end_p95_ms candidate) (lr_end_to_end_p95_ms baseline),
     cp_throughput_change_percent =
       change_percent fl (lr_throughput_per_second candidate) (lr_throughput_per_second baseline),
     cp_error_rate_ok = (lr_error_rate candidate \<le> max_error_rate),
     cp_p95_ok = (lr_end_to_end_p95_ms candidate \<le> max_p95_ms),
     cp_queue_not_worse = (lr_queue_delay_p95_ms candidate \<le> lr_queue_delay_p95_ms baseline) \<rparr>"

section \<open>The open loop\<close>

text \<open>
  The state while \<open>run_open_loop\<close> runs: the loop's clock, how many tasks were created, those
  that wait for a slot, those whose request is under way with the time it started, the
  samples, and the first exception that is neither \<open>httpx.HTTPError\<close> nor \<open>TimeoutError\<close>.
\<close>

record open_loop =
  ol_now :: real
  ol_created :: nat
  ol_waiting :: "nat list"
  ol_running :: "(nat \<times> real) list"
  ol_samples :: "nat \<Rightarrow> RequestSample option"
  ol_raised :: "exn option"

definition open_loop_start :: "real \<Rightarrow> open_loop" where
  "open_loop_start t = \<lparr> ol_now = t, ol_created = 0, ol_waiting = [], ol_running = [], ol_samples = (\<lambda>_. None), ol_raised = None \<rparr>"

definition scheduled :: "(real \<Rightarrow> real) \<Rightarrow> LoadPlan \<Rightarrow> real \<Rightarrow> nat \<Rightarrow> real" where
  "scheduled fl plan experiment_started i =
     fl (experiment_started + fl (real i * fl (1 / lp_arrival_rate_per_second plan)))"

definition operation_at :: "LoadPlan \<Rightarrow> nat \<Rightarrow> OperationSpec" where
  "operation_at plan i = (let cycle = weighted_cycle (lp_operations plan) in cycle ! (i mod length cycle))"

text \<open>The two ways \<open>execute\<close> makes a sample: from a response, and from an error of the client.\<close>

definition sample_of ::
  "(real \<Rightarrow> real) \<Rightarrow> LoadPlan \<Rightarrow> real \<Rightarrow> nat \<Rightarrow> real \<Rightarrow> real \<Rightarrow> string + int \<Rightarrow> RequestSample" where
  "sample_of fl plan t0 i started now reply = \<lparr>
     rs_operation = op_name (operation_at plan i), rs_scheduled_at = scheduled fl plan t0 i,
     rs_started_at = started, rs_finished_at = now,
     rs_status_code = (case reply of Inl _ \<Rightarrow> None | Inr status \<Rightarrow> Some status),
     rs_succeeded = (case reply of Inl _ \<Rightarrow> False | Inr status \<Rightarrow> status \<in> op_expected_statuses (operation_at plan i)),
     rs_error_type = (case reply of Inl name \<Rightarrow> Some name | Inr _ \<Rightarrow> None) \<rparr>"

text \<open>
  \<open>asyncio.sleep\<close> may wake up to the clock's \<open>resolution\<close> early. \<open>asyncio.Semaphore\<close> is fair.
\<close>

inductive loop_step ::
  "(real \<Rightarrow> real) \<Rightarrow> LoadPlan \<Rightarrow> real \<Rightarrow> real \<Rightarrow> open_loop \<Rightarrow> open_loop \<Rightarrow> bool" for fl plan t0 resolution where
  tick: "ol_now w \<le> t \<Longrightarrow> loop_step fl plan t0 resolution w (w \<lparr> ol_now := t \<rparr>)"
| arrive: "int (ol_created w) < request_count fl plan \<Longrightarrow> scheduled fl plan t0 (ol_created w) \<le> ol_now w + resolution \<Longrightarrow>
    loop_step fl plan t0 resolution w (w \<lparr> ol_created := ol_created w + 1, ol_waiting := ol_waiting w @ [ol_created w] \<rparr>)"
| begin_request: "ol_waiting w = i # rest \<Longrightarrow> int (length (ol_running w)) < lp_concurrency_limit plan \<Longrightarrow>
    loop_step fl plan t0 resolution w (w \<lparr> ol_waiting := rest, ol_running := ol_running w @ [(i, ol_now w)] \<rparr>)"
| sampled: "(i, started) \<in> set (ol_running w) \<Longrightarrow>
    loop_step fl plan t0 resolution w (w \<lparr> ol_running := remove1 (i, started) (ol_running w),
      ol_samples := (ol_samples w)(i \<mapsto> sample_of fl plan t0 i started (ol_now w) reply) \<rparr>)"
| broken: "(i, started) \<in> set (ol_running w) \<Longrightarrow>
    loop_step fl plan t0 resolution w (w \<lparr> ol_running := remove1 (i, started) (ol_running w),
      ol_raised := (case ol_raised w of None \<Rightarrow> Some e | Some e' \<Rightarrow> Some e') \<rparr>)"

text \<open>What \<open>run_open_loop\<close> returns or raises once \<open>asyncio.gather\<close> is over.\<close>

inductive run_open_loop :: "(real \<Rightarrow> real) \<Rightarrow> LoadPlan \<Rightarrow> real \<Rightarrow> real \<Rightarrow> open_loop \<Rightarrow> LoadReport result \<Rightarrow> bool"
  for fl plan t0 resolution where
  reported: "(loop_step fl plan t0 resolution)\<^sup>*\<^sup>* (open_loop_start t0) w \<Longrightarrow> int (ol_created w) = request_count fl plan \<Longrightarrow>
    ol_waiting w = [] \<Longrightarrow> ol_running w = [] \<Longrightarrow> ol_raised w = None \<Longrightarrow>
    run_open_loop fl plan t0 resolution w
      (summarize fl (map (\<lambda>i. the (ol_samples w i)) [0..<ol_created w]) (fl (ol_now w - t0)))"
| failed: "(loop_step fl plan t0 resolution)\<^sup>*\<^sup>* (open_loop_start t0) w \<Longrightarrow> int (ol_created w) = request_count fl plan \<Longrightarrow>
    ol_raised w = Some e \<Longrightarrow> run_open_loop fl plan t0 resolution w (Inl e)"

section \<open>Rounding\<close>

text \<open>Rounding to the nearest double is monotone, exact on integers up to \<open>2^53\<close>, and for
  normal numbers, of which a range suffices here, off by at most half a unit in the last place.\<close>

definition rounds_as_ieee :: "(real \<Rightarrow> real) \<Rightarrow> bool" where
  "rounds_as_ieee fl \<longleftrightarrow>
     (\<forall>x y. x \<le> y \<longrightarrow> fl x \<le> fl y) \<and> (\<forall>k::int. \<bar>k\<bar> \<le> 2 ^ 53 \<longrightarrow> fl (of_int k) = of_int k)
   \<and> (\<forall>x. 1 / 1024 \<le> \<bar>x\<bar> \<and> \<bar>x\<bar> \<le> 1024 \<longrightarrow> \<bar>fl x - x\<bar> \<le> \<bar>x\<bar> / 2 ^ 53)"

lemma fl_mono: "rounds_as_ieee fl \<Longrightarrow> x \<le> y \<Longrightarrow> fl x \<le> fl y"
  by (simp add: rounds_as_ieee_def)

lemma fl_int: "rounds_as_ieee fl \<Longrightarrow> \<bar>k\<bar> \<le> 2 ^ 53 \<Longrightarrow> fl (of_int k) = of_int k"
  by (simp add: rounds_as_ieee_def)

lemma fl_nat: "rounds_as_ieee fl \<Longrightarrow> n \<le> 2 ^ 53 \<Longrightarrow> fl (real n) = real n"
proof -
  assume a: "rounds_as_ieee fl" "n \<le> 2 ^ 53"
  then have "\<bar>int n\<bar> \<le> 2 ^ 53" by (metis abs_of_nat of_nat_le_iff of_nat_numeral of_nat_power)
  from fl_int [OF a(1) this] show "fl (real n) = real n" by simp
qed

lemma fl_error:
  assumes "rounds_as_ieee fl" "1 / 1024 \<le> x" "x \<le> 1024"
  shows "x * (1 - 1 / 2 ^ 53) \<le> fl x" "fl x \<le> x * (1 + 1 / 2 ^ 53)"
proof -
  define c :: real where "c = 1 / 2 ^ 53"
  have "\<bar>fl x - x\<bar> \<le> \<bar>x\<bar> / 2 ^ 53"
    using assms unfolding rounds_as_ieee_def by (smt (verit, best) divide_pos_pos zero_less_numeral)
  moreover have "\<bar>x\<bar> / 2 ^ 53 = x * c" using assms(2) by (simp add: c_def)
  ultimately have "\<bar>fl x - x\<bar> \<le> x * c" by simp
  then show "x * (1 - 1 / 2 ^ 53) \<le> fl x" "fl x \<le> x * (1 + 1 / 2 ^ 53)"
    unfolding c_def [symmetric] by (simp_all add: abs_le_iff algebra_simps)
qed

text \<open>The percentiles of a report are in range.\<close>

lemma fl_fraction:
  assumes "rounds_as_ieee fl" "1 / 1024 \<le> x" "x \<le> 1"
  shows "0 < fl x" "fl x \<le> 1"
proof -
  have "1 / 1024 * (1 - 1 / 2 ^ 53) \<le> x * (1 - 1 / 2 ^ 53)" using assms(2) by (intro mult_right_mono) simp_all
  then show "0 < fl x" using fl_error(1) [OF assms(1,2)] assms(3) by simp
  show "fl x \<le> 1" using fl_mono [OF assms(1,3)] fl_int [OF assms(1), of 1] by simp
qed

section \<open>Percentiles\<close>

lemma sorted_count_le:
  assumes "sorted ys" "i < length ys"
  shows "i < length (filter (\<lambda>y. y \<le> ys ! i) ys)"
proof -
  have "filter (\<lambda>y. y \<le> ys ! i) (take (Suc i) ys) = take (Suc i) ys"
    using assms by (auto simp: filter_id_conv in_set_conv_nth sorted_nth_mono)
  moreover have "filter P ys = filter P (take (Suc i) ys) @ filter P (drop (Suc i) ys)" for P
    by (metis append_take_drop_id filter_append)
  ultimately show ?thesis using assms(2) by (metis Suc_le_eq length_append length_take le_add1 min.absorb2)
qed

lemma sorted_count_less:
  assumes "sorted ys" "i < length ys"
  shows "length (filter (\<lambda>y. y < ys ! i) ys) \<le> i"
proof -
  have "filter (\<lambda>y. y < ys ! i) (drop i ys) = []"
    using assms by (auto simp: filter_empty_conv in_set_conv_nth not_less intro!: sorted_nth_mono)
  moreover have "filter P ys = filter P (take i ys) @ filter P (drop i ys)" for P
    by (metis append_take_drop_id filter_append)
  ultimately have "length (filter (\<lambda>y. y < ys ! i) ys) = length (filter (\<lambda>y. y < ys ! i) (take i ys))" by simp
  also have "\<dots> \<le> i" by (metis length_filter_le length_take le_trans min.cobounded2)
  finally show ?thesis .
qed

lemma filter_sort_length: "length (filter P (sort xs)) = length (filter P (xs :: 'a :: linorder list))"
  by (metis mset_filter mset_sort size_mset)

lemma filter_length_mono: "(\<And>x. x \<in> set xs \<Longrightarrow> P x \<Longrightarrow> Q x) \<Longrightarrow> length (filter P xs) \<le> length (filter Q xs)"
  by (induction xs) (auto intro: le_SucI)

text \<open>A list that is nowhere larger has nowhere larger order statistics.\<close>

lemma sort_nth_mono:
  fixes xs :: "'a :: linorder list"
  assumes "list_all2 (\<le>) xs ys" "i < length xs"
  shows "sort xs ! i \<le> sort ys ! i"
proof (rule ccontr)
  assume above: "\<not> sort xs ! i \<le> sort ys ! i"
  have len: "length xs = length ys" using assms(1) by (rule list_all2_lengthD)
  have "length (filter (\<lambda>y. y \<le> v) ys) \<le> length (filter (\<lambda>x. x \<le> v) xs)" for v
    using assms(1) by (induction rule: list_all2_induct) auto
  moreover have "i < length (filter (\<lambda>y. y \<le> sort ys ! i) ys)"
    using sorted_count_le [of "sort ys" i] assms(2) len by (simp add: filter_sort_length)
  moreover have "length (filter (\<lambda>x. x \<le> sort ys ! i) xs) \<le> length (filter (\<lambda>x. x < sort xs ! i) xs)"
    using above by (intro filter_length_mono) auto
  moreover have "length (filter (\<lambda>x. x < sort xs ! i) xs) \<le> i"
    using sorted_count_less [of "sort xs" i] assms(2) by (simp add: filter_sort_length)
  ultimately show False by (meson leD le_trans)
qed

definition rank_index :: "(real \<Rightarrow> real) \<Rightarrow> real \<Rightarrow> nat \<Rightarrow> nat" where
  "rank_index fl percentile n = nat (max 0 (\<lceil>fl (percentile * real n)\<rceil> - 1))"

lemma rank_index_range:
  assumes "rounds_as_ieee fl" "0 < n" "n \<le> 2 ^ 53" "0 < percentile" "percentile \<le> 1"
  shows "rank_index fl percentile n < n" "real (rank_index fl percentile n) < percentile * real n"
    "\<lfloor>percentile * real n\<rfloor> \<le> int (rank_index fl percentile n) + 1"
proof -
  define x where "x = percentile * real n"
  have small: "int n \<le> 2 ^ 53" using assms(3) by (metis of_nat_le_iff of_nat_numeral of_nat_power)
  have pos: "0 < x" using assms(2,4) by (simp add: x_def)
  have le: "x \<le> real n" using mult_right_mono [OF assms(5), of "real n"] by (simp add: x_def)
  have c: "0 < \<lceil>x\<rceil>" "\<lceil>x\<rceil> \<le> int n" "0 \<le> \<lfloor>x\<rfloor>" "\<lfloor>x\<rfloor> \<le> int n" "of_int \<lceil>x\<rceil> < x + 1"
    using pos le by linarith+
  have "\<bar>\<lceil>x\<rceil>\<bar> \<le> 2 ^ 53" "\<bar>\<lfloor>x\<rfloor>\<bar> \<le> 2 ^ 53" using c small by linarith+
  note exact = this [THEN fl_int [OF assms(1)]]
  have "fl x \<le> of_int \<lceil>x\<rceil>"
    using fl_mono [OF assms(1) le_of_int_ceiling [of x]] unfolding exact(1) .
  then have up: "\<lceil>fl x\<rceil> \<le> \<lceil>x\<rceil>" by (simp add: ceiling_le_iff)
  have "of_int \<lfloor>x\<rfloor> \<le> fl x"
    using fl_mono [OF assms(1) of_int_floor_le [of x]] unfolding exact(2) .
  then have down: "\<lfloor>x\<rfloor> \<le> \<lceil>fl x\<rceil>" by linarith
  define k where "k = \<lceil>fl x\<rceil>"
  have rank: "rank_index fl percentile n = nat (max 0 (k - 1))" by (simp add: rank_index_def k_def x_def)
  show "rank_index fl percentile n < n" "\<lfloor>percentile * real n\<rfloor> \<le> int (rank_index fl percentile n) + 1"
    using up down c assms(2) unfolding rank x_def [symmetric] k_def [symmetric] by linarith+
  show "real (rank_index fl percentile n) < percentile * real n"
  proof (cases "1 \<le> k")
    case True
    then have "real (rank_index fl percentile n) = of_int k - 1" by (simp add: rank)
    also have "\<dots> < x" using up c(5) unfolding k_def by linarith
    finally show ?thesis by (simp add: x_def)
  qed (use pos in \<open>simp add: rank x_def\<close>)
qed

lemma rank_index_mono:
  assumes "rounds_as_ieee fl" "p \<le> q"
  shows "rank_index fl p n \<le> rank_index fl q n"
proof -
  have "fl (p * real n) \<le> fl (q * real n)" by (rule fl_mono [OF assms(1) mult_right_mono [OF assms(2)]]) simp
  then have "\<lceil>fl (p * real n)\<rceil> \<le> \<lceil>fl (q * real n)\<rceil>" by (rule ceiling_mono)
  then show ?thesis unfolding rank_index_def by linarith
qed

lemma nearest_rank_value:
  assumes "rounds_as_ieee fl" "samples \<noteq> []" "length samples \<le> 2 ^ 53" "0 < percentile" "percentile \<le> 1"
  shows "nearest_rank fl samples percentile = Inr (sort samples ! rank_index fl percentile (length samples))"
  using rank_index_range(1) [OF assms(1) _ assms(3-5)] assms by (simp add: nearest_rank_def rank_index_def Let_def)

text \<open>The value is an observation; about \<open>percentile\<close> of the observations do not exceed it, fewer are below it.\<close>

lemma nearest_rank_bounds:
  assumes "rounds_as_ieee fl" "samples \<noteq> []" "length samples \<le> 2 ^ 53" "0 < percentile" "percentile \<le> 1"
    "nearest_rank fl samples percentile = Inr v"
  shows "v \<in> set samples" "\<lfloor>percentile * real (length samples)\<rfloor> \<le> int (length (filter (\<lambda>x. x \<le> v) samples))"
    "real (length (filter (\<lambda>x. x < v) samples)) < percentile * real (length samples)"
proof -
  let ?i = "rank_index fl percentile (length samples)"
  have range: "?i < length (sort samples)" "real ?i < percentile * real (length samples)"
    "\<lfloor>percentile * real (length samples)\<rfloor> \<le> int ?i + 1"
    using rank_index_range [OF assms(1) _ assms(3-5)] assms(2) by simp_all
  have v: "v = sort samples ! ?i" using nearest_rank_value [OF assms(1-5)] assms(6) by simp
  show "v \<in> set samples" unfolding v using nth_mem [OF range(1)] by simp
  show "\<lfloor>percentile * real (length samples)\<rfloor> \<le> int (length (filter (\<lambda>x. x \<le> v) samples))"
    using sorted_count_le [OF sorted_sort range(1)] range(3) unfolding v filter_sort_length by linarith
  show "real (length (filter (\<lambda>x. x < v) samples)) < percentile * real (length samples)"
    using sorted_count_less [OF sorted_sort range(1)] range(2) unfolding v filter_sort_length by linarith
qed

lemma nearest_rank_mono:
  assumes "rounds_as_ieee fl" "samples \<noteq> []" "length samples \<le> 2 ^ 53" "0 < p" "p \<le> q" "q \<le> 1"
    "nearest_rank fl samples p = Inr v" "nearest_rank fl samples q = Inr w"
  shows "v \<le> w"
  using nearest_rank_value [OF assms(1-4)] nearest_rank_value [OF assms(1-3), of q] rank_index_mono [OF assms(1,5)]
    rank_index_range(1) [OF assms(1) _ assms(3), of q] assms by (auto intro!: sorted_nth_mono)

lemma nearest_rank_pointwise:
  assumes "rounds_as_ieee fl" "samples \<noteq> []" "length samples \<le> 2 ^ 53" "0 < p" "p \<le> 1" "list_all2 (\<le>) samples others"
    "nearest_rank fl samples p = Inr v" "nearest_rank fl others p = Inr w"
  shows "v \<le> w"
proof -
  have len: "length samples = length others" using assms(6) by (rule list_all2_lengthD)
  show ?thesis
    using nearest_rank_value [OF assms(1-5)] nearest_rank_value [OF assms(1) _ _ assms(4,5), of others] assms len
      sort_nth_mono [OF assms(6) rank_index_range(1) [OF assms(1) _ assms(3-5)]] by fastforce
qed

section \<open>Reports\<close>

lemma latency_mono:
  assumes "rounds_as_ieee fl" "a \<le> b"
  shows "max 0 (fl (fl a * 1000)) \<le> max 0 (fl (fl b * 1000))"
  using fl_mono [OF assms(1) mult_right_mono [OF fl_mono [OF assms]], of 1000] by simp

lemma queue_within_end_to_end:
  assumes "rounds_as_ieee fl" "rs_started_at x \<le> rs_finished_at x"
  shows "queue_delay_ms fl x \<le> end_to_end_latency_ms fl x"
  unfolding queue_delay_ms_def end_to_end_latency_ms_def using assms by (intro latency_mono) simp_all

lemma percentiles_in_range:
  assumes "rounds_as_ieee fl"
  shows "0 < fl (50 / 100)" "fl (50 / 100) \<le> fl (95 / 100)" "fl (95 / 100) \<le> fl (99 / 100)" "fl (99 / 100) \<le> 1"
    "0 < fl (95 / 100)" "0 < fl (99 / 100)" "fl (50 / 100) \<le> 1" "fl (95 / 100) \<le> 1"
proof -
  show "0 < fl (50 / 100)" "fl (50 / 100) \<le> 1" by (rule fl_fraction [OF assms]; simp)+
  show "0 < fl (95 / 100)" "fl (95 / 100) \<le> 1" by (rule fl_fraction [OF assms]; simp)+
  show "0 < fl (99 / 100)" "fl (99 / 100) \<le> 1" by (rule fl_fraction [OF assms]; simp)+
  show "fl (50 / 100) \<le> fl (95 / 100)" "fl (95 / 100) \<le> fl (99 / 100)" by (rule fl_mono [OF assms]; simp)+
qed

text \<open>What a report says of the samples it was made from.\<close>

definition report_of :: "(real \<Rightarrow> real) \<Rightarrow> RequestSample list \<Rightarrow> LoadReport \<Rightarrow> bool" where
  "report_of fl samples r \<longleftrightarrow>
     lr_requests r = int (length samples)
   \<and> lr_successes r = int (length (filter rs_succeeded samples))
   \<and> lr_failures r = int (length (filter (\<lambda>x. \<not> rs_succeeded x) samples))
   \<and> lr_error_rate r = fl (of_int (lr_failures r) / real (length samples))
   \<and> lr_service_p50_ms r \<le> lr_service_p95_ms r \<and> lr_service_p95_ms r \<le> lr_service_p99_ms r
   \<and> lr_queue_delay_p95_ms r \<le> lr_end_to_end_p95_ms r
   \<and> \<lfloor>fl (95 / 100) * real (length samples)\<rfloor>
       \<le> int (length (filter (\<lambda>x. end_to_end_latency_ms fl x \<le> lr_end_to_end_p95_ms r) samples))
   \<and> real (length (filter (\<lambda>x. end_to_end_latency_ms fl x < lr_end_to_end_p95_ms r) samples))
       < fl (95 / 100) * real (length samples)"

lemma summarize_report:
  assumes "rounds_as_ieee fl" "samples \<noteq> []" "length samples \<le> 2 ^ 53" "0 < elapsed"
    "\<forall>x \<in> set samples. rs_started_at x \<le> rs_finished_at x"
  shows "\<exists>r. summarize fl samples elapsed = Inr r \<and> report_of fl samples r"
proof -
  note p = percentiles_in_range [OF assms(1)]
  let ?s = "map (service_latency_ms fl) samples" and ?e = "map (end_to_end_latency_ms fl) samples"
    and ?q = "map (queue_delay_ms fl) samples"
  have ok: "map f samples \<noteq> []" "length (map f samples) \<le> 2 ^ 53" for f :: "RequestSample \<Rightarrow> real" using assms(2,3) by simp_all
  note rank = nearest_rank_value [OF assms(1) ok]
  obtain p50 p95 p99 e95 q95 where v: "nearest_rank fl ?s (fl (50 / 100)) = Inr p50" "nearest_rank fl ?s (fl (95 / 100)) = Inr p95"
    "nearest_rank fl ?s (fl (99 / 100)) = Inr p99" "nearest_rank fl ?e (fl (95 / 100)) = Inr e95"
    "nearest_rank fl ?q (fl (95 / 100)) = Inr q95"
    using rank [OF p(1,7)] rank [OF p(5,8)] rank [OF p(6,4)] by blast
  have le: "p50 \<le> p95" "p95 \<le> p99"
    by (rule nearest_rank_mono [OF assms(1) ok p(1,2,8) v(1,2)], rule nearest_rank_mono [OF assms(1) ok p(5,3,4) v(2,3)])
  have "list_all2 (\<le>) ?q ?e"
    using assms(5) queue_within_end_to_end [OF assms(1)] by (simp add: list_all2_conv_all_nth)
  from nearest_rank_pointwise [OF assms(1) ok p(5,8) this v(5,4)] have qe: "q95 \<le> e95" .
  have tail: "\<lfloor>fl (95 / 100) * real (length samples)\<rfloor> \<le> int (length (filter (\<lambda>x. end_to_end_latency_ms fl x \<le> e95) samples))"
    "real (length (filter (\<lambda>x. end_to_end_latency_ms fl x < e95) samples)) < fl (95 / 100) * real (length samples)"
    using nearest_rank_bounds(2,3) [OF assms(1) ok p(5,8) v(4)] by (simp_all only: filter_map comp_def length_map)
  have counts: "int (length samples) - int (length (filter rs_succeeded samples)) = int (length (filter (\<lambda>x. \<not> rs_succeeded x) samples))"
    using sum_length_filter_compl [of rs_succeeded samples] by linarith
  show ?thesis
    using assms(2,4) le qe tail counts v unfolding report_of_def
    by (simp add: summarize_def Let_def thenR_def)
qed

section \<open>Runs of the open loop\<close>

definition sample_ok :: "(real \<Rightarrow> real) \<Rightarrow> LoadPlan \<Rightarrow> real \<Rightarrow> real \<Rightarrow> nat \<Rightarrow> RequestSample \<Rightarrow> bool" where
  "sample_ok fl plan t0 resolution i x \<longleftrightarrow>
     rs_operation x = op_name (operation_at plan i) \<and> rs_scheduled_at x = scheduled fl plan t0 i
   \<and> rs_scheduled_at x \<le> rs_started_at x + resolution \<and> rs_started_at x \<le> rs_finished_at x
   \<and> (rs_succeeded x \<longleftrightarrow> (\<exists>status \<in> op_expected_statuses (operation_at plan i). rs_status_code x = Some status))"

definition loop_ok :: "(real \<Rightarrow> real) \<Rightarrow> LoadPlan \<Rightarrow> real \<Rightarrow> real \<Rightarrow> open_loop \<Rightarrow> bool" where
  "loop_ok fl plan t0 resolution w \<longleftrightarrow>
     int (length (ol_running w)) \<le> lp_concurrency_limit plan \<and> int (ol_created w) \<le> request_count fl plan
   \<and> (\<forall>i \<in> set (ol_waiting w). scheduled fl plan t0 i \<le> ol_now w + resolution)
   \<and> (\<forall>(i, started) \<in> set (ol_running w). scheduled fl plan t0 i \<le> started + resolution \<and> started \<le> ol_now w)
   \<and> (\<forall>i x. ol_samples w i = Some x \<longrightarrow> sample_ok fl plan t0 resolution i x)
   \<and> (ol_raised w = None \<longrightarrow> {..<ol_created w} \<subseteq> set (ol_waiting w) \<union> fst ` set (ol_running w) \<union> dom (ol_samples w))"

lemma loop_ok_start: "0 \<le> lp_concurrency_limit plan \<Longrightarrow> loop_ok fl plan t0 resolution (open_loop_start t0)"
  by (simp add: loop_ok_def open_loop_start_def request_count_def)

lemma removed_covers: "x \<in> set xs \<Longrightarrow> set xs \<subseteq> insert x (set (remove1 x xs))"
  by (induction xs) auto

lemma loop_ok_step:
  assumes "loop_step fl plan t0 resolution w w'" "loop_ok fl plan t0 resolution w"
  shows "loop_ok fl plan t0 resolution w'"
  using assms
proof (cases rule: loop_step.cases)
  case (sampled i started reply)
  let ?x = "sample_of fl plan t0 i started (ol_now w) reply"
  have run: "scheduled fl plan t0 i \<le> started + resolution" "started \<le> ol_now w"
    using assms(2) sampled(2) by (auto simp: loop_ok_def)
  then have x: "sample_ok fl plan t0 resolution i ?x" by (simp add: sample_ok_def sample_of_def split: sum.splits)
  have fewer: "length (remove1 (i, started) (ol_running w)) \<le> length (ol_running w)" "set (remove1 (i, started) (ol_running w)) \<subseteq> set (ol_running w)"
    by (simp add: length_remove1, rule set_remove1_subset)
  have cover: "fst ` set (ol_running w) \<subseteq> insert i (fst ` set (remove1 (i, started) (ol_running w)))"
    using removed_covers [OF sampled(2)] by force
  have covered: "{..<ol_created w} \<subseteq> set (ol_waiting w) \<union> fst ` set (remove1 (i, started) (ol_running w)) \<union> insert i (dom (ol_samples w))"
    if "ol_raised w = None" using assms(2) that cover unfolding loop_ok_def by blast
  show ?thesis unfolding sampled(1) loop_ok_def
    using assms(2) x fewer covered by (simp add: loop_ok_def) blast
next
  case (broken i started e)
  then show ?thesis
    using assms(2) set_remove1_subset [of "(i, started)" "ol_running w"]
    by (auto simp: loop_ok_def length_remove1 split: option.splits)
qed (use assms(2) in \<open>auto simp: loop_ok_def lessThan_Suc\<close>)

lemma loop_ok_run:
  "0 \<le> lp_concurrency_limit plan \<Longrightarrow> (loop_step fl plan t0 resolution)\<^sup>*\<^sup>* (open_loop_start t0) w \<Longrightarrow> loop_ok fl plan t0 resolution w"
  by (rotate_tac, induction rule: rtranclp_induct) (auto intro: loop_ok_start loop_ok_step)

definition loop_over :: "(real \<Rightarrow> real) \<Rightarrow> LoadPlan \<Rightarrow> open_loop \<Rightarrow> bool" where
  "loop_over fl plan w \<longleftrightarrow> int (ol_created w) = request_count fl plan \<and> ol_waiting w = [] \<and> ol_running w = []"

text \<open>A task to come has three steps to go, a waiting one two, a running one one.\<close>

definition loop_work :: "(real \<Rightarrow> real) \<Rightarrow> LoadPlan \<Rightarrow> open_loop \<Rightarrow> nat" where
  "loop_work fl plan w = 3 * nat (request_count fl plan - int (ol_created w)) + 2 * length (ol_waiting w) + length (ol_running w)"

text \<open>The server's answers decide what a run adds to the samples.\<close>

definition answered_by :: "(real \<Rightarrow> real) \<Rightarrow> LoadPlan \<Rightarrow> real \<Rightarrow> (nat \<Rightarrow> string + int) \<Rightarrow> open_loop \<Rightarrow> open_loop \<Rightarrow> bool" where
  "answered_by fl plan t0 reply w w' \<longleftrightarrow>
     ol_raised w' = ol_raised w
   \<and> (\<forall>i x. ol_samples w' i = Some x \<longrightarrow>
        ol_samples w i = Some x \<or> (\<exists>started now. x = sample_of fl plan t0 i started now (reply i)))"

lemma answered_by_trans:
  "answered_by fl plan t0 reply u v \<Longrightarrow> answered_by fl plan t0 reply v w \<Longrightarrow> answered_by fl plan t0 reply u w"
  unfolding answered_by_def by metis

lemma loop_advances:
  assumes "loop_ok fl plan t0 resolution w" "0 < lp_concurrency_limit plan" "0 \<le> resolution" "\<not> loop_over fl plan w"
  shows "\<exists>w'. (loop_step fl plan t0 resolution)\<^sup>*\<^sup>* w w' \<and> loop_work fl plan w' < loop_work fl plan w \<and> answered_by fl plan t0 reply w w'"
proof (cases "ol_running w")
  case (Cons x rest)
  obtain i started where x: "x = (i, started)" by (cases x)
  with Cons have "(i, started) \<in> set (ol_running w)" by simp
  note r_into_rtranclp [of "loop_step fl plan t0 resolution", OF loop_step.sampled [OF this, of fl plan t0 resolution "reply i"]]
  then show ?thesis by (intro exI conjI, assumption) (auto simp: loop_work_def Cons x answered_by_def split: if_splits)
next
  case Nil
  note idle = Nil
  show ?thesis
  proof (cases "ol_waiting w")
    case (Cons i rest)
    from loop_step.begin_request [OF Cons, where plan = plan and fl = fl and ?t0.0 = t0 and resolution = resolution] idle assms(2) show ?thesis
      by (intro exI conjI, intro r_into_rtranclp) (auto simp: loop_work_def Cons answered_by_def)
  next
    case Nil
    with idle assms(1,4) have more: "int (ol_created w) < request_count fl plan" by (auto simp: loop_over_def loop_ok_def)
    define v where "v = w \<lparr> ol_now := max (ol_now w) (scheduled fl plan t0 (ol_created w)) \<rparr>"
    have "loop_step fl plan t0 resolution w v" unfolding v_def by (rule loop_step.tick) simp
    moreover have "loop_step fl plan t0 resolution v (v \<lparr> ol_created := ol_created v + 1, ol_waiting := ol_waiting v @ [ol_created v] \<rparr>)"
      using more assms(3) by (intro loop_step.arrive) (simp_all add: v_def)
    ultimately have "(loop_step fl plan t0 resolution)\<^sup>*\<^sup>* w (v \<lparr> ol_created := ol_created v + 1, ol_waiting := ol_waiting v @ [ol_created v] \<rparr>)"
      by (meson converse_rtranclp_into_rtranclp r_into_rtranclp)
    moreover have "loop_work fl plan (v \<lparr> ol_created := ol_created v + 1, ol_waiting := ol_waiting v @ [ol_created v] \<rparr>) < loop_work fl plan w"
      using more by (simp add: loop_work_def v_def nat_diff_distrib')
    ultimately show ?thesis by (intro exI conjI) (auto simp: answered_by_def v_def)
  qed
qed

lemma loop_ok_steps: "(loop_step fl plan t0 resolution)\<^sup>*\<^sup>* w w' \<Longrightarrow> loop_ok fl plan t0 resolution w \<Longrightarrow> loop_ok fl plan t0 resolution w'"
  by (induction rule: rtranclp_induct) (auto intro: loop_ok_step)

lemma loop_can_end:
  assumes "loop_ok fl plan t0 resolution w" "0 < lp_concurrency_limit plan" "0 \<le> resolution"
  shows "\<exists>w'. (loop_step fl plan t0 resolution)\<^sup>*\<^sup>* w w' \<and> loop_over fl plan w' \<and> answered_by fl plan t0 reply w w'"
  using assms(1)
proof (induction "loop_work fl plan w" arbitrary: w rule: less_induct)
  case less
  show ?case
  proof (cases "loop_over fl plan w")
    case False
    from loop_advances [OF less.prems assms(2,3) this] obtain v
      where v: "(loop_step fl plan t0 resolution)\<^sup>*\<^sup>* w v" "loop_work fl plan v < loop_work fl plan w" "answered_by fl plan t0 reply w v" by blast
    from less.hyps [OF v(2) loop_ok_steps [OF v(1) less.prems]] v(1,3) show ?thesis by (meson rtranclp_trans answered_by_trans)
  qed (auto simp: answered_by_def)
qed

lemma load_plan_Inr: "load_plan raw = Inr plan \<Longrightarrow> plan = raw \<and> 0 < lp_concurrency_limit plan \<and> lp_operations plan \<noteq> []"
  by (simp add: load_plan_def split: if_splits)

text \<open>The samples in the order of \<open>tasks\<close>, as \<open>asyncio.gather\<close> returns them.\<close>

definition loop_samples :: "open_loop \<Rightarrow> RequestSample list" where
  "loop_samples w = map (\<lambda>i. the (ol_samples w i)) [0..<ol_created w]"

lemma loop_samples_ok:
  assumes "loop_ok fl plan t0 resolution w" "loop_over fl plan w" "ol_raised w = None" "request_count fl plan \<le> 2 ^ 53"
  shows "loop_samples w \<noteq> []" "length (loop_samples w) \<le> 2 ^ 53" "\<forall>x \<in> set (loop_samples w). rs_started_at x \<le> rs_finished_at x"
    "int (length (loop_samples w)) = request_count fl plan"
    "\<forall>i < length (loop_samples w). sample_ok fl plan t0 resolution i (loop_samples w ! i)"
    "\<forall>i < length (loop_samples w). ol_samples w i = Some (loop_samples w ! i)"
proof -
  note over = assms(2) [unfolded loop_over_def]
  have some: "\<exists>x. ol_samples w i = Some x" if "i < ol_created w" for i
    using assms(1,3) over that unfolding loop_ok_def by (auto dest!: subsetD [where c = i])
  then show "\<forall>i < length (loop_samples w). ol_samples w i = Some (loop_samples w ! i)" by (force simp: loop_samples_def)
  have samples: "sample_ok fl plan t0 resolution i (the (ol_samples w i))" if "i < ol_created w" for i
    using assms(1) some [OF that] unfolding loop_ok_def by auto
  then show "\<forall>i < length (loop_samples w). sample_ok fl plan t0 resolution i (loop_samples w ! i)"
    by (simp add: loop_samples_def)
  show "\<forall>x \<in> set (loop_samples w). rs_started_at x \<le> rs_finished_at x"
    using samples by (auto simp: loop_samples_def sample_ok_def)
  show "int (length (loop_samples w)) = request_count fl plan" using over by (simp add: loop_samples_def)
  have "0 < ol_created w" using over unfolding request_count_def by linarith
  then show "loop_samples w \<noteq> []" by (simp add: loop_samples_def)
  have "int (ol_created w) \<le> int (2 ^ 53)" using assms(4) over by simp
  then show "length (loop_samples w) \<le> 2 ^ 53" by (simp only: of_nat_le_iff loop_samples_def length_map length_upt minus_nat.diff_0)
qed

text \<open>
  However the event loop interleaves the tasks of a valid plan, no more requests are under way
  than the limit allows, and the loop can always run to its end. Its report is made from
  exactly one sample for each planned request, which started no earlier than its scheduled
  time (up to the clock's resolution) and counts as a success exactly when its status was
  expected; successes and failures add up, the percentiles are ordered, and the 95th percentile
  separates the samples as its definition asks for.
\<close>

theorem open_loop_report:
  assumes "rounds_as_ieee fl" "load_plan raw = Inr plan" "request_count fl plan \<le> 2 ^ 53" "0 \<le> resolution"
    "(loop_step fl plan t0 resolution)\<^sup>*\<^sup>* (open_loop_start t0) w"
  shows "int (length (ol_running w)) \<le> lp_concurrency_limit plan
    \<and> (\<exists>w'. (loop_step fl plan t0 resolution)\<^sup>*\<^sup>* w w' \<and> loop_over fl plan w')
    \<and> (\<forall>result. run_open_loop fl plan t0 resolution w result \<and> ol_raised w = None \<longrightarrow>
         (if fl (ol_now w - t0) \<le> 0 then result = Inl (ValueError ''a report needs samples and positive elapsed time'')
          else \<exists>samples r. result = Inr r \<and> report_of fl samples r \<and> int (length samples) = request_count fl plan
             \<and> (\<forall>i < length samples. sample_ok fl plan t0 resolution i (samples ! i))))"
proof (intro conjI allI impI)
  have plan: "0 < lp_concurrency_limit plan" using load_plan_Inr [OF assms(2)] by blast
  then have ok: "loop_ok fl plan t0 resolution w" using loop_ok_run [OF _ assms(5)] by simp
  then show "int (length (ol_running w)) \<le> lp_concurrency_limit plan" by (simp add: loop_ok_def)
  show "\<exists>w'. (loop_step fl plan t0 resolution)\<^sup>*\<^sup>* w w' \<and> loop_over fl plan w'" using loop_can_end [OF ok plan assms(4)] by blast
  fix result assume "run_open_loop fl plan t0 resolution w result \<and> ol_raised w = None"
  then have over: "loop_over fl plan w" "ol_raised w = None"
    and result: "result = summarize fl (loop_samples w) (fl (ol_now w - t0))"
    by (auto elim: run_open_loop.cases simp: loop_over_def loop_samples_def)
  note samples = loop_samples_ok [OF ok over assms(3)]
  show "if fl (ol_now w - t0) \<le> 0 then result = Inl (ValueError ''a report needs samples and positive elapsed time'')
        else \<exists>samples r. result = Inr r \<and> report_of fl samples r \<and> int (length samples) = request_count fl plan
             \<and> (\<forall>i < length samples. sample_ok fl plan t0 resolution i (samples ! i))"
  proof (cases "fl (ol_now w - t0) \<le> 0")
    case False
    then have "0 < fl (ol_now w - t0)" by simp
    from summarize_report [OF assms(1) samples(1,2) this samples(3)]
    obtain r where "summarize fl (loop_samples w) (fl (ol_now w - t0)) = Inr r" "report_of fl (loop_samples w) r" by blast
    with False result samples(4,5) show ?thesis by (auto intro!: exI [of _ "loop_samples w"])
  qed (simp add: result summarize_def)
qed

lemma exact_rounding: "rounds_as_ieee (\<lambda>x. x)"
  by (simp add: rounds_as_ieee_def)

definition sample_plan :: LoadPlan where
  "sample_plan = \<lparr> lp_duration_seconds = 1, lp_arrival_rate_per_second = 1, lp_concurrency_limit = 1, lp_timeout_seconds = 3,
     lp_operations = [\<lparr> op_name = ''read'', op_method = ''GET'', op_path = ''/orders'', op_weight = 1,
       op_expected_statuses = {200}, op_json_factory = None, op_header_factory = None \<rparr>] \<rparr>"

lemma sample_plan_ok: "load_plan sample_plan = Inr sample_plan" "request_count (\<lambda>x. x) sample_plan = 1"
  by (simp_all add: load_plan_def request_count_def sample_plan_def)

lemma sample_loop_run:
  "\<exists>w. (loop_step (\<lambda>x. x) sample_plan 0 0)\<^sup>*\<^sup>* (open_loop_start 0) w \<and> ol_raised w = None \<and> ol_now w = 1
     \<and> ol_created w = 1 \<and> ol_waiting w = [] \<and> ol_running w = []"
proof -
  let ?step = "loop_step (\<lambda>x. x) sample_plan 0 0"
  define a where "a = (open_loop_start 0) \<lparr> ol_created := 1, ol_waiting := [0] \<rparr>"
  define b where "b = a \<lparr> ol_waiting := [], ol_running := [(0, 0)] \<rparr>"
  define c where "c = b \<lparr> ol_now := 1 \<rparr>"
  define d where "d = c \<lparr> ol_running := [], ol_samples := (ol_samples c)(0 \<mapsto> sample_of (\<lambda>x. x) sample_plan 0 0 0 1 (Inr 200)) \<rparr>"
  have "?step (open_loop_start 0) a"
    using loop_step.arrive [of "open_loop_start 0" "\<lambda>x. x" sample_plan 0 0] sample_plan_ok(2)
    by (simp add: a_def open_loop_start_def scheduled_def)
  moreover have "?step a b"
    using loop_step.begin_request [of a 0 "[]" sample_plan] by (simp add: a_def b_def open_loop_start_def sample_plan_def)
  moreover have "?step b c" unfolding c_def by (rule loop_step.tick) (simp add: a_def b_def open_loop_start_def)
  moreover have "?step c d"
    using loop_step.sampled [of 0 0 c "\<lambda>x. x" sample_plan 0 0 "Inr 200"] by (simp add: b_def c_def d_def)
  ultimately have "?step\<^sup>*\<^sup>* (open_loop_start 0) d" by (meson converse_rtranclp_into_rtranclp r_into_rtranclp)
  then show ?thesis by (intro exI [of _ d]) (simp add: a_def b_def c_def d_def open_loop_start_def)
qed

theorem open_loop_report_witness:
  "\<exists>w r. run_open_loop (\<lambda>x. x) sample_plan 0 0 w (Inr r) \<and> lr_requests r = 1 \<and> lr_successes r + lr_failures r = 1"
proof -
  obtain w where w: "(loop_step (\<lambda>x. x) sample_plan 0 0)\<^sup>*\<^sup>* (open_loop_start 0) w" "ol_raised w = None" "ol_now w = 1"
    "ol_created w = 1" "ol_waiting w = []" "ol_running w = []" using sample_loop_run by blast
  note run = run_open_loop.reported [OF w(1) _ w(5,6,2)]
  have "request_count (\<lambda>x. x) sample_plan \<le> 2 ^ 53" using sample_plan_ok(2) by simp
  from open_loop_report [OF exact_rounding sample_plan_ok(1) this order.refl w(1), THEN conjunct2, THEN conjunct2, rule_format, OF conjI [OF run w(2)]]
  obtain samples r where "summarize (\<lambda>x. x) (map (\<lambda>i. the (ol_samples w i)) [0..<ol_created w]) (ol_now w - 0) = Inr r"
    "report_of (\<lambda>x. x) samples r" "int (length samples) = 1"
    using w(3,4) sample_plan_ok(2) by auto
  with run w(4) sample_plan_ok(2) sum_length_filter_compl [of rs_succeeded samples] show ?thesis
    unfolding report_of_def by (intro exI [of _ w] exI [of _ r]) auto
qed

section \<open>Profiling\<close>

text \<open>
  The state of the process: that of the operation, whether \<open>tracemalloc\<close> traces and whether the
  profiler is enabled. The measurements are the interpreter's.
\<close>

record 's profiled =
  pf_state :: 's
  pf_tracing :: bool
  pf_profiling :: bool

record ProfileReport =
  pr_iterations :: int
  pr_peak_memory_bytes :: int
  pr_top_cumulative :: string

fun repeated :: "nat \<Rightarrow> ('s, 'o) action \<Rightarrow> ('s, unit) action" where
  "repeated 0 operation = ret ()"
| "repeated (Suc n) operation = andThen operation (\<lambda>_. repeated n operation)"

definition profile_sync :: "int \<times> string \<Rightarrow> ('s, 'o) action \<Rightarrow> int \<Rightarrow> ('s profiled, ProfileReport) action" where
  "profile_sync measured operation iterations p =
     (if iterations \<le> 0 then (Inl (ValueError ''iterations must be positive''), p)
      else case repeated (nat iterations) operation (pf_state p) of
        (Inl e, s) \<Rightarrow> (Inl e, \<lparr> pf_state = s, pf_tracing = False, pf_profiling = True \<rparr>)
      | (Inr _, s) \<Rightarrow> (Inr \<lparr> pr_iterations = iterations, pr_peak_memory_bytes = fst measured, pr_top_cumulative = snd measured \<rparr>,
                      \<lparr> pf_state = s, pf_tracing = False, pf_profiling = False \<rparr>))"

text \<open>An operation that raises leaves the profiler enabled: \<open>profiler.disable()\<close> is not in the \<open>finally\<close> block.\<close>

lemma profiler_left_enabled:
  assumes "0 < iterations" "profile_sync measured operation iterations p = (r, p')"
  shows "\<not> pf_tracing p' \<and> (pf_profiling p' \<longleftrightarrow> (\<exists>e. r = Inl e))"
  using assms by (auto simp: profile_sync_def split: prod.splits sum.splits)

end
