(* ===== verification/Load_Smoke.thy ===== *)
theory Load_Smoke
  imports Load
begin

text \<open>
  The load probe \<open>scripts/load_smoke.py\<close>: its workload, its plan and its verdict. The drawn
  UUIDs of the idempotency keys are an argument. Reading the arguments and printing the report
  are not modelled.
\<close>

section \<open>The probe\<close>

definition bearer_header :: "string \<Rightarrow> nat \<Rightarrow> (string \<times> string) list" where
  "bearer_header token index = [(''Authorization'', ''Bearer '' @ token)]"

definition create_payload :: "string \<Rightarrow> nat \<Rightarrow> json_object" where
  "create_payload customer_id index =
     [(''customer_id'', JStr customer_id), (''pickup_address'', JStr ''Load fixture A''),
      (''destination_address'', JStr ''Load fixture B''), (''weight_grams'', JInt (1000 + int index mod 50))]"

definition delivery_workload :: "(nat \<Rightarrow> uuid) \<Rightarrow> string \<Rightarrow> string \<Rightarrow> string \<Rightarrow> OperationSpec list" where
  "delivery_workload uuid4 order_id customer_id token =
     [\<lparr> op_name = ''list_orders'', op_method = ''GET'', op_path = ''/api/v1/orders?limit=20'', op_weight = 50,
        op_expected_statuses = {200}, op_json_factory = None, op_header_factory = Some (bearer_header token) \<rparr>,
      \<lparr> op_name = ''get_order'', op_method = ''GET'', op_path = ''/api/v1/orders/'' @ order_id, op_weight = 25,
        op_expected_statuses = {200}, op_json_factory = None, op_header_factory = Some (bearer_header token) \<rparr>,
      \<lparr> op_name = ''tracking'', op_method = ''GET'', op_path = ''/api/v1/orders/'' @ order_id @ ''/tracking/events'', op_weight = 15,
        op_expected_statuses = {200}, op_json_factory = None, op_header_factory = Some (bearer_header token) \<rparr>,
      \<lparr> op_name = ''create_order'', op_method = ''POST'', op_path = ''/api/v1/orders'', op_weight = 10,
        op_expected_statuses = {201}, op_json_factory = Some (create_payload customer_id),
        op_header_factory = Some (\<lambda>index. [(''Authorization'', ''Bearer '' @ token), (''Idempotency-Key'', ''load-'' @ str_uuid (uuid4 index))]) \<rparr>]"

definition smoke_plan :: "(nat \<Rightarrow> uuid) \<Rightarrow> string \<Rightarrow> string \<Rightarrow> string \<Rightarrow> real \<Rightarrow> real \<Rightarrow> int \<Rightarrow> LoadPlan result" where
  "smoke_plan uuid4 order_id customer_id token duration rate concurrency =
     thenR (map_result operation_spec (delivery_workload uuid4 order_id customer_id token)) (\<lambda>operations.
       load_plan \<lparr> lp_duration_seconds = duration, lp_arrival_rate_per_second = rate, lp_concurrency_limit = concurrency,
         lp_timeout_seconds = 3, lp_operations = operations \<rparr>)"

text \<open>The exit status of the probe: \<open>SystemExit(2)\<close> when the report misses its goals.\<close>

definition smoke_exit :: "(real \<Rightarrow> real) \<Rightarrow> LoadReport \<Rightarrow> int" where
  "smoke_exit fl report = (if fl (1 / 100) < lr_error_rate report \<or> 500 < lr_end_to_end_p95_ms report then 2 else 0)"

section \<open>The mix\<close>

text \<open>In each hundred consecutive requests, fifty list, twenty-five read, fifteen track and ten create.\<close>

lemma workload_cycle:
  "\<exists>a b c d. weighted_cycle (delivery_workload uuid4 order_id customer_id token) = replicate 50 a @ replicate 25 b @ replicate 15 c @ replicate 10 d
     \<and> op_name a = ''list_orders'' \<and> op_name b = ''get_order'' \<and> op_name c = ''tracking'' \<and> op_name d = ''create_order''"
  unfolding weighted_cycle_def delivery_workload_def
  by (intro exI conjI, simp, simp_all)

lemma smoke_plan_Inr:
  "smoke_plan uuid4 order_id customer_id token duration rate concurrency = Inr plan \<Longrightarrow>
     lp_operations plan = delivery_workload uuid4 order_id customer_id token \<and> load_plan plan = Inr plan"
  by (auto simp: smoke_plan_def delivery_workload_def operation_spec_def load_plan_def thenR_def split: if_splits)

definition tracking_index :: "nat \<Rightarrow> bool" where
  "tracking_index i \<longleftrightarrow> 75 \<le> i mod 100 \<and> i mod 100 < 90"

lemma tracking_operation:
  assumes "smoke_plan uuid4 order_id customer_id token duration rate concurrency = Inr plan"
  shows "op_name (operation_at plan i) = ''tracking'' \<longleftrightarrow> tracking_index i"
proof -
  obtain a b c d where cycle: "weighted_cycle (lp_operations plan) = replicate 50 a @ replicate 25 b @ replicate 15 c @ replicate 10 d"
    and names: "op_name a = ''list_orders''" "op_name b = ''get_order''" "op_name c = ''tracking''" "op_name d = ''create_order''"
    using workload_cycle [of uuid4 order_id customer_id token] smoke_plan_Inr [OF assms] by metis
  have "i mod 100 < 100" by simp
  then show ?thesis unfolding operation_at_def cycle Let_def tracking_index_def
    by (auto simp: nth_append names)
qed

lemma tracking_count: "length (filter tracking_index [0..<100 * q]) = 15 * q"
proof (induction q)
  case (Suc q)
  have "[0..<100 * Suc q] = [0..<100 * q] @ map (\<lambda>k. k + 100 * q) [0..<100]"
    using upt_add_eq_append [of 0 "100 * q" 100] by (simp add: map_add_upt add.commute)
  moreover have "tracking_index (k + 100 * q) = tracking_index k" for k by (simp add: tracking_index_def)
  moreover have "length (filter tracking_index [0..<100]) = 15" by code_simp
  ultimately show ?case using Suc by (simp add: filter_map comp_def)
qed simp

text \<open>Of at least 76 requests, more than one in a hundred tracks.\<close>

lemma tracking_share:
  assumes "76 \<le> n"
  shows "n \<le> 99 * length (filter tracking_index [0..<n])"
proof -
  define q where "q = n div 100"
  have n: "n = 100 * q + n mod 100" by (simp add: q_def)
  have split: "[0..<n] = [0..<100 * q] @ [100 * q..<n]" using n by (metis le_add1 le_add2 upt_add_eq_append add_0 le_add_diff_inverse)
  then have le: "15 * q \<le> length (filter tracking_index [0..<n])" using tracking_count [of q] by simp
  show ?thesis
  proof (cases "q = 0")
    case True
    then have "75 \<in> set (filter tracking_index [0..<n])" using assms by (simp add: tracking_index_def)
    then have "1 \<le> length (filter tracking_index [0..<n])" by (metis One_nat_def Suc_leI length_pos_if_in_set)
    then show ?thesis using n True by linarith
  next
    case False
    have "n mod 100 < 100" by simp
    then show ?thesis using n le False by linarith
  qed
qed

section \<open>The verdict\<close>

lemma one_in_99:
  assumes "rounds_as_ieee fl" "0 < n" "n \<le> 99 * f" "f \<le> n"
  shows "fl (1 / 100) < fl (real f / real n)"
proof -
  have "real n \<le> 99 * real f" using assms(3) by (metis of_nat_le_iff of_nat_mult of_nat_numeral)
  then have "1 / 99 \<le> real f / real n" using assms(2) by (simp add: field_simps)
  then have "fl (1 / 99) \<le> fl (real f / real n)" by (rule fl_mono [OF assms(1)])
  moreover have "1 / 99 * (1 - 1 / 2 ^ 53) \<le> fl (1 / 99)" "fl (1 / 100) \<le> 1 / 100 * (1 + 1 / 2 ^ 53)"
    by (rule fl_error [OF assms(1)]; simp)+
  moreover have "(1::real) / 100 * (1 + 1 / 2 ^ 53) < 1 / 99 * (1 - 1 / 2 ^ 53)" by simp
  ultimately show ?thesis by linarith
qed

lemma filter_map_upt:
  "length (filter P xs) = length (filter (\<lambda>i. P (xs ! i)) [0..<length xs])"
  by (metis (no_types, lifting) comp_def filter_cong filter_map length_map map_nth)

text \<open>
  The tracking endpoint streams events for as long as the client listens, so a request of the
  probe's \<open>tracking\<close> operation ends in a timeout and counts as a failure. Then the probe rejects
  every service: whatever the other requests do, more than one sample in a hundred has failed
  as soon as 76 requests are planned, and it exits with 2. (With its default arguments
  it plans 300.)
\<close>

theorem load_smoke_rejects:
  assumes "rounds_as_ieee fl" "smoke_plan uuid4 order_id customer_id token duration rate concurrency = Inr plan"
    "76 \<le> request_count fl plan" "request_count fl plan \<le> 2 ^ 53" "run_open_loop fl plan t0 resolution w (Inr r)"
    "\<forall>x \<in> ran (ol_samples w). rs_operation x = ''tracking'' \<longrightarrow> \<not> rs_succeeded x"
  shows "smoke_exit fl r = 2 \<and> lr_requests r = request_count fl plan \<and> lr_requests r \<le> 99 * lr_failures r"
proof -
  from assms(5) have steps: "(loop_step fl plan t0 resolution)\<^sup>*\<^sup>* (open_loop_start t0) w" and over: "loop_over fl plan w" "ol_raised w = None"
    and r: "summarize fl (loop_samples w) (fl (ol_now w - t0)) = Inr r"
    by (auto elim: run_open_loop.cases simp: loop_over_def loop_samples_def)
  have "0 \<le> lp_concurrency_limit plan" using smoke_plan_Inr [OF assms(2)] load_plan_Inr by fastforce
  from loop_samples_ok [OF loop_ok_run [OF this steps] over assms(4)] have xs: "loop_samples w \<noteq> []" "length (loop_samples w) \<le> 2 ^ 53"
    "\<forall>x \<in> set (loop_samples w). rs_started_at x \<le> rs_finished_at x" "int (length (loop_samples w)) = request_count fl plan"
    "\<forall>i < length (loop_samples w). sample_ok fl plan t0 resolution i (loop_samples w ! i)"
    "\<forall>i < length (loop_samples w). ol_samples w i = Some (loop_samples w ! i)" by blast+
  have "0 < fl (ol_now w - t0)" using r by (auto simp: summarize_def split: if_splits)
  then have report: "report_of fl (loop_samples w) r" using summarize_report [OF assms(1) xs(1,2) _ xs(3)] r by fastforce
  have failed: "\<not> rs_succeeded (loop_samples w ! i)" if "i < length (loop_samples w)" "tracking_index i" for i
  proof -
    have x: "ol_samples w i = Some (loop_samples w ! i)" using xs(6) that(1) by blast
    have "rs_operation (loop_samples w ! i) = ''tracking''"
      using xs(5) that tracking_operation [OF assms(2)] by (simp add: sample_ok_def)
    with assms(6) ranI [of "ol_samples w", OF x] show ?thesis by blast
  qed
  let ?n = "length (loop_samples w)" and ?f = "length (filter (\<lambda>x. \<not> rs_succeeded x) (loop_samples w))"
  have "length (filter tracking_index [0..<?n]) \<le> ?f"
    unfolding filter_map_upt [of _ "loop_samples w"] using failed by (intro filter_length_mono) auto
  then have share: "?n \<le> 99 * ?f" using tracking_share [of ?n] xs(4) assms(3) by linarith
  from xs(1) have "fl (1 / 100) < lr_error_rate r"
    using one_in_99 [OF assms(1) _ share] report length_filter_le [of _ "loop_samples w"] by (simp add: report_of_def)
  then show ?thesis using report share xs(4) by (simp add: smoke_exit_def report_of_def)
qed

definition timing_out :: "nat \<Rightarrow> string + int" where
  "timing_out i = (if tracking_index i then Inl ''ReadTimeout'' else Inr 200)"

theorem load_smoke_rejects_witness:
  "\<exists>plan w r. smoke_plan (\<lambda>i. 1) ''o'' ''c'' ''t'' 80 1 20 = Inr plan \<and> run_open_loop (\<lambda>x. x) plan 0 0 w (Inr r)
     \<and> lr_requests r = 80 \<and> smoke_exit (\<lambda>x. x) r = 2"
proof -
  define plan where "plan = \<lparr> lp_duration_seconds = 80, lp_arrival_rate_per_second = 1, lp_concurrency_limit = 20,
     lp_timeout_seconds = 3, lp_operations = delivery_workload (\<lambda>i. 1) ''o'' ''c'' ''t'' \<rparr>"
  have plan: "smoke_plan (\<lambda>i. 1) ''o'' ''c'' ''t'' 80 1 20 = Inr plan"
    by (simp add: smoke_plan_def plan_def delivery_workload_def operation_spec_def load_plan_def thenR_def startswith_def)
  have n: "request_count (\<lambda>x. x) plan = 80" by (simp add: request_count_def plan_def)
  let ?step = "loop_step (\<lambda>x. x) plan 0 0"
  have limit: "0 < lp_concurrency_limit plan" by (simp add: plan_def)
  then have "loop_ok (\<lambda>x. x) plan 0 0 (open_loop_start 0)" by (intro loop_ok_start) simp
  from loop_can_end [OF this limit order.refl, of timing_out] obtain v
    where v: "?step\<^sup>*\<^sup>* (open_loop_start 0) v" "loop_over (\<lambda>x. x) plan v" "answered_by (\<lambda>x. x) plan 0 timing_out (open_loop_start 0) v" by blast
  define w where "w = v \<lparr> ol_now := max (ol_now v) 1 \<rparr>"
  have "?step v w" unfolding w_def by (rule loop_step.tick) simp
  with v(1) have steps: "?step\<^sup>*\<^sup>* (open_loop_start 0) w" by simp
  have over: "loop_over (\<lambda>x. x) plan w" "ol_raised w = None" and now: "0 < ol_now w - 0"
    using v(2,3) by (simp_all add: w_def loop_over_def answered_by_def open_loop_start_def)
  have run: "run_open_loop (\<lambda>x. x) plan 0 0 w (summarize (\<lambda>x. x) (loop_samples w) (ol_now w - 0))"
    using run_open_loop.reported [OF steps] over unfolding loop_over_def loop_samples_def by simp
  have "request_count (\<lambda>x. x) plan \<le> 2 ^ 53" using n by simp
  note bound = this and xs = loop_samples_ok [OF loop_ok_run [OF less_imp_le [OF limit] steps] over this]
  from summarize_report [OF exact_rounding xs(1,2) now xs(3)] obtain r
    where r: "summarize (\<lambda>x. x) (loop_samples w) (ol_now w - 0) = Inr r" by blast
  have "\<forall>x \<in> ran (ol_samples w). rs_operation x = ''tracking'' \<longrightarrow> \<not> rs_succeeded x"
  proof (intro ballI impI)
    fix x assume "x \<in> ran (ol_samples w)" and name: "rs_operation x = ''tracking''"
    then obtain i where "ol_samples v i = Some x" by (auto simp: w_def ran_def)
    then obtain started t where "x = sample_of (\<lambda>x. x) plan 0 i started t (timing_out i)"
      using v(3) unfolding answered_by_def open_loop_start_def by fastforce
    with name show "\<not> rs_succeeded x"
      using tracking_operation [OF plan, of i] by (simp add: sample_of_def timing_out_def)
  qed
  from load_smoke_rejects [OF exact_rounding plan _ bound run [unfolded r] this] n plan run [unfolded r] show ?thesis by auto
qed

end
