(* ===== verification/Lab.thy ===== *)
theory Lab
  imports Circuit Schema
begin

text \<open>
  \<open>concurrency_lab.py\<close>: the development-only probes. Worker threads and the event loop
  interleave in any way, so the four \<open>threading.Event\<close>s and the threads that wait on them are a
  step relation; the retry probes are functions of Tenacity's controller, which is the
  parameter of \<open>Circuit\<close>. \<open>session_contract\<close> reports SQLAlchemy's own state and is not modelled.
\<close>

section \<open>The mapping contract\<close>

record foreign_key_contract =
  fc_target :: string
  fc_name :: "string option"
  fc_ondelete :: ondelete

record relationship_contract =
  rl_back_populates :: string
  rl_lazy :: string
  rl_passive_deletes :: bool
  rl_delete_orphan :: bool

definition OrderRow_assignments :: relationship_contract where
  "OrderRow_assignments = \<lparr> rl_back_populates = ''order'', rl_lazy = ''raise'', rl_passive_deletes = True, rl_delete_orphan = True \<rparr>"

definition AssignmentRow_order :: relationship_contract where
  "AssignmentRow_order = \<lparr> rl_back_populates = ''assignments'', rl_lazy = ''raise'', rl_passive_deletes = False, rl_delete_orphan = False \<rparr>"

record mapping_contract =
  mc_tables :: "string list"
  mc_foreign_key :: "foreign_key_contract option"
  mc_order_assignments :: relationship_contract
  mc_assignment_order :: "string \<times> string"
  mc_partial_unique_indexes :: "string list"

definition orm_mapping_contract :: mapping_contract where
  "orm_mapping_contract =
     (case (OrderRow_model, AssignmentRow_model) of
        ((orders_name, _, _), (name, cols, args)) \<Rightarrow>
          let keys = filter (\<lambda>k. fk_columns k = [''order_id'']) (t_foreign_keys (table_of cols args));
              indexes = column_indexes name cols @ arg_indexes name args
          in \<lparr> mc_tables = sort [orders_name, name],
               mc_foreign_key = (case keys of
                   [] \<Rightarrow> None
                 | k # _ \<Rightarrow> Some \<lparr> fc_target = fk_table k @ ''.'' @ hd (fk_target k), fc_name = fk_name k, fc_ondelete = fk_ondelete k \<rparr>),
               mc_order_assignments = OrderRow_assignments,
               mc_assignment_order = (rl_back_populates AssignmentRow_order, rl_lazy AssignmentRow_order),
               mc_partial_unique_indexes = sort (map fst (filter (\<lambda>(n, ix). ix_unique ix \<and> ix_where ix \<noteq> None) indexes)) \<rparr>)"

section \<open>Waiting threads\<close>

text \<open>\<open>sync_wait\<close> waits on \<open>_release\<close> and announces itself in \<open>_started\<close>, \<open>_blocking_probe\<close> on the two offload events.\<close>

datatype probe_kind = SyncWait | OffloadWait

text \<open>A thread in a probe: it has cleared the release event, has announced itself, waits, was
  woken, or gave up after five seconds.\<close>

datatype probe_phase = Cleared | Announced | Waiting | Woken | GaveUp

record lab_state =
  lab_started :: "probe_kind \<Rightarrow> bool"
  lab_release :: "probe_kind \<Rightarrow> bool"
  lab_threads :: "nat \<Rightarrow> (probe_kind \<times> probe_phase) option"

definition lab_idle :: lab_state where
  "lab_idle = \<lparr> lab_started = (\<lambda>_. False), lab_release = (\<lambda>_. False), lab_threads = (\<lambda>_. None) \<rparr>"

text \<open>
  \<open>Event.set\<close> wakes every thread that waits; \<open>Event.wait\<close> returns at once when the event is set.
  \<open>release_probe\<close> sets both events. The label is what a thread answers when it leaves: its
  identifier, or the 504 of \<open>sync_wait\<close> and the error of \<open>_blocking_probe\<close>.
\<close>

definition woken :: "(probe_kind \<times> probe_phase) option \<Rightarrow> (probe_kind \<times> probe_phase) option" where
  "woken t = (case t of Some (k, Waiting) \<Rightarrow> Some (k, Woken) | _ \<Rightarrow> t)"

definition release_probe :: "lab_state \<Rightarrow> lab_state" where
  "release_probe s = s \<lparr> lab_release := (\<lambda>_. True), lab_threads := (\<lambda>i. woken (lab_threads s i)) \<rparr>"

definition gave_up :: "probe_kind \<Rightarrow> exn" where
  "gave_up k = (case k of SyncWait \<Rightarrow> HTTPException 504 ''runtime probe was not released'' []
                        | OffloadWait \<Rightarrow> RuntimeError ''offload probe was not released'')"

inductive lab_step :: "lab_state \<Rightarrow> (nat \<times> nat result) option \<Rightarrow> lab_state \<Rightarrow> bool" where
  enter: "lab_threads s i = None \<Longrightarrow>
    lab_step s None (s \<lparr> lab_release := (lab_release s)(k := False), lab_threads := (lab_threads s)(i \<mapsto> (k, Cleared)) \<rparr>)"
| announce: "lab_threads s i = Some (k, Cleared) \<Longrightarrow>
    lab_step s None (s \<lparr> lab_started := (lab_started s)(k := True),
      lab_threads := (lab_threads s)(i \<mapsto> (k, Announced)) \<rparr>)"
| wait: "lab_threads s i = Some (k, Announced) \<Longrightarrow>
    lab_step s None (s \<lparr> lab_threads := (lab_threads s)(i \<mapsto> (k, if lab_release s k then Woken else Waiting)) \<rparr>)"
| release: "lab_step s None (release_probe s)"
| expire: "lab_threads s i = Some (k, Waiting) \<Longrightarrow> lab_step s None (s \<lparr> lab_threads := (lab_threads s)(i \<mapsto> (k, GaveUp)) \<rparr>)"
| leave: "lab_threads s i = Some (k, Woken) \<Longrightarrow>
    lab_step s (Some (i, Inr i)) (s \<lparr> lab_started := (lab_started s)(k := False), lab_threads := (lab_threads s)(i := None) \<rparr>)"
| leave_late: "lab_threads s i = Some (k, GaveUp) \<Longrightarrow>
    lab_step s (Some (i, Inl (gave_up k))) (s \<lparr> lab_started := (lab_started s)(k := False), lab_threads := (lab_threads s)(i := None) \<rparr>)"

definition runtime_state :: "nat \<Rightarrow> lab_state \<Rightarrow> (bool \<times> bool) \<times> nat" where
  "runtime_state event_loop_thread s = ((lab_started s SyncWait, lab_started s OffloadWait), event_loop_thread)"

section \<open>Retry probes\<close>

text \<open>The state of a probe's \<open>operation\<close>: its attempts, and whether its cleanup ran.\<close>

definition transient_operation :: "(nat, string) lookup" where
  "transient_operation attempts =
     (if attempts + 1 < 3 then Inl (RequestFailed ConnectError) else Inr ''ok'', attempts + 1)"

definition permanent_operation :: "(nat, unit) lookup" where
  "permanent_operation attempts = (Inl (Unexpected ''ValueError''), attempts + 1)"

text \<open>An operation that waits for ever ends when its task is cancelled, by \<open>task.cancel\<close> or by the deadline.\<close>

definition endless_operation :: "(nat \<times> bool, unit) lookup" where
  "endless_operation = (\<lambda>(attempts, cleaned). (Inl LookupCancelled, attempts + 1, True))"

type_synonym ('w, 'a) retrying = "(route_error \<Rightarrow> bool) \<Rightarrow> int \<Rightarrow> ('w, 'a) lookup \<Rightarrow> ('w, 'a) lookup"

definition retried :: "('w, 'a) retrying \<Rightarrow> ('w, 'a) lookup \<Rightarrow> 'w \<Rightarrow> exn + ((route_error + 'a) \<times> 'w)" where
  "retried async_retrying operation w =
     thenR (build_route_retrying async_retrying 3) (\<lambda>controller. Inr (run_with_route_retry controller operation w))"

definition retry_transient :: "(nat, string) retrying \<Rightarrow> exn + (route_error + string \<times> nat)" where
  "retry_transient async_retrying =
     thenR (retried async_retrying transient_operation 0) (\<lambda>(r, attempts).
       Inr (case r of Inl e \<Rightarrow> Inl e | Inr result \<Rightarrow> Inr (result, attempts)))"

definition retry_permanent :: "(nat, unit) retrying \<Rightarrow> exn + (route_error + bool \<times> nat)" where
  "retry_permanent async_retrying =
     thenR (retried async_retrying permanent_operation 0) (\<lambda>(r, attempts).
       Inr (case r of
              Inr _ \<Rightarrow> Inr (False, attempts)
            | Inl e \<Rightarrow> if e = Unexpected ''ValueError'' then Inr (True, attempts) else Inl e))"

definition retry_cancellation :: "(nat \<times> bool, unit) retrying \<Rightarrow> exn + (route_error + bool \<times> bool \<times> nat)" where
  "retry_cancellation async_retrying =
     thenR (retried async_retrying endless_operation (0, False)) (\<lambda>(r, attempts, cleaned).
       Inr (case r of
              Inr _ \<Rightarrow> Inr (False, cleaned, attempts)
            | Inl e \<Rightarrow> if e = LookupCancelled then Inr (True, cleaned, attempts) else Inl e))"

text \<open>\<open>asyncio.timeout\<close> turns the cancellation it caused into a \<open>TimeoutError\<close>.\<close>

definition retry_deadline :: "(nat \<times> bool, unit) retrying \<Rightarrow> exn + (route_error + bool \<times> bool \<times> nat)" where
  "retry_deadline async_retrying =
     thenR (retried async_retrying endless_operation (0, False)) (\<lambda>(r, attempts, cleaned).
       Inr (case (case r of Inl LookupCancelled \<Rightarrow> Inl DeadlineExceeded | _ \<Rightarrow> r) of
              Inr _ \<Rightarrow> Inr (False, cleaned, attempts)
            | Inl e \<Rightarrow> if e = DeadlineExceeded then Inr (True, cleaned, attempts) else Inl e))"

section \<open>What the probes show\<close>

lemma orm_mapping_contract_value:
  "mc_tables orm_mapping_contract = [''courier_assignment'', ''delivery_order'']"
  "mc_foreign_key orm_mapping_contract
     = Some \<lparr> fc_target = ''delivery_order.id'', fc_name = Some ''fk_assignment_order'', fc_ondelete = CASCADE \<rparr>"
  "mc_partial_unique_indexes orm_mapping_contract = [''uq_active_assignment_courier'', ''uq_active_assignment_order'']"
  by code_simp+

inductive_cases lab_stepE [elim]: "lab_step s l s'"

inductive lab_run :: "lab_state \<Rightarrow> bool" where
  idle: "lab_run lab_idle"
| step: "lab_run s \<Longrightarrow> lab_step s l s' \<Longrightarrow> lab_run s'"

lemma probe_kept:
  assumes "lab_step s l s'" "lab_started s' k" "lab_threads s j = Some (k, p)" "p \<noteq> Cleared"
  shows "\<exists>p'. lab_threads s' j = Some (k, p') \<and> p' \<noteq> Cleared"
  using assms by cases (auto simp: release_probe_def woken_def split: if_splits probe_phase.splits)

lemma probe_announced:
  assumes "lab_step s l s'" "lab_started s' k"
  shows "lab_started s k \<or> (\<exists>i. lab_threads s' i = Some (k, Announced))"
  using assms by cases (auto simp: release_probe_def split: if_splits)

text \<open>\<open>runtime_state\<close> reports a started probe only while one is between its announcement and its answer.\<close>

lemma lab_started_sound:
  "lab_run s \<Longrightarrow> lab_started s k \<Longrightarrow> \<exists>i p. lab_threads s i = Some (k, p) \<and> p \<noteq> Cleared"
proof (induction rule: lab_run.induct)
  case (step s l s')
  then consider "lab_started s k" | i where "lab_threads s' i = Some (k, Announced)" using probe_announced by blast
  then show ?case
  proof cases
    case 1
    with step.IH obtain j p where "lab_threads s j = Some (k, p)" "p \<noteq> Cleared" by blast
    with probe_kept [OF step.hyps(2) step.prems] show ?thesis by blast
  qed blast
qed (simp add: lab_idle_def)

text \<open>A release wakes every waiting probe for good: its next step of its own answers with its thread.\<close>

lemma lab_release_wakes:
  "lab_threads s i = Some (k, Waiting) \<Longrightarrow> lab_threads (release_probe s) i = Some (k, Woken)"
  "lab_threads s i = Some (k, Woken) \<Longrightarrow> lab_step s l s' \<Longrightarrow> lab_threads s' i = Some (k, Woken) \<or> l = Some (i, Inr i)"
  by (auto simp: release_probe_def woken_def elim!: lab_stepE split: option.splits if_splits)

text \<open>A transient error is retried, a permanent one is not, and neither a cancellation nor a deadline is swallowed.\<close>

lemma retry_probes:
  "retries_as_documented ar \<Longrightarrow> retry_transient ar = Inr (Inr (''ok'', 3))"
  "retries_as_documented br \<Longrightarrow> retry_permanent br = Inr (Inr (True, 1))"
  "retries_as_documented cr \<Longrightarrow> retry_cancellation cr = Inr (Inr (True, True, 1))"
  "retries_as_documented cr \<Longrightarrow> retry_deadline cr = Inr (Inr (True, True, 1))"
proof -
  have step: "retries_as_documented ar' \<Longrightarrow> 1 \<le> n \<Longrightarrow> ar' p n op w = (case op w of (Inr x, w') \<Rightarrow> (Inr x, w')
       | (Inl e, w') \<Rightarrow> if p e \<and> 1 < n then ar' p (n - 1) op w' else (Inl e, w'))" for ar' :: "('w, 'a) retrying" and p n op w
    by (simp add: retries_as_documented_def)
  note defs = retried_def build_route_retrying_def run_with_route_retry_def thenR_def retryable_route_error_def
  show "retries_as_documented ar \<Longrightarrow> retry_transient ar = Inr (Inr (''ok'', 3))"
    by (simp add: retry_transient_def defs step transient_operation_def)
  show "retries_as_documented br \<Longrightarrow> retry_permanent br = Inr (Inr (True, 1))"
    by (simp add: retry_permanent_def defs step permanent_operation_def)
  show "retries_as_documented cr \<Longrightarrow> retry_cancellation cr = Inr (Inr (True, True, 1))"
    by (simp add: retry_cancellation_def defs step endless_operation_def)
  show "retries_as_documented cr \<Longrightarrow> retry_deadline cr = Inr (Inr (True, True, 1))"
    by (simp add: retry_deadline_def defs step endless_operation_def)
qed

end
