(* ===== verification/Claim_Race.thy ===== *)
theory Claim_Race
  imports Sql_Properties
begin

text \<open>
  Concurrent transactions on the order tables. \<open>claim_next_created_order\<close> of \<open>repository.py\<close> locks
  a row with \<open>FOR UPDATE SKIP LOCKED\<close> and writes later, so between the two steps of one claim
  other claims and other use cases run. A row lock keeps other transactions from changing the row
  until its holder ends; a transaction's writes become visible when it commits. Inserts that would
  collide with uncommitted ones wait for them, so a transaction's writes are one step.
\<close>

section \<open>Interleaved claims\<close>

record claim_call =
  cl_event_id :: uuid
  cl_now :: datetime
  cl_courier_id :: uuid
  cl_tenant_id :: uuid
  cl_occurred_at :: "datetime option"
  cl_correlation_id :: string

text \<open>The \<open>SELECT ... FOR UPDATE SKIP LOCKED LIMIT 1\<close> of a claim.\<close>

definition select_claim :: "(uuid \<Rightarrow> bool) \<Rightarrow> uuid \<Rightarrow> order_tables \<Rightarrow> OrderRow option" where
  "select_claim locked tenant_id db =
     (case sort_key (\<lambda>r. (or_created_at r, or_id r)) (filter (claimable locked tenant_id) (values_of (t_orders db))) of
        [] \<Rightarrow> None | row # _ \<Rightarrow> Some row)"

text \<open>What the claim does with the row it read: the rest of the method.\<close>

definition finish_claim :: "claim_call \<Rightarrow> OrderRow \<Rightarrow> (order_tables, DeliveryOrder option) action" where
  "finish_claim c row db =
     (case claim_rows row (cl_courier_id c) (claim_event (cl_event_id c) row (cl_courier_id c)
             (case cl_occurred_at c of Some t \<Rightarrow> t | None \<Rightarrow> cl_now c) (cl_correlation_id c)) db of
        (Inl (IntegrityError constraint), db') \<Rightarrow>
          (Inl (if constraint = ''uq_active_assignment_courier''
                then CourierAlreadyBusy ''courier already has an active assignment''
                else IntegrityError constraint), db')
      | (Inl e, db') \<Rightarrow> (Inl e, db')
      | (Inr _, db') \<Rightarrow> (Inr (Some (row_before row \<lparr> o_status := ASSIGNED,
                              o_version := or_version row + 1, o_courier_id := Some (cl_courier_id c) \<rparr>)), db'))"

abbreviation claim_method :: "(uuid \<Rightarrow> bool) \<Rightarrow> claim_call \<Rightarrow> (order_tables, DeliveryOrder option) action" where
  "claim_method locked c \<equiv> sql_claim_next_created_order locked (cl_event_id c) (cl_now c) (cl_courier_id c)
     (cl_tenant_id c) (cl_occurred_at c) (cl_correlation_id c)"

lemma claim_method_split:
  "claim_method locked c db =
     (case select_claim locked (cl_tenant_id c) db of None \<Rightarrow> (Inr None, db) | Some row \<Rightarrow> finish_claim c row db)"
  by (simp add: sql_claim_cases select_claim_def finish_claim_def split: list.splits)

text \<open>
  The committed tables, the open claims with the row each has locked, and the committed claims
  in order: the transaction, the order and its courier.
\<close>

record race =
  rc_db :: order_tables
  rc_open :: "nat \<Rightarrow> (claim_call \<times> OrderRow) option"
  rc_claims :: "(nat \<times> DeliveryOrder) list"

definition row_locked :: "race \<Rightarrow> uuid \<Rightarrow> bool" where
  "row_locked s u \<longleftrightarrow> (\<exists>i c row. rc_open s i = Some (c, row) \<and> or_id row = u)"

text \<open>
  \<open>other\<close> is any use case of another transaction, which cannot have changed a locked row;
  \<open>lost\<close> is a transaction that ends without committing, for whatever reason.
\<close>

inductive race_step :: "race \<Rightarrow> race \<Rightarrow> bool" where
  lock: "rc_open s i = None \<Longrightarrow> select_claim (row_locked s) (cl_tenant_id c) (rc_db s) = Some row \<Longrightarrow>
    race_step s (s \<lparr> rc_open := (rc_open s)(i \<mapsto> (c, row)) \<rparr>)"
| commit: "rc_open s i = Some (c, row) \<Longrightarrow> finish_claim c row (rc_db s) = (Inr (Some y), db') \<Longrightarrow>
    race_step s (s \<lparr> rc_db := db', rc_open := (rc_open s)(i := None), rc_claims := rc_claims s @ [(i, y)] \<rparr>)"
| refuse: "rc_open s i = Some (c, row) \<Longrightarrow> finish_claim c row (rc_db s) = (Inl e, db') \<Longrightarrow>
    race_step s (s \<lparr> rc_open := (rc_open s)(i := None) \<rparr>)"
| lost: "rc_open s i = Some (c, row) \<Longrightarrow> race_step s (s \<lparr> rc_open := (rc_open s)(i := None) \<rparr>)"
| other: "use_case (sql_repository (\<lambda>_. False)) sql_taken (rc_db s) db' \<Longrightarrow>
    (\<And>u. row_locked s u \<Longrightarrow> map_of (t_orders db') u = map_of (t_orders (rc_db s)) u) \<Longrightarrow>
    race_step s (s \<lparr> rc_db := db' \<rparr>)"

definition race_start :: race where
  "race_start = \<lparr> rc_db = empty_tables, rc_open = (\<lambda>_. None), rc_claims = [] \<rparr>"

section \<open>Invariant\<close>

text \<open>
  The tables and their history are consistent; a locked row still is as its holder read it; no two
  claims hold the same row; and a claimed order has left the queue.
\<close>

definition race_ok :: "race \<Rightarrow> bool" where
  "race_ok s \<longleftrightarrow> sql_ok (rc_db s) \<and> book_ok (sql_book (rc_db s))
   \<and> (\<forall>i c row. rc_open s i = Some (c, row) \<longrightarrow>
        map_of (t_orders (rc_db s)) (or_id row) = Some row \<and> claimable (\<lambda>_. False) (cl_tenant_id c) row)
   \<and> (\<forall>i j c d row row'. rc_open s i = Some (c, row) \<and> rc_open s j = Some (d, row') \<and> i \<noteq> j \<longrightarrow> or_id row \<noteq> or_id row')
   \<and> distinct (map (o_id \<circ> snd) (rc_claims s))
   \<and> (\<forall>(i, y) \<in> set (rc_claims s). \<exists>x. view (sql_book (rc_db s)) (o_id y) = Some x \<and> o_status x \<noteq> CREATED)"

lemma race_ok_start: "race_ok race_start"
  by (simp add: race_ok_def race_start_def sql_ok_empty sql_book_empty book_ok_empty del: sql_book_simps)

lemma queue_left: "order_evolves\<^sup>*\<^sup>* x y \<Longrightarrow> o_status x \<noteq> CREATED \<Longrightarrow> o_status y \<noteq> CREATED"
proof (induction rule: rtranclp_induct)
  case (step y z)
  from order_evolves_frame [OF step.hyps(2)] step show ?case by (cases "o_status y") auto
qed

lemma waiting_row:
  assumes "sql_ok db" "book_ok (sql_book db)" "map_of (t_orders db) (or_id row) = Some row" "or_status row = status_value CREATED"
  shows "active_courier db (or_id row) = None" "view (sql_book db) (or_id row) = Some (row_before row)"
proof -
  note rw = sql_ok_row [OF assms(1,3)]
  have v: "view (sql_book db) (or_id row) = Some (row_order db row)" using assms(3) by simp
  have "o_status (row_order db row) = CREATED" using created_row [OF assms(1,3)] assms(4) by simp
  then show ac: "active_courier db (or_id row) = None"
    using book_okD(2) [OF assms(2) v] row_order_simps(8) [OF rw(2), of db] by (simp add: order_ok_def)
  have "row_order db row = row_before row" by (rule row_order_eqI) (simp_all add: row_before_def assms(4) ac)
  with v show "view (sql_book db) (or_id row) = Some (row_before row)" by simp
qed

lemma finish_claim_Some:
  assumes "sql_ok db" "book_ok (sql_book db)" "map_of (t_orders db) (or_id row) = Some row" "or_status row = status_value CREATED"
    "finish_claim c row db = (Inr (Some y), db')"
  shows "sql_ok db'" "book_ok (sql_book db')" "book_extends (sql_book db) (sql_book db')" "o_id y = or_id row"
    "o_courier_id y = Some (cl_courier_id c)" "view (sql_book db') (or_id row) = Some y" "o_status y = ASSIGNED"
    "u \<noteq> or_id row \<Longrightarrow> map_of (t_orders db') u = map_of (t_orders db) u"
proof -
  let ?tm = "case cl_occurred_at c of Some t \<Rightarrow> t | None \<Rightarrow> cl_now c"
  let ?e = "claim_event (cl_event_id c) row (cl_courier_id c) ?tm (cl_correlation_id c)"
  let ?y = "row_before row \<lparr> o_status := ASSIGNED, o_version := or_version row + 1, o_courier_id := Some (cl_courier_id c) \<rparr>"
  have rows: "claim_rows row (cl_courier_id c) ?e db = (Inr (), db')" and y: "y = ?y"
    using assms(5) by (auto simp: finish_claim_def split: prod.splits sum.splits exn.splits)
  note w = waiting_row [OF assms(1-4)]
  note eff = claim_rows_done [OF assms(1,3,4) w(1) rows y]
  have assign: "order_assign (row_before row) (cl_courier_id c) = Inr y"
    "from_transition (cl_event_id c) (row_before row) y (cl_courier_id c) ''courier'' ?tm (cl_correlation_id c) = Inr ?e"
    unfolding y by (rule row_before_assign)+
  have "order_evolves (row_before row) y" "order_ok y"
    using assign(1) book_okD(2) [OF assms(2) w(2)] by (auto intro: order_evolves.assign order_assign_ok)
  from sql.transition_book [OF assms(2) w(2) this assign(2)] eff
  show "sql_ok db'" "book_ok (sql_book db')" "book_extends (sql_book db) (sql_book db')" by simp_all
  show id: "o_id y = or_id row" and "o_courier_id y = Some (cl_courier_id c)" "o_status y = ASSIGNED"
    using y by (simp_all add: row_before_def)
  show "view (sql_book db') (or_id row) = Some y" using eff(3) id by (simp del: sql_book_simps)
  show "map_of (t_orders db') u = map_of (t_orders db) u" if "u \<noteq> or_id row"
    using rows that by (auto simp: claim_rows_def update_order_row_def insert_assignment_row_def insert_event_rows_def
        insert_history_row_def insert_outbox_row_def andThen_def split: option.splits prod.splits sum.splits if_splits)
qed

lemma select_claim_Some:
  assumes "sql_ok db" "select_claim locked t db = Some row"
  shows "map_of (t_orders db) (or_id row) = Some row" "claimable locked t row"
    "map_of (t_orders db) u = Some q \<Longrightarrow> claimable locked t q \<Longrightarrow> (or_created_at row, or_id row) \<le> (or_created_at q, or_id q)"
proof -
  let ?cand = "sort_key (\<lambda>r. (or_created_at r, or_id r)) (filter (claimable locked t) (values_of (t_orders db)))"
  from assms(2) obtain rest where cand: "?cand = row # rest" by (auto simp: select_claim_def split: list.splits)
  show "map_of (t_orders db) (or_id row) = Some row" "claimable locked t row"
    "map_of (t_orders db) u = Some q \<Longrightarrow> claimable locked t q \<Longrightarrow> (or_created_at row, or_id row) \<le> (or_created_at q, or_id q)"
    using sql_candidates [OF assms(1) cand] by blast+
qed

lemma select_claim_None:
  assumes "select_claim locked t db = None" "map_of (t_orders db) u = Some q"
  shows "\<not> claimable locked t q"
proof -
  have "filter (claimable locked t) (values_of (t_orders db)) = []"
    using assms(1) by (auto simp: select_claim_def split: list.splits dest: arg_cong [where f = length])
  moreover have "q \<in> set (values_of (t_orders db))" using assms(2) by (auto dest!: map_of_SomeD intro: rev_image_eqI)
  ultimately show ?thesis by (auto simp: filter_empty_conv)
qed

lemma claims_left_queue:
  assumes "book_extends (sql_book db) (sql_book db')"
    "\<forall>(i, y) \<in> set claims. \<exists>x. view (sql_book db) (o_id y) = Some x \<and> o_status x \<noteq> CREATED"
  shows "\<forall>(i, y) \<in> set claims. \<exists>x. view (sql_book db') (o_id y) = Some x \<and> o_status x \<noteq> CREATED"
proof -
  have "\<exists>x. view (sql_book db') u = Some x \<and> o_status x \<noteq> CREATED"
    if "view (sql_book db) u = Some x" "o_status x \<noteq> CREATED" for u x
    using assms(1) that queue_left unfolding book_extends_def by blast
  with assms(2) show ?thesis by fast
qed

lemma race_ok_commit:
  assumes "race_ok s" "rc_open s i = Some (c, row)" "finish_claim c row (rc_db s) = (Inr (Some y), db')"
  shows "race_ok (s \<lparr> rc_db := db', rc_open := (rc_open s)(i := None), rc_claims := rc_claims s @ [(i, y)] \<rparr>)"
proof -
  have ok: "sql_ok (rc_db s)" "book_ok (sql_book (rc_db s))" "map_of (t_orders (rc_db s)) (or_id row) = Some row"
    "or_status row = status_value CREATED"
    using assms(1,2) by (auto simp: race_ok_def claimable_def)
  note fin = finish_claim_Some [OF ok assms(3)]
  have "view (sql_book (rc_db s)) (o_id y) = Some (row_before row)" using waiting_row(2) [OF ok] fin(4) by simp
  then have new: "o_id y \<notin> o_id ` snd ` set (rc_claims s)"
    using assms(1) unfolding race_ok_def by (force simp: row_before_def simp del: sql_book_simps)
  have left: "\<forall>(j, z) \<in> set (rc_claims s @ [(i, y)]). \<exists>x. view (sql_book db') (o_id z) = Some x \<and> o_status x \<noteq> CREATED"
    using claims_left_queue [OF fin(3), of "rc_claims s"] assms(1) fin(4,6,7) unfolding race_ok_def by (auto simp del: sql_book_simps)
  have kept: "map_of (t_orders db') (or_id row') = Some row' \<and> claimable (\<lambda>_. False) (cl_tenant_id d) row'"
    if "rc_open s j = Some (d, row')" "j \<noteq> i" for j d row'
    using assms(1,2) that fin(8) [of "or_id row'"] unfolding race_ok_def by metis
  show ?thesis
    unfolding race_ok_def using assms(1) fin(1,2) new left kept
    by (auto simp: race_ok_def image_comp simp del: sql_book_simps)
qed

lemma race_ok_step:
  assumes "race_step s s'" "race_ok s"
  shows "race_ok s'"
  using assms(1)
proof cases
  case (lock i c row)
  note row = select_claim_Some [OF _ lock(3)]
  have "claimable (\<lambda>_. False) (cl_tenant_id c) row" "map_of (t_orders (rc_db s)) (or_id row) = Some row"
    using row(1,2) assms(2) by (auto simp: race_ok_def claimable_def)
  moreover have "or_id row' \<noteq> or_id row" if "rc_open s j = Some (d, row')" for j d row'
    using row(2) that assms(2) by (auto simp: race_ok_def claimable_def row_locked_def)
  ultimately show ?thesis
    using assms(2) unfolding lock(1) race_ok_def by (simp del: sql_book_simps) metis
next
  case (commit i c row y db')
  then show ?thesis using race_ok_commit [OF assms(2)] by simp
next
  case (other db')
  have ok: "sql_ok (rc_db s)" "book_ok (sql_book (rc_db s))" using assms(2) by (auto simp: race_ok_def)
  note book = sql.use_case_book [OF other(2) ok]
  have "map_of (t_orders db') (or_id row) = map_of (t_orders (rc_db s)) (or_id row)" if "rc_open s i = Some (c, row)" for i c row
    using other(3) that by (auto simp: row_locked_def)
  with assms(2) book claims_left_queue [of "rc_db s" db' "rc_claims s"] other(1) show ?thesis
    by (auto simp: race_ok_def simp del: sql_book_simps)
qed (use assms(2) in \<open>auto simp: race_ok_def simp del: sql_book_simps\<close>)

lemma race_ok_run: "race_step\<^sup>*\<^sup>* race_start s \<Longrightarrow> race_ok s"
  by (induction rule: rtranclp_induct) (auto intro: race_ok_start race_ok_step)

section \<open>Claims are exclusive\<close>

lemma select_own_row:
  assumes "sql_ok db" "map_of (t_orders db) (or_id row) = Some row" "claimable (\<lambda>_. False) t row"
  shows "select_claim (\<lambda>u. u \<noteq> or_id row) t db = Some row"
proof (cases "select_claim (\<lambda>u. u \<noteq> or_id row) t db")
  case None
  from select_claim_None [OF this assms(2)] assms(3) show ?thesis by (simp add: claimable_def)
next
  case (Some row')
  from select_claim_Some(1,2) [OF assms(1) Some] assms(2) have "row' = row" by (simp add: claimable_def)
  with Some show ?thesis by simp
qed

text \<open>
  C5. However claims, their failures and the other use cases interleave: no order is claimed twice and
  a claimed order has left the queue for good; no courier and no order has two active
  assignments; what an open claim will write is what the whole method does at that moment when it
  sees no other row, so an interleaved run is a run of whole claims, one after the other;
  and a claim never waits for another: it takes the oldest waiting order that nobody holds,
  or there is none.
\<close>

theorem concurrent_claims_exclusive:
  assumes "race_step\<^sup>*\<^sup>* race_start s" "db = rc_db s"
  shows "distinct (map (o_id \<circ> snd) (rc_claims s))
    \<and> (\<forall>(i, y) \<in> set (rc_claims s). \<exists>x. sql_get (o_id y) db = (Inr (Some x), db) \<and> o_status x \<noteq> CREATED)
    \<and> distinct (map as_order_id (filter as_active (t_assignments db)))
    \<and> distinct (map as_courier_id (filter as_active (t_assignments db)))
    \<and> (\<forall>i c row. rc_open s i = Some (c, row) \<longrightarrow> finish_claim c row db = claim_method (\<lambda>u. u \<noteq> or_id row) c db)
    \<and> (\<forall>i c. rc_open s i = None \<longrightarrow>
         (case select_claim (row_locked s) (cl_tenant_id c) db of
            None \<Rightarrow> \<forall>u q. map_of (t_orders db) u = Some q \<and> claimable (\<lambda>_. False) (cl_tenant_id c) q \<longrightarrow> row_locked s u
          | Some row \<Rightarrow> race_step s (s \<lparr> rc_open := (rc_open s)(i \<mapsto> (c, row)) \<rparr>) \<and> \<not> row_locked s (or_id row)
              \<and> (\<forall>u q. map_of (t_orders db) u = Some q \<and> claimable (row_locked s) (cl_tenant_id c) q \<longrightarrow>
                   (or_created_at row, or_id row) \<le> (or_created_at q, u))))"
proof -
  note inv = race_ok_run [OF assms(1), unfolded race_ok_def, folded assms(2)]
  have ok: "sql_ok db" using inv by blast
  have claimed: "\<forall>(i, y) \<in> set (rc_claims s). \<exists>x. sql_get (o_id y) db = (Inr (Some x), db) \<and> o_status x \<noteq> CREATED"
    using inv sql.get_law [OF ok] by fastforce
  have whole: "finish_claim c row db = claim_method (\<lambda>u. u \<noteq> or_id row) c db" if "rc_open s i = Some (c, row)" for i c row
    using select_own_row [OF ok, of row "cl_tenant_id c"] inv that by (simp add: claim_method_split)
  have next_row: "case select_claim (row_locked s) (cl_tenant_id c) db of
      None \<Rightarrow> \<forall>u q. map_of (t_orders db) u = Some q \<and> claimable (\<lambda>_. False) (cl_tenant_id c) q \<longrightarrow> row_locked s u
    | Some row \<Rightarrow> race_step s (s \<lparr> rc_open := (rc_open s)(i \<mapsto> (c, row)) \<rparr>) \<and> \<not> row_locked s (or_id row)
        \<and> (\<forall>u q. map_of (t_orders db) u = Some q \<and> claimable (row_locked s) (cl_tenant_id c) q \<longrightarrow>
             (or_created_at row, or_id row) \<le> (or_created_at q, u))"
    if free: "rc_open s i = None" for i c
  proof (cases "select_claim (row_locked s) (cl_tenant_id c) db")
    case None
    then show ?thesis using select_claim_None [OF None] sql_ok_row(1) [OF ok] by (auto simp: claimable_def)
  next
    case (Some row)
    then show ?thesis
      using select_claim_Some(2,3) [OF ok Some] sql_ok_row(1) [OF ok] race_step.lock [OF free, of c row] assms(2)
      by (auto simp: claimable_def)
  qed
  show ?thesis using inv claimed whole next_row ok unfolding sql_ok_def by blast
qed

lemma race_others:
  assumes "sql_run (rc_db s) db" "rc_open s = (\<lambda>_. None)"
  shows "race_step\<^sup>*\<^sup>* s (s \<lparr> rc_db := db \<rparr>)"
  using assms(1)
proof (induction rule: rtranclp_induct)
  case (step db' db'')
  have "race_step (s \<lparr> rc_db := db' \<rparr>) (s \<lparr> rc_db := db'' \<rparr>)"
    using race_step.other [of "s \<lparr> rc_db := db' \<rparr>" db''] step.hyps(2) assms(2) by (simp add: row_locked_def)
  with step.IH show ?case by simp
qed simp

definition sample_claim :: claim_call where
  "sample_claim = \<lparr> cl_event_id = 9, cl_now = 0, cl_courier_id = 4, cl_tenant_id = DEFAULT_TENANT_ID, cl_occurred_at = None,
     cl_correlation_id = ''queue-claim'' \<rparr>"

theorem concurrent_claims_exclusive_witness:
  "\<exists>s row. race_step\<^sup>*\<^sup>* race_start s \<and> rc_open s 0 = Some (sample_claim, row)
     \<and> finish_claim sample_claim row (rc_db s) = claim_method (\<lambda>u. u \<noteq> or_id row) sample_claim (rc_db s)"
proof -
  from demo_run obtain db where db: "sql_run empty_tables db" "sql_get 1 db = (Inr (Some demo_order), db)" by blast
  have ok: "sql_ok db" using sql_run_book(1) [OF db(1)] .
  have "view (sql_book db) 1 = Some demo_order" using db(2) sql.get_law [OF ok, of 1] by simp
  then obtain row where row: "map_of (t_orders db) 1 = Some row" "row_order db row = demo_order" by auto
  note rw = sql_ok_row [OF ok row(1)]
  have one: "claimable (\<lambda>_. False) DEFAULT_TENANT_ID row"
    using row_order_simps(2,7) [OF rw(2), of db] row(2) by (simp add: claimable_def demo_order_def)
  define s where "s = race_start \<lparr> rc_db := db \<rparr>"
  have run: "race_step\<^sup>*\<^sup>* race_start s"
    using race_others [of race_start db] db(1) by (simp add: s_def race_start_def)
  have free: "row_locked s = (\<lambda>_. False)" by (simp add: s_def race_start_def row_locked_def fun_eq_iff)
  obtain row' where row': "select_claim (row_locked s) DEFAULT_TENANT_ID db = Some row'"
    using select_claim_None [OF _ row(1)] one free by fastforce
  have "race_step s (s \<lparr> rc_open := (rc_open s)(0 \<mapsto> (sample_claim, row')) \<rparr>)"
    using row' by (intro race_step.lock) (simp_all add: s_def race_start_def sample_claim_def)
  moreover define s' where "s' = s \<lparr> rc_open := (rc_open s)(0 \<mapsto> (sample_claim, row')) \<rparr>"
  ultimately have run': "race_step\<^sup>*\<^sup>* race_start s'" and own: "rc_open s' 0 = Some (sample_claim, row')" using run by simp_all
  from concurrent_claims_exclusive [OF run' refl] own
  have "finish_claim sample_claim row' (rc_db s') = claim_method (\<lambda>u. u \<noteq> or_id row') sample_claim (rc_db s')" by blast
  with run' own show ?thesis by blast
qed

end
