(* ===== verification/Interleaving.thy ===== *)
theory Interleaving
  imports Order_Properties Sql_Properties
begin

text \<open>
  A use case of \<open>service.py\<close> that changes an order awaits the repository twice: it reads the order
  and later saves it. Other use cases run in between, in the in-memory mode because the lock of the
  adapter is free between two calls, in SQL mode because other transactions commit. Here each
  use case is split at its save, and the second half is compared with the whole use case.
\<close>

section \<open>Use cases in two halves\<close>

definition update_read :: "'s OrderRepository \<Rightarrow> uuid \<Rightarrow> UpdateOrderCommand \<Rightarrow> int \<Rightarrow> ('s, DeliveryOrder) action" where
  "update_read repo order_id command expected_version =
     andThen (service_get repo order_id) (\<lambda>current.
     andThen (check (o_version current = expected_version) (ConcurrentUpdate ''optimistic version conflict'')) (\<lambda>_.
     lift_result (update_details current (command_changes command))))"

definition update_write :: "'s OrderRepository \<Rightarrow> DeliveryOrder \<Rightarrow> int \<Rightarrow> ('s, DeliveryOrder) action" where
  "update_write repo updated expected_version = andThen (repo_save repo updated expected_version) (\<lambda>_. ret updated)"

definition transition_read ::
  "'s OrderRepository \<Rightarrow> draws \<Rightarrow> uuid \<Rightarrow> TransitionOrderCommand \<Rightarrow> ('s, DeliveryOrder \<times> OrderStatusChanged) action" where
  "transition_read repo d order_id command =
     andThen (service_get repo order_id) (\<lambda>current.
     andThen (check (o_version current = tc_expected_version command) (ConcurrentUpdate ''optimistic version conflict'')) (\<lambda>_.
     andThen (lift_result (order_transition current (tc_target command))) (\<lambda>updated.
     andThen (lift_result (from_transition (d_event_id d) current updated (tc_actor_id command)
                (tc_actor_role command) (d_clock d) (tc_correlation_id command))) (\<lambda>event.
     ret (updated, event)))))"

definition assign_read ::
  "'s OrderRepository \<Rightarrow> draws \<Rightarrow> uuid \<Rightarrow> uuid \<Rightarrow> ('s, DeliveryOrder \<times> int \<times> OrderStatusChanged) action" where
  "assign_read repo d order_id courier_id =
     andThen (service_get repo order_id) (\<lambda>current.
     andThen (lift_result (order_assign current courier_id)) (\<lambda>updated.
     andThen (lift_result (from_transition (d_event_id d) current updated courier_id ''courier''
                (d_clock d) ''assignment'')) (\<lambda>event.
     ret (updated, o_version current, event))))"

text \<open>The second half of a transition and of an assignment.\<close>

definition transition_write ::
  "'s OrderRepository \<Rightarrow> DeliveryOrder \<Rightarrow> int \<Rightarrow> OrderStatusChanged \<Rightarrow> ('s, DeliveryOrder) action" where
  "transition_write repo updated expected_version event =
     andThen (repo_save_transition repo updated expected_version event) (\<lambda>_. ret updated)"

lemma use_case_halves:
  "service_update repo i k v = andThen (update_read repo i k v) (\<lambda>updated. update_write repo updated v)"
  "service_transition repo d i tk
     = andThen (transition_read repo d i tk) (\<lambda>(updated, event). transition_write repo updated (tc_expected_version tk) event)"
  "service_assign repo d i courier
     = andThen (assign_read repo d i courier) (\<lambda>(updated, version, event). transition_write repo updated version event)"
  by (simp_all add: fun_eq_iff service_update_def update_read_def update_write_def service_transition_def transition_read_def
      transition_write_def service_assign_def assign_read_def action_defs split: prod.splits sum.splits)

section \<open>A version is written at most once\<close>

lemma same_version_same_order:
  "order_evolves\<^sup>*\<^sup>* x y \<Longrightarrow> o_version y = o_version x \<Longrightarrow> y = x"
proof (induction rule: rtranclp_induct)
  case (step y z)
  from order_evolves_star [OF step.hyps(1)] order_evolves_frame(5) [OF step.hyps(2)] step.prems show ?case by simp
qed simp

text \<open>An adapter that also refuses a stale transition without a trace.\<close>

locale conflict_order_port = order_port +
  assumes save_transition_conflict: "ok s \<Longrightarrow> o_version x = v + 1 \<Longrightarrow>
      sc_order_id e = o_id x \<Longrightarrow> sc_order_version e = o_version x \<Longrightarrow>
      map_option o_version (view (book s) (o_id x)) \<noteq> Some v \<Longrightarrow>
      repo_save_transition repo x v e s = (Inl (ConcurrentUpdate ''optimistic version conflict''), s)"
begin

text \<open>Between two states of a run, an order is either untouched or has another version.\<close>

lemma later_view:
  assumes "ok s1" "book_ok (book s1)" "(use_case repo taken)\<^sup>*\<^sup>* s1 s2" "view (book s1) i = Some c"
  obtains "ok s2" "view (book s2) i = Some c"
  | c' where "ok s2" "view (book s2) i = Some c'" "o_version c' \<noteq> o_version c"
proof -
  note later = use_cases_book [OF assms(3,1,2)]
  then obtain c' where "view (book s2) i = Some c'" "order_evolves\<^sup>*\<^sup>* c c'"
    using assms(4) unfolding book_extends_def by blast
  then show thesis using that later same_version_same_order by metis
qed

lemma update_atomic:
  assumes "ok s1" "book_ok (book s1)" "(use_case repo taken)\<^sup>*\<^sup>* s1 s2" "update_read repo i k v s1 = (Inr u, s1)"
  shows "update_write repo u v s2 = service_update repo i k v s2"
proof -
  from assms(1,4) obtain c where c: "view (book s1) i = Some c" "o_version c = v" "update_details c (command_changes k) = Inr u"
    by (auto simp: update_read_def service_get_eq action_defs split: option.splits sum.splits if_splits)
  have u: "o_id u = i" "o_version u = v + 1"
    using book_okD(1) [OF assms(2) c(1)] order_evolves_frame [OF order_evolves.update [OF c(3)]] c(2) by simp_all
  show ?thesis
    using later_view [OF assms(1-3) c(1)]
  proof cases
    case 1
    then show ?thesis using c by (simp add: use_case_halves update_read_def service_get_eq action_defs)
  next
    case (2 c')
    then have "map_option o_version (view (book s2) (o_id u)) \<noteq> Some v" using c(2) u(1) by simp
    from save_conflict [OF 2(1) u(2) this] 2 c(2) show ?thesis
      by (simp add: service_update_def update_write_def service_get_eq action_defs)
  qed
qed

lemma transition_write_cases:
  assumes "ok s1" "book_ok (book s1)" "(use_case repo taken)\<^sup>*\<^sup>* s1 s2" "view (book s1) i = Some c"
    "order_evolves c y" "from_transition ev c y a r tm cid = Inr e"
  obtains "ok s2" "view (book s2) i = Some c"
  | c' where "ok s2" "view (book s2) i = Some c'" "o_version c' \<noteq> o_version c"
      "transition_write repo y (o_version c) e s2 = (Inl (ConcurrentUpdate ''optimistic version conflict''), s2)"
proof -
  note fr = order_evolves_frame [OF assms(5)]
  have y: "o_id y = i" using book_okD(1) [OF assms(2,4)] fr(1) by simp
  have e: "sc_order_id e = o_id y" "sc_order_version e = o_version y" using assms(6) by (auto simp: from_transition_Inr)
  show thesis
    using later_view [OF assms(1-4)]
  proof cases
    case (2 c')
    then have "map_option o_version (view (book s2) (o_id y)) \<noteq> Some (o_version c)" using y by simp
    from save_transition_conflict [OF 2(1) fr(5) e this] 2 that(2) show thesis by (simp add: transition_write_def action_defs)
  qed (use that(1) in blast)
qed

lemma transition_atomic:
  assumes "ok s1" "book_ok (book s1)" "(use_case repo taken)\<^sup>*\<^sup>* s1 s2" "transition_read repo d i tk s1 = (Inr (u, e), s1)"
  shows "transition_write repo u (tc_expected_version tk) e s2 = service_transition repo d i tk s2"
proof -
  from assms(1,4) obtain c where c: "view (book s1) i = Some c" "o_version c = tc_expected_version tk"
    "order_transition c (tc_target tk) = Inr u"
    "from_transition (d_event_id d) c u (tc_actor_id tk) (tc_actor_role tk) (d_clock d) (tc_correlation_id tk) = Inr e"
    by (auto simp: transition_read_def service_get_eq action_defs split: option.splits sum.splits if_splits)
  show ?thesis
    using transition_write_cases [OF assms(1-3) c(1) order_evolves.transition [OF c(3)] c(4)]
  proof cases
    case 1
    then show ?thesis using c by (simp add: use_case_halves transition_read_def service_get_eq action_defs)
  next
    case (2 c')
    then show ?thesis using c(2) by (simp add: service_transition_def service_get_eq action_defs)
  qed
qed

lemma assign_atomic:
  assumes "ok s1" "book_ok (book s1)" "(use_case repo taken)\<^sup>*\<^sup>* s1 s2" "assign_read repo d i k s1 = (Inr (u, v, e), s1)"
  shows "transition_write repo u v e s2 = service_assign repo d i k s2
    \<or> transition_write repo u v e s2 = (Inl (ConcurrentUpdate ''optimistic version conflict''), s2)"
proof -
  from assms(1,4) obtain c where c: "view (book s1) i = Some c" "o_version c = v" "order_assign c k = Inr u"
    "from_transition (d_event_id d) c u k ''courier'' (d_clock d) ''assignment'' = Inr e"
    by (auto simp: assign_read_def service_get_eq action_defs split: option.splits sum.splits)
  show ?thesis
    using transition_write_cases [OF assms(1-3) c(1) order_evolves.assign [OF c(3)] c(4)]
  proof cases
    case 1
    then show ?thesis using c by (simp add: use_case_halves assign_read_def service_get_eq action_defs)
  qed (use c(2) in simp)
qed

end

interpretation mem_conflict: conflict_order_port in_memory_repository mem_book mem_ok "\<lambda>_. {}"
  "\<lambda>_. True" "\<lambda>_. True" "\<lambda>_. True"
proof unfold_locales
  fix s v and x :: DeliveryOrder and e :: OrderStatusChanged
  assume a: "mem_ok s" "o_version x = v + 1" "sc_order_id e = o_id x" "sc_order_version e = o_version x"
    "map_option o_version (view (mem_book s) (o_id x)) \<noteq> Some v"
  from mem.save_conflict [OF a(1,2,5)] a(3,4)
  show "repo_save_transition in_memory_repository x v e s = (Inl (ConcurrentUpdate ''optimistic version conflict''), s)"
    by (simp add: mem_save_transition_def action_defs)
qed

interpretation sql_conflict: conflict_order_port "sql_repository (\<lambda>_. False)" sql_book sql_ok sql_taken sql_storable sql_fits
  sql_fits_event
proof unfold_locales
  fix s v and x :: DeliveryOrder and e :: OrderStatusChanged
  assume a: "sql_ok s" "o_version x = v + 1" "sc_order_id e = o_id x" "sc_order_version e = o_version x"
    "map_option o_version (view (sql_book s) (o_id x)) \<noteq> Some v"
  from sql.save_conflict [OF a(1,2,5)] a(3,4)
  show "repo_save_transition (sql_repository (\<lambda>_. False)) x v e s = (Inl (ConcurrentUpdate ''optimistic version conflict''), s)"
    by (simp add: sql_save_transition_def action_defs)
qed

section \<open>Interleaved use cases\<close>

text \<open>
  C8. Whatever other use cases complete between the two halves of an update or of a transition, in
  the in-memory mode and in SQL mode, and whatever status the order has: the second half does
  exactly what the whole use case would do at that moment, it is refused when the order has
  changed meanwhile, and so no update is lost. The second half of an assignment does the same
  or is refused without a trace.
\<close>

theorem interleaved_writes_atomic:
  "(\<forall>s1 s2. memory_run empty_store s1 \<and> memory_run s1 s2 \<longrightarrow>
       (\<forall>i k v u. update_read in_memory_repository i k v s1 = (Inr u, s1) \<longrightarrow>
          update_write in_memory_repository u v s2 = service_update in_memory_repository i k v s2)
     \<and> (\<forall>d i k u e. transition_read in_memory_repository d i k s1 = (Inr (u, e), s1) \<longrightarrow>
          transition_write in_memory_repository u (tc_expected_version k) e s2 = service_transition in_memory_repository d i k s2)
     \<and> (\<forall>d i courier u v e. assign_read in_memory_repository d i courier s1 = (Inr (u, v, e), s1) \<longrightarrow>
          transition_write in_memory_repository u v e s2
            \<in> {service_assign in_memory_repository d i courier s2, (Inl (ConcurrentUpdate ''optimistic version conflict''), s2)}))
   \<and> (\<forall>db1 db2. sql_run empty_tables db1 \<and> sql_run db1 db2 \<longrightarrow>
       (\<forall>i k v u. update_read (sql_repository (\<lambda>_. False)) i k v db1 = (Inr u, db1) \<longrightarrow>
          update_write (sql_repository (\<lambda>_. False)) u v db2 = service_update (sql_repository (\<lambda>_. False)) i k v db2)
     \<and> (\<forall>d i k u e. transition_read (sql_repository (\<lambda>_. False)) d i k db1 = (Inr (u, e), db1) \<longrightarrow>
          transition_write (sql_repository (\<lambda>_. False)) u (tc_expected_version k) e db2
            = service_transition (sql_repository (\<lambda>_. False)) d i k db2)
     \<and> (\<forall>d i courier u v e. assign_read (sql_repository (\<lambda>_. False)) d i courier db1 = (Inr (u, v, e), db1) \<longrightarrow>
          transition_write (sql_repository (\<lambda>_. False)) u v e db2
            \<in> {service_assign (sql_repository (\<lambda>_. False)) d i courier db2,
               (Inl (ConcurrentUpdate ''optimistic version conflict''), db2)}))"
  by (intro conjI allI impI; elim conjE)
    (simp_all add: mem_conflict.update_atomic [OF memory_run_book] mem_conflict.transition_atomic [OF memory_run_book]
      mem_conflict.assign_atomic [OF memory_run_book] sql_conflict.update_atomic [OF sql_run_book]
      sql_conflict.transition_atomic [OF sql_run_book] sql_conflict.assign_atomic [OF sql_run_book])

definition heavier :: UpdateOrderCommand where
  "heavier = \<lparr> uc_pickup_address = None, uc_destination_address = None, uc_weight_grams = Some 800 \<rparr>"

lemma sample_heavier:
  "update_details sample_order (command_changes heavier) = Inr (sample_order \<lparr> o_weight_grams := 800, o_version := 2 \<rparr>)"
  by (simp add: sample_order_def heavier_def command_changes_def update_details_def changed_text_def changed_int_def
      map_filter_simps casefold_def lower_def)

lemma sample_update_read:
  assumes "service_get repo 1 s = (Inr sample_order, s)"
  shows "update_read repo 1 heavier 1 s = (Inr (sample_order \<lparr> o_weight_grams := 800, o_version := 2 \<rparr>), s)"
  using assms by (simp add: update_read_def action_defs sample_heavier) (simp add: sample_order_def)

text \<open>
  A courier claims the order between the read and the save of an update: the save is refused as
  the whole update would be.
\<close>

definition assigned_order :: DeliveryOrder where
  "assigned_order = sample_order \<lparr> o_status := ASSIGNED, o_version := 2, o_courier_id := Some 42 \<rparr>"

lemma sample_assigned:
  "\<exists>s. service_assign in_memory_repository (sample_draws 4 9) 1 42 sample_store = (Inr assigned_order, s)
     \<and> service_get in_memory_repository 1 s = (Inr assigned_order, s)"
  by (simp add: service_assign_def service_get_def sample_store_eq empty_store_def mem_get_def sample_order_def assigned_order_def
      order_assign_def order_transition_def from_transition_def mem_save_transition_def mem_save_def action_defs)

theorem interleaved_writes_atomic_witness:
  "\<exists>s2. memory_run sample_store s2 \<and> service_get in_memory_repository 1 s2 = (Inr assigned_order, s2)
     \<and> update_write in_memory_repository (sample_order \<lparr> o_weight_grams := 800, o_version := 2 \<rparr>) 1 s2
       = service_update in_memory_repository 1 heavier 1 s2
     \<and> service_update in_memory_repository 1 heavier 1 s2 = (Inl (ConcurrentUpdate ''optimistic version conflict''), s2)"
proof -
  from sample_assigned obtain s where s: "service_assign in_memory_repository (sample_draws 4 9) 1 42 sample_store = (Inr assigned_order, s)"
    "service_get in_memory_repository 1 s = (Inr assigned_order, s)" by blast
  have run: "memory_run sample_store s" by (rule r_into_rtranclp, rule use_case.assign [OF s(1)]) simp
  have read: "service_get in_memory_repository 1 sample_store = (Inr sample_order, sample_store)"
    by (simp add: service_get_def action_defs sample_store_eq mem_get_def)
  have "service_update in_memory_repository 1 heavier 1 s = (Inl (ConcurrentUpdate ''optimistic version conflict''), s)"
    using s(2) by (simp add: service_update_def action_defs assigned_order_def)
  with interleaved_writes_atomic [THEN conjunct1, rule_format, OF conjI [OF sample_run run], THEN conjunct1, rule_format,
      OF sample_update_read [OF read]] run s(2)
  show ?thesis by blast
qed

end
