(* ===== verification/Migration_Race.thy ===== *)
theory Migration_Race
  imports Migrations
begin

text \<open>
  Several deployments migrating one database at once. Every process of \<open>alembic upgrade head\<close> runs
  \<open>run_migrations_online\<close> of \<open>env.py\<close>: it connects, opens a transaction, waits for the advisory
  lock that belongs to the transaction, and only then \<open>run_migrations\<close> reads the recorded revision
  and applies the pending ones. A process may be refused a connection, fail in a revision or die
  at any moment, and PostgreSQL then rolls its transaction back and frees the lock with it.
\<close>

section \<open>Processes\<close>

text \<open>
  Which revisions an upgrade to the head applies is up to \<open>alembic\<close>: a parameter \<open>plan\<close> of the
  recorded revision and the revision files, \<open>None\<close> when the recorded one is in no file. What
  \<open>alembic\<close> documents: along a linear history, it applies the revisions after the recorded one.
\<close>

type_synonym upgrade_planner = "string option \<Rightarrow> revision list \<Rightarrow> revision list option"

definition linear_history :: "revision list \<Rightarrow> bool" where
  "linear_history revs \<longleftrightarrow> distinct (map rev_id revs)
     \<and> map rev_down revs = take (length revs) (None # map (Some \<circ> rev_id) revs)"

definition plans_upgrade :: "upgrade_planner \<Rightarrow> bool" where
  "plans_upgrade plan \<longleftrightarrow> (\<forall>xs ys. linear_history (xs @ ys) \<longrightarrow>
     plan (if xs = [] then None else Some (rev_id (last xs))) (xs @ ys) = Some ys)"

text \<open>
  A process has not connected, waits for the lock, holds it with the uncommitted state of the
  database, the revisions left and those it applied, or has ended, in success or not, with its
  engine disposed.
\<close>

datatype migrator = Idle | Waiting | Migrating database "revision list" "string list" | Ended bool

record fleet =
  f_db :: database
  f_lock :: "nat option"
  f_run :: "nat \<Rightarrow> migrator"
  f_log :: "string list"

text \<open>
  \<open>f_log\<close> lists the revisions committed so far. The rows of the tables may differ from one process
  to the next: \<open>rows\<close> is met when the lock is taken, any of those that \<open>met\<close> allows.
\<close>

inductive fleet_step :: "upgrade_planner \<Rightarrow> (contents \<Rightarrow> bool) \<Rightarrow> fleet \<Rightarrow> fleet \<Rightarrow> bool"
  for plan :: upgrade_planner and met :: "contents \<Rightarrow> bool" where
  connect: "f_run s i = Idle \<Longrightarrow> fleet_step plan met s (s \<lparr> f_run := (f_run s)(i := Waiting) \<rparr>)"
| refused: "f_run s i = Idle \<Longrightarrow> fleet_step plan met s (s \<lparr> f_run := (f_run s)(i := Ended False) \<rparr>)"
| lock: "f_run s i = Waiting \<Longrightarrow> f_lock s = None \<Longrightarrow> met rows \<Longrightarrow> plan (db_version (f_db s)) (revisions rows) = Some todo \<Longrightarrow>
    fleet_step plan met s (s \<lparr> f_lock := Some i, f_run := (f_run s)(i := Migrating (f_db s) todo []) \<rparr>)"
| unknown: "f_run s i = Waiting \<Longrightarrow> f_lock s = None \<Longrightarrow> met rows \<Longrightarrow> plan (db_version (f_db s)) (revisions rows) = None \<Longrightarrow>
    fleet_step plan met s (s \<lparr> f_run := (f_run s)(i := Ended False) \<rparr>)"
| revise: "f_run s i = Migrating w (r # todo) did \<Longrightarrow> apply_upgrade r w = (Inr (), w') \<Longrightarrow>
    fleet_step plan met s (s \<lparr> f_run := (f_run s)(i := Migrating w' todo (did @ [rev_id r])) \<rparr>)"
| rollback: "f_run s i = Migrating w (r # todo) did \<Longrightarrow> apply_upgrade r w = (Inl e, w') \<Longrightarrow>
    fleet_step plan met s (s \<lparr> f_lock := None, f_run := (f_run s)(i := Ended False) \<rparr>)"
| commit: "f_run s i = Migrating w [] did \<Longrightarrow>
    fleet_step plan met s (s \<lparr> f_db := w, f_lock := None, f_run := (f_run s)(i := Ended True), f_log := f_log s @ did \<rparr>)"
| die: "f_run s i = Waiting \<or> f_run s i = Migrating w todo did \<Longrightarrow>
    fleet_step plan met s (s \<lparr> f_lock := (if f_lock s = Some i then None else f_lock s), f_run := (f_run s)(i := Ended False) \<rparr>)"

definition fleet_start :: "nat \<Rightarrow> fleet" where
  "fleet_start k = \<lparr> f_db = database_at k, f_lock = None, f_run = (\<lambda>_. Idle), f_log = [] \<rparr>"

section \<open>Revisions and their databases\<close>

text \<open>What the tables hold changes no identifier.\<close>

abbreviation names :: "string list" where
  "names \<equiv> [''0001'', ''0002'', ''0003'', ''0004'', ''0005'', ''0006'', ''0007'']"

lemma rev_names: "map rev_id (revisions rows) = names"
  by (simp add: revisions_def)

lemma rev_name: "m < 7 \<Longrightarrow> rev_id (revisions rows ! m) = names ! m"
  using rev_names [of rows] by (metis length_revisions nth_map)

lemma linear_revisions: "linear_history (revisions rows)"
  by (simp add: linear_history_def revisions_def)

lemma level_pending:
  assumes "plans_upgrade plan" "n \<le> 7"
  shows "plan (db_version (database_at n)) (revisions rows) = Some (drop n (revisions rows))"
proof -
  have "plan (if take n (revisions rows) = [] then None else Some (rev_id (last (take n (revisions rows))))) (revisions rows)
      = Some (drop n (revisions rows))"
    using assms(1) linear_revisions [of rows] unfolding plans_upgrade_def by (metis append_take_drop_id)
  moreover have "db_version (database_at n)
      = (if take n (revisions rows) = [] then None else Some (rev_id (last (take n (revisions rows)))))"
  proof (cases n)
    case (Suc m)
    then have m: "m < 7" using assms(2) by simp
    then have "take n (revisions rows) = take m (revisions rows) @ [revisions rows ! m]"
      using Suc by (simp add: take_Suc_conv_app_nth)
    with apply_upgrade_version [OF upgrade_step [OF m, of no_rows]] Suc m rev_name [OF m] unique_no_assignments
    show ?thesis by simp
  qed (simp add: database_at_0 empty_database_def)
  ultimately show ?thesis by simp
qed

section \<open>Invariant\<close>

text \<open>
  The committed database is where the fleet started or at the head, and the log has exactly the
  revisions in between; the holder of the lock, and nobody else, is inside its transaction and
  works towards the head from the committed database; success means that the head is committed.
\<close>

definition migrating_ok :: "(contents \<Rightarrow> bool) \<Rightarrow> nat \<Rightarrow> migrator \<Rightarrow> bool" where
  "migrating_ok met n r = (case r of
     Migrating w todo did \<Rightarrow>
       (\<exists>rows m. met rows \<and> n \<le> m \<and> m \<le> 7 \<and> w = database_at m \<and> todo = drop m (revisions rows)
          \<and> did = drop n (take m names) \<and> (unique_assignments rows \<or> \<not> crosses_0002 n m))
   | Ended ok \<Rightarrow> ok \<longrightarrow> n = 7
   | _ \<Rightarrow> True)"

definition in_transaction :: "migrator \<Rightarrow> bool" where
  "in_transaction r = (case r of Migrating _ _ _ \<Rightarrow> True | _ \<Rightarrow> False)"

definition fleet_at :: "(contents \<Rightarrow> bool) \<Rightarrow> nat \<Rightarrow> nat \<Rightarrow> fleet \<Rightarrow> bool" where
  "fleet_at met k n s \<longleftrightarrow> f_db s = database_at n \<and> f_log s = drop k (take n names)
     \<and> (n = k \<or> n = 7 \<and> (\<not> crosses_0002 k 7 \<or> (\<exists>rows. met rows \<and> unique_assignments rows)))
     \<and> (\<forall>i. migrating_ok met n (f_run s i)) \<and> (\<forall>i. in_transaction (f_run s i) \<longleftrightarrow> f_lock s = Some i)"

lemmas migrator_simps = migrating_ok_def in_transaction_def

lemma fleet_at_start: "k \<le> 7 \<Longrightarrow> fleet_at met k k (fleet_start k)"
  by (simp add: fleet_at_def fleet_start_def migrator_simps)

lemma fleet_at_alone:
  assumes "fleet_at met k n s" "f_run s i = Migrating w todo did"
  shows "f_lock s = Some i" "j \<noteq> i \<Longrightarrow> \<not> in_transaction (f_run s j)" "migrating_ok met n (Migrating w todo did)"
proof -
  have "in_transaction (f_run s i)" using assms(2) by (simp add: in_transaction_def)
  with assms show "f_lock s = Some i" "j \<noteq> i \<Longrightarrow> \<not> in_transaction (f_run s j)" "migrating_ok met n (Migrating w todo did)"
    by (auto simp: fleet_at_def dest: spec [of _ i])
qed

lemma not_in_transaction_ok: "\<not> in_transaction r \<Longrightarrow> migrating_ok met n r \<Longrightarrow> migrating_ok met 7 r"
  by (auto simp: migrator_simps split: migrator.splits)

lemma fleet_at_lock: "fleet_at met k n s \<Longrightarrow> f_lock s = Some i \<longleftrightarrow> in_transaction (f_run s i)"
  by (simp add: fleet_at_def)

text \<open>A process that leaves its transaction, or was in none, changes nothing for the others.\<close>

lemma fleet_at_outside:
  assumes "fleet_at met k n s" "f_db s' = f_db s" "f_log s' = f_log s" "f_run s' = (f_run s)(i := r)"
    "f_lock s' = (if f_lock s = Some i then None else f_lock s)" "\<not> in_transaction r" "migrating_ok met n r"
  shows "fleet_at met k n s'"
  using assms by (simp add: fleet_at_def)

lemma migratingD:
  assumes "migrating_ok met n (Migrating w (r # todo) did)"
  obtains rows m where "met rows" "n \<le> m" "m < 7" "w = database_at m" "r = revisions rows ! m" "todo = drop (Suc m) (revisions rows)"
    "did = drop n (take m names)" "unique_assignments rows \<or> \<not> crosses_0002 n m"
proof -
  from assms obtain rows m where m: "met rows" "n \<le> m" "m \<le> 7" "w = database_at m" "r # todo = drop m (revisions rows)"
    "did = drop n (take m names)" "unique_assignments rows \<or> \<not> crosses_0002 n m" by (auto simp: migrating_ok_def)
  then have lt: "m < 7" by (cases "m = 7") auto
  then have "r = revisions rows ! m" "todo = drop (Suc m) (revisions rows)"
    using m(5) Cons_nth_drop_Suc [of m "revisions rows"] by (metis length_revisions list.inject)+
  with m lt that show thesis by blast
qed

lemma revise_ok:
  assumes "migrating_ok met n (Migrating w (r # todo) did)" "apply_upgrade r w = (Inr (), w')"
  shows "migrating_ok met n (Migrating w' todo (did @ [rev_id r]))"
proof -
  from migratingD [OF assms(1)] obtain rows m where m: "met rows" "n \<le> m" "m < 7" "w = database_at m" "r = revisions rows ! m"
    "todo = drop (Suc m) (revisions rows)" "did = drop n (take m names)" "unique_assignments rows \<or> \<not> crosses_0002 n m" .
  have free: "unique_assignments rows \<or> m \<noteq> 1"
    using upgrade_blocked [of rows] assms(2) m(4,5) by fastforce
  then have "w' = database_at (Suc m)" using assms(2) upgrade_step [OF m(3), of rows] m(4,5) by simp
  moreover have "did @ [rev_id r] = drop n (take (Suc m) names)"
    using m(2,3,5,7) rev_name [OF m(3), of rows] by (simp add: take_Suc_conv_app_nth del: take_Suc_Cons)
  moreover have "unique_assignments rows \<or> \<not> crosses_0002 n (Suc m)" using m(8) free by (auto simp: crosses_0002_def)
  ultimately show ?thesis using m(1,2,3,6) unfolding migrating_ok_def by (auto intro!: exI [of _ rows] exI [of _ "Suc m"])
qed

lemma committed_ok:
  assumes "migrating_ok met n (Migrating w [] did)"
  shows "w = database_at 7" "did = drop n names" "\<exists>rows. met rows \<and> (unique_assignments rows \<or> \<not> crosses_0002 n 7)"
proof -
  from assms obtain rows m where m: "met rows" "m \<le> 7" "w = database_at m" "[] = drop m (revisions rows)"
    "did = drop n (take m names)" "unique_assignments rows \<or> \<not> crosses_0002 n m" by (auto simp: migrating_ok_def)
  from m(2,4) have "m = 7" by (metis drop_eq_Nil le_antisym length_revisions)
  with m show "w = database_at 7" "did = drop n names" "\<exists>rows. met rows \<and> (unique_assignments rows \<or> \<not> crosses_0002 n 7)" by auto
qed

lemma commit_ok:
  assumes "fleet_at met k n s" "k \<le> 7" "f_run s i = Migrating w [] did"
  shows "fleet_at met k 7 (s \<lparr> f_db := w, f_lock := None, f_run := (f_run s)(i := Ended True), f_log := f_log s @ did \<rparr>)"
proof -
  note alone = fleet_at_alone [OF assms(1,3)]
  note fin = committed_ok [OF alone(3)]
  have n: "n = k \<or> n = 7" using assms(1) by (auto simp: fleet_at_def)
  have "f_log s @ did = drop k (take 7 names)" using assms(1) fin(2) n by (auto simp: fleet_at_def)
  moreover have "migrating_ok met 7 (f_run s j)" if "j \<noteq> i" for j
    using not_in_transaction_ok [OF alone(2) [OF that]] assms(1) by (auto simp: fleet_at_def)
  moreover have "k = 7 \<or> \<not> crosses_0002 k 7 \<or> (\<exists>rows. met rows \<and> unique_assignments rows)"
    using n fin(3) assms(1) by (auto simp: fleet_at_def)
  ultimately show ?thesis using fin(1) alone(2) by (auto simp: fleet_at_def migrator_simps)
qed

lemma fleet_at_step:
  assumes "fleet_step plan met s s'" "fleet_at met k n s" "k \<le> 7" "plans_upgrade plan"
  shows "\<exists>n'. fleet_at met k n' s'"
  using assms(1)
proof cases
  case (lock i rows todo)
  have n: "n \<le> 7" using assms(2,3) by (auto simp: fleet_at_def)
  have "todo = drop n (revisions rows)" using lock(5) level_pending [OF assms(4) n] assms(2) by (simp add: fleet_at_def)
  then have "migrating_ok met n (Migrating (f_db s) todo [])"
    using n lock(4) assms(2) by (auto simp: migrating_ok_def fleet_at_def crosses_0002_def intro!: exI [of _ rows] exI [of _ n])
  then show ?thesis using lock(1-3) assms(2) by (auto simp: fleet_at_def in_transaction_def intro!: exI [of _ n])
next
  case (revise i w r todo did w')
  note alone = fleet_at_alone [OF assms(2) revise(2)]
  show ?thesis using revise(1) assms(2) alone(1,2) revise_ok [OF alone(3) revise(3)]
    by (auto simp: fleet_at_def in_transaction_def intro!: exI [of _ n])
next
  case (commit i w did)
  then show ?thesis using commit_ok [OF assms(2,3)] by blast
next
  case (connect i)
  with fleet_at_outside [OF assms(2), of s' i Waiting] fleet_at_lock [OF assms(2), of i] show ?thesis
    by (auto simp: migrator_simps)
next
  case (refused i)
  with fleet_at_outside [OF assms(2), of s' i "Ended False"] fleet_at_lock [OF assms(2), of i] show ?thesis
    by (auto simp: migrator_simps)
next
  case (unknown i rows)
  with fleet_at_outside [OF assms(2), of s' i "Ended False"] show ?thesis by (auto simp: migrator_simps)
next
  case (rollback i w r todo did e w')
  with fleet_at_outside [OF assms(2), of s' i "Ended False"] fleet_at_lock [OF assms(2), of i] show ?thesis
    by (auto simp: migrator_simps)
next
  case (die i w todo did)
  with fleet_at_outside [OF assms(2), of s' i "Ended False"] show ?thesis by (auto simp: migrator_simps)
qed

lemma fleet_run:
  assumes "(fleet_step plan met)\<^sup>*\<^sup>* (fleet_start k) s" "k \<le> 7" "plans_upgrade plan"
  obtains n where "fleet_at met k n s" "n \<le> 7"
proof -
  from assms(1) have "\<exists>n. fleet_at met k n s"
    by (induction rule: rtranclp_induct) (use fleet_at_start [OF assms(2)] fleet_at_step [OF _ _ assms(2,3)] in blast)+
  with that assms(2) show thesis by (auto simp: fleet_at_def)
qed

section \<open>Progress\<close>

text \<open>A process inside its transaction can always go on to its end, and to its commit if the rows allow it.\<close>

lemma holder_ends:
  assumes "f_run s i = Migrating w todo did" "migrating_ok met n (Migrating w todo did)"
  shows "\<exists>s' ok. (fleet_step plan met)\<^sup>*\<^sup>* s s' \<and> f_lock s' = None \<and> f_run s' = (f_run s)(i := Ended ok)
     \<and> ((\<forall>rows. met rows \<longrightarrow> unique_assignments rows) \<or> 2 \<le> n \<longrightarrow> ok)"
  using assms
proof (induction todo arbitrary: s w did)
  case Nil
  from r_into_rtranclp [of "fleet_step plan met", OF fleet_step.commit [OF Nil.prems(1)]] show ?case by fastforce
next
  case (Cons r todo)
  from migratingD [OF Cons.prems(2)] obtain rows m where m: "met rows" "n \<le> m" "m < 7" "w = database_at m" "r = revisions rows ! m" .
  show ?case
  proof (cases "unique_assignments rows \<or> m \<noteq> 1")
    case True
    then have up: "apply_upgrade r w = (Inr (), database_at (Suc m))" using upgrade_step [OF m(3), of rows] m(4,5) by simp
    let ?s = "s \<lparr> f_run := (f_run s)(i := Migrating (database_at (Suc m)) todo (did @ [rev_id r])) \<rparr>"
    have "fleet_step plan met s ?s" using fleet_step.revise [OF Cons.prems(1) up] .
    moreover have "f_run ?s i = Migrating (database_at (Suc m)) todo (did @ [rev_id r])" by simp
    from Cons.IH [OF this revise_ok [OF Cons.prems(2) up]]
    obtain s' ok where "(fleet_step plan met)\<^sup>*\<^sup>* ?s s'" "f_lock s' = None" "f_run s' = (f_run ?s)(i := Ended ok)"
      "(\<forall>rows. met rows \<longrightarrow> unique_assignments rows) \<or> 2 \<le> n \<longrightarrow> ok" by blast
    moreover from this(3) have "f_run s' = (f_run s)(i := Ended ok)" by (simp add: fun_eq_iff)
    ultimately show ?thesis by (meson converse_rtranclp_into_rtranclp)
  next
    case False
    then obtain db where "apply_upgrade r w = (Inl (sql_error ''23505''), db)" using upgrade_blocked [of rows] m(4,5) by auto
    from r_into_rtranclp [of "fleet_step plan met", OF fleet_step.rollback [OF Cons.prems(1) this]] False m(1,2)
    show ?thesis by fastforce
  qed
qed

lemma lock_freed:
  assumes "fleet_at met k n s" "\<not> in_transaction (f_run s i)"
  shows "\<exists>s'. (fleet_step plan met)\<^sup>*\<^sup>* s s' \<and> f_lock s' = None \<and> f_run s' i = f_run s i"
proof (cases "f_lock s")
  case (Some j)
  then have j: "in_transaction (f_run s j)" "j \<noteq> i" using assms by (auto simp: fleet_at_def)
  then obtain w todo did where run: "f_run s j = Migrating w todo did"
    by (auto simp: in_transaction_def split: migrator.splits)
  from holder_ends [OF run fleet_at_alone(3) [OF assms(1) run]] j(2) show ?thesis by fastforce
qed blast

definition can_end :: "upgrade_planner \<Rightarrow> (contents \<Rightarrow> bool) \<Rightarrow> nat \<Rightarrow> fleet \<Rightarrow> nat \<Rightarrow> bool" where
  "can_end plan met k s i \<longleftrightarrow> (\<exists>s' ok. (fleet_step plan met)\<^sup>*\<^sup>* s s' \<and> f_run s' i = Ended ok
     \<and> ((\<forall>rows. met rows \<longrightarrow> unique_assignments rows) \<or> 2 \<le> k \<longrightarrow> ok))"

lemma can_end_later: "(fleet_step plan met)\<^sup>*\<^sup>* s t \<Longrightarrow> can_end plan met k t i \<Longrightarrow> can_end plan met k s i"
  unfolding can_end_def by (meson rtranclp_trans)

lemma process_can_end:
  assumes "(fleet_step plan met)\<^sup>*\<^sup>* (fleet_start k) s" "k \<le> 7" "plans_upgrade plan" "met rows" "\<not> (\<exists>ok. f_run s i = Ended ok)"
  shows "can_end plan met k s i"
proof -
  have holds: "can_end plan met k t i"
    if t: "(fleet_step plan met)\<^sup>*\<^sup>* (fleet_start k) t" "f_run t i = Migrating w todo did" for t w todo did
  proof -
    from fleet_run [OF t(1) assms(2,3)] obtain n where n: "fleet_at met k n t" .
    then have "n = k \<or> n = 7" by (auto simp: fleet_at_def)
    with holder_ends [OF t(2) fleet_at_alone(3) [OF n t(2)], of plan] show ?thesis unfolding can_end_def by fastforce
  qed
  have waits: "can_end plan met k t i"
    if t: "(fleet_step plan met)\<^sup>*\<^sup>* (fleet_start k) t" "f_run t i = Waiting" for t
  proof -
    from fleet_run [OF t(1) assms(2,3)] obtain n where n: "fleet_at met k n t" .
    with lock_freed [OF n, of i plan] t(2) obtain u where u: "(fleet_step plan met)\<^sup>*\<^sup>* t u" "f_lock u = None" "f_run u i = Waiting"
      by (auto simp: in_transaction_def)
    then have run: "(fleet_step plan met)\<^sup>*\<^sup>* (fleet_start k) u" using t(1) by simp
    from fleet_run [OF run assms(2,3)] obtain m where m: "fleet_at met k m u" "m \<le> 7" .
    then have "plan (db_version (f_db u)) (revisions rows) = Some (drop m (revisions rows))"
      using level_pending [OF assms(3)] by (simp add: fleet_at_def)
    from fleet_step.lock [of u i met rows plan, OF u(3,2) assms(4) this] obtain v where
      v: "fleet_step plan met u v" "f_run v i = Migrating (f_db u) (drop m (revisions rows)) []" by fastforce
    from holds [OF rtranclp.rtrancl_into_rtrancl [OF run v(1)] v(2)] u(1) v(1) show ?thesis
      by (meson can_end_later rtranclp.rtrancl_into_rtrancl)
  qed
  show ?thesis
  proof (cases "f_run s i")
    case Idle
    note step = fleet_step.connect [OF this, of plan met]
    from waits [OF rtranclp.rtrancl_into_rtrancl [OF assms(1) step]] can_end_later [OF r_into_rtranclp [of "fleet_step plan met", OF step]]
    show ?thesis by simp
  qed (use assms(1,5) waits holds in blast)+
qed

section \<open>Concurrent deployments\<close>

text \<open>
  C31. However many processes migrate a database at once, starting from any revision, whatever rows
  they meet, and whichever of them are refused, fail or die: the committed database is the one
  they started from or the one at the head, never one in between; the revisions committed are
  exactly those in between, each once and in order; at most one process is in its transaction,
  and what it will commit is what the whole \<open>do_run_migrations\<close> of the pending revisions does to
  the committed database; a process that reports success has left the database at the head.
  Every process that has not ended can still end, and in success if the fleet started after
  revision 0002 or the active assignments it can meet are unique. When they never are, a
  fleet from before that revision leaves the database as it was.
\<close>

theorem concurrent_migrations_once:
  assumes "plans_upgrade plan" "k \<le> 7" "met rows" "(fleet_step plan met)\<^sup>*\<^sup>* (fleet_start k) s"
  shows "(f_db s, f_log s) \<in> {(database_at k, []), (database_at 7, drop k (map rev_id (revisions rows)))} \<and> distinct (f_log s)
    \<and> (\<forall>i j. in_transaction (f_run s i) \<and> in_transaction (f_run s j) \<longrightarrow> i = j)
    \<and> (\<forall>i w did. f_run s i = Migrating w [] did \<longrightarrow>
         (\<exists>rows todo. met rows \<and> plan (db_version (f_db s)) (revisions rows) = Some todo \<and> did = map rev_id todo
            \<and> do_run_migrations (map apply_upgrade todo) (f_db s) = (Inr (), w)))
    \<and> (\<forall>i. f_run s i = Ended True \<longrightarrow> f_db s = database_at 7)
    \<and> (\<forall>i. (\<nexists>ok. f_run s i = Ended ok) \<longrightarrow> can_end plan met k s i)
    \<and> (k \<le> 1 \<and> (\<forall>rows. met rows \<longrightarrow> \<not> unique_assignments rows) \<longrightarrow> f_db s = database_at k \<and> (\<forall>i. f_run s i \<noteq> Ended True))"
proof -
  from fleet_run [OF assms(4,2,1)] obtain n where at: "fleet_at met k n s" and le: "n \<le> 7" .
  have log: "(f_db s, f_log s) \<in> {(database_at k, []), (database_at 7, drop k (map rev_id (revisions rows)))}"
    using at by (auto simp: fleet_at_def rev_names)
  have once: "distinct (f_log s)" using log by (auto simp: rev_names)
  have alone: "i = j" if "in_transaction (f_run s i)" "in_transaction (f_run s j)" for i j
    using at that unfolding fleet_at_def by (metis option.inject)
  have whole: "\<exists>rows todo. met rows \<and> plan (db_version (f_db s)) (revisions rows) = Some todo \<and> did = map rev_id todo
      \<and> do_run_migrations (map apply_upgrade todo) (f_db s) = (Inr (), w)" if "f_run s i = Migrating w [] did" for i w did
  proof -
    note fin = committed_ok [OF fleet_at_alone(3) [OF at that]]
    then obtain rows where rows: "met rows" "unique_assignments rows \<or> \<not> crosses_0002 n 7" by blast
    have "do_run_migrations (map apply_upgrade (drop n (revisions rows))) (database_at n) = (Inr (), database_at 7)"
      using upgrade_path [of n "7 - n" rows] le rows(2) by (simp add: do_run_migrations_def transactional_def)
    moreover have "did = map rev_id (drop n (revisions rows))" using fin(2) rev_names [of rows] by (simp add: drop_map [symmetric])
    ultimately show ?thesis using rows(1) fin(1) at level_pending [OF assms(1) le, of rows] by (auto simp: fleet_at_def)
  qed
  have success: "n = 7" if "f_run s i = Ended True" for i
  proof -
    have "migrating_ok met n (f_run s i)" using at by (simp add: fleet_at_def)
    then show ?thesis using that by (simp add: migrating_ok_def)
  qed
  then have head: "f_db s = database_at 7" if "f_run s i = Ended True" for i using at that by (auto simp: fleet_at_def)
  have stuck: "n = k" if "k \<le> 1" "\<forall>rows. met rows \<longrightarrow> \<not> unique_assignments rows"
    using at that by (auto simp: fleet_at_def crosses_0002_def)
  have "f_db s = database_at k \<and> (\<forall>i. f_run s i \<noteq> Ended True)"
    if "k \<le> 1" "\<forall>rows. met rows \<longrightarrow> \<not> unique_assignments rows"
    using stuck [OF that] that(1) success at by (force simp: fleet_at_def)
  with log once alone whole head process_can_end [OF assms(4,2,1,3)] show ?thesis by blast
qed

text \<open>A planner with the documented behaviour, and a fleet that meets empty tables.\<close>

definition upgrade_plan :: upgrade_planner where
  "upgrade_plan version revs =
     (case version of
        None \<Rightarrow> Some revs
      | Some v \<Rightarrow> (if v \<in> set (map rev_id revs) then Some (tl (dropWhile (\<lambda>r. rev_id r \<noteq> v) revs)) else None))"

lemma upgrade_plan_ok: "plans_upgrade upgrade_plan"
  unfolding plans_upgrade_def
proof (intro allI impI)
  fix xs ys
  assume linear: "linear_history (xs @ ys)"
  show "upgrade_plan (if xs = [] then None else Some (rev_id (last xs))) (xs @ ys) = Some ys"
  proof (cases xs rule: rev_cases)
    case (snoc zs z)
    with linear have "rev_id r \<noteq> rev_id z" if "r \<in> set zs" for r
      using that by (auto simp: linear_history_def rev_image_eqI)
    then have "dropWhile (\<lambda>r. rev_id r \<noteq> rev_id z) (zs @ z # ys) = z # ys" by (simp add: dropWhile_append2)
    with snoc show ?thesis by (simp add: upgrade_plan_def)
  qed (simp add: upgrade_plan_def)
qed

theorem concurrent_migrations_once_witness:
  "\<exists>s. (fleet_step upgrade_plan (\<lambda>rows. rows = no_rows))\<^sup>*\<^sup>* (fleet_start 0) s \<and> f_run s 5 = Ended True"
proof -
  have "\<forall>i. (\<nexists>ok. f_run (fleet_start 0) i = Ended ok) \<longrightarrow> can_end upgrade_plan (\<lambda>rows. rows = no_rows) 0 (fleet_start 0) i"
    using concurrent_migrations_once [OF upgrade_plan_ok, of 0 "\<lambda>rows. rows = no_rows" no_rows "fleet_start 0"] by blast
  moreover have "\<nexists>ok. f_run (fleet_start 0) 5 = Ended ok" by (simp add: fleet_start_def)
  ultimately have "can_end upgrade_plan (\<lambda>rows. rows = no_rows) 0 (fleet_start 0) 5" by blast
  then show ?thesis using unique_no_assignments unfolding can_end_def by auto
qed

end
